(* ===== verification/Prelude.thy ===== *)
theory Prelude
  imports Main "HOL-Library.Word"
begin

text \<open>
  Shared vocabulary of the development: byte strings, Go's fixed-width signed integers (an
  \<^typ>\<open>int\<close> with the two's-complement wrap-around written out), truncating division, Go errors and
  run-time panics as values of one sum type, and the slice operations whose out-of-range or
  in-place behaviour the modelled code depends on.  The generic lemmas are collected in the
  named theorem lists \<open>go_int\<close> (range and wrap-around facts) and \<open>result_simps\<close> (the result
  type).
\<close>

named_theorems go_int \<open>range and wrap-around facts of Go's signed integers\<close>
named_theorems result_simps \<open>equations and inversions of the result type\<close>

section \<open>Names for the model's types\<close>

type_synonym byte = "8 word"
type_synonym bytes = "byte list"
type_synonym hash = bytes

section \<open>Signed integers of a fixed width\<close>

definition int32_of :: "int \<Rightarrow> int" where
  "int32_of x = signed_take_bit 31 x"

definition int64_of :: "int \<Rightarrow> int" where
  "int64_of x = signed_take_bit 63 x"

definition uint32_of :: "int \<Rightarrow> nat" where
  "uint32_of x = nat (x mod 2 ^ 32)"

definition is_int32 :: "int \<Rightarrow> bool" where
  "is_int32 x \<longleftrightarrow> - (2 ^ 31) \<le> x \<and> x < 2 ^ 31"

definition is_int64 :: "int \<Rightarrow> bool" where
  "is_int64 x \<longleftrightarrow> - (2 ^ 63) \<le> x \<and> x < 2 ^ 63"

text \<open>Go's \<open>/\<close> on integers truncates towards zero.\<close>

definition quot :: "int \<Rightarrow> int \<Rightarrow> int" where
  "quot a b = sgn a * sgn b * (\<bar>a\<bar> div \<bar>b\<bar>)"

section \<open>Errors and results\<close>

text \<open>
  The error kinds of \<open>github.com/decred/dcrwallet/errors\<close> that the sources construct or test,
  and the three ways an operation of the library fails: an error with a kind
  (\<open>errors.E(kind, \<dots>)\<close>), an error without one (\<open>errors.New\<close>, \<open>fmt.Errorf\<close>), and a Go run-time
  panic (an index or a slice bound out of range, a nil dereference).
\<close>

datatype kind = Invalid | NotExist | Exist | IO | Passphrase | InsufficientBalance | NoPeers
  | Protocol | Consensus | OtherKind

datatype err = E kind string | New string | Panic string

definition nil_panic :: err where "nil_panic = Panic ''nil pointer dereference''"

type_synonym 'a result = "err + 'a"

definition bind_res :: "'e + 'a \<Rightarrow> ('a \<Rightarrow> 'e + 'b) \<Rightarrow> 'e + 'b" where
  "bind_res m f = (case m of Inl e \<Rightarrow> Inl e | Inr x \<Rightarrow> f x)"

fun is_ok :: "'a result \<Rightarrow> bool" where
  "is_ok (Inr x) = True"
| "is_ok (Inl e) = False"

fun is_panic :: "'a result \<Rightarrow> bool" where
  "is_panic (Inl (Panic m)) = True"
| "is_panic r = False"

text \<open>A loop that runs an operation on every element and stops at the first error.\<close>

fun traverse :: "('s \<Rightarrow> 'a \<Rightarrow> 'e + 's) \<Rightarrow> 's \<Rightarrow> 'a list \<Rightarrow> 'e + 's" where
  "traverse f s [] = Inr s"
| "traverse f s (x # xs) = (case f s x of Inl e \<Rightarrow> Inl e | Inr s' \<Rightarrow> traverse f s' xs)"

section \<open>Slices\<close>

text \<open>\<open>xs[k:]\<close>: a panic when \<open>k\<close> is past the length.\<close>

definition slice_from :: "'a list \<Rightarrow> nat \<Rightarrow> 'a list result" where
  "slice_from xs k = (if k \<le> length xs then Inr (drop k xs) else Inl (Panic ''slice bounds out of range''))"

definition index_at :: "'a list \<Rightarrow> nat \<Rightarrow> 'a result" where
  "index_at xs k = (if k < length xs then Inr (xs ! k) else Inl (Panic ''index out of range''))"

section \<open>Lemmas\<close>

lemma int32_of_id [go_int]: "is_int32 x \<Longrightarrow> int32_of x = x"
  by (simp add: is_int32_def int32_of_def signed_take_bit_int_eq_self_iff)

lemma int64_of_id [go_int]: "is_int64 x \<Longrightarrow> int64_of x = x"
  by (simp add: is_int64_def int64_of_def signed_take_bit_int_eq_self_iff)

lemma is_int32_int32_of [go_int, simp]: "is_int32 (int32_of x)"
  unfolding is_int32_def int32_of_def
  using signed_take_bit_int_greater_eq_minus_exp [of 31 x] signed_take_bit_int_less_exp [of 31 x]
  by simp

lemma is_int64_int64_of [go_int, simp]: "is_int64 (int64_of x)"
  unfolding is_int64_def int64_of_def
  using signed_take_bit_int_greater_eq_minus_exp [of 63 x] signed_take_bit_int_less_exp [of 63 x]
  by simp

lemma int64_of_add_left [go_int]: "int64_of (int64_of a + b) = int64_of (a + b)"
proof -
  have "take_bit 64 (signed_take_bit 63 a) = take_bit 64 a"
    by (simp add: take_bit_signed_take_bit)
  then have "take_bit 64 (signed_take_bit 63 a + b) = take_bit 64 (a + b)"
    by (metis take_bit_add)
  then show ?thesis
    unfolding int64_of_def by (simp add: signed_take_bit_eq_iff_take_bit_eq)
qed

lemma int64_of_eq_iff: "int64_of a = int64_of b \<longleftrightarrow> a mod 2 ^ 64 = b mod 2 ^ 64"
  by (simp add: int64_of_def signed_take_bit_eq_iff_take_bit_eq take_bit_eq_mod)

lemma int64_of_mod: "int64_of a mod 2 ^ 64 = a mod 2 ^ 64"
  by (metis int64_of_add_left int64_of_eq_iff add.right_neutral)

lemma int64_of_diff [go_int]: "int64_of (int64_of a - int64_of b) = int64_of (a - b)"
  unfolding int64_of_eq_iff by (metis int64_of_mod mod_diff_eq)

lemma bind_res_simps [simp, result_simps]:
  "bind_res (Inl e) f = Inl e"
  "bind_res (Inr x) f = f x"
  by (simp_all add: bind_res_def)

lemma bind_res_Inr [result_simps]:
  "bind_res m f = Inr y \<longleftrightarrow> (\<exists>x. m = Inr x \<and> f x = Inr y)"
  by (cases m) auto

lemma is_ok_iff [result_simps]: "is_ok r \<longleftrightarrow> (\<exists>x. r = Inr x)"
  by (cases r) auto

lemma traverse_append:
  "traverse f s (xs @ ys) = bind_res (traverse f s xs) (\<lambda>s'. traverse f s' ys)"
  by (induction xs arbitrary: s) (auto split: sum.splits)

text \<open>An invariant of the body is an invariant of the loop, and a body that never fails gives a
  loop that never fails.\<close>

lemma traverse_inv:
  assumes "\<And>s x s'. x \<in> set xs \<Longrightarrow> I s \<Longrightarrow> f s x = Inr s' \<Longrightarrow> I s'"
    and "I s" and "traverse f s xs = Inr s'"
  shows "I s'"
  using assms by (induction xs arbitrary: s) (auto split: sum.splits)

lemma traverse_total:
  assumes "\<And>s x. x \<in> set xs \<Longrightarrow> I s \<Longrightarrow> \<exists>s'. f s x = Inr s' \<and> I s'" and "I s"
  shows "\<exists>s'. traverse f s xs = Inr s' \<and> I s'"
  using assms
proof (induction xs arbitrary: s)
  case (Cons x xs)
  from Cons.prems obtain s1 where "f s x = Inr s1" "I s1" by force
  with Cons.IH [of s1] Cons.prems(1) show ?case by simp
qed simp

lemma traverse_Inl: "traverse f s xs = Inl e \<Longrightarrow> \<exists>s' x. x \<in> set xs \<and> f s' x = Inl e"
  by (induction xs arbitrary: s) (fastforce split: sum.splits)+

lemma slice_from_Inr [result_simps]:
  "slice_from xs k = Inr ys \<longleftrightarrow> k \<le> length xs \<and> ys = drop k xs"
  by (auto simp: slice_from_def)

lemma index_at_Inr [result_simps]:
  "index_at xs k = Inr y \<longleftrightarrow> k < length xs \<and> y = xs ! k"
  by (auto simp: index_at_def)

text \<open>The positions of a list where a predicate holds, and their images.\<close>

lemma positions_Cons:
  "{k. k < length (x # xs) \<and> Q ((x # xs) ! k)} =
     (if Q x then {0} else {}) \<union> Suc ` {k. k < length xs \<and> Q (xs ! k)}"
proof -
  have "k < length (x # xs) \<and> Q ((x # xs) ! k) \<longleftrightarrow>
      (k = 0 \<and> Q x) \<or> (\<exists>j. k = Suc j \<and> j < length xs \<and> Q (xs ! j))" for k
    by (cases k) auto
  then show ?thesis by auto
qed

lemma image_positions_Cons:
  "{g (i + k) | k. k < length (x # xs) \<and> Q ((x # xs) ! k)} =
     (if Q x then {g i} else {}) \<union> {g (Suc i + k) | k. k < length xs \<and> Q (xs ! k)}"
  unfolding setcompr_eq_image positions_Cons by (simp add: image_image image_Un)

text \<open>A non-empty prefix of an interval of positions and what is left of it.\<close>

lemma upt_prefix:
  assumes "[m..<n] = xs @ ys" and "xs \<noteq> []"
  shows "xs = [m..<Suc (last xs)] \<and> ys = [Suc (last xs)..<n] \<and> m \<le> last xs \<and> last xs < n"
proof -
  let ?k = "length xs"
  have "?k + length ys = n - m" using assms(1) by (metis length_append length_upt)
  moreover have "0 < ?k" using assms(2) by simp
  ultimately have k: "0 < ?k" "m + ?k \<le> n" by linarith+
  from assms(1) have "xs = take ?k [m..<n]" and "ys = drop ?k [m..<n]" by simp_all
  with k have xs: "xs = [m..<m + ?k]" and ys: "ys = [m + ?k..<n]" by simp_all
  from k have "last [m..<m + ?k] = m + ?k - 1" by (simp add: last_upt)
  with xs have l: "last xs = m + ?k - 1" by metis
  with k have e: "Suc (last xs) = m + ?k" by simp
  from xs e have "xs = [m..<Suc (last xs)]" by metis
  moreover from l k have "m \<le> last xs" "last xs < n" by linarith+
  ultimately show ?thesis using ys e by simp
qed

end
