(* ===== verification/Wire.thy ===== *)
theory Wire
  imports Prelude
begin

text \<open>
  The wire-protocol data the sources read (\<open>github.com/decred/dcrd/wire\<close>,
  \<open>blockchain/stake\<close>): transactions, blocks and block headers, with the fields the library
  uses.  Functions on these values (transaction and block hashes, script parsing) belong to
  third-party packages and are parameters of the definitions that call them.
\<close>

record OutPoint =
  op_Hash :: hash
  op_Index :: nat
  op_Tree :: int

record wire_TxIn =
  PreviousOutPoint :: OutPoint
  ValueIn :: int

record wire_TxOut =
  Value :: int
  OutVersion :: nat
  PkScript_of :: bytes

record MsgTx =
  tx_Version :: nat
  TxIn :: "wire_TxIn list"
  TxOut :: "wire_TxOut list"
  LockTime :: nat
  Expiry :: nat

record BlockHeader =
  hd_Height :: nat
  hd_PrevBlock :: hash
  hd_Timestamp :: int

record MsgBlock =
  blk_Header :: BlockHeader
  Transactions :: "MsgTx list"
  STransactions :: "MsgTx list"

definition TxTreeRegular :: int where "TxTreeRegular = 0"
definition TxTreeStake :: int where "TxTreeStake = 1"

datatype stake_TxType = StakeTxTypeRegular | TxTypeSStx | TxTypeSSGen | TxTypeSSRtx

end
