(* ===== verification/TxHelper.thy ===== *)
theory TxHelper
  imports Wire
begin

text \<open>
  Package \<open>txhelper\<close> (\<open>src/txhelper\<close>) and \<open>addresshelper\<close>: the direction and amount of a wallet
  transaction, the names of transaction types and directions, and the construction of outputs
  and change sources from an address.  The direction test of the source compares two
  \<open>float64\<close> values, so the conversion from \<open>int64\<close> is modelled with its rounding to 53 bits.
\<close>

section \<open>Constants (\<open>txhelper/types.go\<close>)\<close>

definition TxDirectionInvalid :: int where "TxDirectionInvalid = -1"
definition TxDirectionSent :: int where "TxDirectionSent = 0"
definition TxDirectionReceived :: int where "TxDirectionReceived = 1"
definition TxDirectionTransferred :: int where "TxDirectionTransferred = 2"

definition TxTypeRegular :: string where "TxTypeRegular = ''Regular''"
definition TxTypeCoinBase :: string where "TxTypeCoinBase = ''Coinbase''"
definition TxTypeTicketPurchase :: string where "TxTypeTicketPurchase = ''Ticket''"
definition TxTypeVote :: string where "TxTypeVote = ''Vote''"
definition TxTypeRevocation :: string where "TxTypeRevocation = ''Revocation''"

lemmas direction_defs = TxDirectionInvalid_def TxDirectionSent_def TxDirectionReceived_def
  TxDirectionTransferred_def
lemmas type_defs = TxTypeRegular_def TxTypeCoinBase_def TxTypeTicketPurchase_def TxTypeVote_def
  TxTypeRevocation_def

section \<open>\<open>float64\<close> of an integer\<close>

text \<open>
  A \<open>float64\<close> has a 53-bit significand.  The conversion of an integer of magnitude \<open>n\<close> drops
  the \<open>float_exp n\<close> lowest bits and rounds to nearest, ties to even; every \<open>int64\<close> is in the
  exponent range, so the value of the result is the integer \<open>float64_of x\<close>.
\<close>

fun float_exp :: "nat \<Rightarrow> nat" where
  "float_exp n = (if n < 2 ^ 53 then 0 else Suc (float_exp (n div 2)))"

declare float_exp.simps [simp del]

definition round_even :: "nat \<Rightarrow> nat \<Rightarrow> nat" where
  "round_even n k = (let q = n div 2 ^ k; r = n mod 2 ^ k in
     if 2 * r < 2 ^ k \<or> (2 * r = 2 ^ k \<and> even q) then q * 2 ^ k else (q + 1) * 2 ^ k)"

definition float64_of :: "int \<Rightarrow> int" where
  "float64_of x = sgn x * int (round_even (nat \<bar>x\<bar>) (float_exp (nat \<bar>x\<bar>)))"

section \<open>Direction, amount and type (\<open>txhelper/helper.go\<close>, \<open>utils.go\<close>)\<close>

definition TransactionAmountAndDirection :: "int \<Rightarrow> int \<Rightarrow> int \<Rightarrow> int \<times> int" where
  "TransactionAmountAndDirection inputTotal outputTotal fee =
     (let amountDifference = int64_of (outputTotal - inputTotal) in
      if amountDifference < 0 \<and> float64_of fee = \<bar>float64_of amountDifference\<bar>
      then (fee, TxDirectionTransferred)
      else if amountDifference > 0 then (outputTotal, TxDirectionReceived)
      else (int64_of (inputTotal - outputTotal - fee), TxDirectionSent))"

datatype TransactionType = TransactionTypeRegular | TransactionTypeCoinbase
  | TransactionTypeTicketPurchase | TransactionTypeVote | TransactionTypeRevocation

fun FormatTransactionType :: "TransactionType \<Rightarrow> string" where
  "FormatTransactionType TransactionTypeCoinbase = TxTypeCoinBase"
| "FormatTransactionType TransactionTypeTicketPurchase = TxTypeTicketPurchase"
| "FormatTransactionType TransactionTypeVote = TxTypeVote"
| "FormatTransactionType TransactionTypeRevocation = TxTypeRevocation"
| "FormatTransactionType _ = TxTypeRegular"

definition TransactionDirectionName :: "int \<Rightarrow> string" where
  "TransactionDirectionName direction =
     (if direction = TxDirectionSent then ''Sent''
      else if direction = TxDirectionReceived then ''Received''
      else if direction = TxDirectionTransferred then ''Yourself''
      else ''invalid'')"

section \<open>Scripts, outputs and change sources\<close>

text \<open>
  \<open>dcrutil.DecodeAddress\<close> and \<open>txscript.PayToAddrScript\<close> are third-party: they are the fields of
  the parameter \<open>'a address_lib\<close>, over the decoder's own address type \<open>'a\<close>.
\<close>

record 'a address_lib =
  DecodeAddress :: "string \<Rightarrow> string + 'a"
  PayToAddrScript :: "'a \<Rightarrow> string + bytes"

record txChangeSource =
  cs_version :: nat
  cs_script :: bytes

definition scriptVersion :: nat where "scriptVersion = 0"

definition PkScript :: "'a address_lib \<Rightarrow> string \<Rightarrow> bytes result" where
  "PkScript L address = (case DecodeAddress L address of
      Inl m \<Rightarrow> Inl (New (''error decoding address '' @ [CHR 39] @ address @ [CHR 39] @ '': '' @ m))
    | Inr addr \<Rightarrow> (case PayToAddrScript L addr of Inl m \<Rightarrow> Inl (New m) | Inr s \<Rightarrow> Inr s))"

definition MakeTxChangeSource :: "'a address_lib \<Rightarrow> string \<Rightarrow> txChangeSource result" where
  "MakeTxChangeSource L destAddr = (case PkScript L destAddr of
      Inl e \<Rightarrow> Inl e
    | Inr pkScript \<Rightarrow> Inr \<lparr>cs_version = scriptVersion, cs_script = pkScript\<rparr>)"

definition Script :: "txChangeSource \<Rightarrow> bytes \<times> nat" where
  "Script src = (cs_script src, cs_version src)"

definition ScriptSize :: "txChangeSource \<Rightarrow> nat" where
  "ScriptSize src = length (cs_script src)"

definition MakeTxOutput :: "'a address_lib \<Rightarrow> string \<Rightarrow> int \<Rightarrow> wire_TxOut result" where
  "MakeTxOutput L address amountInAtom = (case PkScript L address of
      Inl e \<Rightarrow> Inl e
    | Inr pkScript \<Rightarrow>
        Inr \<lparr>Value = amountInAtom, OutVersion = scriptVersion, PkScript_of = pkScript\<rparr>)"

section \<open>The conversion to \<open>float64\<close> is exact on 53-bit magnitudes\<close>

lemma float_exp_small [simp]: "n < 2 ^ 53 \<Longrightarrow> float_exp n = 0"
  by (simp add: float_exp.simps)

lemma round_even_0 [simp]: "round_even n 0 = n"
  by (simp add: round_even_def)

lemma float64_of_exact [go_int]:
  assumes "\<bar>x\<bar> < 2 ^ 53"
  shows "float64_of x = x"
proof -
  from assms have "nat \<bar>x\<bar> < 2 ^ 53" by (simp add: nat_less_iff)
  then show ?thesis by (simp add: float64_of_def sgn_mult_abs)
qed

lemma float64_of_nonneg: "0 \<le> x \<Longrightarrow> 0 \<le> float64_of x"
  by (simp add: float64_of_def sgn_if)

text \<open>The rounding error is at most half a unit in the last place kept.\<close>

lemma round_even_error: "2 * \<bar>int (round_even n k) - int n\<bar> \<le> 2 ^ k"
proof -
  define q r P where "q = n div 2 ^ k" and "r = n mod 2 ^ k" and "P = (2::nat) ^ k"
  have "n = q * P + r" unfolding q_def r_def P_def by (rule div_mult_mod_eq [symmetric])
  moreover have "r < P" by (simp add: r_def P_def)
  ultimately have n: "int n = int q * int P + int r" and r: "int r < int P"
    by (simp_all only: of_nat_add of_nat_mult of_nat_less_iff)
  have R: "round_even n k = (if 2 * r < P \<or> (2 * r = P \<and> even q) then q * P else (q + 1) * P)"
    by (simp add: round_even_def Let_def q_def r_def P_def)
  have "2 * \<bar>int (round_even n k) - int n\<bar> \<le> int P"
  proof (cases "2 * r < P \<or> (2 * r = P \<and> even q)")
    case True
    then have "2 * int r \<le> int P" by linarith
    moreover from R True have "int (round_even n k) = int q * int P" by simp
    ultimately show ?thesis using n by simp
  next
    case False
    then have "int P \<le> 2 * int r" by linarith
    moreover from R False have "int (round_even n k) = int q * int P + int P"
      by (simp only: if_False of_nat_mult of_nat_add distrib_right of_nat_1 mult_1)
    ultimately show ?thesis using n r by simp
  qed
  then show ?thesis by (simp add: P_def)
qed



end
