(* ===== verification/SpvFilter.thy ===== *)
theory SpvFilter
  imports Wire "HOL-Library.Sublist"
begin

text \<open>
  The transaction filters of the SPV syncer: \<open>spv/rescan.go\<close> (rescanning a block for the
  transactions of one wallet, and the mempool variant that filters in place) and
  \<open>LoadTxFilter\<close> of \<open>spv/backend.go\<close>.  Each wallet has a precise filter (\<open>rescanFilter\<close>, a
  third-party container of watched addresses and unspent outpoints) and the data that is matched
  against compact block filters (\<open>filterData\<close>).
\<close>

section \<open>Parameters and state\<close>

text \<open>
  Third-party functions the package calls, over the library's address type \<open>'a\<close> and its
  \<open>wallet.RescanFilter\<close> type \<open>'f\<close>.  \<open>AddrScript\<close> is the type switch of \<open>LoadTxFilter\<close>:
  \<open>ScriptV0\<close> of a \<open>V0Scripter\<close>, otherwise \<open>PayToAddrScript\<close>, \<open>None\<close> being the nil script.
\<close>

record ('a, 'f) spv_lib =
  TxHash :: "MsgTx \<Rightarrow> hash"
  DetermineTxType :: "MsgTx \<Rightarrow> stake_TxType"
  ExtractPkScriptAddrs :: "nat \<Rightarrow> bytes \<Rightarrow> string + 'a list"
  AddrScript :: "'a \<Rightarrow> bytes option"
  NewRescanFilter :: 'f
  AddAddress :: "'a \<Rightarrow> 'f \<Rightarrow> 'f"
  AddUnspentOutPoint :: "OutPoint \<Rightarrow> 'f \<Rightarrow> 'f"
  ExistsAddress :: "'f \<Rightarrow> 'a \<Rightarrow> bool"
  ExistsUnspentOutPoint :: "'f \<Rightarrow> OutPoint \<Rightarrow> bool"

text \<open>\<open>blockcf.Entries\<close>: the data added with \<open>AddRegularPkScript\<close> and \<open>AddOutPoint\<close>, in order.\<close>

datatype entry = RegularPkScript bytes | OutPointEntry OutPoint

type_synonym entries = "entry list"

text \<open>The two filter maps of the \<open>Syncer\<close>, by wallet id.\<close>

record 'f filters =
  rescanFilter :: "int \<rightharpoonup> 'f"
  filterData :: "int \<rightharpoonup> entries"

text \<open>What \<open>rescanCheckTransactions\<close> updates: the wallet's filters, \<open>matches\<close> and \<open>fadded\<close>.\<close>

record 'f rct =
  rc_filter :: 'f
  rc_data :: entries
  rc_matches :: "MsgTx list"
  rc_fadded :: entries

section \<open>Rescanning (\<open>spv/rescan.go\<close>)\<close>

definition outpoint_of :: "('a, 'f) spv_lib \<Rightarrow> MsgTx \<Rightarrow> nat \<Rightarrow> int \<Rightarrow> OutPoint" where
  "outpoint_of L tx i tree = \<lparr>op_Hash = TxHash L tx, op_Index = i mod 2 ^ 32, op_Tree = tree\<rparr>"

fun rct_inputs :: "('a, 'f) spv_lib \<Rightarrow> MsgTx \<Rightarrow> wire_TxIn list \<Rightarrow> bool \<times> 'f rct \<Rightarrow> bool \<times> 'f rct" where
  "rct_inputs L tx [] st = st"
| "rct_inputs L tx (inp # inps) (added, c) =
     (if \<not> ExistsUnspentOutPoint L (rc_filter c) (PreviousOutPoint inp)
      then rct_inputs L tx inps (added, c)
      else rct_inputs L tx inps
        (if \<not> added then (True, c\<lparr>rc_matches := rc_matches c @ [tx]\<rparr>) else (added, c)))"

fun rct_addrs :: "('a, 'f) spv_lib \<Rightarrow> MsgTx \<Rightarrow> int \<Rightarrow> nat \<Rightarrow> 'a list \<Rightarrow> bool \<times> 'f rct \<Rightarrow> bool \<times> 'f rct" where
  "rct_addrs L tx tree i [] st = st"
| "rct_addrs L tx tree i (a # as) (added, c) =
     (if \<not> ExistsAddress L (rc_filter c) a then rct_addrs L tx tree i as (added, c)
      else
        let op = outpoint_of L tx i tree;
            c' = (if \<not> ExistsUnspentOutPoint L (rc_filter c) op
                  then c\<lparr>rc_filter := AddUnspentOutPoint L op (rc_filter c),
                         rc_data := rc_data c @ [OutPointEntry op],
                         rc_fadded := rc_fadded c @ [OutPointEntry op]\<rparr>
                  else c)
        in rct_addrs L tx tree i as
             (if \<not> added then (True, c'\<lparr>rc_matches := rc_matches c' @ [tx]\<rparr>) else (added, c')))"

fun rct_outputs :: "('a, 'f) spv_lib \<Rightarrow> MsgTx \<Rightarrow> int \<Rightarrow> nat \<Rightarrow> wire_TxOut list \<Rightarrow> bool \<times> 'f rct \<Rightarrow> bool \<times> 'f rct" where
  "rct_outputs L tx tree i [] st = st"
| "rct_outputs L tx tree i (out # outs) st =
     rct_outputs L tx tree (Suc i) outs
       (case ExtractPkScriptAddrs L (OutVersion out) (PkScript_of out) of
          Inl e \<Rightarrow> st
        | Inr addrs \<Rightarrow> rct_addrs L tx tree i addrs st)"

definition tx_type_in :: "('a, 'f) spv_lib \<Rightarrow> int \<Rightarrow> MsgTx \<Rightarrow> stake_TxType" where
  "tx_type_in L tree tx = (if tree = TxTreeStake then DetermineTxType L tx else StakeTxTypeRegular)"

definition rct_tx :: "('a, 'f) spv_lib \<Rightarrow> int \<Rightarrow> nat \<Rightarrow> 'f rct \<Rightarrow> MsgTx \<Rightarrow> 'f rct result" where
  "rct_tx L tree i c tx =
     (let txty = tx_type_in L tree tx in
      if i = 0 \<and> txty = StakeTxTypeRegular
      then Inr (snd (rct_outputs L tx tree 0 (TxOut tx) (False, c)))
      else case (if txty = TxTypeSSGen then slice_from (TxIn tx) 1 else Inr (TxIn tx)) of
             Inl e \<Rightarrow> Inl e
           | Inr inputs \<Rightarrow>
               Inr (snd (rct_outputs L tx tree 0 (TxOut tx) (rct_inputs L tx inputs (False, c)))))"

fun rescanCheckTransactions :: "('a, 'f) spv_lib \<Rightarrow> int \<Rightarrow> nat \<Rightarrow> MsgTx list \<Rightarrow> 'f rct \<Rightarrow> 'f rct result" where
  "rescanCheckTransactions L tree i [] c = Inr c"
| "rescanCheckTransactions L tree i (tx # txs) c =
     (case rct_tx L tree i c tx of
        Inl e \<Rightarrow> Inl e
      | Inr c' \<Rightarrow> rescanCheckTransactions L tree (Suc i) txs c')"

definition rescan_one :: "('a, 'f) spv_lib \<Rightarrow> MsgBlock \<Rightarrow> 'f \<Rightarrow> entries \<Rightarrow> 'f rct result" where
  "rescan_one L block f d =
     (case rescanCheckTransactions L TxTreeStake 0 (STransactions block)
             \<lparr>rc_filter = f, rc_data = d, rc_matches = [], rc_fadded = []\<rparr> of
        Inl e \<Rightarrow> Inl e
      | Inr c \<Rightarrow> rescanCheckTransactions L TxTreeRegular 0 (Transactions block) c)"

text \<open>
  \<open>rescanBlock\<close>.  A wallet id without filters is a nil filter, dereferenced at the block's first
  transaction (every block carries a coinbase).
\<close>

definition rescanBlock ::
  "('a, 'f) spv_lib \<Rightarrow> 'f filters \<Rightarrow> MsgBlock \<Rightarrow> int \<Rightarrow> (MsgTx list \<times> entries \<times> 'f filters) result" where
  "rescanBlock L s block walletID =
     (case (rescanFilter s walletID, filterData s walletID) of
        (Some f, Some d) \<Rightarrow>
          (case rescan_one L block f d of
             Inl e \<Rightarrow> Inl e
           | Inr c \<Rightarrow> Inr (rc_matches c, rc_fadded c,
               s\<lparr>rescanFilter := (rescanFilter s)(walletID \<mapsto> rc_filter c),
                 filterData := (filterData s)(walletID \<mapsto> rc_data c)\<rparr>))
      | _ \<Rightarrow> Inl (Panic ''nil filter''))"

section \<open>Filtering mempool transactions in place\<close>

definition output_pays :: "('a, 'f) spv_lib \<Rightarrow> 'f \<Rightarrow> wire_TxOut \<Rightarrow> bool" where
  "output_pays L f out = (case ExtractPkScriptAddrs L (OutVersion out) (PkScript_of out) of
     Inl e \<Rightarrow> False | Inr addrs \<Rightarrow> list_ex (ExistsAddress L f) addrs)"

definition mempool_relevant :: "('a, 'f) spv_lib \<Rightarrow> 'f \<Rightarrow> MsgTx \<Rightarrow> bool" where
  "mempool_relevant L f tx =
     (list_ex (\<lambda>inp. ExistsUnspentOutPoint L f (PreviousOutPoint inp)) (TxIn tx) \<or>
      list_ex (output_pays L f) (TxOut tx))"

text \<open>
  \<open>matches := txs[:0]\<close> reuses the caller's array: the loop reads slot \<open>i\<close> and writes slot \<open>j\<close>
  of the same array.  The result is the slice of the matches and the array as it is left.
\<close>

function fr_loop :: "('a, 'f) spv_lib \<Rightarrow> 'f \<Rightarrow> MsgTx list \<Rightarrow> nat \<Rightarrow> nat \<Rightarrow> MsgTx list \<times> MsgTx list" where
  "fr_loop L f txs i j =
     (if i < length txs
      then if mempool_relevant L f (txs ! i)
           then fr_loop L f (txs[j := txs ! i]) (Suc i) (Suc j)
           else fr_loop L f txs (Suc i) j
      else (take j txs, txs))"
  by pat_completeness auto
termination
  by (relation "measure (\<lambda>(L, f, txs, i, j). length txs - i)") auto

declare fr_loop.simps [simp del]

definition filterRelevant ::
  "('a, 'f) spv_lib \<Rightarrow> 'f filters \<Rightarrow> MsgTx list \<Rightarrow> int \<Rightarrow> (MsgTx list \<times> MsgTx list) result" where
  "filterRelevant L s txs walletID =
     (case rescanFilter s walletID of
        None \<Rightarrow> if txs = [] then Inr ([], []) else Inl (Panic ''nil filter'')
      | Some f \<Rightarrow> Inr (fr_loop L f txs 0 0))"

section \<open>Loading filters (\<open>LoadTxFilter\<close>, \<open>spv/backend.go\<close>)\<close>

fun load_addrs :: "('a, 'f) spv_lib \<Rightarrow> 'a list \<Rightarrow> 'f \<times> entries \<Rightarrow> 'f \<times> entries" where
  "load_addrs L [] fd = fd"
| "load_addrs L (a # as) (f, d) =
     (case AddrScript L a of
        None \<Rightarrow> load_addrs L as (f, d)
      | Some pkScript \<Rightarrow> load_addrs L as (AddAddress L a f, d @ [RegularPkScript pkScript]))"

fun load_outpoints :: "('a, 'f) spv_lib \<Rightarrow> OutPoint list \<Rightarrow> 'f \<times> entries \<Rightarrow> 'f \<times> entries" where
  "load_outpoints L [] fd = fd"
| "load_outpoints L (op # ops) (f, d) =
     load_outpoints L ops (AddUnspentOutPoint L op f, d @ [OutPointEntry op])"

definition LoadTxFilter ::
  "('a, 'f) spv_lib \<Rightarrow> 'f filters \<Rightarrow> int \<Rightarrow> bool \<Rightarrow> 'a list \<Rightarrow> OutPoint list \<Rightarrow> 'f filters result" where
  "LoadTxFilter L s walletID reload addrs outpoints =
     (let s1 = (if reload \<or> rescanFilter s walletID = None
                then s\<lparr>rescanFilter := (rescanFilter s)(walletID \<mapsto> NewRescanFilter L),
                       filterData := (filterData s)(walletID \<mapsto> [])\<rparr>
                else s)
      in case (rescanFilter s1 walletID, filterData s1 walletID) of
           (Some f, Some d) \<Rightarrow>
             (let (f', d') = load_outpoints L outpoints (load_addrs L addrs (f, d))
              in Inr (s1\<lparr>rescanFilter := (rescanFilter s1)(walletID \<mapsto> f'),
                         filterData := (filterData s1)(walletID \<mapsto> d')\<rparr>))
         | _ \<Rightarrow> if list_all (\<lambda>a. AddrScript L a = None) addrs \<and> outpoints = [] then Inr s1 else Inl (Panic ''nil filter data''))"

text \<open>\<open>NewSyncer\<close> gives every wallet empty filters.\<close>

definition new_filters :: "('a, 'f) spv_lib \<Rightarrow> int list \<Rightarrow> 'f filters" where
  "new_filters L ids =
     \<lparr>rescanFilter = map_of (map (\<lambda>w. (w, NewRescanFilter L)) ids),
      filterData = map_of (map (\<lambda>w. (w, [])) ids)\<rparr>"

section \<open>Specification\<close>

text \<open>The inputs that are checked: none of a coinbase, all but the stakebase of a vote.\<close>

definition checked_inputs :: "('a, 'f) spv_lib \<Rightarrow> int \<Rightarrow> nat \<Rightarrow> MsgTx \<Rightarrow> wire_TxIn list" where
  "checked_inputs L tree i tx =
     (if i = 0 \<and> tx_type_in L tree tx = StakeTxTypeRegular then []
      else if tx_type_in L tree tx = TxTypeSSGen then tl (TxIn tx) else TxIn tx)"

definition spends :: "('a, 'f) spv_lib \<Rightarrow> 'f \<Rightarrow> int \<Rightarrow> nat \<Rightarrow> MsgTx \<Rightarrow> bool" where
  "spends L f tree i tx \<longleftrightarrow>
     (\<exists>inp \<in> set (checked_inputs L tree i tx). ExistsUnspentOutPoint L f (PreviousOutPoint inp))"

definition pays :: "('a, 'f) spv_lib \<Rightarrow> 'f \<Rightarrow> MsgTx \<Rightarrow> bool" where
  "pays L f tx \<longleftrightarrow> (\<exists>out \<in> set (TxOut tx). output_pays L f out)"

definition paid_outpoints :: "('a, 'f) spv_lib \<Rightarrow> 'f \<Rightarrow> int \<Rightarrow> MsgTx \<Rightarrow> OutPoint set" where
  "paid_outpoints L f tree tx =
     {outpoint_of L tx i tree | i. i < length (TxOut tx) \<and> output_pays L f (TxOut tx ! i)}"

text \<open>The watched data of a precise filter is all in the data matched against block filters.\<close>

definition in_sync :: "('a, 'f) spv_lib \<Rightarrow> 'f \<Rightarrow> entries \<Rightarrow> bool" where
  "in_sync L f d \<longleftrightarrow>
     (\<forall>op. ExistsUnspentOutPoint L f op \<longrightarrow> OutPointEntry op \<in> set d) \<and>
     (\<forall>a. ExistsAddress L f a \<longrightarrow> (\<exists>s. AddrScript L a = Some s \<and> RegularPkScript s \<in> set d))"

definition filters_in_sync :: "('a, 'f) spv_lib \<Rightarrow> 'f filters \<Rightarrow> bool" where
  "filters_in_sync L s \<longleftrightarrow> dom (rescanFilter s) = dom (filterData s) \<and>
     (\<forall>w f d. rescanFilter s w = Some f \<longrightarrow> filterData s w = Some d \<longrightarrow> in_sync L f d)"

text \<open>
  The reference description of a rescan: \<open>W\<close> is the set of watched outpoints, which grows by the
  outputs that pay a watched address; a transaction is reported when it spends a watched outpoint
  or pays a watched address.
\<close>

fun spec_matches :: "('a, 'f) spv_lib \<Rightarrow> 'f \<Rightarrow> OutPoint set \<Rightarrow> int \<Rightarrow> nat \<Rightarrow> MsgTx list \<Rightarrow> MsgTx list" where
  "spec_matches L f W tree i [] = []"
| "spec_matches L f W tree i (tx # txs) =
     (if (\<exists>inp \<in> set (checked_inputs L tree i tx). PreviousOutPoint inp \<in> W) \<or> pays L f tx
      then [tx] else [])
     @ spec_matches L f (W \<union> paid_outpoints L f tree tx) tree (Suc i) txs"

definition paid_in :: "('a, 'f) spv_lib \<Rightarrow> 'f \<Rightarrow> int \<Rightarrow> MsgTx list \<Rightarrow> OutPoint set" where
  "paid_in L f tree txs = (\<Union>tx \<in> set txs. paid_outpoints L f tree tx)"

definition watched :: "('a, 'f) spv_lib \<Rightarrow> 'f \<Rightarrow> OutPoint set" where
  "watched L f = {op. ExistsUnspentOutPoint L f op}"

definition block_paid :: "('a, 'f) spv_lib \<Rightarrow> 'f \<Rightarrow> MsgBlock \<Rightarrow> OutPoint set" where
  "block_paid L f b = paid_in L f TxTreeStake (STransactions b) \<union> paid_in L f TxTreeRegular (Transactions b)"

definition block_matches :: "('a, 'f) spv_lib \<Rightarrow> 'f \<Rightarrow> MsgBlock \<Rightarrow> MsgTx list" where
  "block_matches L f b =
     spec_matches L f (watched L f) TxTreeStake 0 (STransactions b) @
     spec_matches L f (watched L f \<union> paid_in L f TxTreeStake (STransactions b))
       TxTreeRegular 0 (Transactions b)"

text \<open>An entry occurs in a block: an outpoint is spent there, or an output pays to its script.\<close>

definition block_txs :: "MsgBlock \<Rightarrow> MsgTx list" where
  "block_txs b = STransactions b @ Transactions b"

fun occurs :: "('a, 'f) spv_lib \<Rightarrow> entry \<Rightarrow> MsgBlock \<Rightarrow> bool" where
  "occurs L (OutPointEntry op) b =
     (\<exists>tx \<in> set (block_txs b). \<exists>inp \<in> set (TxIn tx). PreviousOutPoint inp = op)"
| "occurs L (RegularPkScript s) b =
     (\<exists>tx \<in> set (block_txs b). \<exists>out \<in> set (TxOut tx).
        case ExtractPkScriptAddrs L (OutVersion out) (PkScript_of out) of
          Inl e \<Rightarrow> False
        | Inr addrs \<Rightarrow> (\<exists>a \<in> set addrs. AddrScript L a = Some s))"

text \<open>
  \<open>evolves L c ms P c'\<close>: from \<open>c\<close> to \<open>c'\<close> the matches grew by \<open>ms\<close> and the watched outpoints by
  \<open>P\<close>, the watched addresses are the same, and exactly the outpoints that were not watched before
  were appended both to the filter data and to \<open>fadded\<close>.
\<close>

definition evolves :: "('a, 'f) spv_lib \<Rightarrow> 'f rct \<Rightarrow> MsgTx list \<Rightarrow> OutPoint set \<Rightarrow> 'f rct \<Rightarrow> bool" where
  "evolves L c ms P c' \<longleftrightarrow>
     rc_matches c' = rc_matches c @ ms \<and>
     (\<forall>a. ExistsAddress L (rc_filter c') a = ExistsAddress L (rc_filter c) a) \<and>
     watched L (rc_filter c') = watched L (rc_filter c) \<union> P \<and>
     (\<exists>new. rc_data c' = rc_data c @ new \<and> rc_fadded c' = rc_fadded c @ new \<and>
        set new = OutPointEntry ` (P - watched L (rc_filter c)))"

definition watch :: "('a, 'f) spv_lib \<Rightarrow> OutPoint \<Rightarrow> 'f rct \<Rightarrow> 'f rct" where
  "watch L op c = (if ExistsUnspentOutPoint L (rc_filter c) op then c
     else c\<lparr>rc_filter := AddUnspentOutPoint L op (rc_filter c),
            rc_data := rc_data c @ [OutPointEntry op],
            rc_fadded := rc_fadded c @ [OutPointEntry op]\<rparr>)"

definition report :: "MsgTx \<Rightarrow> bool \<Rightarrow> 'f rct \<Rightarrow> 'f rct" where
  "report tx added c = (if added then c else c\<lparr>rc_matches := rc_matches c @ [tx]\<rparr>)"

section \<open>Lemmas that hold for every library\<close>

lemma report_simps [simp]:
  "rc_filter (report tx b c) = rc_filter c" "rc_data (report tx b c) = rc_data c"
  "rc_fadded (report tx b c) = rc_fadded c"
  "rc_matches (report tx b c) = rc_matches c @ (if b then [] else [tx])"
  "report tx True c = c"
  by (simp_all add: report_def)

lemma rct_inputs_eq:
  "rct_inputs L tx inps (added, c) =
     (if \<exists>inp \<in> set inps. ExistsUnspentOutPoint L (rc_filter c) (PreviousOutPoint inp)
      then (True, report tx added c) else (added, c))"
  by (induction inps arbitrary: added c) (auto simp: report_def)

lemma evolves_refl [simp]: "evolves L c [] {} c"
  by (simp add: evolves_def)

lemma evolves_trans:
  assumes "evolves L c ms P c1" and "evolves L c1 ms' P' c2"
  shows "evolves L c (ms @ ms') (P \<union> P') c2"
proof -
  from assms(1) obtain n1 where n1: "rc_data c1 = rc_data c @ n1" "rc_fadded c1 = rc_fadded c @ n1"
    "set n1 = OutPointEntry ` (P - watched L (rc_filter c))" by (auto simp: evolves_def)
  from assms(2) obtain n2 where n2: "rc_data c2 = rc_data c1 @ n2" "rc_fadded c2 = rc_fadded c1 @ n2"
    "set n2 = OutPointEntry ` (P' - watched L (rc_filter c1))" by (auto simp: evolves_def)
  from assms(1) have "watched L (rc_filter c1) = watched L (rc_filter c) \<union> P" by (simp add: evolves_def)
  with n1 n2 have "set (n1 @ n2) = OutPointEntry ` (P \<union> P' - watched L (rc_filter c))" by auto
  with n1 n2 assms show ?thesis
    unfolding evolves_def by (metis append.assoc sup_assoc)
qed

lemma output_pays_cong:
  "(\<And>a. ExistsAddress L f' a = ExistsAddress L f a) \<Longrightarrow> output_pays L f' out = output_pays L f out"
  by (simp add: output_pays_def list_ex_iff split: sum.split)

lemma output_paysE:
  assumes "output_pays L f out"
  obtains addrs a where "ExtractPkScriptAddrs L (OutVersion out) (PkScript_of out) = Inr addrs"
    and "a \<in> set addrs" and "ExistsAddress L f a"
  using assms by (cases "ExtractPkScriptAddrs L (OutVersion out) (PkScript_of out)")
    (auto simp: output_pays_def list_ex_iff)

lemma pays_cong:
  "(\<And>a. ExistsAddress L f' a = ExistsAddress L f a) \<Longrightarrow> pays L f' tx = pays L f tx"
  by (simp add: pays_def output_pays_cong [of L f' f])

lemma paid_outpoints_cong:
  "(\<And>a. ExistsAddress L f' a = ExistsAddress L f a) \<Longrightarrow>
   paid_outpoints L f' tree tx = paid_outpoints L f tree tx"
  by (simp add: paid_outpoints_def output_pays_cong [of L f' f])

lemma spec_matches_cong:
  assumes "\<And>a. ExistsAddress L f' a = ExistsAddress L f a"
  shows "spec_matches L f' W tree i txs = spec_matches L f W tree i txs"
  by (induction txs arbitrary: W i)
    (simp_all add: pays_cong [of L f' f, OF assms] paid_outpoints_cong [of L f' f, OF assms])

lemma set_tl_subset: "set (tl xs) \<subseteq> set xs"
  by (cases xs) auto

lemma checked_inputs_subset: "set (checked_inputs L tree i tx) \<subseteq> set (TxIn tx)"
  by (auto simp: checked_inputs_def dest: set_tl_subset [THEN subsetD])

lemma spec_matches_subseq: "subseq (spec_matches L f W tree i txs) txs"
  by (induction txs arbitrary: W i) auto

section \<open>The contract of the precise filter\<close>

text \<open>
  What \<open>rescan.go\<close> relies on: \<open>wallet.RescanFilter\<close> is a set of addresses and a set of outpoints,
  and a transaction that \<open>stake.DetermineTxType\<close> calls a vote has at least its stakebase input.
\<close>

locale rescan_lib =
  fixes L :: "('a, 'f) spv_lib"
  assumes exists_add_outpoint:
      "ExistsUnspentOutPoint L (AddUnspentOutPoint L op f) op' \<longleftrightarrow> op' = op \<or> ExistsUnspentOutPoint L f op'"
    and address_add_outpoint: "ExistsAddress L (AddUnspentOutPoint L op f) a = ExistsAddress L f a"
    and exists_add_address: "ExistsAddress L (AddAddress L a f) a' \<longleftrightarrow> a' = a \<or> ExistsAddress L f a'"
    and outpoint_add_address: "ExistsUnspentOutPoint L (AddAddress L a f) op = ExistsUnspentOutPoint L f op"
    and new_address: "\<not> ExistsAddress L (NewRescanFilter L) a"
    and new_outpoint: "\<not> ExistsUnspentOutPoint L (NewRescanFilter L) op"
    and vote_has_input: "DetermineTxType L tx = TxTypeSSGen \<Longrightarrow> TxIn tx \<noteq> []"
begin

lemmas filter_laws = exists_add_outpoint address_add_outpoint exists_add_address outpoint_add_address
  new_address new_outpoint

lemma watch_exists [simp]:
  "ExistsUnspentOutPoint L (rc_filter (watch L op c)) op' \<longleftrightarrow> op' = op \<or> ExistsUnspentOutPoint L (rc_filter c) op'"
  "ExistsAddress L (rc_filter (watch L op c)) a = ExistsAddress L (rc_filter c) a"
  "rc_matches (watch L op c) = rc_matches c"
  by (auto simp: watch_def filter_laws)

lemma watch_evolves: "evolves L c (if b then [] else [tx]) {op} (report tx b (watch L op c))"
  unfolding evolves_def by (auto simp: watched_def watch_def filter_laws report_def)

lemma watch_pays [simp]: "output_pays L (rc_filter (watch L op c)) out = output_pays L (rc_filter c) out"
  by (rule output_pays_cong) simp

text \<open>However many of an output's addresses are watched, the outpoint is added and the transaction
  reported once.\<close>

lemma rct_addrs_eq:
  "rct_addrs L tx tree i as (added, c) =
     (if \<exists>a \<in> set as. ExistsAddress L (rc_filter c) a
      then (True, report tx added (watch L (outpoint_of L tx i tree) c)) else (added, c))"
proof (induction as arbitrary: added c)
  case (Cons a as)
  show ?case
  proof (cases "ExistsAddress L (rc_filter c) a")
    case True
    let ?op = "outpoint_of L tx i tree"
    have "rct_addrs L tx tree i (a # as) (added, c) =
        rct_addrs L tx tree i as (True, report tx added (watch L ?op c))"
      using True by (simp add: Let_def watch_def report_def)
    also have "\<dots> = (True, report tx added (watch L ?op c))"
    proof -
      have "watch L ?op (report tx added (watch L ?op c)) = report tx added (watch L ?op c)"
        by (subst watch_def) simp
      then show ?thesis using Cons.IH by simp
    qed
    finally show ?thesis using True by auto
  qed (use Cons.IH in auto)
qed simp

lemma rct_output_step:
  "(case ExtractPkScriptAddrs L (OutVersion out) (PkScript_of out) of
      Inl e \<Rightarrow> (added, c) | Inr addrs \<Rightarrow> rct_addrs L tx tree i addrs (added, c)) =
   (if output_pays L (rc_filter c) out
    then (True, report tx added (watch L (outpoint_of L tx i tree) c)) else (added, c))"
  by (auto simp: output_pays_def list_ex_iff rct_addrs_eq split: sum.split)

lemma rct_outputs_evolves:
  assumes "rct_outputs L tx tree i outs (added, c) = (added', c')"
  shows "evolves L c (if \<not> added \<and> (\<exists>out \<in> set outs. output_pays L (rc_filter c) out) then [tx] else [])
    {outpoint_of L tx (i + k) tree | k. k < length outs \<and> output_pays L (rc_filter c) (outs ! k)} c'"
  using assms
proof (induction outs arbitrary: i added c)
  case (Cons out outs)
  let ?op = "outpoint_of L tx i tree"
  note P = image_positions_Cons [where g = "\<lambda>k. outpoint_of L tx k tree" and i = i and xs = outs
    and x = out and Q = "output_pays L (rc_filter c)"]
  show ?case
  proof (cases "output_pays L (rc_filter c) out")
    case True
    let ?c = "report tx added (watch L ?op c)"
    from Cons.prems True have "rct_outputs L tx tree (Suc i) outs (True, ?c) = (added', c')"
      by (simp add: rct_output_step)
    note IH = Cons.IH [OF this]
    from evolves_trans [OF watch_evolves IH] True show ?thesis
      unfolding P by (cases added) auto
  next
    case False
    from Cons.prems False have "rct_outputs L tx tree (Suc i) outs (added, c) = (added', c')"
      by (simp add: rct_output_step)
    note IH = Cons.IH [OF this]
    from IH False show ?thesis unfolding P by simp
  qed
qed simp

lemma rct_tx_total: "\<exists>c'. rct_tx L tree i c tx = Inr c'"
  using vote_has_input [of tx]
  by (cases "TxIn tx") (auto simp: rct_tx_def Let_def slice_from_def tx_type_in_def)

lemma rct_tx_eq:
  "rct_tx L tree i c tx =
     Inr (snd (rct_outputs L tx tree 0 (TxOut tx) (rct_inputs L tx (checked_inputs L tree i tx) (False, c))))"
  using vote_has_input [of tx]
  by (cases "TxIn tx")
    (auto simp: rct_tx_def Let_def checked_inputs_def slice_from_def tx_type_in_def)

lemma rct_tx_evolves:
  assumes "rct_tx L tree i c tx = Inr c'"
  shows "evolves L c (if spends L (rc_filter c) tree i tx \<or> pays L (rc_filter c) tx then [tx] else [])
           (paid_outpoints L (rc_filter c) tree tx) c'"
proof -
  let ?s = "spends L (rc_filter c) tree i tx"
  let ?c1 = "if ?s then report tx False c else c"
  have 1: "rct_inputs L tx (checked_inputs L tree i tx) (False, c) = (?s, ?c1)"
    by (simp add: rct_inputs_eq spends_def)
  obtain b where 2: "rct_outputs L tx tree 0 (TxOut tx) (?s, ?c1) = (b, c')"
    using assms by (metis rct_tx_eq 1 prod.collapse sum.inject(2))
  have "evolves L c (if ?s then [tx] else []) {} ?c1"
    by (simp add: evolves_def report_def watched_def)
  from evolves_trans [OF this rct_outputs_evolves [OF 2]] show ?thesis
    by (cases ?s) (auto simp: pays_def paid_outpoints_def)
qed

lemma spends_watched:
  "spends L f tree i tx \<longleftrightarrow> (\<exists>inp \<in> set (checked_inputs L tree i tx). PreviousOutPoint inp \<in> watched L f)"
  by (simp add: spends_def watched_def)

lemma rescanCheckTransactions_total: "\<exists>c'. rescanCheckTransactions L tree i txs c = Inr c'"
proof (induction txs arbitrary: i c)
  case (Cons tx txs)
  from rct_tx_total obtain c1 where "rct_tx L tree i c tx = Inr c1" by blast
  with Cons.IH show ?case by simp
qed simp

lemma rescanCheckTransactions_evolves:
  assumes "rescanCheckTransactions L tree i txs c = Inr c'"
  shows "evolves L c (spec_matches L (rc_filter c) (watched L (rc_filter c)) tree i txs)
           (paid_in L (rc_filter c) tree txs) c'"
  using assms
proof (induction txs arbitrary: i c)
  case (Cons tx txs)
  let ?f = "rc_filter c"
  from Cons.prems obtain c1 where 1: "rct_tx L tree i c tx = Inr c1"
    and 2: "rescanCheckTransactions L tree (Suc i) txs c1 = Inr c'" by (auto split: sum.splits)
  note e1 = rct_tx_evolves [OF 1]
  then have addr: "\<And>a. ExistsAddress L (rc_filter c1) a = ExistsAddress L ?f a"
    and w: "watched L (rc_filter c1) = watched L ?f \<union> paid_outpoints L ?f tree tx"
    by (simp_all add: evolves_def)
  from Cons.IH [OF 2] have "evolves L c1
      (spec_matches L ?f (watched L ?f \<union> paid_outpoints L ?f tree tx) tree (Suc i) txs)
      (paid_in L ?f tree txs) c'"
    by (simp add: spec_matches_cong [OF addr] w paid_in_def paid_outpoints_cong [OF addr])
  from evolves_trans [OF e1 this] show ?case
    by (simp add: spends_watched paid_in_def)
qed (simp add: paid_in_def)

lemma rescan_one_total: "\<exists>c. rescan_one L b f d = Inr c"
  unfolding rescan_one_def using rescanCheckTransactions_total by (metis sum.case(2))

lemma rescan_one_evolves:
  assumes "rescan_one L b f d = Inr c"
  shows "evolves L \<lparr>rc_filter = f, rc_data = d, rc_matches = [], rc_fadded = []\<rparr>
           (block_matches L f b) (block_paid L f b) c"
proof -
  let ?c0 = "\<lparr>rc_filter = f, rc_data = d, rc_matches = [], rc_fadded = []\<rparr>"
  from assms obtain c1 where 1: "rescanCheckTransactions L TxTreeStake 0 (STransactions b) ?c0 = Inr c1"
    and 2: "rescanCheckTransactions L TxTreeRegular 0 (Transactions b) c1 = Inr c"
    by (auto simp: rescan_one_def split: sum.splits)
  note e1 = rescanCheckTransactions_evolves [OF 1]
  then have addr: "\<And>a. ExistsAddress L (rc_filter c1) a = ExistsAddress L f a"
    and w: "watched L (rc_filter c1) = watched L f \<union> paid_in L f TxTreeStake (STransactions b)"
    by (simp_all add: evolves_def)
  from rescanCheckTransactions_evolves [OF 2]
  have e2: "evolves L c1 (spec_matches L f (watched L f \<union> paid_in L f TxTreeStake (STransactions b))
      TxTreeRegular 0 (Transactions b)) (paid_in L f TxTreeRegular (Transactions b)) c"
    by (simp add: spec_matches_cong [OF addr] w paid_in_def paid_outpoints_cong [OF addr])
  from evolves_trans [OF e1 e2] show ?thesis by (simp add: block_matches_def block_paid_def)
qed

text \<open>A transaction that neither spends nor pays watched data leaves everything as it was.\<close>

lemma rct_outputs_quiet:
  "(\<And>out. out \<in> set outs \<Longrightarrow> \<not> output_pays L (rc_filter c) out) \<Longrightarrow>
   rct_outputs L tx tree i outs (added, c) = (added, c)"
  by (induction outs arbitrary: i) (simp_all add: rct_output_step)

lemma rct_tx_quiet:
  "\<not> spends L (rc_filter c) tree i tx \<Longrightarrow> \<not> pays L (rc_filter c) tx \<Longrightarrow> rct_tx L tree i c tx = Inr c"
  by (simp add: rct_tx_eq rct_inputs_eq spends_def pays_def rct_outputs_quiet)

lemma rescanCheckTransactions_quiet:
  "(\<And>tx k. tx \<in> set txs \<Longrightarrow> \<not> spends L (rc_filter c) tree k tx \<and> \<not> pays L (rc_filter c) tx) \<Longrightarrow>
   rescanCheckTransactions L tree i txs c = Inr c"
  by (induction txs arbitrary: i) (simp_all add: rct_tx_quiet)

lemma spends_occurs:
  assumes "in_sync L f d" and "spends L f tree k tx" and "tx \<in> set (block_txs b)"
  shows "\<exists>e \<in> set d. occurs L e b"
proof -
  from assms(2) obtain inp where inp: "inp \<in> set (TxIn tx)"
    and ex: "ExistsUnspentOutPoint L f (PreviousOutPoint inp)"
    using checked_inputs_subset [of L tree k tx] by (auto simp: spends_def)
  from ex assms(1) have "OutPointEntry (PreviousOutPoint inp) \<in> set d" by (simp add: in_sync_def)
  moreover from inp assms(3) have "occurs L (OutPointEntry (PreviousOutPoint inp)) b" by auto
  ultimately show ?thesis by blast
qed

lemma pays_occurs:
  assumes "in_sync L f d" and "pays L f tx" and "tx \<in> set (block_txs b)"
  shows "\<exists>e \<in> set d. occurs L e b"
proof -
  from assms(2) obtain out addrs a where o: "out \<in> set (TxOut tx)"
    and x: "ExtractPkScriptAddrs L (OutVersion out) (PkScript_of out) = Inr addrs"
    and a: "a \<in> set addrs" "ExistsAddress L f a"
    unfolding pays_def using output_paysE by metis
  from a(2) assms(1) obtain s where s: "AddrScript L a = Some s" "RegularPkScript s \<in> set d"
    by (auto simp: in_sync_def)
  have "occurs L (RegularPkScript s) b"
    unfolding occurs.simps using assms(3) o x a(1) s(1) by (intro bexI [of _ tx] bexI [of _ out]) auto
  with s(2) show ?thesis by blast
qed

lemma rescan_one_quiet:
  assumes "in_sync L f d" and "\<And>e. e \<in> set d \<Longrightarrow> \<not> occurs L e b"
  shows "rescan_one L b f d = Inr \<lparr>rc_filter = f, rc_data = d, rc_matches = [], rc_fadded = []\<rparr>"
proof -
  have "\<not> spends L f tree k tx \<and> \<not> pays L f tx" if "tx \<in> set (block_txs b)" for tree k tx
    using that assms spends_occurs pays_occurs by blast
  then show ?thesis
    by (simp add: rescan_one_def rescanCheckTransactions_quiet block_txs_def)
qed

lemma in_sync_evolves:
  assumes "in_sync L (rc_filter c) (rc_data c)" and "evolves L c ms P c'"
  shows "in_sync L (rc_filter c') (rc_data c')"
proof -
  from assms(2) obtain new where n: "rc_data c' = rc_data c @ new"
      "set new = OutPointEntry ` (P - watched L (rc_filter c))"
    and a: "\<And>a. ExistsAddress L (rc_filter c') a = ExistsAddress L (rc_filter c) a"
    and w: "watched L (rc_filter c') = watched L (rc_filter c) \<union> P"
    by (auto simp: evolves_def)
  have op: "OutPointEntry op \<in> set (rc_data c')" if "op \<in> watched L (rc_filter c')" for op
    using that w n assms(1) by (cases "op \<in> watched L (rc_filter c)") (auto simp: in_sync_def watched_def)
  with assms(1) a n(1) show ?thesis by (auto simp: in_sync_def watched_def)
qed

lemma rescanBlock_Inr:
  assumes "rescanFilter s w = Some f" and "filterData s w = Some d"
  obtains c where "rescan_one L b f d = Inr c"
    and "rescanBlock L s b w = Inr (rc_matches c, rc_fadded c,
      s\<lparr>rescanFilter := (rescanFilter s)(w \<mapsto> rc_filter c), filterData := (filterData s)(w \<mapsto> rc_data c)\<rparr>)"
proof -
  from rescan_one_total obtain c where c: "rescan_one L b f d = Inr c" by blast
  with assms have "rescanBlock L s b w = Inr (rc_matches c, rc_fadded c,
      s\<lparr>rescanFilter := (rescanFilter s)(w \<mapsto> rc_filter c), filterData := (filterData s)(w \<mapsto> rc_data c)\<rparr>)"
    by (simp add: rescanBlock_def)
  with c that show thesis by blast
qed

lemma rescanBlock_keeps_sync:
  assumes "filters_in_sync L s" and "rescanBlock L s b w = Inr (ms, fadded, s')"
  shows "filters_in_sync L s'"
proof -
  from assms(2) obtain f d c where fd: "rescanFilter s w = Some f" "filterData s w = Some d"
    and c: "rescan_one L b f d = Inr c"
    and s': "s' = s\<lparr>rescanFilter := (rescanFilter s)(w \<mapsto> rc_filter c), filterData := (filterData s)(w \<mapsto> rc_data c)\<rparr>"
    by (auto simp: rescanBlock_def split: option.splits sum.splits)
  from assms(1) fd have "in_sync L f d" by (simp add: filters_in_sync_def)
  with in_sync_evolves [OF _ rescan_one_evolves [OF c]] have "in_sync L (rc_filter c) (rc_data c)" by simp
  with assms(1) s' show ?thesis by (auto simp: filters_in_sync_def)
qed

lemma load_addrs_sync: "in_sync L f d \<Longrightarrow> load_addrs L as (f, d) = (f', d') \<Longrightarrow> in_sync L f' d'"
proof (induction as arbitrary: f d)
  case (Cons a as)
  show ?case
  proof (cases "AddrScript L a")
    case (Some pk)
    with Cons.prems(1) have "in_sync L (AddAddress L a f) (d @ [RegularPkScript pk])"
      by (fastforce simp: in_sync_def filter_laws)
    from Cons.IH [OF this] Cons.prems(2) Some show ?thesis by simp
  qed (use Cons in simp)
qed simp

lemma load_outpoints_sync: "in_sync L f d \<Longrightarrow> load_outpoints L ops (f, d) = (f', d') \<Longrightarrow> in_sync L f' d'"
proof (induction ops arbitrary: f d)
  case (Cons op ops)
  from Cons.prems(1) have "in_sync L (AddUnspentOutPoint L op f) (d @ [OutPointEntry op])"
    by (fastforce simp: in_sync_def filter_laws)
  from Cons.IH [OF this] Cons.prems(2) show ?case by simp
qed simp

lemma load_addrs_exists:
  "load_addrs L as (f, d) = (f', d') \<Longrightarrow>
   ExistsAddress L f' a \<longleftrightarrow> ExistsAddress L f a \<or> (a \<in> set as \<and> AddrScript L a \<noteq> None)"
  by (induction as arbitrary: f d) (auto simp: filter_laws split: option.splits)

lemma load_addrs_outpoints:
  "load_addrs L as (f, d) = (f', d') \<Longrightarrow> ExistsUnspentOutPoint L f' op = ExistsUnspentOutPoint L f op"
  by (induction as arbitrary: f d) (auto simp: filter_laws split: option.splits)

lemma load_outpoints_exists:
  "load_outpoints L ops (f, d) = (f', d') \<Longrightarrow>
   (ExistsUnspentOutPoint L f' op \<longleftrightarrow> ExistsUnspentOutPoint L f op \<or> op \<in> set ops) \<and>
   ExistsAddress L f' a = ExistsAddress L f a"
  by (induction ops arbitrary: f d) (auto simp: filter_laws)

lemma LoadTxFilter_keeps_sync:
  assumes "filters_in_sync L s" and "LoadTxFilter L s w reload addrs ops = Inr s'"
  shows "filters_in_sync L s'"
proof -
  define s1 where "s1 = (if reload \<or> rescanFilter s w = None
     then s\<lparr>rescanFilter := (rescanFilter s)(w \<mapsto> NewRescanFilter L), filterData := (filterData s)(w \<mapsto> [])\<rparr> else s)"
  have 1: "filters_in_sync L s1"
    using assms(1) by (auto simp: s1_def filters_in_sync_def in_sync_def filter_laws)
  have "w \<in> dom (rescanFilter s1)" by (auto simp: s1_def)
  with 1 have "w \<in> dom (filterData s1)" by (simp add: filters_in_sync_def)
  with \<open>w \<in> dom (rescanFilter s1)\<close> obtain f d
    where fd: "rescanFilter s1 w = Some f" "filterData s1 w = Some d" by blast
  with 1 have "in_sync L f d" by (simp add: filters_in_sync_def)
  obtain f1 d1 where l1: "load_addrs L addrs (f, d) = (f1, d1)" by fastforce
  obtain f2 d2 where l2: "load_outpoints L ops (f1, d1) = (f2, d2)" by fastforce
  from load_outpoints_sync [OF load_addrs_sync [OF \<open>in_sync L f d\<close> l1] l2] have "in_sync L f2 d2" .
  moreover have "s' = s1\<lparr>rescanFilter := (rescanFilter s1)(w \<mapsto> f2), filterData := (filterData s1)(w \<mapsto> d2)\<rparr>"
    using assms(2) fd l1 l2 by (simp add: LoadTxFilter_def Let_def s1_def [symmetric])
  ultimately show ?thesis using 1 by (auto simp: filters_in_sync_def)
qed

end

section \<open>The contract is satisfiable\<close>

text \<open>A reference instance of the third-party functions: addresses are their scripts, the filter is
  a pair of lists, and a transaction is identified by its lock time.\<close>

definition ref_lib :: "(bytes, bytes list \<times> OutPoint list) spv_lib" where
  "ref_lib = \<lparr>TxHash = (\<lambda>tx. [of_nat (LockTime tx)]), DetermineTxType = (\<lambda>tx. StakeTxTypeRegular),
     ExtractPkScriptAddrs = (\<lambda>v s. Inr [s]), AddrScript = Some, NewRescanFilter = ([], []),
     AddAddress = (\<lambda>a (as, ops). (a # as, ops)), AddUnspentOutPoint = (\<lambda>op (as, ops). (as, op # ops)),
     ExistsAddress = (\<lambda>(as, ops) a. a \<in> set as), ExistsUnspentOutPoint = (\<lambda>(as, ops) op. op \<in> set ops)\<rparr>"

interpretation ref: rescan_lib ref_lib
  by unfold_locales (auto simp: ref_lib_def)

section \<open>Filtering in place\<close>

lemma fr_loop_eq:
  assumes "j \<le> i" and "i \<le> length txs"
  shows "fr_loop L f txs i j =
    (let m = filter (mempool_relevant L f) (drop i txs)
     in (take j txs @ m, take j txs @ m @ drop (j + length m) txs))"
  using assms
proof (induction L f txs i j rule: fr_loop.induct)
  case (1 L f txs i j)
  show ?case
  proof (cases "i < length txs")
    case False
    with 1 show ?thesis by (subst fr_loop.simps) simp
  next
    case True
    have dr: "drop i txs = txs ! i # drop (Suc i) txs" using True by (simp add: Cons_nth_drop_Suc)
    show ?thesis
    proof (cases "mempool_relevant L f (txs ! i)")
      case rel: True
      have "take (Suc j) (txs[j := txs ! i]) = take j txs @ [txs ! i]"
        using True 1(3) by (simp add: take_Suc_conv_app_nth)
      with 1(1) [OF True rel] True rel 1(3) show ?thesis
        by (simp add: fr_loop.simps [of L f txs i j] dr Let_def drop_update_swap)
    next
      case irr: False
      with 1(2) [OF True irr] True 1(3) show ?thesis
        by (simp add: fr_loop.simps [of L f txs i j] dr Let_def)
    qed
  qed
qed

lemma filterRelevant_eq:
  assumes "rescanFilter s w = Some f"
  shows "filterRelevant L s txs w =
    (let m = filter (mempool_relevant L f) txs in Inr (m, m @ drop (length m) txs))"
  using assms fr_loop_eq [of 0 0 txs L f] by (simp add: filterRelevant_def Let_def)

section \<open>Reachable filter states\<close>

text \<open>The filters of a syncer: created empty by \<open>NewSyncer\<close>, then changed by \<open>LoadTxFilter\<close> and by
  rescanning blocks, in any order and for any wallet.\<close>

inductive filter_reach :: "('a, 'f) spv_lib \<Rightarrow> int list \<Rightarrow> 'f filters \<Rightarrow> bool" for L ids where
  reach_new: "filter_reach L ids (new_filters L ids)"
| reach_load: "filter_reach L ids s \<Longrightarrow> LoadTxFilter L s w reload addrs ops = Inr s' \<Longrightarrow> filter_reach L ids s'"
| reach_rescan: "filter_reach L ids s \<Longrightarrow> rescanBlock L s b w = Inr (ms, fadded, s') \<Longrightarrow> filter_reach L ids s'"

lemma new_filters_sync:
  assumes "rescan_lib L"
  shows "filters_in_sync L (new_filters L ids)"
proof -
  have *: "in_sync L (NewRescanFilter L) []"
    using rescan_lib.filter_laws [OF assms] by (simp add: in_sync_def)
  have "f = NewRescanFilter L \<and> d = []"
    if "rescanFilter (new_filters L ids) w = Some f" "filterData (new_filters L ids) w = Some d" for w f d
    using that by (auto simp: new_filters_def dest!: map_of_SomeD)
  moreover have "dom (rescanFilter (new_filters L ids)) = dom (filterData (new_filters L ids))"
    by (simp add: new_filters_def dom_map_of_conv_image_fst image_image)
  ultimately show ?thesis using * unfolding filters_in_sync_def by blast
qed

section \<open>Example data for the witnesses\<close>

definition ex_in :: "nat \<Rightarrow> wire_TxIn" where
  "ex_in n = \<lparr>PreviousOutPoint = \<lparr>op_Hash = [of_nat n], op_Index = 0, op_Tree = 0\<rparr>, ValueIn = 10\<rparr>"

definition ex_tx :: "nat \<Rightarrow> nat \<Rightarrow> bytes \<Rightarrow> MsgTx" where
  "ex_tx n prev script = \<lparr>tx_Version = 1, TxIn = [ex_in prev],
     TxOut = [\<lparr>Value = 7, OutVersion = 0, PkScript_of = script\<rparr>], LockTime = n, Expiry = 0\<rparr>"

definition ex_block :: "MsgTx list \<Rightarrow> MsgBlock" where
  "ex_block txs = \<lparr>blk_Header = \<lparr>hd_Height = 1, hd_PrevBlock = [], hd_Timestamp = 0\<rparr>,
     Transactions = txs, STransactions = []\<rparr>"

lemmas ex_defs = ex_in_def ex_tx_def ex_block_def ref_lib_def

definition ex_filters :: "(bytes list \<times> OutPoint list) filters" where
  "ex_filters = \<lparr>rescanFilter = [1 \<mapsto> ([[9]], [])], filterData = [1 \<mapsto> [RegularPkScript [9]]]\<rparr>"

section \<open>Properties\<close>

text \<open>
  C2.  Rescanning a block for a wallet with filters never fails, reports exactly the transactions
  of the reference description (those that spend an outpoint watched so far or pay a watched
  address, each once, in block order, stake tree first), afterwards watches exactly the earlier
  outpoints and the block's outputs to watched addresses, reports as added exactly the outpoints
  that were not watched before, and leaves the filters of every other wallet alone.
\<close>

theorem rescanBlock_refines:
  assumes "rescan_lib L" and "rescanFilter s w = Some f" and "filterData s w = Some d"
  shows "\<exists>fadded f' s'. rescanBlock L s b w = Inr (block_matches L f b, fadded, s') \<and>
    set fadded = OutPointEntry ` (block_paid L f b - watched L f) \<and>
    rescanFilter s' = (rescanFilter s)(w \<mapsto> f') \<and> filterData s' = (filterData s)(w \<mapsto> d @ fadded) \<and>
    watched L f' = watched L f \<union> block_paid L f b \<and>
    (\<forall>a. ExistsAddress L f' a = ExistsAddress L f a)"
proof -
  obtain c where c: "rescan_one L b f d = Inr c"
    and r: "rescanBlock L s b w = Inr (rc_matches c, rc_fadded c,
      s\<lparr>rescanFilter := (rescanFilter s)(w \<mapsto> rc_filter c), filterData := (filterData s)(w \<mapsto> rc_data c)\<rparr>)"
    using rescan_lib.rescanBlock_Inr [OF assms] by blast
  from rescan_lib.rescan_one_evolves [OF assms(1) c]
  have "rc_matches c = block_matches L f b" "watched L (rc_filter c) = watched L f \<union> block_paid L f b"
    "\<forall>a. ExistsAddress L (rc_filter c) a = ExistsAddress L f a" "rc_data c = d @ rc_fadded c"
    "set (rc_fadded c) = OutPointEntry ` (block_paid L f b - watched L f)"
    by (auto simp: evolves_def)
  with r show ?thesis by auto
qed

theorem rescanBlock_refines_witness:
  "\<exists>fadded f' s'. rescanBlock ref_lib ex_filters (ex_block [ex_tx 1 0 [8], ex_tx 2 1 [9]]) 1 =
     Inr ([ex_tx 2 1 [9]], fadded, s') \<and> rescanFilter s' = (rescanFilter ex_filters)(1 \<mapsto> f') \<and>
     watched ref_lib f' \<noteq> {}"
proof -
  let ?b = "ex_block [ex_tx 1 0 [8], ex_tx 2 1 [9]]"
  have m: "block_matches ref_lib ([[9]], []) ?b = [ex_tx 2 1 [9]]"
    by (simp add: block_matches_def ex_defs checked_inputs_def tx_type_in_def TxTreeRegular_def
        TxTreeStake_def watched_def paid_in_def pays_def output_pays_def paid_outpoints_def
        outpoint_of_def)
  have p: "block_paid ref_lib ([[9]], []) ?b \<noteq> {}"
    by (simp add: block_paid_def paid_in_def paid_outpoints_def ex_defs output_pays_def)
  show ?thesis
    using rescanBlock_refines [OF ref.rescan_lib_axioms, of ex_filters 1 "([[9]], [])" "[RegularPkScript [9]]" ?b]
      m p by (auto simp: ex_filters_def)
qed

text \<open>
  C19.  In every state the syncer's filters can reach, each wallet with a precise filter has filter
  data, and everything the precise filter watches is in it: the outpoints, and the script of every
  address.  A block that touches watched data therefore matches the data checked against its
  compact filter.
\<close>

theorem filter_data_covers_rescan_filter:
  assumes "rescan_lib L" and "filter_reach L ids s"
  shows "filters_in_sync L s"
  using assms(2)
proof (induction rule: filter_reach.induct)
  case reach_new
  show ?case by (rule new_filters_sync [OF assms(1)])
next
  case reach_load
  then show ?case using rescan_lib.LoadTxFilter_keeps_sync [OF assms(1)] by blast
next
  case reach_rescan
  then show ?case using rescan_lib.rescanBlock_keeps_sync [OF assms(1)] by blast
qed

theorem filter_data_covers_rescan_filter_witness:
  "filters_in_sync ref_lib \<lparr>rescanFilter = [1 \<mapsto> ([[9]], [])], filterData = [1 \<mapsto> [RegularPkScript [9]]]\<rparr>"
proof -
  have "LoadTxFilter ref_lib (new_filters ref_lib [1]) 1 True [[9]] [] =
      Inr \<lparr>rescanFilter = [1 \<mapsto> ([[9]], [])], filterData = [1 \<mapsto> [RegularPkScript [9]]]\<rparr>"
    by (simp add: LoadTxFilter_def new_filters_def ref_lib_def)
  from filter_data_covers_rescan_filter [OF ref.rescan_lib_axioms reach_load [OF reach_new this]]
  show ?thesis .
qed

text \<open>
  \<open>LoadTxFilter\<close> with \<open>reload\<close> replaces what a wallet watches: afterwards exactly the given
  outpoints and exactly the given addresses that have a script are watched, whatever was watched
  before, and no other wallet's filters change.
\<close>

theorem LoadTxFilter_reload_exact:
  assumes "rescan_lib L"
  shows "\<exists>f d s'. LoadTxFilter L s w True addrs ops = Inr s' \<and>
    rescanFilter s' = (rescanFilter s)(w \<mapsto> f) \<and> filterData s' = (filterData s)(w \<mapsto> d) \<and>
    watched L f = set ops \<and>
    (\<forall>a. ExistsAddress L f a \<longleftrightarrow> a \<in> set addrs \<and> AddrScript L a \<noteq> None)"
proof -
  obtain f1 d1 where l1: "load_addrs L addrs (NewRescanFilter L, []) = (f1, d1)" by fastforce
  obtain f2 d2 where l2: "load_outpoints L ops (f1, d1) = (f2, d2)" by fastforce
  note laws = rescan_lib.filter_laws [OF assms]
  have "watched L f2 = set ops"
    using rescan_lib.load_addrs_outpoints [OF assms l1] rescan_lib.load_outpoints_exists [OF assms l2] laws
    by (auto simp: watched_def)
  moreover have "ExistsAddress L f2 a \<longleftrightarrow> a \<in> set addrs \<and> AddrScript L a \<noteq> None" for a
    using rescan_lib.load_addrs_exists [OF assms l1] rescan_lib.load_outpoints_exists [OF assms l2] laws
    by auto
  moreover have "LoadTxFilter L s w True addrs ops =
      Inr (s\<lparr>rescanFilter := (rescanFilter s)(w \<mapsto> f2), filterData := (filterData s)(w \<mapsto> d2)\<rparr>)"
    using l1 l2 by (simp add: LoadTxFilter_def)
  ultimately show ?thesis by fastforce
qed

theorem LoadTxFilter_reload_exact_witness:
  "\<exists>f d s'. LoadTxFilter ref_lib ex_filters 1 True [[5]] [] = Inr s' \<and>
    rescanFilter s' = (rescanFilter ex_filters)(1 \<mapsto> f) \<and> filterData s' = (filterData ex_filters)(1 \<mapsto> d) \<and>
    watched ref_lib f = {} \<and> ExistsAddress ref_lib f [5]"
proof -
  have "AddrScript ref_lib [5] \<noteq> None" by (simp add: ref_lib_def)
  with LoadTxFilter_reload_exact [OF ref.rescan_lib_axioms, of ex_filters 1 "[[5]]" "[]"]
  show ?thesis by (metis empty_set list.set_intros(1))
qed

text \<open>
  \<open>filterRelevant\<close> returns exactly the relevant transactions in their order, and, because it
  filters in the caller's array, leaves that array with the matches in its first slots and its old
  contents behind them.
\<close>

theorem filterRelevant_in_place:
  assumes "rescanFilter s w = Some f"
  shows "filterRelevant L s txs w = Inr (filter (mempool_relevant L f) txs,
    filter (mempool_relevant L f) txs @ drop (length (filter (mempool_relevant L f) txs)) txs)"
  using filterRelevant_eq [OF assms] by (simp add: Let_def)

theorem filterRelevant_in_place_witness:
  "filterRelevant ref_lib ex_filters [ex_tx 1 0 [8], ex_tx 2 1 [9]] 1 =
     Inr ([ex_tx 2 1 [9]], [ex_tx 2 1 [9], ex_tx 2 1 [9]])"
proof -
  have "filter (mempool_relevant ref_lib ([[9]], [])) [ex_tx 1 0 [8], ex_tx 2 1 [9]] = [ex_tx 2 1 [9]]"
    by (simp add: mempool_relevant_def output_pays_def ex_defs)
  with filterRelevant_in_place [of ex_filters 1 "([[9]], [])" ref_lib "[ex_tx 1 0 [8], ex_tx 2 1 [9]]"]
  show ?thesis by (simp add: ex_filters_def)
qed

end
