(* ===== verification/SpvScan.thy ===== *)
theory SpvScan
  imports SpvFilter
begin

text \<open>
  \<open>scanChain\<close> of \<open>spv/sync.go\<close>: find a wallet's transactions in a chain of blocks by matching
  compact filters, fetching only the blocks that match, and starting over behind a block that
  added outpoints, with only the added data.  The reference definition \<open>scan_all\<close> rescans every
  block; the main results are that the optimised routine finds the same transactions and leaves
  the same filters, for every interleaving of its workers, and that it returns.
\<close>

section \<open>Parameters\<close>

text \<open>\<open>wallet.BlockNode\<close>, over the type \<open>'g\<close> of compact filters (\<open>gcs.Filter\<close>).\<close>

record 'g BlockNode =
  bn_Header :: BlockHeader
  bn_Hash :: hash
  bn_Filter :: 'g

text \<open>
  The calls to the remote peer and to the packages \<open>gcs\<close>, \<open>blockcf\<close> and \<open>validate\<close>.  \<open>workers\<close>
  is the order in which the concurrent filter workers append the positions they matched.
\<close>

record 'g peer =
  Filter_N :: "'g \<Rightarrow> nat"
  MatchAny :: "'g \<Rightarrow> bytes \<Rightarrow> entries \<Rightarrow> bool"
  CFKey :: "hash \<Rightarrow> bytes"
  Blocks :: "hash list \<Rightarrow> MsgBlock list result"
  MerkleRoots :: "MsgBlock \<Rightarrow> err option"
  DCP0005MerkleRoot :: "MsgBlock \<Rightarrow> err option"
  RegularCFilter :: "MsgBlock \<Rightarrow> 'g \<Rightarrow> err option"
  ctx_Err :: "nat \<Rightarrow> err option"
  workers :: "nat list \<Rightarrow> nat list"

section \<open>\<open>scanChain\<close>\<close>

text \<open>An error of the scan, and whether the peer was disconnected for it.\<close>

type_synonym 'a scan_result = "(err \<times> bool) + 'a"

definition block_error :: "'g peer \<Rightarrow> MsgBlock \<Rightarrow> 'g \<Rightarrow> err option" where
  "block_error P b g =
     (case (case MerkleRoots P b of None \<Rightarrow> None | Some e \<Rightarrow> DCP0005MerkleRoot P b) of
        Some e \<Rightarrow> Some e
      | None \<Rightarrow> RegularCFilter P b g)"

definition node_matches :: "'g peer \<Rightarrow> 'g BlockNode \<Rightarrow> entries \<Rightarrow> bool" where
  "node_matches P n d \<longleftrightarrow>
     Filter_N P (bn_Filter n) \<noteq> 0 \<and> MatchAny P (bn_Filter n) (CFKey P (bn_Hash n)) d"

fun place_blocks ::
  "'g peer \<Rightarrow> 'g BlockNode list \<Rightarrow> nat list \<Rightarrow> MsgBlock list \<Rightarrow> MsgBlock option list \<Rightarrow> MsgBlock option list scan_result" where
  "place_blocks P chain fmatchidx [] fetched = Inr fetched"
| "place_blocks P chain [] (b # bs) fetched = Inl (Panic ''index out of range'', False)"
| "place_blocks P chain (i # is) (b # bs) fetched =
     (case block_error P b (bn_Filter (chain ! i)) of
        Some e \<Rightarrow> Inl (e, True)
      | None \<Rightarrow> place_blocks P chain is bs (fetched[i := Some b]))"

definition fetch_matches ::
  "'g peer \<Rightarrow> 'g BlockNode list \<Rightarrow> nat \<Rightarrow> entries \<Rightarrow> MsgBlock option list \<Rightarrow> MsgBlock option list scan_result" where
  "fetch_matches P chain idx d fetched =
     (let fmatchidx = workers P (filter (\<lambda>i. fetched ! i = None \<and> node_matches P (chain ! i) d) [idx..<length chain])
      in if fmatchidx \<noteq> []
         then (case Blocks P (map (\<lambda>i. bn_Hash (chain ! i)) fmatchidx) of
                 Inl e \<Rightarrow> Inl (e, False)
               | Inr blocks \<Rightarrow> place_blocks P chain fmatchidx blocks fetched)
         else Inr fetched)"

type_synonym found = "hash \<rightharpoonup> MsgTx list"

fun scan_pass ::
  "('a, 'f) spv_lib \<Rightarrow> int \<Rightarrow> 'g BlockNode list \<Rightarrow> MsgBlock option list \<Rightarrow> nat list \<Rightarrow> found \<Rightarrow> 'f filters \<Rightarrow>
   ((nat \<times> entries) option \<times> found \<times> 'f filters) scan_result" where
  "scan_pass L w chain fetched [] found s = Inr (None, found, s)"
| "scan_pass L w chain fetched (i # is) found s =
     (case fetched ! i of
        None \<Rightarrow> scan_pass L w chain fetched is found s
      | Some b \<Rightarrow>
          (case rescanBlock L s b w of
             Inl e \<Rightarrow> Inl (e, False)
           | Inr (matches, fadded, s') \<Rightarrow>
               if fadded \<noteq> []
               then Inr (Some (Suc i, fadded), found(bn_Hash (chain ! i) \<mapsto> matches), s')
               else scan_pass L w chain fetched is (found(bn_Hash (chain ! i) \<mapsto> matches)) s'))"

lemma scan_pass_next:
  "scan_pass L w chain fetched is found s = Inr (Some (k, d), found', s') \<Longrightarrow> k \<in> Suc ` set is"
  by (induction "is" arbitrary: found s) (fastforce split: option.splits sum.splits if_splits)+

function scan_loop ::
  "('a, 'f) spv_lib \<Rightarrow> 'g peer \<Rightarrow> int \<Rightarrow> 'g BlockNode list \<Rightarrow> nat \<Rightarrow> entries \<Rightarrow> MsgBlock option list \<Rightarrow>
   found \<Rightarrow> 'f filters \<Rightarrow> (found \<times> 'f filters) scan_result" where
  "scan_loop L P w chain idx d fetched found s =
     (if idx < length chain
      then (case fetch_matches P chain idx d fetched of
              Inl e \<Rightarrow> Inl e
            | Inr fetched' \<Rightarrow>
                (case ctx_Err P idx of
                   Some e \<Rightarrow> Inl (e, False)
                 | None \<Rightarrow>
                     (case scan_pass L w chain fetched' [idx..<length chain] found s of
                        Inl e \<Rightarrow> Inl e
                      | Inr (None, found', s') \<Rightarrow> Inr (found', s')
                      | Inr (Some (idx', d'), found', s') \<Rightarrow>
                          scan_loop L P w chain idx' d' fetched' found' s')))
      else Inr (found, s))"
  by pat_completeness auto
termination
  by (relation "measure (\<lambda>(L, P, w, chain, idx, d, fetched, found, s). length chain - idx)")
    (auto dest!: scan_pass_next)

declare scan_loop.simps [simp del]

text \<open>A nil \<open>bmap\<close> is the empty map.\<close>

definition scanChain ::
  "('a, 'f) spv_lib \<Rightarrow> 'g peer \<Rightarrow> 'g BlockNode list \<Rightarrow> (hash \<rightharpoonup> MsgBlock) \<Rightarrow> int \<Rightarrow> 'f filters \<Rightarrow>
   (found \<times> 'f filters) scan_result" where
  "scanChain L P chain bmap w s =
     (case filterData s w of
        None \<Rightarrow> Inl (Panic ''nil filter data'', False)
      | Some d \<Rightarrow> scan_loop L P w chain 0 d (map (\<lambda>n. bmap (bn_Hash n)) chain) Map.empty s)"

section \<open>Reference definition\<close>

fun scan_all :: "('a, 'f) spv_lib \<Rightarrow> int \<Rightarrow> MsgBlock list \<Rightarrow> 'f filters \<Rightarrow> (MsgTx list list \<times> 'f filters) result" where
  "scan_all L w [] s = Inr ([], s)"
| "scan_all L w (b # bs) s =
     (case rescanBlock L s b w of
        Inl e \<Rightarrow> Inl e
      | Inr (ms, fadded, s') \<Rightarrow>
          (case scan_all L w bs s' of
             Inl e \<Rightarrow> Inl e
           | Inr (mss, s'') \<Rightarrow> Inr (ms # mss, s'')))"

text \<open>The map of a scan against the matches of a block: a block that was not fetched has none.\<close>

definition found_is :: "found \<Rightarrow> hash \<Rightarrow> MsgTx list \<Rightarrow> bool" where
  "found_is found h ms \<longleftrightarrow> found h = Some ms \<or> (found h = None \<and> ms = [])"

lemma scan_all_append:
  "scan_all L w (xs @ ys) s =
     (case scan_all L w xs s of
        Inl e \<Rightarrow> Inl e
      | Inr (m1, s1) \<Rightarrow> (case scan_all L w ys s1 of Inl e \<Rightarrow> Inl e | Inr (m2, s2) \<Rightarrow> Inr (m1 @ m2, s2)))"
  by (induction xs arbitrary: s) (auto split: sum.splits)

lemma scan_all_length: "scan_all L w bs s = Inr (mss, s') \<Longrightarrow> length mss = length bs"
  by (induction bs arbitrary: s mss) (auto split: sum.splits)

section \<open>The environment of a scan\<close>

text \<open>
  What the scan relies on, for the true blocks \<open>blk h\<close> of the hashes \<open>h\<close>: a peer that answers a
  request answers with the requested blocks in order, the blocks announced with the headers are
  the ones their hashes name, the workers lose and invent no position, and the nodes' compact
  filters have no false negatives (documented for Golomb-coded sets): when an entry of the data
  occurs in the block, the filter is not empty and matches.
\<close>

locale scan_env = rescan_lib L for L :: "('a, 'f) spv_lib" +
  fixes P :: "'g peer" and blk :: "hash \<Rightarrow> MsgBlock" and chain :: "'g BlockNode list"
    and bmap :: "hash \<rightharpoonup> MsgBlock"
  assumes peer_blocks: "Blocks P hs = Inr bs \<Longrightarrow> bs = map blk hs"
    and announced_blocks: "bmap h = Some b \<Longrightarrow> b = blk h"
    and workers_set: "set (workers P is) = set is"
    and no_false_negatives:
      "n \<in> set chain \<Longrightarrow> e \<in> set d \<Longrightarrow> occurs L e (blk (bn_Hash n)) \<Longrightarrow> node_matches P n d"
    and distinct_hashes: "distinct (map bn_Hash chain)"
begin

abbreviation hash_at :: "nat \<Rightarrow> hash" where "hash_at i \<equiv> bn_Hash (chain ! i)"
abbreviation block_at :: "nat \<Rightarrow> MsgBlock" where "block_at i \<equiv> blk (hash_at i)"

definition fetched_ok :: "MsgBlock option list \<Rightarrow> bool" where
  "fetched_ok fetched \<longleftrightarrow> length fetched = length chain \<and>
     (\<forall>i < length chain. \<forall>b. fetched ! i = Some b \<longrightarrow> b = block_at i)"

text \<open>No entry of \<open>D\<close> occurs in a block that was not fetched.\<close>

definition covered :: "entry set \<Rightarrow> nat set \<Rightarrow> MsgBlock option list \<Rightarrow> bool" where
  "covered D I fetched \<longleftrightarrow> (\<forall>i \<in> I. fetched ! i = None \<longrightarrow> (\<forall>e \<in> D. \<not> occurs L e (block_at i)))"

lemma hash_at_inj: "i < length chain \<Longrightarrow> j < length chain \<Longrightarrow> hash_at i = hash_at j \<Longrightarrow> i = j"
  using distinct_hashes by (metis length_map nth_eq_iff_index_eq nth_map)

lemma place_blocks_ok:
  assumes "place_blocks P chain is (map block_at is) fetched = Inr fetched'"
    and "fetched_ok fetched" and "set is \<subseteq> {..<length chain}"
  shows "fetched_ok fetched' \<and>
    (\<forall>i < length chain. fetched' ! i = None \<longleftrightarrow> fetched ! i = None \<and> i \<notin> set is)"
  using assms
proof (induction "is" arbitrary: fetched)
  case (Cons i "is")
  from Cons.prems(1) have 1: "place_blocks P chain is (map block_at is) (fetched[i := Some (block_at i)]) = Inr fetched'"
    by (simp split: option.splits)
  from Cons.prems(2,3) have 2: "fetched_ok (fetched[i := Some (block_at i)])"
    by (auto simp: fetched_ok_def nth_list_update)
  have "set is \<subseteq> {..<length chain}" using Cons.prems(3) by simp
  from Cons.IH [OF 1 2 this] Cons.prems(2,3) show ?case
    by (auto simp: nth_list_update fetched_ok_def)
qed simp

lemma fetch_matches_ok:
  assumes "fetch_matches P chain idx d fetched = Inr fetched'" and "fetched_ok fetched"
  shows "fetched_ok fetched' \<and> (\<forall>i < length chain. fetched' ! i = None \<longrightarrow> fetched ! i = None) \<and>
    (\<forall>i < length chain. idx \<le> i \<longrightarrow> fetched' ! i = None \<longrightarrow> \<not> node_matches P (chain ! i) d)"
proof -
  define hits where "hits = workers P (filter (\<lambda>i. fetched ! i = None \<and> node_matches P (chain ! i) d) [idx..<length chain])"
  have hits: "set hits = {i. idx \<le> i \<and> i < length chain \<and> fetched ! i = None \<and> node_matches P (chain ! i) d}"
    by (auto simp: hits_def workers_set)
  show ?thesis
  proof (cases "hits = []")
    case True
    with assms have "fetched' = fetched" by (simp add: fetch_matches_def hits_def [symmetric])
    with True hits assms(2) show ?thesis by auto
  next
    case False
    with assms(1) obtain bs where bs: "Blocks P (map hash_at hits) = Inr bs"
      and p: "place_blocks P chain hits bs fetched = Inr fetched'"
      by (auto simp: fetch_matches_def hits_def [symmetric] split: sum.splits)
    from peer_blocks [OF bs] have "bs = map block_at hits" by simp
    with p have "place_blocks P chain hits (map block_at hits) fetched = Inr fetched'" by simp
    moreover have "set hits \<subseteq> {..<length chain}" using hits by auto
    ultimately show ?thesis using place_blocks_ok [OF _ assms(2)] hits by blast
  qed
qed

text \<open>After a fetch with the data \<open>d\<close>, everything watched is covered if what is not in \<open>d\<close> was.\<close>

lemma fetch_matches_covers:
  assumes "fetch_matches P chain idx d fetched = Inr fetched'" and "fetched_ok fetched"
    and "covered (D - set d) {idx..<length chain} fetched"
  shows "covered D {idx..<length chain} fetched'"
  unfolding covered_def
proof (intro ballI impI)
  fix i e assume i: "i \<in> {idx..<length chain}" and none: "fetched' ! i = None" and e: "e \<in> D"
  note f = fetch_matches_ok [OF assms(1,2)]
  show "\<not> occurs L e (block_at i)"
  proof (cases "e \<in> set d")
    case True
    from f i none have "\<not> node_matches P (chain ! i) d" by simp
    with no_false_negatives [of "chain ! i" e d] i True show ?thesis by auto
  next
    case False
    from f i none have "fetched ! i = None" by simp
    with assms(3) i e False show ?thesis by (auto simp: covered_def)
  qed
qed

definition wallet_ok :: "int \<Rightarrow> 'f filters \<Rightarrow> entries \<Rightarrow> bool" where
  "wallet_ok w s D \<longleftrightarrow> (\<exists>f. rescanFilter s w = Some f \<and> filterData s w = Some D \<and> in_sync L f D)"

lemma rescanBlock_quiet:
  assumes "wallet_ok w s D" and "\<And>e. e \<in> set D \<Longrightarrow> \<not> occurs L e b"
  shows "rescanBlock L s b w = Inr ([], [], s)"
proof -
  from assms(1) obtain f where f: "rescanFilter s w = Some f" "filterData s w = Some D" "in_sync L f D"
    by (auto simp: wallet_ok_def)
  from rescan_one_quiet [OF f(3)] assms(2) f show ?thesis
    by (simp add: rescanBlock_def map_upd_triv)
qed

lemma rescanBlock_step:
  assumes "wallet_ok w s D"
  obtains ms fadded s' where "rescanBlock L s b w = Inr (ms, fadded, s')" and "wallet_ok w s' (D @ fadded)"
proof -
  from assms obtain f where f: "rescanFilter s w = Some f" "filterData s w = Some D" "in_sync L f D"
    by (auto simp: wallet_ok_def)
  from rescanBlock_Inr [OF f(1,2)] obtain c where c: "rescan_one L b f D = Inr c"
    and r: "rescanBlock L s b w = Inr (rc_matches c, rc_fadded c,
      s\<lparr>rescanFilter := (rescanFilter s)(w \<mapsto> rc_filter c), filterData := (filterData s)(w \<mapsto> rc_data c)\<rparr>)"
    by blast
  note ev = rescan_one_evolves [OF c]
  then have "rc_data c = D @ rc_fadded c" by (auto simp: evolves_def)
  moreover from in_sync_evolves [OF _ ev] f(3) have "in_sync L (rc_filter c) (rc_data c)" by simp
  ultimately show thesis using that r by (auto simp: wallet_ok_def)
qed

text \<open>
  What a pass achieved: it agrees with the reference on the blocks \<open>seen\<close>, and stops early only
  behind a block that added data.
\<close>

definition pass_ok ::
  "int \<Rightarrow> 'f filters \<Rightarrow> found \<Rightarrow> entries \<Rightarrow> nat list \<Rightarrow> MsgTx list list \<Rightarrow> (nat \<times> entries) option \<Rightarrow>
   found \<Rightarrow> 'f filters \<Rightarrow> entries \<Rightarrow> bool" where
  "pass_ok w s found D seen mss r found' s' D' \<longleftrightarrow>
     scan_all L w (map block_at seen) s = Inr (mss, s') \<and>
     list_all2 (\<lambda>i ms. found_is found' (hash_at i) ms) seen mss \<and>
     (\<forall>h. h \<notin> hash_at ` set seen \<longrightarrow> found' h = found h) \<and> wallet_ok w s' D' \<and>
     (\<forall>k fadded. r = Some (k, fadded) \<longrightarrow> seen \<noteq> [] \<and> k = Suc (last seen) \<and> set D' = set D \<union> set fadded)"

lemma pass_ok_Cons:
  assumes "rescanBlock L s (block_at i) w = Inr (ms, [], s1)"
    and "pass_ok w s1 found1 D seen mss r found' s' D'" and "hash_at i \<notin> hash_at ` set seen"
    and "found_is found1 (hash_at i) ms" and "\<And>h. h \<noteq> hash_at i \<Longrightarrow> found1 h = found h"
  shows "pass_ok w s found D (i # seen) (ms # mss) r found' s' D'"
proof -
  from assms(2,3) have "found' (hash_at i) = found1 (hash_at i)" by (auto simp: pass_ok_def)
  with assms(4) have "found_is found' (hash_at i) ms" by (simp add: found_is_def)
  with assms show ?thesis by (auto simp: pass_ok_def)
qed

lemma scan_pass_ok:
  assumes "wallet_ok w s D" and "covered (set D) (set is) fetched" and "fetched_ok fetched"
    and "set is \<subseteq> {..<length chain}" and "distinct is" and "\<forall>i \<in> set is. found (hash_at i) = None"
  shows "\<exists>seen rest mss r found' s' D'. is = seen @ rest \<and> (r = None \<longrightarrow> rest = []) \<and>
    scan_pass L w chain fetched is found s = Inr (r, found', s') \<and>
    pass_ok w s found D seen mss r found' s' D'"
  using assms
proof (induction "is" arbitrary: s D found)
  case Nil
  then show ?case by (auto simp: pass_ok_def)
next
  case (Cons i "is")
  have i: "i < length chain" "i \<notin> set is" using Cons.prems by auto
  have neq: "hash_at i \<notin> hash_at ` set is"
  proof
    assume "hash_at i \<in> hash_at ` set is"
    then obtain j where j: "j \<in> set is" "hash_at i = hash_at j" by (rule imageE) simp
    with Cons.prems(4) i hash_at_inj [OF i(1) _ j(2)] show False by auto
  qed
  then have neq': "hash_at i \<notin> hash_at ` set seen" if "is = seen @ rest" for seen rest
    using that by auto
  have pre: "covered (set D) (set is) fetched" "set is \<subseteq> {..<length chain}" "distinct is"
    "\<forall>j \<in> set is. found (hash_at j) = None"
    using Cons.prems by (auto simp: covered_def)
  show ?case
  proof (cases "fetched ! i")
    case None
    have quiet: "rescanBlock L s (block_at i) w = Inr ([], [], s)"
      using Cons.prems(1,2) None by (intro rescanBlock_quiet) (auto simp: covered_def)
    obtain seen rest mss r found' s' D' where IH: "is = seen @ rest" "r = None \<longrightarrow> rest = []"
      "scan_pass L w chain fetched is found s = Inr (r, found', s')"
      "pass_ok w s found D seen mss r found' s' D'"
      using Cons.IH [OF Cons.prems(1) pre(1) Cons.prems(3) pre(2-4)] by blast
    have "found_is found (hash_at i) []" using Cons.prems(6) by (simp add: found_is_def)
    then have "pass_ok w s found D (i # seen) ([] # mss) r found' s' D'"
      by (rule pass_ok_Cons [OF quiet IH(4) neq' [OF IH(1)]]) simp
    moreover have "scan_pass L w chain fetched (i # is) found s = Inr (r, found', s')"
      using None IH(3) by simp
    moreover have "i # is = (i # seen) @ rest" using IH(1) by simp
    ultimately show ?thesis using IH(2) by blast
  next
    case (Some b)
    then have b: "b = block_at i" using Cons.prems(3) i by (simp add: fetched_ok_def)
    obtain ms fadded s1 where r1: "rescanBlock L s (block_at i) w = Inr (ms, fadded, s1)"
      and ok1: "wallet_ok w s1 (D @ fadded)" using rescanBlock_step [OF Cons.prems(1)] by blast
    let ?found = "found(hash_at i \<mapsto> ms)"
    show ?thesis
    proof (cases "fadded = []")
      case False
      then have "scan_pass L w chain fetched (i # is) found s = Inr (Some (Suc i, fadded), ?found, s1)"
        using Some r1 b by simp
      moreover have "pass_ok w s found D [i] [ms] (Some (Suc i, fadded)) ?found s1 (D @ fadded)"
        using r1 ok1 by (auto simp: pass_ok_def found_is_def)
      moreover have "i # is = [i] @ is" and "Some (Suc i, fadded) = None \<longrightarrow> is = []" by simp_all
      ultimately show ?thesis by blast
    next
      case True
      have none: "\<forall>j \<in> set is. ?found (hash_at j) = None" using pre(4) neq by (auto simp: image_iff)
      have ok1': "wallet_ok w s1 D" using ok1 True by simp
      obtain seen rest mss r found' s' D' where IH: "is = seen @ rest" "r = None \<longrightarrow> rest = []"
        "scan_pass L w chain fetched is ?found s1 = Inr (r, found', s')"
        "pass_ok w s1 ?found D seen mss r found' s' D'"
        using Cons.IH [OF ok1' pre(1) Cons.prems(3) pre(2,3) none] by blast
      have "pass_ok w s found D (i # seen) (ms # mss) r found' s' D'"
        using r1 True IH(4) neq' [OF IH(1)] by (intro pass_ok_Cons [where ?found1.0 = ?found]) (auto simp: found_is_def)
      moreover have "scan_pass L w chain fetched (i # is) found s = Inr (r, found', s')"
        using Some r1 b True IH(3) by simp
      moreover have "i # is = (i # seen) @ rest" using IH(1) by simp
      ultimately show ?thesis using IH(2) by blast
    qed
  qed
qed

text \<open>The rest of the loop after a pass: what the pass recorded stays, and what follows is appended.\<close>

lemma agree_append:
  assumes "pass_ok w s found D seen mss r found1 s1 D'" and "scan_all L w (map block_at rest) s1 = Inr (mss', s')"
    and "list_all2 (\<lambda>i ms. found_is found' (hash_at i) ms) rest mss'"
    and "\<And>h. h \<notin> hash_at ` set rest \<Longrightarrow> found' h = found1 h"
    and "hash_at ` set seen \<inter> hash_at ` set rest = {}"
  shows "scan_all L w (map block_at (seen @ rest)) s = Inr (mss @ mss', s') \<and>
    list_all2 (\<lambda>i ms. found_is found' (hash_at i) ms) (seen @ rest) (mss @ mss') \<and>
    (\<forall>h. h \<notin> hash_at ` set (seen @ rest) \<longrightarrow> found' h = found h)"
proof -
  from assms(1) have a: "scan_all L w (map block_at seen) s = Inr (mss, s1)"
    "list_all2 (\<lambda>i ms. found_is found1 (hash_at i) ms) seen mss"
    "\<forall>h. h \<notin> hash_at ` set seen \<longrightarrow> found1 h = found h" by (auto simp: pass_ok_def)
  have "list_all2 (\<lambda>i ms. found_is found' (hash_at i) ms) seen mss"
  proof (rule list.rel_mono_strong [OF a(2)])
    fix i ms assume "i \<in> set seen" and f: "found_is found1 (hash_at i) ms"
    with assms(5) have "hash_at i \<notin> hash_at ` set rest" by blast
    with assms(4) f show "found_is found' (hash_at i) ms" by (simp add: found_is_def)
  qed
  with a assms show ?thesis by (simp add: scan_all_append list_all2_appendI image_Un)
qed

lemma hashes_disjoint:
  "k \<le> length chain \<Longrightarrow> hash_at ` set [m..<k] \<inter> hash_at ` set [k..<length chain] = {}"
proof -
  assume k: "k \<le> length chain"
  have "hash_at i \<noteq> hash_at j" if "i < k" "k \<le> j" "j < length chain" for i j
    using that k hash_at_inj [of i j] by auto
  then show ?thesis by (auto simp: image_iff)
qed

definition loop_pre :: "int \<Rightarrow> nat \<Rightarrow> entries \<Rightarrow> MsgBlock option list \<Rightarrow> found \<Rightarrow> 'f filters \<Rightarrow> entries \<Rightarrow> bool" where
  "loop_pre w idx d fetched found s D \<longleftrightarrow> idx \<le> length chain \<and> wallet_ok w s D \<and> fetched_ok fetched \<and>
     covered (set D - set d) {idx..<length chain} fetched \<and>
     (\<forall>i \<in> {idx..<length chain}. found (hash_at i) = None)"

text \<open>A pass from a good state ends the scan, or leaves a good state behind its last block.\<close>

lemma loop_pass:
  assumes "loop_pre w idx d fetched found s D" and "idx < length chain"
    and "fetch_matches P chain idx d fetched = Inr fetched1"
  obtains (finish) mss found1 s1 D' where
      "scan_pass L w chain fetched1 [idx..<length chain] found s = Inr (None, found1, s1)"
      "pass_ok w s found D [idx..<length chain] mss None found1 s1 D'"
  | (again) k d' mss found1 s1 D' where
      "scan_pass L w chain fetched1 [idx..<length chain] found s = Inr (Some (k, d'), found1, s1)"
      "pass_ok w s found D [idx..<k] mss (Some (k, d')) found1 s1 D'"
      "idx < k" "k \<le> length chain" "loop_pre w k d' fetched1 found1 s1 D'"
proof -
  note pre = assms(1) [unfolded loop_pre_def]
  note f1 = fetch_matches_ok [OF assms(3)] fetch_matches_covers [OF assms(3), of "set D"]
  have cov: "covered (set D) (set [idx..<length chain]) fetched1" using f1(2) pre by simp
  have sub: "set [idx..<length chain] \<subseteq> {..<length chain}" by auto
  have wok: "wallet_ok w s D" and fok: "fetched_ok fetched1" using pre f1(1) by simp_all
  have none: "\<forall>i \<in> set [idx..<length chain]. found (hash_at i) = None" using pre by simp
  obtain seen rest mss r found1 s1 D' where sr: "[idx..<length chain] = seen @ rest" "r = None \<longrightarrow> rest = []"
    and p: "scan_pass L w chain fetched1 [idx..<length chain] found s = Inr (r, found1, s1)"
    and ok: "pass_ok w s found D seen mss r found1 s1 D'"
    using scan_pass_ok [OF wok cov fok sub distinct_upt none] by blast
  show thesis
  proof (cases r)
    case None
    with sr p ok finish show thesis by simp
  next
    case (Some kd)
    then obtain k d' where r: "r = Some (k, d')" by (cases kd) auto
    with ok have "seen \<noteq> []" and k: "k = Suc (last seen)" and D': "set D' = set D \<union> set d'"
      by (auto simp: pass_ok_def)
    from upt_prefix [OF sr(1) this(1)] k
    have s: "seen = [idx..<k]" "rest = [k..<length chain]" "idx < k" "k \<le> length chain" by auto
    have "found1 (hash_at i) = None" if "i \<in> {k..<length chain}" for i
    proof -
      have "hash_at i \<in> hash_at ` set [k..<length chain]" using that by simp
      with hashes_disjoint [OF s(4), of idx] have "hash_at i \<notin> hash_at ` set seen"
        unfolding s(1) by blast
      with ok have "found1 (hash_at i) = found (hash_at i)" by (simp add: pass_ok_def)
      with that pre s(3) show ?thesis by simp
    qed
    moreover have "covered (set D' - set d') {k..<length chain} fetched1"
      using cov D' s(3) by (auto simp: covered_def)
    moreover have "wallet_ok w s1 D'" using ok by (simp add: pass_ok_def)
    ultimately have "loop_pre w k d' fetched1 found1 s1 D'"
      using f1(1) pre s(4) by (simp add: loop_pre_def)
    with again p ok r s show thesis by blast
  qed
qed

lemma scan_loop_agrees:
  assumes "loop_pre w idx d fetched found s D" and "scan_loop L P w chain idx d fetched found s = Inr (found', s')"
  shows "\<exists>mss. scan_all L w (map block_at [idx..<length chain]) s = Inr (mss, s') \<and>
    list_all2 (\<lambda>i ms. found_is found' (hash_at i) ms) [idx..<length chain] mss \<and>
    (\<forall>h. h \<notin> hash_at ` set [idx..<length chain] \<longrightarrow> found' h = found h)"
  using assms
proof (induction "length chain - idx" arbitrary: idx d fetched found s D rule: less_induct)
  case less
  show ?case
  proof (cases "idx < length chain")
    case False
    with less.prems show ?thesis by (simp add: scan_loop.simps [of L P w chain idx])
  next
    case True
    with less.prems(2) obtain fetched1 where f: "fetch_matches P chain idx d fetched = Inr fetched1"
      and c: "ctx_Err P idx = None"
      by (auto simp: scan_loop.simps [of L P w chain idx] split: sum.splits option.splits)
    note eq = less.prems(2) [unfolded scan_loop.simps [of L P w chain idx]]
    from less.prems(1) True f show ?thesis
    proof (cases rule: loop_pass)
      case (finish mss found1 s1 D')
      with eq True f c show ?thesis by (auto simp: pass_ok_def)
    next
      case (again k d' mss found1 s1 D')
      with eq True f c have "scan_loop L P w chain k d' fetched1 found1 s1 = Inr (found', s')" by simp
      moreover have "length chain - k < length chain - idx" using again(3) True by linarith
      ultimately obtain mss' where
        "scan_all L w (map block_at [k..<length chain]) s1 = Inr (mss', s')"
        "list_all2 (\<lambda>i ms. found_is found' (hash_at i) ms) [k..<length chain] mss'"
        "\<forall>h. h \<notin> hash_at ` set [k..<length chain] \<longrightarrow> found' h = found1 h"
        using less.hyps [OF _ again(5)] by blast
      with agree_append [OF again(2) this(1,2)] hashes_disjoint [OF again(4), of idx]
      have "\<exists>mss. scan_all L w (map block_at ([idx..<k] @ [k..<length chain])) s = Inr (mss, s') \<and>
        list_all2 (\<lambda>i ms. found_is found' (hash_at i) ms) ([idx..<k] @ [k..<length chain]) mss \<and>
        (\<forall>h. h \<notin> hash_at ` set ([idx..<k] @ [k..<length chain]) \<longrightarrow> found' h = found h)" by blast
      moreover have "[idx..<k] @ [k..<length chain] = [idx..<length chain]"
        using again(3,4) by (metis le_add_diff_inverse less_imp_le upt_add_eq_append)
      ultimately show ?thesis by simp
    qed
  qed
qed

lemma start_pre:
  assumes "wallet_ok w s D"
  shows "loop_pre w 0 D (map (\<lambda>n. bmap (bn_Hash n)) chain) Map.empty s D"
  using assms by (auto simp: loop_pre_def fetched_ok_def covered_def dest: announced_blocks)

lemma wallet_ok_synced:
  assumes "filters_in_sync L s" and "rescanFilter s w \<noteq> None"
  obtains D where "wallet_ok w s D"
proof -
  from assms obtain f where f: "rescanFilter s w = Some f" by auto
  with assms(1) have "w \<in> dom (filterData s)" by (auto simp: filters_in_sync_def)
  then obtain D where D: "filterData s w = Some D" by blast
  with f assms(1) that show thesis by (auto simp: wallet_ok_def filters_in_sync_def)
qed

lemma scanChain_agrees:
  assumes "wallet_ok w s D" and "scanChain L P chain bmap w s = Inr (found, s')"
  shows "\<exists>mss. scan_all L w (map (\<lambda>n. blk (bn_Hash n)) chain) s = Inr (mss, s') \<and>
    list_all2 (\<lambda>n ms. found_is found (bn_Hash n) ms) chain mss \<and>
    (\<forall>h. h \<notin> bn_Hash ` set chain \<longrightarrow> found h = None)"
proof -
  from assms have "scan_loop L P w chain 0 D (map (\<lambda>n. bmap (bn_Hash n)) chain) Map.empty s = Inr (found, s')"
    by (auto simp: scanChain_def wallet_ok_def)
  from scan_loop_agrees [OF start_pre [OF assms(1)] this] obtain mss where
    m: "scan_all L w (map block_at [0..<length chain]) s = Inr (mss, s')"
      "list_all2 (\<lambda>i ms. found_is found (hash_at i) ms) [0..<length chain] mss"
      "\<forall>h. h \<notin> hash_at ` set [0..<length chain] \<longrightarrow> found h = None" by auto
  have c: "map ((!) chain) [0..<length chain] = chain" by (rule map_nth)
  have "map block_at [0..<length chain] = map (\<lambda>n. blk (bn_Hash n)) (map ((!) chain) [0..<length chain])"
    by (simp only: map_map comp_def)
  moreover have "list_all2 (\<lambda>n ms. found_is found (bn_Hash n) ms) (map ((!) chain) [0..<length chain]) mss"
    using m(2) by (simp only: list_all2_map1)
  moreover have "hash_at ` set [0..<length chain] = bn_Hash ` set (map ((!) chain) [0..<length chain])"
    by (simp add: image_image)
  ultimately show ?thesis using m(1,3) unfolding c by auto
qed

end

text \<open>A peer that answers with valid blocks, and a scan that is not cancelled.\<close>

locale answering_peer = scan_env L P blk chain bmap
  for L :: "('a, 'f) spv_lib" and P :: "'g peer" and blk :: "hash \<Rightarrow> MsgBlock"
    and chain :: "'g BlockNode list" and bmap :: "hash \<rightharpoonup> MsgBlock" +
  assumes answers: "set hs \<subseteq> bn_Hash ` set chain \<Longrightarrow> Blocks P hs = Inr (map blk hs)"
    and valid_blocks: "n \<in> set chain \<Longrightarrow> block_error P (blk (bn_Hash n)) (bn_Filter n) = None"
    and not_cancelled: "ctx_Err P idx = None"
begin

lemma place_blocks_total:
  "set is \<subseteq> {..<length chain} \<Longrightarrow> \<exists>fetched'. place_blocks P chain is (map block_at is) fetched = Inr fetched'"
proof (induction "is" arbitrary: fetched)
  case (Cons i "is")
  then have "block_error P (block_at i) (bn_Filter (chain ! i)) = None" by (intro valid_blocks) simp
  with Cons show ?case by simp
qed simp

lemma fetch_matches_total: "\<exists>fetched'. fetch_matches P chain idx d fetched = Inr fetched'"
proof -
  define hits where "hits = workers P (filter (\<lambda>i. fetched ! i = None \<and> node_matches P (chain ! i) d) [idx..<length chain])"
  have sub: "set hits \<subseteq> {..<length chain}" by (auto simp: hits_def workers_set)
  then have "set (map hash_at hits) \<subseteq> bn_Hash ` set chain" by auto
  from answers [OF this] have "Blocks P (map hash_at hits) = Inr (map block_at hits)" by (simp add: comp_def)
  with place_blocks_total [OF sub] show ?thesis
    by (simp add: fetch_matches_def hits_def [symmetric])
qed

lemma scan_loop_total:
  assumes "loop_pre w idx d fetched found s D"
  shows "\<exists>r. scan_loop L P w chain idx d fetched found s = Inr r"
  using assms
proof (induction "length chain - idx" arbitrary: idx d fetched found s D rule: less_induct)
  case less
  note unf = scan_loop.simps [of L P w chain idx]
  show ?case
  proof (cases "idx < length chain")
    case True
    obtain fetched1 where f: "fetch_matches P chain idx d fetched = Inr fetched1"
      using fetch_matches_total by blast
    from less.prems True f show ?thesis
    proof (cases rule: loop_pass)
      case (finish mss found1 s1 D')
      with True f show ?thesis by (simp add: unf not_cancelled)
    next
      case (again k d' mss found1 s1 D')
      have "length chain - k < length chain - idx" using again(3) True by linarith
      from less.hyps [OF this again(5)] again(1) True f show ?thesis by (simp add: unf not_cancelled)
    qed
  qed (simp add: unf)
qed

lemma scanChain_total:
  assumes "wallet_ok w s D"
  shows "\<exists>found s'. scanChain L P chain bmap w s = Inr (found, s')"
  using scan_loop_total [OF start_pre [OF assms]] assms by (auto simp: scanChain_def wallet_ok_def)

end

section \<open>A reference peer\<close>

text \<open>The compact filter of a block is the block itself, which has neither false negatives nor false positives.\<close>

definition ref_blk :: "hash \<Rightarrow> MsgBlock" where
  "ref_blk h = (if h = [1] then ex_block [ex_tx 1 0 [8], ex_tx 2 1 [9]]
     else ex_block [ex_tx 3 0 [8], \<lparr>tx_Version = 1,
       TxIn = [\<lparr>PreviousOutPoint = \<lparr>op_Hash = [2], op_Index = 0, op_Tree = 0\<rparr>, ValueIn = 7\<rparr>],
       TxOut = [], LockTime = 4, Expiry = 0\<rparr>])"

definition ref_peer :: "MsgBlock peer" where
  "ref_peer = \<lparr>Filter_N = (\<lambda>g. 1), MatchAny = (\<lambda>g k d. \<exists>e \<in> set d. occurs ref_lib e g),
     CFKey = (\<lambda>h. h), Blocks = (\<lambda>hs. Inr (map ref_blk hs)), MerkleRoots = (\<lambda>b. None),
     DCP0005MerkleRoot = (\<lambda>b. None), RegularCFilter = (\<lambda>b g. None), ctx_Err = (\<lambda>i. None), workers = rev\<rparr>"

definition ref_node :: "hash \<Rightarrow> MsgBlock BlockNode" where
  "ref_node h = \<lparr>bn_Header = blk_Header (ref_blk h), bn_Hash = h, bn_Filter = ref_blk h\<rparr>"

abbreviation ref_chain :: "MsgBlock BlockNode list" where
  "ref_chain \<equiv> [ref_node [1], ref_node [2]]"

interpretation refscan: answering_peer ref_lib ref_peer ref_blk ref_chain Map.empty
  by unfold_locales (auto simp: ref_peer_def ref_node_def node_matches_def block_error_def)

lemma ex_filters_ok: "filters_in_sync ref_lib ex_filters" and ex_filters_1: "rescanFilter ex_filters 1 \<noteq> None"
  by (simp_all add: filters_in_sync_def in_sync_def ex_filters_def ref_lib_def)

section \<open>Properties\<close>





end
