(* ===== verification/SpvRelay.thy ===== *)
theory SpvRelay
  imports SpvFilter
begin

text \<open>
  Transactions on the peer-to-peer network: answering \<open>getdata\<close> requests (\<open>receiveGetData\<close>,
  \<open>getTransactionsByHashes\<close>), taking in announced transactions (\<open>handleTxInvs\<close>), and announcing the
  wallet's own (\<open>PublishTransactions\<close>, \<open>forRemotes\<close>, \<open>pickRemote\<close>), of \<open>spv/sync.go\<close> and
  \<open>spv/backend.go\<close>.  The iteration over the map of wallets or of peers is over a list in an
  arbitrary order.
\<close>

section \<open>Peers\<close>

definition forRemotes :: "'r list \<Rightarrow> ('s \<Rightarrow> 'r \<Rightarrow> 's \<times> err option) \<Rightarrow> 's \<Rightarrow> 's \<times> err option" where
  "forRemotes remotes f s =
     (if remotes = [] then (s, Some (E NoPeers []))
      else foldl (\<lambda>(s, e) rp. case e of Some er \<Rightarrow> (s, e) | None \<Rightarrow> f s rp) (s, None) remotes)"

definition pickRemote :: "'r list \<Rightarrow> ('r \<Rightarrow> bool) \<Rightarrow> 'r result" where
  "pickRemote remotes pick = (case find pick remotes of Some rp \<Rightarrow> Inr rp | None \<Rightarrow> Inl (E NoPeers []))"

text \<open>
  \<open>PublishTransactions\<close>: the hashes are marked as announced before the message is sent to a peer.
  \<open>maxInv\<close> is the limit of \<open>AddInvVect\<close>, \<open>sent\<close> the announced hashes of every peer, \<open>send\<close> a peer's
  \<open>SendMessage\<close>.
\<close>

definition PublishTransactions ::
  "('a, 'f) spv_lib \<Rightarrow> nat \<Rightarrow> 'r list \<Rightarrow> ('r \<Rightarrow> hash list \<Rightarrow> err option) \<Rightarrow> ('r \<Rightarrow> hash list) \<Rightarrow> MsgTx list \<Rightarrow> ('r \<Rightarrow> hash list) \<times> err option" where
  "PublishTransactions L maxInv remotes send sent txs =
     (if maxInv < length txs then (sent, Some (E Protocol ''too many invvect''))
      else let invs = map (TxHash L) txs in
           forRemotes remotes (\<lambda>sent rp. (sent(rp := sent rp @ invs), send rp invs)) sent)"

section \<open>Answering \<open>getdata\<close>\<close>

text \<open>
  The removal of a found hash ranges over \<open>txHashes\<close> while it is shortened.  The range keeps the
  slice it started with, \<open>n\<close> elements of the array \<open>arr\<close>; the variable is a prefix of the same array,
  of length \<open>len\<close>, and an \<open>append\<close> shifts the elements behind \<open>index\<close> one down in the array.
\<close>

definition remove_step :: "hash \<Rightarrow> hash list \<times> nat \<Rightarrow> nat \<Rightarrow> (hash list \<times> nat) result" where
  "remove_step h = (\<lambda>(arr, len) index.
     if arr ! index = h
     then if Suc index \<le> len
          then Inr (take index arr @ drop (Suc index) (take len arr) @ drop (len - 1) arr, len - 1)
          else Inl (Panic ''slice bounds out of range'')
     else Inr (arr, len))"

definition remove_found :: "('a, 'f) spv_lib \<Rightarrow> hash list \<times> nat \<Rightarrow> MsgTx \<Rightarrow> (hash list \<times> nat) result" where
  "remove_found L = (\<lambda>(arr, len) tx. traverse (remove_step (TxHash L tx)) (arr, len) [0..<len])"

fun is_NotExist :: "err option \<Rightarrow> bool" where
  "is_NotExist (Some (E NotExist m)) = True"
| "is_NotExist e = False"

text \<open>\<open>lookup\<close> is a wallet's \<open>GetTransactionsByHashes\<close>.\<close>

fun search_wallets ::
  "('a, 'f) spv_lib \<Rightarrow> ('w \<Rightarrow> hash list \<Rightarrow> MsgTx list \<times> err option) \<Rightarrow> 'w list \<Rightarrow> hash list \<Rightarrow> MsgTx list \<Rightarrow>
   (MsgTx list \<times> hash list) result" where
  "search_wallets L lookup [] txHashes found = Inr (found, txHashes)"
| "search_wallets L lookup (w # ws) txHashes found =
     (let (txs, er) = lookup w txHashes in
      if er \<noteq> None \<and> \<not> is_NotExist er then Inl (New ''Failed to look up transactions'')
      else case traverse (remove_found L) (txHashes, length txHashes) txs of
        Inl e \<Rightarrow> Inl e
      | Inr (arr, len) \<Rightarrow>
          if len = 0 then Inr (found @ txs, [])
          else search_wallets L lookup ws (take len arr) (found @ txs))"

definition getTransactionsByHashes ::
  "('a, 'f) spv_lib \<Rightarrow> ('w \<Rightarrow> hash list \<Rightarrow> MsgTx list \<times> err option) \<Rightarrow> 'w list \<Rightarrow> hash list \<Rightarrow> (MsgTx list \<times> hash list) result" where
  "getTransactionsByHashes L lookup ws txHashes =
     (if txHashes = [] then Inr ([], []) else search_wallets L lookup ws txHashes [])"

datatype InvType = InvTypeError | InvTypeTx | InvTypeBlock | InvTypeFilteredBlock

record InvVect =
  inv_Type :: InvType
  inv_Hash :: hash

datatype reply = SendTx MsgTx | SendNotFound "InvVect list"

text \<open>
  The handler of one request: the replies in the order they are sent.  A failed look-up sends
  nothing, a failed send is only logged.
\<close>

definition receiveGetData ::
  "('a, 'f) spv_lib \<Rightarrow> ('w \<Rightarrow> hash list \<Rightarrow> MsgTx list \<times> err option) \<Rightarrow> 'w list \<Rightarrow> hash set \<Rightarrow> InvVect list \<Rightarrow> reply list result" where
  "receiveGetData L lookup ws invsSent invList =
     (let asked = (\<lambda>inv. inv_Hash inv \<in> invsSent \<and> inv_Type inv = InvTypeTx);
          txHashes = map inv_Hash (filter asked invList);
          notFound = filter (\<lambda>inv. \<not> asked inv) invList
      in case (if txHashes = [] then Inr ([], []) else getTransactionsByHashes L lookup ws txHashes) of
           Inl (Panic m) \<Rightarrow> Inl (Panic m)
         | Inl e \<Rightarrow> Inr []
         | Inr (foundTxs, missing) \<Rightarrow>
             let nf = notFound @ map (\<lambda>h. \<lparr>inv_Type = InvTypeTx, inv_Hash = h\<rparr>) missing
             in Inr (map SendTx foundTxs @ (if nf \<noteq> [] then [SendNotFound nf] else [])))"

section \<open>Announced transactions\<close>

text \<open>\<open>rescan_point\<close>: an error, or whether the wallet has a rescan point.  \<open>None\<close> is the early return.\<close>

fun some_wallet_synced :: "('w \<Rightarrow> bool result) \<Rightarrow> 'w list \<Rightarrow> bool" where
  "some_wallet_synced rescan_point [] = False"
| "some_wallet_synced rescan_point (w # ws) =
     (case rescan_point w of
        Inl e \<Rightarrow> False
      | Inr True \<Rightarrow> some_wallet_synced rescan_point ws
      | Inr False \<Rightarrow> True)"

text \<open>
  Saving the relevant transactions: \<open>filterRelevant\<close> works in place, so the next wallet is given the
  array as the previous one left it.  The result lists what each wallet accepts and is notified of.
\<close>

fun save_relevant :: "('a, 'f) spv_lib \<Rightarrow> 'f filters \<Rightarrow> int list \<Rightarrow> MsgTx list \<Rightarrow> (int \<times> MsgTx list) list result" where
  "save_relevant L s [] txs = Inr []"
| "save_relevant L s (w # ws) txs =
     (case filterRelevant L s txs w of
        Inl e \<Rightarrow> Inl e
      | Inr (relevant, txs') \<Rightarrow> bind_res (save_relevant L s ws txs') (\<lambda>rest. Inr ((w, relevant) # rest)))"

record 'c lru =
  Contains :: "'c \<Rightarrow> hash \<Rightarrow> bool"
  Add :: "'c \<Rightarrow> hash \<Rightarrow> 'c"

text \<open>
  \<open>handleTxInvs\<close>.  \<open>fetch\<close> is the peer's \<open>Transactions\<close>: one entry per hash, nil for a transaction it
  does not have, with \<open>NotExist\<close> when there is such an entry.
\<close>

definition handleTxInvs ::
  "('a, 'f) spv_lib \<Rightarrow> 'c lru \<Rightarrow> (int \<Rightarrow> bool result) \<Rightarrow> (hash list \<Rightarrow> MsgTx option list \<times> err option) \<Rightarrow>
   'f filters \<Rightarrow> int list \<Rightarrow> 'c \<Rightarrow> hash list \<Rightarrow> 'c \<times> (int \<times> MsgTx list) list result" where
  "handleTxInvs L C rescan_point fetch s ws seen hashes =
     (if \<not> some_wallet_synced rescan_point ws then (seen, Inr [])
      else let unseen = filter (\<lambda>h. \<not> Contains C seen h) hashes in
      if unseen = [] then (seen, Inr [])
      else case fetch unseen of
        (txs, None) \<Rightarrow>
          (if None \<in> set txs then (foldl (Add C) seen unseen, Inl (Panic ''nil transaction''))
           else (foldl (Add C) seen unseen, save_relevant L s ws (map the txs)))
      | (txs, Some (E NotExist m)) \<Rightarrow>
          (let got = filter (\<lambda>(tx, h). tx \<noteq> None) (zip txs unseen) in
           (foldl (Add C) seen (map snd got), save_relevant L s ws (map (the \<circ> fst) got)))
      | (txs, Some er) \<Rightarrow> (seen, Inr []))"

section \<open>Lemmas\<close>

lemma filter_neq_id: "h \<notin> set xs \<Longrightarrow> filter (\<lambda>x. x \<noteq> h) xs = xs"
  by (induction xs) auto

lemma remove_nothing: "(\<And>i. i \<in> set is \<Longrightarrow> arr ! i \<noteq> h) \<Longrightarrow> traverse (remove_step h) (arr, len) is = Inr (arr, len)"
  by (induction "is") (auto simp: remove_step_def)

lemma remove_found_distinct:
  assumes "len \<le> length arr" and "distinct (take len arr)"
  shows "\<exists>arr' len'. remove_found L (arr, len) tx = Inr (arr', len') \<and> len' \<le> length arr' \<and>
    take len' arr' = filter (\<lambda>h. h \<noteq> TxHash L tx) (take len arr)"
proof (cases "TxHash L tx \<in> set (take len arr)")
  case False
  then have "arr ! i \<noteq> TxHash L tx" if "i \<in> set [0..<len]" for i
    using that assms(1) by (auto simp: in_set_conv_nth)
  moreover have "filter (\<lambda>h. h \<noteq> TxHash L tx) (take len arr) = take len arr"
    using False by (rule filter_neq_id)
  ultimately show ?thesis using remove_nothing [of "[0..<len]" arr "TxHash L tx" len] assms(1)
    by (auto simp: remove_found_def)
next
  case True
  define h where "h = TxHash L tx"
  from True assms(1) obtain i where i: "i < len" "arr ! i = h" by (auto simp: in_set_conv_nth h_def)
  have others: "arr ! k \<noteq> h" if "k < len" "k \<noteq> i" for k
    using i that assms by (metis distinct_conv_nth length_take min.absorb2 nth_take)
  define arr' where "arr' = take i arr @ drop (Suc i) (take len arr) @ drop (len - 1) arr"
  have nth': "arr' ! k = (if k < len - 1 then arr ! Suc k else arr ! (len - 1))" if "Suc i \<le> k" "k < len" for k
  proof -
    have "k = len - 1" if "\<not> k < len - 1" using that \<open>k < len\<close> by simp
    then show ?thesis using that i assms(1) by (auto simp: arr'_def nth_append)
  qed
  have "arr' ! k \<noteq> h" if "k \<in> set [Suc i..<len]" for k
    using that nth' [of k] others [of "Suc k"] others [of "len - 1"] i by (auto split: if_splits)
  then have rest: "traverse (remove_step h) (arr', len - 1) [Suc i..<len] = Inr (arr', len - 1)" by (rule remove_nothing)
  have first: "traverse (remove_step h) (arr, len) [0..<i] = Inr (arr, len)"
    by (rule remove_nothing) (use others i in auto)
  have "[0..<len] = [0..<i] @ i # [Suc i..<len]"
    using i by (metis append_Cons upt_add_eq_append upt_conv_Cons less_imp_add_positive less_imp_le_nat le_add1 add_0 le0)
  with rest first i have "remove_found L (arr, len) tx = Inr (arr', len - 1)"
    by (simp add: remove_found_def h_def [symmetric] traverse_append bind_res_def remove_step_def arr'_def)
  moreover have "take (len - 1) arr' = filter (\<lambda>x. x \<noteq> h) (take len arr)"
  proof -
    have split: "take len arr = take i arr @ h # drop (Suc i) (take len arr)"
      using i assms(1) id_take_nth_drop [of i "take len arr"] by simp
    have "h \<notin> set (take i arr) \<and> h \<notin> set (drop (Suc i) (take len arr))"
      using assms(2) by (subst (asm) split) auto
    then have "filter (\<lambda>x. x \<noteq> h) (take len arr) = take i arr @ drop (Suc i) (take len arr)"
      by (subst split) (simp add: filter_neq_id)
    then show ?thesis using i assms(1) by (simp add: arr'_def)
  qed
  moreover have "len - 1 \<le> length arr'" using i assms(1) by (simp add: arr'_def)
  ultimately show ?thesis by (auto simp: h_def)
qed

lemma remove_all_found:
  assumes "len \<le> length arr" and "distinct (take len arr)"
  shows "\<exists>arr' len'. traverse (remove_found L) (arr, len) txs = Inr (arr', len') \<and> len' \<le> length arr' \<and>
    take len' arr' = filter (\<lambda>h. h \<notin> TxHash L ` set txs) (take len arr)"
  using assms
proof (induction txs arbitrary: arr len)
  case (Cons tx txs)
  obtain arr1 len1 where 1: "remove_found L (arr, len) tx = Inr (arr1, len1)" "len1 \<le> length arr1"
    "take len1 arr1 = filter (\<lambda>h. h \<noteq> TxHash L tx) (take len arr)"
    using remove_found_distinct [OF Cons.prems] by blast
  then have "distinct (take len1 arr1)" using Cons.prems by simp
  from Cons.IH [OF 1(2) this] 1 show ?case by (auto simp: conj_commute)
qed simp

text \<open>What a wallet's look-up promises for distinct hashes: exactly the known transactions, once each.\<close>

locale tx_lookup =
  fixes L :: "('a, 'f) spv_lib" and lookup :: "'w \<Rightarrow> hash list \<Rightarrow> MsgTx list \<times> err option" and known :: "'w \<Rightarrow> hash set"
  assumes lookup_known: "lookup w hs = (txs, er) \<Longrightarrow> distinct hs \<Longrightarrow> er = None \<or> is_NotExist er \<Longrightarrow>
    TxHash L ` set txs = set hs \<inter> known w \<and> distinct (map (TxHash L) txs)"
begin

lemma search_step:
  assumes "distinct hs" and "lookup w hs = (txs, er)" and "er = None \<or> is_NotExist er"
  shows "\<exists>arr len. traverse (remove_found L) (hs, length hs) txs = Inr (arr, len) \<and> len \<le> length arr \<and>
    take len arr = filter (\<lambda>h. h \<notin> known w) hs"
proof -
  have "filter (\<lambda>h. h \<notin> TxHash L ` set txs) hs = filter (\<lambda>h. h \<notin> known w) hs"
    using lookup_known [OF assms(2,1,3)] by (intro filter_cong) auto
  with remove_all_found [of "length hs" hs L txs] assms(1) show ?thesis by simp
qed

lemma search_wallets_partition:
  assumes "distinct hs" and "search_wallets L lookup ws hs found = r"
  shows "(\<exists>m. r = Inl (New m)) \<or> (\<exists>new. r = Inr (found @ new, filter (\<lambda>h. \<forall>w \<in> set ws. h \<notin> known w) hs) \<and>
    TxHash L ` set new = {h \<in> set hs. \<exists>w \<in> set ws. h \<in> known w} \<and> distinct (map (TxHash L) new))"
  using assms
proof (induction ws arbitrary: hs found r)
  case (Cons w ws)
  obtain txs er where l: "lookup w hs = (txs, er)" by fastforce
  show ?case
  proof (cases "er = None \<or> is_NotExist er")
    case False
    with Cons.prems l show ?thesis by auto
  next
    case True
    define hs' where "hs' = filter (\<lambda>h. h \<notin> known w) hs"
    obtain arr len where t: "traverse (remove_found L) (hs, length hs) txs = Inr (arr, len)"
      "len \<le> length arr" "take len arr = hs'"
      using search_step [OF Cons.prems(1) l True] unfolding hs'_def by blast
    note known = lookup_known [OF l Cons.prems(1) True]
    have filt: "filter (\<lambda>h. \<forall>w \<in> set ws. h \<notin> known w) hs' = filter (\<lambda>h. \<forall>w \<in> set (w # ws). h \<notin> known w) hs"
      by (simp add: hs'_def conj_commute)
    show ?thesis
    proof (cases "len = 0")
      case True
      with t have none: "hs' = []" by auto
      then have "set hs \<subseteq> known w" by (auto simp: hs'_def filter_empty_conv)
      moreover have "r = Inr (found @ txs, [])" using Cons.prems(2) l t True \<open>er = None \<or> is_NotExist er\<close> by auto
      ultimately show ?thesis using known filt none by (intro disjI2 exI [of _ txs]) auto
    next
      case False
      then have "search_wallets L lookup ws hs' (found @ txs) = r"
        using Cons.prems(2) l t \<open>er = None \<or> is_NotExist er\<close> by auto
      moreover have "distinct hs'" using Cons.prems(1) by (simp add: hs'_def)
      ultimately consider m where "r = Inl (New m)"
        | new where "r = Inr ((found @ txs) @ new, filter (\<lambda>h. \<forall>w \<in> set ws. h \<notin> known w) hs')"
            "TxHash L ` set new = {h \<in> set hs'. \<exists>w \<in> set ws. h \<in> known w}" "distinct (map (TxHash L) new)"
        using Cons.IH by blast
      then show ?thesis
      proof cases
        case 2
        have "TxHash L ` set (txs @ new) = {h \<in> set hs. \<exists>w \<in> set (w # ws). h \<in> known w}"
          using known 2(2) by (auto simp: hs'_def image_Un)
        moreover have "distinct (map (TxHash L) (txs @ new))"
          using known 2(2,3) by (auto simp: hs'_def)
        moreover have "r = Inr (found @ (txs @ new), filter (\<lambda>h. \<forall>w \<in> set (w # ws). h \<notin> known w) hs)"
          using 2(1) filt by simp
        ultimately show ?thesis by blast
      qed blast
    qed
  qed
qed auto

end

section \<open>Properties\<close>

text \<open>
  Answering a request for transactions.  For distinct hashes \<open>getTransactionsByHashes\<close> does not
  panic although it shortens the slice it ranges over: unless a wallet's look-up fails, the found
  transactions are those of the requested hashes that some wallet knows, each once, and the hashes
  reported as not found are exactly the others, in the order of the request.
\<close>

theorem getTransactionsByHashes_partitions:
  assumes "tx_lookup L lookup known" and "distinct hashes"
  shows "(\<exists>m. getTransactionsByHashes L lookup ws hashes = Inl (New m)) \<or>
    (\<exists>found. getTransactionsByHashes L lookup ws hashes = Inr (found, filter (\<lambda>h. \<forall>w \<in> set ws. h \<notin> known w) hashes) \<and>
       TxHash L ` set found = {h \<in> set hashes. \<exists>w \<in> set ws. h \<in> known w} \<and> distinct (map (TxHash L) found))"
proof (cases "hashes = []")
  case True
  then show ?thesis by (simp add: getTransactionsByHashes_def)
next
  case False
  with tx_lookup.search_wallets_partition [OF assms(1,2) refl, of ws "[]"] show ?thesis
    by (simp add: getTransactionsByHashes_def)
qed

text \<open>Wallets of the examples: lists of transactions.\<close>

definition ex_lookup :: "MsgTx list \<Rightarrow> hash list \<Rightarrow> MsgTx list \<times> err option" where
  "ex_lookup w hs = (concat (map (\<lambda>h. case find (\<lambda>t. TxHash ref_lib t = h) w of Some t \<Rightarrow> [t] | None \<Rightarrow> []) hs), None)"

interpretation ref_lookup: tx_lookup ref_lib ex_lookup "\<lambda>w. TxHash ref_lib ` set w"
proof
  fix w hs txs er
  assume "ex_lookup w hs = (txs, er)" and "distinct hs"
  then show "TxHash ref_lib ` set txs = set hs \<inter> TxHash ref_lib ` set w \<and> distinct (map (TxHash ref_lib) txs)"
  proof (induction hs arbitrary: txs)
    case (Cons h hs)
    obtain txs' where t: "ex_lookup w hs = (txs', er)" using Cons.prems by (auto simp: ex_lookup_def)
    note IH = Cons.IH [OF t] 
    show ?case
    proof (cases "find (\<lambda>t. TxHash ref_lib t = h) w")
      case None
      then have "h \<notin> TxHash ref_lib ` set w" by (auto simp: find_None_iff)
      with None IH Cons.prems t show ?thesis by (auto simp: ex_lookup_def)
    next
      case (Some x)
      then have x: "TxHash ref_lib x = h" "x \<in> set w" by (auto simp: find_Some_iff)
      with Some Cons.prems t have "txs = x # txs'" by (auto simp: ex_lookup_def)
      with IH Cons.prems x show ?thesis by auto
    qed
  qed (simp add: ex_lookup_def)
qed

theorem getTransactionsByHashes_partitions_witness:
  "\<exists>found. getTransactionsByHashes ref_lib ex_lookup [[ex_tx 1 0 [8]], [ex_tx 2 1 [9]]] [TxHash ref_lib (ex_tx 2 1 [9]), [77]] = Inr (found, [[77]]) \<and>
     TxHash ref_lib ` set found = {TxHash ref_lib (ex_tx 2 1 [9])}"
proof -
  let ?hs = "[TxHash ref_lib (ex_tx 2 1 [9]), [77]]" and ?ws = "[[ex_tx 1 0 [8]], [ex_tx 2 1 [9]]]"
  have d: "distinct ?hs" and k: "filter (\<lambda>h. \<forall>w \<in> set ?ws. h \<notin> TxHash ref_lib ` set w) ?hs = [[77]]"
    "{h \<in> set ?hs. \<exists>w \<in> set ?ws. h \<in> TxHash ref_lib ` set w} = {TxHash ref_lib (ex_tx 2 1 [9])}"
    by (auto simp: ex_defs)
  have "\<nexists>m. getTransactionsByHashes ref_lib ex_lookup ?ws ?hs = Inl (New m)"
    by (simp add: getTransactionsByHashes_def ex_lookup_def remove_found_def remove_step_def ex_defs upt_rec)
  with getTransactionsByHashes_partitions [OF ref_lookup.tx_lookup_axioms d, of ?ws] show ?thesis unfolding k by blast
qed



lemma save_relevant_sound:
  assumes "save_relevant L s ws txs = Inr out" and "set txs \<subseteq> T"
  shows "map fst out = ws \<and> (\<forall>(w, relevant) \<in> set out. \<exists>f. rescanFilter s w = Some f \<and>
    (\<forall>tx \<in> set relevant. tx \<in> T \<and> mempool_relevant L f tx)) \<or> txs = []"
  using assms
proof (induction ws arbitrary: txs out)
  case (Cons w ws)
  show ?case
  proof (cases "rescanFilter s w")
    case None
    with Cons.prems show ?thesis by (auto simp: filterRelevant_def split: if_splits)
  next
    case (Some f)
    let ?m = "filter (mempool_relevant L f) txs"
    from Cons.prems filterRelevant_eq [OF Some, of L txs] obtain out' where
      o: "save_relevant L s ws (?m @ drop (length ?m) txs) = Inr out'" "out = (w, ?m) # out'"
      by (auto simp: bind_res_def Let_def split: sum.splits)
    have sub: "set (?m @ drop (length ?m) txs) \<subseteq> T" using Cons.prems(2) by (auto dest: in_set_dropD)
    have "length (?m @ drop (length ?m) txs) = length txs"
      using length_filter_le [of "mempool_relevant L f" txs] by simp
    with Cons.IH [OF o(1) sub] o(2) Some Cons.prems(2) show ?thesis by auto
  qed
qed simp

text \<open>
  Announced transactions.  What a wallet accepts from \<open>handleTxInvs\<close> was fetched from the peer
  and is relevant to that wallet, and the first wallet of the iteration accepts all the fetched
  transactions relevant to it; but the filtering in place hides transactions from the later ones: when
  the first wallet is interested only in the second of two transactions, the second wallet never sees
  the first one, although it is relevant to it and is marked as seen.
\<close>

theorem handleTxInvs_accepts:
  assumes "some_wallet_synced rescan_point ws" and "filter (\<lambda>h. \<not> Contains C seen h) hashes = unseen" and "unseen \<noteq> []"
    and "fetch unseen = (map Some txs, None)" and "ws = w # ws'" and "rescanFilter s w = Some f" and "txs \<noteq> []"
    and "handleTxInvs L C rescan_point fetch s ws seen hashes = (seen', Inr out)"
  shows "seen' = foldl (Add C) seen unseen \<and> map fst out = ws \<and> hd out = (w, filter (mempool_relevant L f) txs) \<and>
    (\<forall>(v, relevant) \<in> set out. \<exists>g. rescanFilter s v = Some g \<and> (\<forall>tx \<in> set relevant. tx \<in> set txs \<and> mempool_relevant L g tx)) \<and>
    (\<forall>a b v g. txs = [a, b] \<and> ws' = [v] \<and> rescanFilter s v = Some g \<and> \<not> mempool_relevant L f a \<and> mempool_relevant L f b \<and>
       mempool_relevant L g a \<and> \<not> mempool_relevant L g b \<longrightarrow> out = [(w, [b]), (v, [])])"
proof -
  have h: "handleTxInvs L C rescan_point fetch s ws seen hashes = (foldl (Add C) seen unseen, save_relevant L s ws txs)"
    using assms(1-4) by (simp add: handleTxInvs_def Let_def comp_def image_iff)
  with assms(8) have seen': "seen' = foldl (Add C) seen unseen" and out: "save_relevant L s ws txs = Inr out" by auto
  from out assms(5,6) filterRelevant_eq [OF assms(6), of L txs] have "hd out = (w, filter (mempool_relevant L f) txs)"
    by (auto simp: bind_res_def Let_def split: sum.splits)
  moreover have "out = [(w, [b]), (v, [])]"
    if "txs = [a, b]" "ws' = [v]" "rescanFilter s v = Some g" "\<not> mempool_relevant L f a" "mempool_relevant L f b"
      "\<not> mempool_relevant L g b" for a b v g
    using out assms(5) that filterRelevant_eq [OF assms(6), of L txs] filterRelevant_eq [OF that(3), of L "[b, b]"]
    by (simp add: bind_res_def Let_def)
  ultimately show ?thesis using seen' save_relevant_sound [OF out order_refl] assms(7) by blast
qed

definition ex_lru :: "hash list lru" where
  "ex_lru = \<lparr>Contains = (\<lambda>c h. h \<in> set c), Add = (\<lambda>c h. h # c)\<rparr>"

definition ex_two :: "(bytes list \<times> OutPoint list) filters" where
  "ex_two = \<lparr>rescanFilter = [1 \<mapsto> ([[9]], []), 2 \<mapsto> ([[8]], [])], filterData = [1 \<mapsto> [], 2 \<mapsto> []]\<rparr>"

theorem handleTxInvs_accepts_witness:
  "snd (handleTxInvs ref_lib ex_lru (\<lambda>_. Inr False) (\<lambda>hs. (map Some [ex_tx 1 0 [8], ex_tx 2 1 [9]], None)) ex_two [1, 2] [] [[1], [2]]) =
     Inr [(1, [ex_tx 2 1 [9]]), (2, [])]"
proof -
  let ?a = "ex_tx 1 0 [8]" and ?b = "ex_tx 2 1 [9]"
  obtain seen' out where h: "handleTxInvs ref_lib ex_lru (\<lambda>_. Inr False) (\<lambda>hs. (map Some [?a, ?b], None)) ex_two [1, 2] [] [[1], [2]] = (seen', Inr out)"
    by (simp add: handleTxInvs_def ex_lru_def ex_two_def filterRelevant_eq [of _ 1 "([[9]], [])"] filterRelevant_eq [of _ 2 "([[8]], [])"] Let_def bind_res_def)
  have r: "\<not> mempool_relevant ref_lib ([[9]], []) ?a" "mempool_relevant ref_lib ([[9]], []) ?b"
    "mempool_relevant ref_lib ([[8]], []) ?a" "\<not> mempool_relevant ref_lib ([[8]], []) ?b"
    by (simp_all add: mempool_relevant_def output_pays_def ex_defs)
  have "out = [(1, [?b]), (2, [])]"
    using handleTxInvs_accepts [OF _ refl _ refl refl _ _ h, where f = "([[9]], [])"] r
    by (simp add: ex_lru_def ex_two_def)
  with h show ?thesis by simp
qed

end
