(* ===== verification/SpvBackend.thy ===== *)
theory SpvBackend
  imports SpvScan SpvRelay
begin

text \<open>
  The network backend of a wallet, \<open>spv/backend.go\<close>: requests that are repeated with another peer
  until one answers (\<open>Blocks\<close>, \<open>CFilters\<close>, \<open>Headers\<close>) and \<open>Rescan\<close>, which finds the transactions of
  saved blocks by their compact filters and hands them to a callback.  Attempts are numbered: the
  connected peers, their answers and the state of the context are functions of the number of the
  attempt.
\<close>

section \<open>Repeated requests\<close>

record 'r network =
  remotes_at :: "nat \<Rightarrow> 'r list"
  ctx_at :: "nat \<Rightarrow> err option"
  blocks_at :: "nat \<Rightarrow> 'r \<Rightarrow> hash list \<Rightarrow> MsgBlock list result"

definition pickAny :: "'r \<Rightarrow> bool" where
  "pickAny rp = True"

text \<open>\<open>None\<close> is a loop that never ends.\<close>

partial_function (option) retry :: "'r network \<Rightarrow> (nat \<Rightarrow> 'r \<Rightarrow> 'v result) \<Rightarrow> nat \<Rightarrow> 'v result option" where
  "retry net ask t =
     (case ctx_at net t of
        Some e \<Rightarrow> Some (Inl e)
      | None \<Rightarrow>
          (case pickRemote (remotes_at net t) pickAny of
             Inl e \<Rightarrow> Some (Inl e)
           | Inr rp \<Rightarrow>
               (case ask t rp of
                  Inl e \<Rightarrow> retry net ask (Suc t)
                | Inr v \<Rightarrow> Some (Inr v))))"

definition wb_Blocks :: "'r network \<Rightarrow> hash list \<Rightarrow> MsgBlock list result option" where
  "wb_Blocks net blockHashes = retry net (\<lambda>t rp. blocks_at net t rp blockHashes) 0"

definition wb_CFilters :: "'r network \<Rightarrow> (nat \<Rightarrow> 'r \<Rightarrow> hash list \<Rightarrow> 'g list result) \<Rightarrow> hash list \<Rightarrow> 'g list result option" where
  "wb_CFilters net cfilters blockHashes = retry net (\<lambda>t rp. cfilters t rp blockHashes) 0"

definition wb_Headers ::
  "'r network \<Rightarrow> (nat \<Rightarrow> 'r \<Rightarrow> hash list \<Rightarrow> hash \<Rightarrow> BlockHeader list result) \<Rightarrow> hash list \<Rightarrow> hash \<Rightarrow> BlockHeader list result option" where
  "wb_Headers net headers blockLocators hashStop = retry net (\<lambda>t rp. headers t rp blockLocators hashStop) 0"

definition StakeDifficulty :: "int result" where
  "StakeDifficulty = Inl (E Invalid ''stake difficulty is not queryable over wire protocol'')"

section \<open>\<open>Rescan\<close>\<close>

text \<open>A saved block with its compact filter; there is no header at this place.\<close>

definition filter_node :: "hash \<Rightarrow> 'g \<Rightarrow> 'g BlockNode" where
  "filter_node h f = \<lparr>bn_Header = \<lparr>hd_Height = 0, hd_PrevBlock = [], hd_Timestamp = 0\<rparr>, bn_Hash = h, bn_Filter = f\<rparr>"

fun load_cfilters :: "(hash \<Rightarrow> 'g result) \<Rightarrow> hash list \<Rightarrow> 'g BlockNode list result" where
  "load_cfilters CFilter [] = Inr []"
| "load_cfilters CFilter (h # hs) =
     bind_res (CFilter h) (\<lambda>f. bind_res (load_cfilters CFilter hs) (\<lambda>ns. Inr (filter_node h f # ns)))"

text \<open>The blocks of an answer up to the first invalid one are kept.\<close>

fun place_valid ::
  "'g peer \<Rightarrow> 'g BlockNode list \<Rightarrow> nat list \<Rightarrow> MsgBlock list \<Rightarrow> MsgBlock option list \<Rightarrow> MsgBlock option list \<times> err option" where
  "place_valid P chain fmatchidx [] matches = (matches, None)"
| "place_valid P chain [] (b # bs) matches = (matches, Some (Panic ''index out of range''))"
| "place_valid P chain (i # is) (b # bs) matches =
     (case block_error P b (bn_Filter (chain ! i)) of
        Some e \<Rightarrow> (matches, Some e)
      | None \<Rightarrow> place_valid P chain is bs (matches[i := Some b]))"

partial_function (option) pick_peer ::
  "'g peer \<Rightarrow> 'r network \<Rightarrow> 'g BlockNode list \<Rightarrow> nat list \<Rightarrow> nat \<Rightarrow> MsgBlock option list \<Rightarrow> (MsgBlock option list \<times> nat) result option" where
  "pick_peer rpc net chain fmatchidx t matches =
     (case ctx_at net t of
        Some e \<Rightarrow> Some (Inl e)
      | None \<Rightarrow>
          (case pickRemote (remotes_at net t) pickAny of
             Inl e \<Rightarrow> Some (Inl e)
           | Inr rp \<Rightarrow>
               (case blocks_at net t rp (map (\<lambda>i. bn_Hash (chain ! i)) fmatchidx) of
                  Inl e \<Rightarrow> pick_peer rpc net chain fmatchidx (Suc t) matches
                | Inr blocks \<Rightarrow>
                    (case place_valid rpc chain fmatchidx blocks matches of
                       (matches', None) \<Rightarrow> Some (Inr (matches', Suc t))
                     | (matches', Some (Panic m)) \<Rightarrow> Some (Inl (Panic m))
                     | (matches', Some e) \<Rightarrow> pick_peer rpc net chain fmatchidx (Suc t) matches'))))"

definition rescan_fetch ::
  "'g peer \<Rightarrow> 'r network \<Rightarrow> 'g BlockNode list \<Rightarrow> nat \<Rightarrow> entries \<Rightarrow> nat \<Rightarrow> MsgBlock option list \<Rightarrow> (MsgBlock option list \<times> nat) result option" where
  "rescan_fetch P net chain idx d t matches =
     (let fmatchidx = workers P (filter (\<lambda>i. matches ! i = None \<and>
            MatchAny P (bn_Filter (chain ! i)) (CFKey P (bn_Hash (chain ! i))) d) [idx..<length chain])
      in if fmatchidx \<noteq> [] then pick_peer P net chain fmatchidx t matches else Some (Inr (matches, t)))"

type_synonym saved = "(hash \<times> MsgTx list) list"

text \<open>\<open>save\<close> may fail depending on what was saved before.\<close>

fun rescan_pass ::
  "('a, 'f) spv_lib \<Rightarrow> 'g peer \<Rightarrow> (saved \<Rightarrow> hash \<Rightarrow> MsgTx list \<Rightarrow> err option) \<Rightarrow> int \<Rightarrow> 'g BlockNode list \<Rightarrow> MsgBlock option list \<Rightarrow>
   nat list \<Rightarrow> saved \<Rightarrow> 'f filters \<Rightarrow> ((nat \<times> entries) option \<times> saved \<times> 'f filters) result" where
  "rescan_pass L P save w chain matches [] sv s = Inr (None, sv, s)"
| "rescan_pass L P save w chain matches (i # is) sv s =
     (case matches ! i of
        None \<Rightarrow> rescan_pass L P save w chain matches is sv s
      | Some b \<Rightarrow>
          (case ctx_Err P i of
             Some e \<Rightarrow> Inl e
           | None \<Rightarrow>
               (case rescanBlock L s b w of
                  Inl e \<Rightarrow> Inl e
                | Inr (matchedTxs, fadded, s') \<Rightarrow>
                    if matchedTxs \<noteq> []
                    then (case save sv (bn_Hash (chain ! i)) matchedTxs of
                       Some e \<Rightarrow> Inl e
                     | None \<Rightarrow>
                         if fadded \<noteq> [] then Inr (Some (Suc i, fadded), sv @ [(bn_Hash (chain ! i), matchedTxs)], s')
                         else rescan_pass L P save w chain matches is (sv @ [(bn_Hash (chain ! i), matchedTxs)]) s')
                    else rescan_pass L P save w chain matches is sv s')))"

partial_function (option) rescan_loop ::
  "('a, 'f) spv_lib \<Rightarrow> 'g peer \<Rightarrow> 'r network \<Rightarrow> (saved \<Rightarrow> hash \<Rightarrow> MsgTx list \<Rightarrow> err option) \<Rightarrow> int \<Rightarrow> 'g BlockNode list \<Rightarrow>
   nat \<Rightarrow> entries \<Rightarrow> nat \<Rightarrow> MsgBlock option list \<Rightarrow> saved \<Rightarrow> 'f filters \<Rightarrow> (saved \<times> 'f filters) result option" where
  "rescan_loop L P net save w chain idx d t matches sv s =
     (if idx < length chain
      then (case rescan_fetch P net chain idx d t matches of
              None \<Rightarrow> None
            | Some (Inl e) \<Rightarrow> Some (Inl e)
            | Some (Inr (matches', t')) \<Rightarrow>
                (case rescan_pass L P save w chain matches' [idx..<length chain] sv s of
                   Inl e \<Rightarrow> Some (Inl e)
                 | Inr (None, sv', s') \<Rightarrow> Some (Inr (sv', s'))
                 | Inr (Some (idx', d'), sv', s') \<Rightarrow> rescan_loop L P net save w chain idx' d' t' matches' sv' s'))
      else Some (Inr (sv, s)))"

definition Rescan ::
  "('a, 'f) spv_lib \<Rightarrow> 'g peer \<Rightarrow> 'r network \<Rightarrow> (hash \<Rightarrow> 'g result) option \<Rightarrow> int \<Rightarrow> hash list \<Rightarrow>
   (saved \<Rightarrow> hash \<Rightarrow> MsgTx list \<Rightarrow> err option) \<Rightarrow> 'f filters \<Rightarrow> (saved \<times> 'f filters) result option" where
  "Rescan L P net wallet w blockHashes save s =
     (case wallet of
        None \<Rightarrow> Some (Inl (E Invalid []))
      | Some CFilter \<Rightarrow>
          (case load_cfilters CFilter blockHashes of
             Inl e \<Rightarrow> Some (Inl e)
           | Inr chain \<Rightarrow>
               (case filterData s w of
                  None \<Rightarrow> Some (Inl (Panic ''nil filter data''))
                | Some d \<Rightarrow> rescan_loop L P net save w chain 0 d 0 (replicate (length blockHashes) None) [] s)))"

section \<open>The reference: one peer that always answers\<close>

definition ideal_peer :: "'g peer \<Rightarrow> (hash \<Rightarrow> MsgBlock) \<Rightarrow> 'g peer" where
  "ideal_peer P blk = P\<lparr>Filter_N := (\<lambda>g. 1), Blocks := (\<lambda>hs. Inr (map blk hs)), MerkleRoots := (\<lambda>b. None),
     RegularCFilter := (\<lambda>b g. None), ctx_Err := (\<lambda>i. None)\<rparr>"

text \<open>The saved transactions of a scan: the non-empty matches, in the order of the blocks.\<close>

definition saved_of :: "found \<Rightarrow> hash list \<Rightarrow> saved" where
  "saved_of found hs = concat (map (\<lambda>h. case found h of Some (m # ms) \<Rightarrow> [(h, m # ms)] | _ \<Rightarrow> []) hs)"

lemma saved_of_append [simp]: "saved_of found (xs @ ys) = saved_of found xs @ saved_of found ys"
  by (simp add: saved_of_def)

lemma saved_of_Cons [simp]:
  "saved_of found (h # hs) = (case found h of Some (m # ms) \<Rightarrow> [(h, m # ms)] | _ \<Rightarrow> []) @ saved_of found hs"
  "saved_of found [] = []"
  by (simp_all add: saved_of_def)

lemma saved_of_cong: "(\<And>h. h \<in> set hs \<Longrightarrow> found h = found' h) \<Longrightarrow> saved_of found hs = saved_of found' hs"
  by (induction hs) auto

lemma saved_of_none: "(\<And>h. h \<in> set hs \<Longrightarrow> found h = None) \<Longrightarrow> saved_of found hs = []"
  by (induction hs) auto

lemma saved_of_zip:
  assumes "list_all2 (\<lambda>h ms. found_is found h ms) hs mss"
  shows "saved_of found hs = filter (\<lambda>(h, ms). ms \<noteq> []) (zip hs mss)"
  using assms by (induction hs mss rule: list_all2_induct) (auto simp: found_is_def split: list.splits)

text \<open>A block that adds outpoints has a transaction that pays to the wallet, so it has matches.\<close>

lemma spec_matches_pays: "tx \<in> set txs \<Longrightarrow> pays L f tx \<Longrightarrow> spec_matches L f W tree i txs \<noteq> []"
  by (induction txs arbitrary: W i) auto

lemma block_paid_matches: "block_paid L f b \<noteq> {} \<Longrightarrow> block_matches L f b \<noteq> []"
proof -
  assume "block_paid L f b \<noteq> {}"
  then obtain tree tx where tx: "paid_outpoints L f tree tx \<noteq> {}" "tx \<in> set (STransactions b) \<or> tx \<in> set (Transactions b)"
    by (auto simp: block_paid_def paid_in_def)
  then have "pays L f tx" by (fastforce simp: paid_outpoints_def pays_def)
  with tx(2) show ?thesis by (auto simp: block_matches_def dest: spec_matches_pays)
qed

text \<open>Storing the true blocks at some positions.\<close>

definition store_blocks :: "(nat \<Rightarrow> MsgBlock) \<Rightarrow> nat list \<Rightarrow> MsgBlock option list \<Rightarrow> MsgBlock option list" where
  "store_blocks at is m = foldl (\<lambda>m i. m[i := Some (at i)]) m is"

lemma store_blocks_simps [simp]:
  "store_blocks at [] m = m" "store_blocks at (i # is) m = store_blocks at is (m[i := Some (at i)])"
  "length (store_blocks at is m) = length m"
  by (simp_all add: store_blocks_def) (induction "is" arbitrary: m, auto)

lemma store_blocks_nth:
  "i < length m \<Longrightarrow> store_blocks at is m ! i = (if i \<in> set is then Some (at i) else m ! i)"
  by (induction "is" arbitrary: m) (auto simp: nth_list_update)

lemma store_blocks_absorb: "set js \<subseteq> set is \<Longrightarrow> store_blocks at is (store_blocks at js m) = store_blocks at is m"
  by (rule nth_equalityI) (auto simp: store_blocks_nth)

section \<open>The environment of a rescan\<close>

text \<open>
  As for \<open>scanChain\<close>: an answer of any peer at any attempt has the requested blocks in order, the
  workers lose and invent no position, and the saved filters have no false negatives.
\<close>

locale backend_env = rescan_lib L for L :: "('a, 'f) spv_lib" +
  fixes P :: "'g peer" and net :: "'r network" and blk :: "hash \<Rightarrow> MsgBlock" and chain :: "'g BlockNode list"
  assumes peers_answer: "blocks_at net t rp hs = Inr bs \<Longrightarrow> bs = map blk hs"
    and all_positions: "set (workers P is) = set is"
    and filter_complete:
      "n \<in> set chain \<Longrightarrow> e \<in> set d \<Longrightarrow> occurs L e (blk (bn_Hash n)) \<Longrightarrow> MatchAny P (bn_Filter n) (CFKey P (bn_Hash n)) d"
    and hashes_distinct: "distinct (map bn_Hash chain)"
begin

lemma ideal_matches: "node_matches (ideal_peer P blk) n d = MatchAny P (bn_Filter n) (CFKey P (bn_Hash n)) d"
  by (simp add: node_matches_def ideal_peer_def)

sublocale ideal: scan_env L "ideal_peer P blk" blk chain Map.empty
proof unfold_locales
  show "n \<in> set chain \<Longrightarrow> e \<in> set d \<Longrightarrow> occurs L e (blk (bn_Hash n)) \<Longrightarrow> node_matches (ideal_peer P blk) n d" for n e d
    using filter_complete by (simp add: ideal_matches)
qed (use all_positions hashes_distinct in \<open>auto simp: ideal_peer_def\<close>)

abbreviation hash_at :: "nat \<Rightarrow> hash" where "hash_at i \<equiv> bn_Hash (chain ! i)"
abbreviation block_at :: "nat \<Rightarrow> MsgBlock" where "block_at i \<equiv> blk (hash_at i)"

lemma place_ideal: "place_blocks (ideal_peer P blk) chain is (map block_at is) m = Inr (store_blocks block_at is m)"
  by (induction "is" arbitrary: m) (auto simp: block_error_def ideal_peer_def)

lemma place_valid_stores:
  "place_valid P chain is (map block_at is) m = (m', r) \<Longrightarrow>
     (\<exists>js. set js \<subseteq> set is \<and> m' = store_blocks block_at js m \<and> (r = None \<longrightarrow> js = is))"
proof (induction "is" arbitrary: m)
  case (Cons i "is")
  show ?case
  proof (cases "block_error P (block_at i) (bn_Filter (chain ! i))")
    case None
    with Cons.prems have "place_valid P chain is (map block_at is) (m[i := Some (block_at i)]) = (m', r)" by simp
    from Cons.IH [OF this] obtain js where js: "set js \<subseteq> set is" "m' = store_blocks block_at js (m[i := Some (block_at i)])" "r = None \<longrightarrow> js = is"
      by blast
    then show ?thesis by (intro exI [of _ "i # js"]) auto
  next
    case (Some e)
    with Cons.prems have "m' = m" "r = Some e" by auto
    then show ?thesis by (intro exI [of _ "[]"]) simp
  qed
qed simp

lemma pick_peer_stores:
  assumes "pick_peer P net chain is t m = Some (Inr (m', t'))"
  shows "m' = store_blocks block_at is m"
proof -
  have "\<forall>m' t'. r = Inr (m', t') \<longrightarrow> m' = store_blocks block_at is m" if "pick_peer P net chain is t m = Some r" for r t m
  proof (rule pick_peer.raw_induct [where P = "\<lambda>P' net' chain' is' t m r. P' = P \<longrightarrow> net' = net \<longrightarrow> chain' = chain \<longrightarrow>
      is' = is \<longrightarrow> (\<forall>m' t'. r = Inr (m', t') \<longrightarrow> m' = store_blocks block_at is m)", OF _ that, THEN mp, THEN mp, THEN mp, THEN mp, OF _ refl refl refl refl], goal_cases)
    case (1 loop P' net' chain' is' t m r)
    show ?case
    proof (intro impI allI)
      fix m' t' assume eq: "P' = P" "net' = net" "chain' = chain" "is' = is" and r: "r = Inr (m', t')"
      have IH: "\<And>t m. loop P net chain is t m = Some (Inr (m', t')) \<Longrightarrow> m' = store_blocks block_at is m" using 1(1) eq by blast
      from 1(2) eq r obtain rp where "loop P net chain is (Suc t) m = Some (Inr (m', t')) \<or>
          (\<exists>bs. blocks_at net t rp (map hash_at is) = Inr bs \<and> (\<exists>m1 r1. place_valid P chain is bs m = (m1, r1) \<and>
            (r1 = None \<and> m1 = m' \<or> loop P net chain is (Suc t) m1 = Some (Inr (m', t')))))"
        by (auto split: option.splits sum.splits prod.splits err.splits)
      then show "m' = store_blocks block_at is m"
      proof (elim disjE exE conjE)
        fix bs m1 r1 assume b: "blocks_at net t rp (map hash_at is) = Inr bs" and p: "place_valid P chain is bs m = (m1, r1)"
        have "bs = map block_at is" using peers_answer [OF b] by simp
        with p place_valid_stores obtain js where js: "set js \<subseteq> set is" "m1 = store_blocks block_at js m" "r1 = None \<longrightarrow> js = is" by blast
        { assume "r1 = None" "m1 = m'" then show ?thesis using js by simp }
        { assume "loop P net chain is (Suc t) m1 = Some (Inr (m', t'))"
          from IH [OF this] show ?thesis using js store_blocks_absorb by simp }
      qed (rule IH)
    qed
  qed
  with assms show ?thesis by blast
qed

lemma rescan_fetch_ideal:
  assumes "rescan_fetch P net chain idx d t m = Some (Inr (m', t'))"
  shows "fetch_matches (ideal_peer P blk) chain idx d m = Inr m'"
proof -
  define hits where "hits = workers P (filter (\<lambda>i. m ! i = None \<and> MatchAny P (bn_Filter (chain ! i)) (CFKey P (hash_at i)) d) [idx..<length chain])"
  have "workers (ideal_peer P blk) = workers P" by (simp add: ideal_peer_def)
  then have "fetch_matches (ideal_peer P blk) chain idx d m =
      (if hits \<noteq> [] then place_blocks (ideal_peer P blk) chain hits (map block_at hits) m else Inr m)"
    by (simp add: fetch_matches_def ideal_matches hits_def [symmetric] Let_def) (simp add: ideal_peer_def comp_def)
  moreover have "(if hits \<noteq> [] then pick_peer P net chain hits t m else Some (Inr (m, t))) = Some (Inr (m', t'))"
    using assms by (simp add: rescan_fetch_def hits_def [symmetric])
  ultimately show ?thesis using pick_peer_stores [of hits t m m' t'] by (auto simp: place_ideal split: if_splits)
qed

lemma rescanBlock_added:
  assumes "rescanBlock L s b w = Inr (ms, fadded, s')" and "fadded \<noteq> []"
  shows "ms \<noteq> []"
proof -
  from assms(1) obtain f d c where c: "rescan_one L b f d = Inr c" "ms = rc_matches c" "fadded = rc_fadded c"
    by (auto simp: rescanBlock_def split: option.splits sum.splits)
  with rescan_one_evolves [OF c(1)] assms(2) have "block_paid L f b \<noteq> {}" "ms = block_matches L f b"
    by (auto simp: evolves_def)
  then show ?thesis by (simp add: block_paid_matches)
qed

text \<open>A pass of \<open>Rescan\<close> does what a pass of \<open>scanChain\<close> does, and saves its matches.\<close>

lemma rescan_pass_simulates:
  assumes "rescan_pass L P save w chain m is sv s = Inr (r, sv', s')"
    and "sorted_wrt (<) is" and "set is \<subseteq> {..<length chain}" and "\<And>i. i \<in> set is \<Longrightarrow> found (hash_at i) = None"
  shows "\<exists>found'. scan_pass L w chain m is found s = Inr (r, found', s') \<and> sv' = sv @ saved_of found' (map hash_at is) \<and>
    (\<forall>h. h \<notin> hash_at ` set is \<longrightarrow> found' h = found h) \<and>
    (\<forall>k d i. r = Some (k, d) \<and> i \<in> set is \<and> k \<le> i \<longrightarrow> found' (hash_at i) = None)"
  using assms
proof (induction "is" arbitrary: sv s found)
  case (Cons i "is")
  have fresh: "hash_at i \<notin> hash_at ` set is"
    using Cons.prems(2,3) ideal.hash_at_inj [of i] by (auto simp: subset_iff)
  have sub: "sorted_wrt (<) is" "set is \<subseteq> {..<length chain}" using Cons.prems(2,3) by auto
  have hn: "saved_of found' (map hash_at (i # is)) = (case found' (hash_at i) of Some (a # as) \<Rightarrow> [(hash_at i, a # as)] | _ \<Rightarrow> []) @ saved_of found' (map hash_at is)" for found'
    by simp
  show ?case
  proof (cases "m ! i")
    case None
    with Cons.prems(1) have "rescan_pass L P save w chain m is sv s = Inr (r, sv', s')" by simp
    from Cons.IH [OF this sub, of found] obtain found' where
      f: "scan_pass L w chain m is found s = Inr (r, found', s')" "sv' = sv @ saved_of found' (map hash_at is)"
        "\<forall>h. h \<notin> hash_at ` set is \<longrightarrow> found' h = found h" "\<forall>k d i. r = Some (k, d) \<and> i \<in> set is \<and> k \<le> i \<longrightarrow> found' (hash_at i) = None"
      using Cons.prems(4) by (metis list.set_intros(2))
    have "found' (hash_at i) = None" using f(3) fresh Cons.prems(4) by simp
    with f None hn show ?thesis by (intro exI [of _ found']) auto
  next
    case (Some b)
    with Cons.prems(1) obtain ms fadded s1 where rb: "rescanBlock L s b w = Inr (ms, fadded, s1)"
      by (auto split: option.splits sum.splits prod.splits)
    let ?found1 = "found(hash_at i \<mapsto> ms)" and ?sv1 = "sv @ (case ms of [] \<Rightarrow> [] | _ \<Rightarrow> [(hash_at i, ms)])"
    have none: "\<And>j. j \<in> set is \<Longrightarrow> ?found1 (hash_at j) = None"
      using Cons.prems(4) fresh by (metis fun_upd_other imageI list.set_intros(2))
    show ?thesis
    proof (cases "fadded = []")
      case True
      with Cons.prems(1) Some rb have "rescan_pass L P save w chain m is ?sv1 s1 = Inr (r, sv', s')"
        by (auto split: option.splits if_splits list.splits)
      from Cons.IH [of ?sv1 s1 ?found1, OF this sub none] obtain found' where
        f: "scan_pass L w chain m is ?found1 s1 = Inr (r, found', s')" "sv' = ?sv1 @ saved_of found' (map hash_at is)"
          "\<forall>h. h \<notin> hash_at ` set is \<longrightarrow> found' h = ?found1 h" "\<forall>k d i. r = Some (k, d) \<and> i \<in> set is \<and> k \<le> i \<longrightarrow> found' (hash_at i) = None"
        by blast
      have hit: "found' (hash_at i) = Some ms" using f(3) fresh by simp
      have "k \<notin> {..i}" if "r = Some (k, d)" for k d
        using scan_pass_next [OF f(1) [unfolded that]] Cons.prems(2) by auto
      with f hit hn True Some rb show ?thesis by (intro exI [of _ found']) (auto split: list.splits)
    next
      case False
      then have ms: "ms \<noteq> []" using rescanBlock_added [OF rb] by blast
      with False Cons.prems(1) Some rb have "r = Some (Suc i, fadded)" "sv' = ?sv1" "s' = s1"
        by (auto split: option.splits if_splits list.splits)
      moreover have "scan_pass L w chain m (i # is) found s = Inr (Some (Suc i, fadded), ?found1, s1)"
        using False Some rb by simp
      moreover have "?sv1 = sv @ saved_of ?found1 (map hash_at (i # is))"
      proof -
        have "saved_of ?found1 (map hash_at is) = []" 
        proof (rule saved_of_none)
          fix h assume "h \<in> set (map hash_at is)"
          then obtain j where "j \<in> set is" "h = hash_at j" by auto
          with none [of j] show "?found1 h = None" by blast
        qed
        then have "saved_of ?found1 (map hash_at (i # is)) = [(hash_at i, ms)]"
          unfolding hn using ms by (auto split: list.split)
        then show ?thesis using ms by (auto split: list.split)
      qed
      moreover have "\<forall>h. h \<notin> hash_at ` set (i # is) \<longrightarrow> ?found1 h = found h" by simp
      moreover have "\<forall>k d j. Some (Suc i, fadded) = Some (k, d) \<and> j \<in> set (i # is) \<and> k \<le> j \<longrightarrow> ?found1 (hash_at j) = None"
        using none by (auto simp del: fun_upd_apply)
      ultimately show ?thesis by blast
    qed
  qed
qed simp

lemma rescan_loop_simulates:
  assumes "rescan_loop L P net save w chain idx d t m sv s = Some (Inr (sv', s'))" and "idx \<le> length chain"
    and "\<And>i. i \<in> {idx..<length chain} \<Longrightarrow> found (hash_at i) = None"
  shows "\<exists>found'. scan_loop L (ideal_peer P blk) w chain idx d m found s = Inr (found', s') \<and>
    sv' = sv @ saved_of found' (map hash_at [idx..<length chain]) \<and>
    (\<forall>h. h \<notin> hash_at ` {idx..<length chain} \<longrightarrow> found' h = found h)"
  using assms
proof (induction "length chain - idx" arbitrary: idx d t m sv s found rule: less_induct)
  case less
  note unf = rescan_loop.simps [of L P net save w chain idx d t m sv s]
    scan_loop.simps [of L "ideal_peer P blk" w chain idx d m found s]
  have ctx: "ctx_Err (ideal_peer P blk) idx = None" by (simp add: ideal_peer_def)
  show ?case
  proof (cases "idx < length chain")
    case False
    with less.prems(1) have eq: "sv' = sv" "s' = s" by (simp_all add: unf)
    have "scan_loop L (ideal_peer P blk) w chain idx d m found s = Inr (found, s)"
      using False by (subst scan_loop.simps) simp
    with False eq show ?thesis by (intro exI [of _ found]) simp
  next
    case True
    with less.prems(1) obtain m1 t1 r sv1 s1 where f: "rescan_fetch P net chain idx d t m = Some (Inr (m1, t1))"
      and p: "rescan_pass L P save w chain m1 [idx..<length chain] sv s = Inr (r, sv1, s1)"
      by (auto simp: unf split: option.splits sum.splits prod.splits)
    note fm = rescan_fetch_ideal [OF f]
    have pre: "sorted_wrt (<) [idx..<length chain]" "set [idx..<length chain] \<subseteq> {..<length chain}" by auto
    obtain found1 where s: "scan_pass L w chain m1 [idx..<length chain] found s = Inr (r, found1, s1)"
      "sv1 = sv @ saved_of found1 (map hash_at [idx..<length chain])"
      "\<forall>h. h \<notin> hash_at ` {idx..<length chain} \<longrightarrow> found1 h = found h"
      "\<forall>k d i. r = Some (k, d) \<and> i \<in> {idx..<length chain} \<and> k \<le> i \<longrightarrow> found1 (hash_at i) = None"
      using rescan_pass_simulates [OF p pre, of found] less.prems(3) unfolding set_upt by blast
    show ?thesis
    proof (cases r)
      case None
      have "sv' = sv1" "s' = s1" using less.prems(1) True f p None by (simp_all add: unf(1))
      moreover have "scan_loop L (ideal_peer P blk) w chain idx d m found s = Inr (found1, s1)"
        using True fm ctx s(1) None by (simp add: unf(2))
      ultimately show ?thesis using s(2,3) by blast
    next
      case (Some kd)
      obtain k d1 where kd: "kd = (k, d1)" by fastforce
      with Some s(1) have k: "idx < k" "k \<le> length chain" using scan_pass_next by fastforce+
      have "rescan_loop L P net save w chain k d1 t1 m1 sv1 s1 = Some (Inr (sv', s'))"
        using less.prems(1) True f p Some kd by (simp add: unf)
      moreover have "length chain - k < length chain - idx" using k True by linarith
      moreover have "\<And>i. i \<in> {k..<length chain} \<Longrightarrow> found1 (hash_at i) = None" using s(4) Some kd k by auto
      ultimately obtain found' where f': "scan_loop L (ideal_peer P blk) w chain k d1 m1 found1 s1 = Inr (found', s')"
        "sv' = sv1 @ saved_of found' (map hash_at [k..<length chain])"
        "\<forall>h. h \<notin> hash_at ` {k..<length chain} \<longrightarrow> found' h = found1 h"
        using less.hyps [of k d1 t1 m1 sv1 s1 found1] k(2) by blast
      have parts: "[idx..<length chain] = [idx..<k] @ [k..<length chain]"
        using k by (metis less_imp_le upt_add_eq_append le_add_diff_inverse)
      have "found' (hash_at i) = found1 (hash_at i)" if i: "i \<in> {idx..<k}" for i
      proof -
        have "hash_at i \<notin> hash_at ` {k..<length chain}"
        proof
          assume "hash_at i \<in> hash_at ` {k..<length chain}"
          then obtain j where "j \<in> {k..<length chain}" "hash_at i = hash_at j" by blast
          with i k show False using ideal.hash_at_inj [of i j] by auto
        qed
        with f'(3) show ?thesis by blast
      qed
      then have "saved_of found' (map hash_at [idx..<k]) = saved_of found1 (map hash_at [idx..<k])"
        by (intro saved_of_cong) auto
      moreover have "saved_of found1 (map hash_at [k..<length chain]) = []"
        using s(4) Some kd k by (auto simp: saved_of_def)
      ultimately have "sv' = sv @ saved_of found' (map hash_at [idx..<length chain])"
        using s(2) f'(2) by (simp add: parts)
      moreover have "scan_loop L (ideal_peer P blk) w chain idx d m found s = Inr (found', s')"
        using True fm ctx s(1) Some kd f'(1) by (simp add: unf)
      moreover have "found' h = found h" if "h \<notin> hash_at ` {idx..<length chain}" for h
      proof -
        have "{k..<length chain} \<subseteq> {idx..<length chain}" using k by auto
        with that have "h \<notin> hash_at ` {k..<length chain}" by blast
        with that s(3) f'(3) show ?thesis by metis
      qed
      ultimately show ?thesis by blast
    qed
  qed
qed

lemma rescan_agrees:
  assumes "ideal.wallet_ok w s D"
    and "rescan_loop L P net save w chain 0 D 0 (replicate (length chain) None) [] s = Some (Inr (sv, s'))"
  shows "\<exists>mss. scan_all L w (map (\<lambda>n. blk (bn_Hash n)) chain) s = Inr (mss, s') \<and>
    sv = filter (\<lambda>(h, ms). ms \<noteq> []) (zip (map bn_Hash chain) mss)"
proof -
  obtain found where f: "scan_loop L (ideal_peer P blk) w chain 0 D (replicate (length chain) None) Map.empty s = Inr (found, s')"
    "sv = saved_of found (map hash_at [0..<length chain])"
    using rescan_loop_simulates [OF assms(2), of Map.empty] by auto
  have "filterData s w = Some D" using assms(1) by (auto simp: ideal.wallet_ok_def)
  then have "scanChain L (ideal_peer P blk) chain Map.empty w s = Inr (found, s')"
    using f(1) by (simp add: scanChain_def map_replicate_const)
  from ideal.scanChain_agrees [OF assms(1) this] obtain mss where
    m: "scan_all L w (map (\<lambda>n. blk (bn_Hash n)) chain) s = Inr (mss, s')" "list_all2 (\<lambda>n ms. found_is found (bn_Hash n) ms) chain mss"
    by blast
  have "map hash_at [0..<length chain] = map bn_Hash chain" by (rule nth_equalityI) auto
  then show ?thesis using m f(2) saved_of_zip [of found "map bn_Hash chain" mss] by (auto simp: list_all2_map1)
qed

end

section \<open>The outcome of repeated requests\<close>

text \<open>One attempt: \<open>None\<close> when the picked peer fails and another attempt follows.\<close>

definition attempt :: "'r network \<Rightarrow> (nat \<Rightarrow> 'r \<Rightarrow> 'v result) \<Rightarrow> nat \<Rightarrow> 'v result option" where
  "attempt net ask t =
     (case ctx_at net t of
        Some e \<Rightarrow> Some (Inl e)
      | None \<Rightarrow>
          (case remotes_at net t of
             [] \<Rightarrow> Some (Inl (E NoPeers []))
           | rp # rps \<Rightarrow> (case ask t rp of Inl e \<Rightarrow> None | Inr v \<Rightarrow> Some (Inr v))))"

lemma pickRemote_any: "pickRemote rs pickAny = (case rs of [] \<Rightarrow> Inl (E NoPeers []) | rp # rps \<Rightarrow> Inr rp)"
  by (cases rs) (simp_all add: pickRemote_def pickAny_def)

lemma retry_step: "retry net ask t = (case attempt net ask t of None \<Rightarrow> retry net ask (Suc t) | Some r \<Rightarrow> Some r)"
  by (subst retry.simps) (simp add: attempt_def pickRemote_any split: option.split list.split sum.split)

lemma retry_reaches: "(\<And>i. t \<le> i \<Longrightarrow> i < k \<Longrightarrow> attempt net ask i = None) \<Longrightarrow> t \<le> k \<Longrightarrow> retry net ask t = retry net ask k"
proof (induction "k - t" arbitrary: t)
  case (Suc n)
  then have t: "attempt net ask t = None" "n = k - Suc t" "Suc t \<le> k" by auto
  have "retry net ask (Suc t) = retry net ask k" by (rule Suc.hyps(1) [OF t(2) _ t(3)]) (use Suc.prems in auto)
  with t(1) show ?case by (subst retry_step) simp
qed simp

lemma retry_decided:
  assumes "retry net ask t = Some r"
  shows "\<exists>k\<ge>t. attempt net ask k = Some r"
proof (rule retry.raw_induct [where P = "\<lambda>net ask t r. \<exists>k\<ge>t. attempt net ask k = Some r", OF _ assms], goal_cases)
  case (1 loop net ask t r)
  then have "attempt net ask t = Some r \<or> loop net ask (Suc t) = Some r"
    by (auto simp: attempt_def pickRemote_any split: option.splits list.splits sum.splits)
  with 1(1) show ?case by (meson Suc_leD le_refl)
qed

lemma retry_outcome:
  "retry net ask 0 = Some r \<longleftrightarrow> (\<exists>k. attempt net ask k = Some r \<and> (\<forall>i<k. attempt net ask i = None))"
proof
  assume r: "retry net ask 0 = Some r"
  define k where "k = (LEAST k. attempt net ask k \<noteq> None)"
  have ex: "\<exists>k. attempt net ask k \<noteq> None" using retry_decided [OF r] by auto
  have k: "attempt net ask k \<noteq> None" "\<forall>i<k. attempt net ask i = None"
    unfolding k_def by (rule LeastI_ex [OF ex]) (use not_less_Least in blast)
  moreover have "retry net ask k = Some r" using r retry_reaches [of 0 k net ask] k(2) by simp
  ultimately show "\<exists>k. attempt net ask k = Some r \<and> (\<forall>i<k. attempt net ask i = None)"
    by (subst (asm) retry_step) (auto split: option.splits)
next
  assume "\<exists>k. attempt net ask k = Some r \<and> (\<forall>i<k. attempt net ask i = None)"
  then obtain k where k: "attempt net ask k = Some r" "\<forall>i<k. attempt net ask i = None" by blast
  then have "retry net ask 0 = retry net ask k" by (intro retry_reaches) auto
  with k(1) show "retry net ask 0 = Some r" by (subst (asm) retry_step) simp
qed

section \<open>A reference network\<close>

text \<open>At the first attempt the first peer fails, later it answers.\<close>

definition ref_network :: "nat network" where
  "ref_network = \<lparr>remotes_at = (\<lambda>t. [7, 8]), ctx_at = (\<lambda>t. None),
     blocks_at = (\<lambda>t rp hs. if t = 0 then Inl (E NotExist []) else Inr (map ref_blk hs))\<rparr>"

definition ref_saved :: "MsgBlock BlockNode list" where
  "ref_saved = map (\<lambda>h. filter_node h (ref_blk h)) [[1], [2]]"

interpretation refbackend: backend_env ref_lib ref_peer ref_network ref_blk ref_saved
  by unfold_locales (auto simp: ref_peer_def ref_network_def ref_saved_def filter_node_def split: if_splits)

lemma load_cfilters_hashes:
  "load_cfilters CFilter hs = Inr chain \<Longrightarrow> map bn_Hash chain = hs \<and> length chain = length hs"
  by (induction hs arbitrary: chain) (auto simp: filter_node_def bind_res_def split: sum.splits)

text \<open>Peers that answer a request sooner or later, with valid blocks.\<close>

locale answering_network = backend_env L P net blk chain
  for L :: "('a, 'f) spv_lib" and P :: "'g peer" and net :: "'r network" and blk :: "hash \<Rightarrow> MsgBlock"
    and chain :: "'g BlockNode list" +
  assumes never_cancelled: "ctx_at net t = None" "ctx_Err P i = None"
    and connected: "remotes_at net t \<noteq> []"
    and answered: "set hs \<subseteq> bn_Hash ` set chain \<Longrightarrow> \<exists>k\<ge>t. blocks_at net k (hd (remotes_at net k)) hs = Inr (map blk hs)"
    and valid_blocks: "n \<in> set chain \<Longrightarrow> block_error P (blk (bn_Hash n)) (bn_Filter n) = None"
begin

sublocale answer: answering_peer L "ideal_peer P blk" blk chain Map.empty
  by unfold_locales (simp_all add: ideal_peer_def block_error_def)

lemma place_valid_all:
  "set is \<subseteq> {..<length chain} \<Longrightarrow> place_valid P chain is (map block_at is) m = (store_blocks block_at is m, None)"
proof (induction "is" arbitrary: m)
  case (Cons i "is")
  then have "block_error P (block_at i) (bn_Filter (chain ! i)) = None" by (intro valid_blocks) simp
  with Cons show ?case by simp
qed simp

lemma pick_peer_step:
  assumes "set is \<subseteq> {..<length chain}"
  shows "pick_peer P net chain is t m = (case blocks_at net t (hd (remotes_at net t)) (map hash_at is) of
    Inl e \<Rightarrow> pick_peer P net chain is (Suc t) m | Inr bs \<Rightarrow> Some (Inr (store_blocks block_at is m, Suc t)))"
proof -
  have "pickRemote (remotes_at net t) pickAny = Inr (hd (remotes_at net t))"
    using connected [of t] by (auto simp: pickRemote_any neq_Nil_conv)
  moreover have "place_valid P chain is bs m = (store_blocks block_at is m, None)" if "blocks_at net t rp (map hash_at is) = Inr bs" for rp bs
    using peers_answer [OF that] place_valid_all [OF assms] by (simp add: comp_def)
  ultimately show ?thesis by (subst pick_peer.simps) (simp add: never_cancelled split: sum.split)
qed

lemma pick_peer_total:
  assumes sub: "set is \<subseteq> {..<length chain}"
  shows "\<exists>t'. pick_peer P net chain is t m = Some (Inr (store_blocks block_at is m, t'))"
proof -
  have "set (map hash_at is) \<subseteq> bn_Hash ` set chain" using sub by auto
  from answered [OF this] obtain k bs where k: "t \<le> k" "blocks_at net k (hd (remotes_at net k)) (map hash_at is) = Inr bs"
    by blast
  then show ?thesis
  proof (induction "k - t" arbitrary: t)
    case 0
    then show ?case by (subst pick_peer_step [OF sub]) simp
  next
    case (Suc n)
    show ?case
    proof (cases "blocks_at net t (hd (remotes_at net t)) (map hash_at is)")
      case (Inl e)
      from Suc.hyps(1) [of "Suc t"] Suc.hyps(2) Suc.prems Inl show ?thesis by (subst pick_peer_step [OF sub]) simp
    next
      case (Inr bs')
      then show ?thesis by (subst pick_peer_step [OF sub]) simp
    qed
  qed
qed

lemma rescan_fetch_total: "\<exists>m' t'. rescan_fetch P net chain idx d t m = Some (Inr (m', t'))"
proof -
  define hits where "hits = workers P (filter (\<lambda>i. m ! i = None \<and> MatchAny P (bn_Filter (chain ! i)) (CFKey P (hash_at i)) d) [idx..<length chain])"
  have sub: "set hits \<subseteq> {..<length chain}" by (auto simp: hits_def all_positions)
  obtain t' where "pick_peer P net chain hits t m = Some (Inr (store_blocks block_at hits m, t'))"
    using pick_peer_total [OF sub] by blast
  then show ?thesis by (simp add: rescan_fetch_def hits_def [symmetric])
qed

lemma rescan_pass_follows:
  assumes "save = (\<lambda>sv h ms. None)" and "scan_pass L w chain m is found s = Inr (r, found', s')"
  shows "\<exists>sv'. rescan_pass L P save w chain m is sv s = Inr (r, sv', s')"
  using assms(2)
proof (induction "is" arbitrary: found s sv)
  case (Cons i "is")
  show ?case
  proof (cases "m ! i")
    case (Some b)
    with Cons.prems obtain ms fadded s1 where rb: "rescanBlock L s b w = Inr (ms, fadded, s1)"
      by (auto split: sum.splits)
    with Some Cons.prems Cons.IH rescanBlock_added [OF rb] show ?thesis
      by (auto simp: assms(1) never_cancelled split: if_splits)
  qed (use Cons in auto)
qed simp

lemma rescan_loop_follows:
  assumes save: "save = (\<lambda>sv h ms. None)"
    and "scan_loop L (ideal_peer P blk) w chain idx d m found s = Inr (found', s')"
  shows "\<exists>sv'. rescan_loop L P net save w chain idx d t m sv s = Some (Inr (sv', s'))"
  using assms(2)
proof (induction "length chain - idx" arbitrary: idx d t m sv s found rule: less_induct)
  case less
  note unf = rescan_loop.simps [of L P net save w chain idx d t m sv s]
    scan_loop.simps [of L "ideal_peer P blk" w chain idx d m found s]
  show ?case
  proof (cases "idx < length chain")
    case False
    with less.prems have "s = s'" by (simp add: unf)
    with False show ?thesis by (subst rescan_loop.simps) simp
  next
    case True
    obtain m1 t1 where f: "rescan_fetch P net chain idx d t m = Some (Inr (m1, t1))" using rescan_fetch_total by blast
    have ctx: "ctx_Err (ideal_peer P blk) idx = None" by (simp add: ideal_peer_def)
    with less.prems True rescan_fetch_ideal [OF f] obtain r found1 s1 where
      p: "scan_pass L w chain m1 [idx..<length chain] found s = Inr (r, found1, s1)"
      by (auto simp: unf split: sum.splits)
    from rescan_pass_follows [OF save p] obtain sv1 where
      q: "rescan_pass L P save w chain m1 [idx..<length chain] sv s = Inr (r, sv1, s1)" by blast
    show ?thesis
    proof (cases r)
      case None
      with less.prems True f p q ctx rescan_fetch_ideal [OF f] show ?thesis by (simp add: unf)
    next
      case (Some kd)
      obtain k d1 where kd: "kd = (k, d1)" by fastforce
      with Some p have k: "idx < k" using scan_pass_next by fastforce
      have "scan_loop L (ideal_peer P blk) w chain k d1 m1 found1 s1 = Inr (found', s')"
        using less.prems True f p Some kd ctx rescan_fetch_ideal [OF f] by (simp add: unf(2))
      moreover have "length chain - k < length chain - idx" using k True by linarith
      ultimately obtain sv' where "rescan_loop L P net save w chain k d1 t1 m1 sv1 s1 = Some (Inr (sv', s'))"
        using less.hyps by blast
      with True f q Some kd show ?thesis by (simp add: unf(1))
    qed
  qed
qed

lemma rescan_loop_total:
  assumes "save = (\<lambda>sv h ms. None)" and "ideal.wallet_ok w s D"
  shows "\<exists>r. rescan_loop L P net save w chain 0 D 0 (replicate (length chain) None) [] s = Some (Inr r)"
proof -
  from answer.scanChain_total [OF assms(2)] obtain found s' where
    "scanChain L (ideal_peer P blk) chain Map.empty w s = Inr (found, s')" by blast
  moreover have "filterData s w = Some D" using assms(2) by (auto simp: ideal.wallet_ok_def)
  ultimately have "scan_loop L (ideal_peer P blk) w chain 0 D (replicate (length chain) None) Map.empty s = Inr (found, s')"
    by (simp add: scanChain_def map_replicate_const)
  from rescan_loop_follows [OF assms(1) this] show ?thesis by blast
qed

end

interpretation refanswer: answering_network ref_lib ref_peer ref_network ref_blk ref_saved
proof unfold_locales
  show "set hs \<subseteq> bn_Hash ` set ref_saved \<Longrightarrow> \<exists>k\<ge>t. blocks_at ref_network k (hd (remotes_at ref_network k)) hs = Inr (map ref_blk hs)" for hs t
    by (intro exI [of _ "Suc t"]) (simp add: ref_network_def)
qed (auto simp: ref_peer_def ref_network_def block_error_def)


context backend_env
begin

lemma Rescan_agrees:
  assumes "load_cfilters CFilter hs = Inr chain" and "filters_in_sync L s" and "rescanFilter s w \<noteq> None"
    and "Rescan L P net (Some CFilter) w hs save s = Some (Inr (sv, s'))"
  shows "\<exists>mss. scan_all L w (map blk hs) s = Inr (mss, s') \<and> sv = filter (\<lambda>(h, ms). ms \<noteq> []) (zip hs mss)"
proof -
  obtain D where ok: "ideal.wallet_ok w s D" using ideal.wallet_ok_synced [OF assms(2,3)] by blast
  then have "filterData s w = Some D" by (auto simp: ideal.wallet_ok_def)
  with assms(4) have "rescan_loop L P net save w chain 0 D 0 (replicate (length chain) None) [] s = Some (Inr (sv, s'))"
    using load_cfilters_hashes [OF assms(1)] by (simp add: Rescan_def assms(1))
  from rescan_agrees [OF ok this] show ?thesis using load_cfilters_hashes [OF assms(1)] by (auto simp: comp_def)
qed

end

context answering_network
begin

lemma Rescan_total:
  assumes "load_cfilters CFilter hs = Inr chain" and "filters_in_sync L s" and "rescanFilter s w \<noteq> None"
  shows "\<exists>sv s'. Rescan L P net (Some CFilter) w hs (\<lambda>sv h ms. None) s = Some (Inr (sv, s'))"
proof -
  obtain D where ok: "ideal.wallet_ok w s D" using ideal.wallet_ok_synced [OF assms(2,3)] by blast
  then have "filterData s w = Some D" by (auto simp: ideal.wallet_ok_def)
  with rescan_loop_total [OF refl ok] show ?thesis
    using load_cfilters_hashes [OF assms(1)] by (simp add: Rescan_def assms(1))
qed

end

section \<open>Properties\<close>


lemma ref_load: "load_cfilters (\<lambda>h. Inr (ref_blk h)) [[1], [2]] = Inr ref_saved"
  by (simp add: ref_saved_def bind_res_def)




text \<open>
  A block request is repeated until an attempt is decisive: \<open>Blocks\<close> returns \<open>r\<close> exactly when
  some attempt finds the context cancelled, no peer, or an answer, with result \<open>r\<close>, and in every
  attempt before it the picked peer failed.  So it never returns when every picked peer fails for ever.
\<close>

theorem Blocks_returns_first_decisive:
  "wb_Blocks net hs = Some r \<longleftrightarrow>
     (\<exists>k. attempt net (\<lambda>t rp. blocks_at net t rp hs) k = Some r \<and> (\<forall>i<k. attempt net (\<lambda>t rp. blocks_at net t rp hs) i = None))"
  unfolding wb_Blocks_def by (rule retry_outcome)

theorem Blocks_returns_first_decisive_witness:
  "wb_Blocks ref_network [[1]] = Some (Inr [ref_blk [1]])"
proof -
  have "attempt ref_network (\<lambda>t rp. blocks_at ref_network t rp [[1]]) 1 = Some (Inr [ref_blk [1]])"
    "\<forall>i<1. attempt ref_network (\<lambda>t rp. blocks_at ref_network t rp [[1]]) i = None"
    by (simp_all add: attempt_def ref_network_def)
  then show ?thesis unfolding Blocks_returns_first_decisive by blast
qed


end
