(* ===== verification/SpvSync.thy ===== *)
theory SpvSync
  imports SpvScan
begin

text \<open>
  Following the chain, \<open>spv/sync.go\<close>: choosing peers, fetching headers (\<open>getHeaders\<close>), handling
  announced blocks (\<open>handleBlockAnnouncements\<close>) and bringing the wallets up to a peer's chain
  (\<open>startupSync\<close>), with the notifications sent on the way.  The wallets' databases, the sidechain
  forest and the remote peer are third-party and parameters over a state \<open>'x\<close>; the wallets are
  visited in an arbitrary order, given as a list of ids.  A run is not cancelled.
\<close>

section \<open>Notifications\<close>

datatype event =
    Synced int bool
  | PeerConnected int string
  | PeerDisconnected int string
  | FetchMissingCFiltersStarted int
  | FetchMissingCFiltersProgress int int int
  | FetchMissingCFiltersFinished int
  | FetchHeadersStarted int
  | FetchHeadersProgress int int
  | FetchHeadersFinished
  | DiscoverAddressesStarted int
  | DiscoverAddressesFinished int
  | RescanStarted int
  | RescanProgress int int
  | RescanFinished int
  | MempoolTxs int "MsgTx list"
  | TipChanged BlockHeader int "MsgTx list"

text \<open>The state of the syncer; \<open>ss_events\<close> are the notifications sent.\<close>

record ('x, 'sc, 'f) syncer =
  ss_world :: 'x
  ss_filters :: "'f filters"
  ss_sidechains :: 'sc
  ss_synced :: "int \<Rightarrow> nat"
  ss_loaded :: "int \<Rightarrow> bool"
  ss_locators :: "hash list"
  ss_generation :: nat
  ss_trylock :: nat
  ss_events :: "event list"

text \<open>\<open>N ev\<close>: notifications are set, and the callback for \<open>ev\<close> is.\<close>

definition notify :: "(event \<Rightarrow> bool) \<Rightarrow> event \<Rightarrow> ('x, 'sc, 'f) syncer \<Rightarrow> ('x, 'sc, 'f) syncer" where
  "notify N ev s = (if N ev then s\<lparr>ss_events := ss_events s @ [ev]\<rparr> else s)"

definition synced :: "(event \<Rightarrow> bool) \<Rightarrow> int \<Rightarrow> ('x, 'sc, 'f) syncer \<Rightarrow> ('x, 'sc, 'f) syncer" where
  "synced N walletID s =
     (if ss_synced s walletID = 0
      then notify N (Synced walletID True) (s\<lparr>ss_synced := (ss_synced s)(walletID := 1)\<rparr>) else s)"

definition unsynced :: "(event \<Rightarrow> bool) \<Rightarrow> int \<Rightarrow> ('x, 'sc, 'f) syncer \<Rightarrow> ('x, 'sc, 'f) syncer" where
  "unsynced N walletID s =
     (if ss_synced s walletID = 1
      then notify N (Synced walletID False) (s\<lparr>ss_synced := (ss_synced s)(walletID := 0)\<rparr>) else s)"

text \<open>The plain notifiers.\<close>

abbreviation peerConnected where "peerConnected N remotesCount addr \<equiv> notify N (PeerConnected (int32_of remotesCount) addr)"
abbreviation peerDisconnected where "peerDisconnected N remotesCount addr \<equiv> notify N (PeerDisconnected (int32_of remotesCount) addr)"
abbreviation fetchMissingCfiltersStart where "fetchMissingCfiltersStart N walletID \<equiv> notify N (FetchMissingCFiltersStarted walletID)"
abbreviation fetchMissingCfiltersProgress where "fetchMissingCfiltersProgress N walletID a b \<equiv> notify N (FetchMissingCFiltersProgress walletID a b)"
abbreviation fetchMissingCfiltersFinished where "fetchMissingCfiltersFinished N walletID \<equiv> notify N (FetchMissingCFiltersFinished walletID)"
abbreviation fetchHeadersStart where "fetchHeadersStart N peerInitialHeight \<equiv> notify N (FetchHeadersStarted peerInitialHeight)"
abbreviation fetchHeadersFinished where "fetchHeadersFinished N \<equiv> notify N FetchHeadersFinished"
abbreviation discoverAddressesStart where "discoverAddressesStart N walletID \<equiv> notify N (DiscoverAddressesStarted walletID)"
abbreviation discoverAddressesFinished where "discoverAddressesFinished N walletID \<equiv> notify N (DiscoverAddressesFinished walletID)"
abbreviation rescanStart where "rescanStart N walletID \<equiv> notify N (RescanStarted walletID)"
abbreviation rescanProgress where "rescanProgress N walletID rescannedThrough \<equiv> notify N (RescanProgress walletID rescannedThrough)"
abbreviation rescanFinished where "rescanFinished N walletID \<equiv> notify N (RescanFinished walletID)"
abbreviation mempoolTxs where "mempoolTxs N walletID txs \<equiv> notify N (MempoolTxs walletID txs)"

definition fetchHeadersProgress :: "(event \<Rightarrow> bool) \<Rightarrow> BlockHeader \<Rightarrow> ('x, 'sc, 'f) syncer \<Rightarrow> ('x, 'sc, 'f) syncer" where
  "fetchHeadersProgress N h s = notify N (FetchHeadersProgress (int32_of (int (hd_Height h))) (hd_Timestamp h)) s"

text \<open>\<open>ranging\<close> is the iteration over the map of matching transactions.\<close>

definition tipChanged ::
  "(event \<Rightarrow> bool) \<Rightarrow> (found \<Rightarrow> MsgTx list) \<Rightarrow> BlockHeader \<Rightarrow> int \<Rightarrow> found \<Rightarrow> ('x, 'sc, 'f) syncer \<Rightarrow> ('x, 'sc, 'f) syncer" where
  "tipChanged N ranging tip reorgDepth matchingTxs s = notify N (TipChanged tip reorgDepth (ranging matchingTxs)) s"

section \<open>Parameters\<close>

record ('x, 'g, 'sc, 'f) chain_lib =
  MainChainTip :: "'x \<Rightarrow> int \<Rightarrow> hash \<times> int"
  BlockLocators :: "'x \<Rightarrow> int \<Rightarrow> hash list result"
  RescanPoint :: "'x \<Rightarrow> int \<Rightarrow> hash option result"
  w_BlockHeader :: "'x \<Rightarrow> int \<Rightarrow> hash \<Rightarrow> BlockHeader result"
  BlockInMainChain :: "'x \<Rightarrow> int \<Rightarrow> hash \<Rightarrow> bool result"
  AddBlockNode :: "'sc \<Rightarrow> 'g BlockNode \<Rightarrow> bool \<times> 'sc"
  EvaluateBestChain :: "'x \<Rightarrow> int \<Rightarrow> 'sc \<Rightarrow> 'g BlockNode list result"
  ValidateHeaderChainDifficulties :: "'x \<Rightarrow> int \<Rightarrow> 'g BlockNode list \<Rightarrow> err option"
  ChainSwitch :: "'x \<Rightarrow> int \<Rightarrow> 'sc \<Rightarrow> 'g BlockNode list \<Rightarrow> found \<Rightarrow> ('g BlockNode list \<times> 'x \<times> 'sc) result"
  FetchMissingCFilters :: "'x \<Rightarrow> int \<Rightarrow> (err + int \<times> int) list \<times> 'x"
  DiscoverActiveAddresses :: "'x \<Rightarrow> int \<Rightarrow> hash \<Rightarrow> 'x \<times> err option"
  LoadActiveDataFilters :: "'x \<Rightarrow> int \<Rightarrow> 'f filters \<Rightarrow> 'f filters \<times> err option"
  RescanProgressFromHeight :: "'x \<Rightarrow> int \<Rightarrow> int \<Rightarrow> 'f filters \<Rightarrow> (err + int) list \<times> 'x \<times> 'f filters"
  UnminedTransactions :: "'x \<Rightarrow> int \<Rightarrow> MsgTx list result"
  BlockHash :: "BlockHeader \<Rightarrow> hash"
  InitialHeight :: int
  rp_Headers :: "'x \<Rightarrow> hash list \<Rightarrow> BlockHeader list result \<times> 'x"
  rp_CFilter :: "'x \<Rightarrow> hash \<Rightarrow> 'g result"
  rp_CFilters :: "'x \<Rightarrow> hash list \<Rightarrow> 'g list result"
  rp_Blocks :: "hash list \<Rightarrow> MsgBlock list result"
  rp_SendHeaders :: "'x \<Rightarrow> err option"
  rp_PublishTransactions :: "'x \<Rightarrow> MsgTx list \<Rightarrow> 'x"
  first_error :: "err list \<Rightarrow> err"

section \<open>Choosing wallets and peers\<close>

definition lowestChainTip :: "('x, 'g, 'sc, 'f) chain_lib \<Rightarrow> 'x \<Rightarrow> int list \<Rightarrow> hash \<times> int \<times> int option" where
  "lowestChainTip C x ws =
     foldl (\<lambda>(lh, lt, lw) w. let (hash, height) = MainChainTip C x w in
              if height < lt \<or> lt = -1 then (hash, height, Some w) else (lh, lt, lw))
       (replicate 32 0, -1, None) ws"

definition highestChainTip :: "('x, 'g, 'sc, 'f) chain_lib \<Rightarrow> 'x \<Rightarrow> int list \<Rightarrow> hash \<times> int \<times> int option" where
  "highestChainTip C x ws =
     foldl (\<lambda>(lh, lt, lw) w. let (hash, height) = MainChainTip C x w in
              if height > lt \<or> lt = -1 then (hash, height, Some w) else (lh, lt, lw))
       (replicate 32 0, -1, None) ws"

record KnownAddress =
  ka_Key :: string
  ka_Services :: "64 word"
  ka_recent :: bool

unbundle bit_operations_syntax

text \<open>\<open>get tries\<close>: what the address manager returns at this try.\<close>

function candidate_loop :: "(nat \<Rightarrow> KnownAddress option) \<Rightarrow> (string \<Rightarrow> bool) \<Rightarrow> 64 word \<Rightarrow> nat \<Rightarrow> KnownAddress result" where
  "candidate_loop get connected svcs tries =
     (if tries < 100
      then case get tries of
             None \<Rightarrow> Inl (New ''no addresses'')
           | Some a \<Rightarrow>
               if connected (ka_Key a) \<or> (tries < 30 \<and> ka_recent a) \<or> (tries < 50 \<and> ka_Services a AND svcs \<noteq> svcs)
               then candidate_loop get connected svcs (Suc tries)
               else Inr a
      else Inl (New ''no addresses''))"
  by pat_completeness auto
termination
  by (relation "measure (\<lambda>(get, connected, svcs, tries). 100 - tries)") auto

declare candidate_loop.simps [simp del]

definition peerCandidate :: "(nat \<Rightarrow> KnownAddress option) \<Rightarrow> string set \<Rightarrow> string set \<Rightarrow> 64 word \<Rightarrow> KnownAddress result" where
  "peerCandidate get connectingRemotes remotes svcs =
     candidate_loop get (\<lambda>k. k \<in> connectingRemotes \<or> k \<in> remotes) svcs 0"

section \<open>Headers\<close>

text \<open>The nodes of fetched headers; the filters are fetched concurrently and one of the errors is returned.\<close>

definition header_nodes :: "('x, 'g, 'sc, 'f) chain_lib \<Rightarrow> 'x \<Rightarrow> BlockHeader list \<Rightarrow> 'g BlockNode list result" where
  "header_nodes C x headers =
     (let rs = map (\<lambda>h. rp_CFilter C x (BlockHash C h)) headers;
          errs = concat (map (\<lambda>r. case r of Inl e \<Rightarrow> [e] | Inr f \<Rightarrow> []) rs)
      in if errs \<noteq> [] then Inl (first_error C errs)
         else Inr (map2 (\<lambda>h r. \<lparr>bn_Header = h, bn_Hash = BlockHash C h, bn_Filter = projr r\<rparr>) headers rs))"

fun add_nodes :: "('x, 'g, 'sc, 'f) chain_lib \<Rightarrow> 'x \<Rightarrow> int \<Rightarrow> 'sc \<Rightarrow> 'g BlockNode list \<Rightarrow> 'sc" where
  "add_nodes C x w sc [] = sc"
| "add_nodes C x w sc (n # ns) =
     add_nodes C x w (case BlockInMainChain C x w (bn_Hash n) of Inr True \<Rightarrow> sc | _ \<Rightarrow> snd (AddBlockNode C sc n)) ns"

definition readd :: "('x, 'g, 'sc, 'f) chain_lib \<Rightarrow> 'sc \<Rightarrow> 'g BlockNode list \<Rightarrow> 'sc" where
  "readd C sc prevChain = foldl (\<lambda>sc n. snd (AddBlockNode C sc n)) sc prevChain"

text \<open>The loop body of \<open>getHeaders\<close> for one wallet.\<close>

definition headers_wallet ::
  "('x, 'g, 'sc, 'f) chain_lib \<Rightarrow> (event \<Rightarrow> bool) \<Rightarrow> BlockHeader list \<Rightarrow> 'g BlockNode list \<Rightarrow> ('x, 'sc, 'f) syncer \<Rightarrow> int \<Rightarrow>
   (err \<times> ('x, 'sc, 'f) syncer) + ('x, 'sc, 'f) syncer" where
  "headers_wallet C N headers nodes s w =
     (let s1 = s\<lparr>ss_sidechains := add_nodes C (ss_world s) w (ss_sidechains s) nodes\<rparr> in
      case EvaluateBestChain C (ss_world s1) w (ss_sidechains s1) of
        Inl e \<Rightarrow> Inl (e, s1)
      | Inr [] \<Rightarrow> Inr s1
      | Inr bestChain \<Rightarrow>
          (case ValidateHeaderChainDifficulties C (ss_world s1) w bestChain of
             Some e \<Rightarrow> Inl (e, s1)
           | None \<Rightarrow>
               (case ChainSwitch C (ss_world s1) w (ss_sidechains s1) bestChain Map.empty of
                  Inl e \<Rightarrow> Inl (e, s1)
                | Inr (prevChain, x, sc) \<Rightarrow>
                    let s2 = s1\<lparr>ss_world := x, ss_sidechains := readd C sc prevChain\<rparr> in
                    Inr (if length bestChain = 1 then s2 else fetchHeadersProgress N (last headers) s2))))"

definition new_locators :: "('x, 'g, 'sc, 'f) chain_lib \<Rightarrow> int \<Rightarrow> ('x, 'sc, 'f) syncer \<Rightarrow> (err \<times> ('x, 'sc, 'f) syncer) + ('x, 'sc, 'f) syncer" where
  "new_locators C lw s =
     (case BlockLocators C (ss_world s) lw of
        Inl e \<Rightarrow> Inl (e, s)
      | Inr ls \<Rightarrow> Inr (s\<lparr>ss_locators := ls, ss_generation := (ss_generation s + 1) mod 2 ^ 64\<rparr>))"

text \<open>The end of \<open>getHeaders\<close>, when the peer has no more headers.\<close>

definition headers_done :: "('x, 'g, 'sc, 'f) chain_lib \<Rightarrow> int \<Rightarrow> int \<Rightarrow> ('x, 'sc, 'f) syncer \<Rightarrow> hash list \<Rightarrow> err option" where
  "headers_done C lw lastHeight s locators =
     (if lastHeight < InitialHeight C
      then (case locators of
              [] \<Rightarrow> Some (Panic ''index out of range'')
            | l # _ \<Rightarrow>
                (case w_BlockHeader C (ss_world s) lw l of
                   Inr h \<Rightarrow> if int32_of (int (hd_Height h)) < InitialHeight C
                            then Some (E Protocol ''peer did not provide headers through advertised height'')
                            else rp_SendHeaders C (ss_world s)
                 | Inl e \<Rightarrow> rp_SendHeaders C (ss_world s)))
      else rp_SendHeaders C (ss_world s))"

text \<open>\<open>None\<close> is a peer that never stops sending headers.\<close>

partial_function (option) headers_loop ::
  "('x, 'g, 'sc, 'f) chain_lib \<Rightarrow> (event \<Rightarrow> bool) \<Rightarrow> int list \<Rightarrow> int \<Rightarrow> int \<Rightarrow> hash list \<Rightarrow> ('x, 'sc, 'f) syncer \<Rightarrow> (err option \<times> ('x, 'sc, 'f) syncer) option" where
  "headers_loop C N ws lw lastHeight locators s =
     (case rp_Headers C (ss_world s) locators of
        (Inl e, x) \<Rightarrow> Some (Some e, s\<lparr>ss_world := x\<rparr>)
      | (Inr headers, x) \<Rightarrow>
          let s0 = s\<lparr>ss_world := x\<rparr> in
          if headers = [] then Some (headers_done C lw lastHeight s0 locators, s0)
          else (case header_nodes C (ss_world s0) headers of
             Inl e \<Rightarrow> Some (Some e, s0)
           | Inr nodes \<Rightarrow>
               (case traverse (headers_wallet C N headers nodes) s0 ws of
                  Inl (e, s1) \<Rightarrow> Some (Some e, s1)
                | Inr s1 \<Rightarrow>
                    (case new_locators C lw s1 of
                       Inl (e, s2) \<Rightarrow> Some (Some e, s2)
                     | Inr s2 \<Rightarrow> headers_loop C N ws lw (int32_of (int (hd_Height (last headers)))) (ss_locators s2) s2))))"

definition getHeaders ::
  "('x, 'g, 'sc, 'f) chain_lib \<Rightarrow> (event \<Rightarrow> bool) \<Rightarrow> int list \<Rightarrow> ('x, 'sc, 'f) syncer \<Rightarrow> (err option \<times> ('x, 'sc, 'f) syncer) option" where
  "getHeaders C N ws s =
     (case lowestChainTip C (ss_world s) ws of
        (_, _, None) \<Rightarrow> Some (Some (Panic ''nil wallet''), s)
      | (_, _, Some lw) \<Rightarrow>
          (case (if ss_locators s = [] then new_locators C lw s else Inr s) of
             Inl (e, s1) \<Rightarrow> Some (Some e, s1)
           | Inr s1 \<Rightarrow> headers_loop C N ws lw 0 (ss_locators s1) s1))"

section \<open>Announced blocks\<close>

text \<open>
  The nodes of announced blocks that a wallet does not have, added to the sidechains; the result has
  the nodes that were new to them.
\<close>

fun add_announced ::
  "('x, 'g, 'sc, 'f) chain_lib \<Rightarrow> int \<Rightarrow> BlockHeader list \<Rightarrow> 'g list \<Rightarrow> ('x, 'sc, 'f) syncer \<Rightarrow> 'g BlockNode list \<Rightarrow>
   err option \<times> ('x, 'sc, 'f) syncer \<times> 'g BlockNode list" where
  "add_announced C w [] fs s newBlocks = (None, s, newBlocks)"
| "add_announced C w (h # hs) fs s newBlocks =
     (case BlockInMainChain C (ss_world s) w (BlockHash C h) of
        Inl e \<Rightarrow> (Some e, s, newBlocks)
      | Inr True \<Rightarrow> add_announced C w hs (tl fs) s newBlocks
      | Inr False \<Rightarrow>
          (case fs of
             [] \<Rightarrow> (Some (Panic ''index out of range''), s, newBlocks)
           | f # fs' \<Rightarrow>
               let n = \<lparr>bn_Header = h, bn_Hash = BlockHash C h, bn_Filter = f\<rparr>;
                   (added, sc) = AddBlockNode C (ss_sidechains s) n
               in add_announced C w hs fs' (s\<lparr>ss_sidechains := sc\<rparr>) (if added then newBlocks @ [n] else newBlocks)))"

text \<open>The function literal of \<open>handleBlockAnnouncements\<close>: the best chain and the matching transactions.\<close>

definition switch_wallet ::
  "('x, 'g, 'sc, 'f) chain_lib \<Rightarrow> ('a, 'f) spv_lib \<Rightarrow> 'g peer \<Rightarrow> (event \<Rightarrow> bool) \<Rightarrow> (found \<Rightarrow> MsgTx list) \<Rightarrow> (hash \<rightharpoonup> MsgBlock) \<Rightarrow>
   ('x, 'sc, 'f) syncer \<Rightarrow> int \<Rightarrow> err option \<times> ('x, 'sc, 'f) syncer \<times> 'g BlockNode list" where
  "switch_wallet C L P N ranging bmap s w =
     (case EvaluateBestChain C (ss_world s) w (ss_sidechains s) of
        Inl e \<Rightarrow> (Some e, s, [])
      | Inr bestChain \<Rightarrow>
          if bestChain = [] then (None, s, [])
          else (case ValidateHeaderChainDifficulties C (ss_world s) w bestChain of
             Some e \<Rightarrow> (Some e, s, bestChain)
           | None \<Rightarrow>
               (case RescanPoint C (ss_world s) w of
                  Inl e \<Rightarrow> (Some e, s, bestChain)
                | Inr rpt \<Rightarrow>
                    (case (if rpt = None then scanChain L P bestChain bmap w (ss_filters s) else Inr (Map.empty, ss_filters s)) of
                       Inl (e, _) \<Rightarrow> (Some e, s, bestChain)
                     | Inr (matchingTxs, fl) \<Rightarrow>
                         let s1 = s\<lparr>ss_filters := fl\<rparr> in
                         (case ChainSwitch C (ss_world s1) w (ss_sidechains s1) bestChain matchingTxs of
                            Inl e \<Rightarrow> (Some e, s1, bestChain)
                          | Inr (prevChain, x, sc) \<Rightarrow>
                              (None, tipChanged N ranging (bn_Header (last bestChain)) (int32_of (int (length prevChain))) matchingTxs
                                 (s1\<lparr>ss_world := x, ss_sidechains := readd C sc prevChain\<rparr>), bestChain))))))"

definition announce_wallet ::
  "('x, 'g, 'sc, 'f) chain_lib \<Rightarrow> ('a, 'f) spv_lib \<Rightarrow> 'g peer \<Rightarrow> (event \<Rightarrow> bool) \<Rightarrow> (found \<Rightarrow> MsgTx list) \<Rightarrow> BlockHeader list \<Rightarrow> 'g list \<Rightarrow>
   (hash \<rightharpoonup> MsgBlock) \<Rightarrow> ('x, 'sc, 'f) syncer \<Rightarrow> int \<Rightarrow> (err \<times> ('x, 'sc, 'f) syncer) + ('x, 'sc, 'f) syncer" where
  "announce_wallet C L P N ranging headers filters bmap s w =
     (case add_announced C w headers filters s [] of
        (Some e, s1, _) \<Rightarrow> Inl (e, s1)
      | (None, s1, newBlocks) \<Rightarrow>
          (case switch_wallet C L P N ranging bmap s1 w of
             (Some e, s2, _) \<Rightarrow> Inl (e, s2)
           | (None, s2, bestChain) \<Rightarrow>
               let s3 = (if bestChain \<noteq> [] then s2\<lparr>ss_locators := [], ss_generation := (ss_generation s2 + 1) mod 2 ^ 64\<rparr> else s2) in
               (case find (\<lambda>r. \<not> is_ok r) (map (\<lambda>n. BlockInMainChain C (ss_world s3) w (bn_Hash n)) newBlocks) of
                  Some (Inl e) \<Rightarrow> Inl (e, s3)
                | _ \<Rightarrow> Inr s3)))"

definition handleBlockAnnouncements ::
  "('x, 'g, 'sc, 'f) chain_lib \<Rightarrow> ('a, 'f) spv_lib \<Rightarrow> 'g peer \<Rightarrow> (event \<Rightarrow> bool) \<Rightarrow> (found \<Rightarrow> MsgTx list) \<Rightarrow> int list \<Rightarrow> BlockHeader list \<Rightarrow>
   (hash \<rightharpoonup> MsgBlock) \<Rightarrow> ('x, 'sc, 'f) syncer \<Rightarrow> (err \<times> ('x, 'sc, 'f) syncer) + ('x, 'sc, 'f) syncer" where
  "handleBlockAnnouncements C L P N ranging ws headers bmap s =
     (if headers = [] then Inr s
      else case rp_CFilters C (ss_world s) (map (BlockHash C) headers) of
        Inl e \<Rightarrow> Inl (e, s)
      | Inr filters \<Rightarrow> traverse (announce_wallet C L P N ranging headers filters bmap) s ws)"

definition handleBlockInvs ::
  "('x, 'g, 'sc, 'f) chain_lib \<Rightarrow> ('a, 'f) spv_lib \<Rightarrow> 'g peer \<Rightarrow> (event \<Rightarrow> bool) \<Rightarrow> (found \<Rightarrow> MsgTx list) \<Rightarrow> int list \<Rightarrow> hash list \<Rightarrow>
   ('x, 'sc, 'f) syncer \<Rightarrow> (err \<times> ('x, 'sc, 'f) syncer) + ('x, 'sc, 'f) syncer" where
  "handleBlockInvs C L P N ranging ws hashes s =
     (case rp_Blocks C hashes of
        Inl e \<Rightarrow> Inl (e, s)
      | Inr blocks \<Rightarrow>
          handleBlockAnnouncements C L P N ranging ws (map blk_Header blocks)
            (map_of (rev (map (\<lambda>b. (BlockHash C (blk_Header b), b)) blocks))) s)"

section \<open>Bringing the wallets up to date\<close>

text \<open>Reading a progress channel: a notification per value, until an error.\<close>

fun drain :: "(event \<Rightarrow> bool) \<Rightarrow> ('p \<Rightarrow> event) \<Rightarrow> (err + 'p) list \<Rightarrow> ('x, 'sc, 'f) syncer \<Rightarrow> err option \<times> ('x, 'sc, 'f) syncer" where
  "drain N ev [] s = (None, s)"
| "drain N ev (Inl e # ps) s = (Some e, s)"
| "drain N ev (Inr p # ps) s = drain N ev ps (notify N (ev p) s)"

definition fetch_missing_wallet ::
  "('x, 'g, 'sc, 'f) chain_lib \<Rightarrow> (event \<Rightarrow> bool) \<Rightarrow> ('x, 'sc, 'f) syncer \<Rightarrow> int \<Rightarrow> (err \<times> ('x, 'sc, 'f) syncer) + ('x, 'sc, 'f) syncer" where
  "fetch_missing_wallet C N s w =
     (let s1 = fetchMissingCfiltersStart N w s;
          (ps, x) = FetchMissingCFilters C (ss_world s1) w
      in case drain N (\<lambda>(a, b). FetchMissingCFiltersProgress w a b) ps (s1\<lparr>ss_world := x\<rparr>) of
           (Some e, s2) \<Rightarrow> Inl (e, s2)
         | (None, s2) \<Rightarrow> Inr (fetchMissingCfiltersFinished N w s2))"

definition fetchMissingCFilters ::
  "('x, 'g, 'sc, 'f) chain_lib \<Rightarrow> (event \<Rightarrow> bool) \<Rightarrow> int list \<Rightarrow> ('x, 'sc, 'f) syncer \<Rightarrow> (err \<times> ('x, 'sc, 'f) syncer) + ('x, 'sc, 'f) syncer" where
  "fetchMissingCFilters C N ws s = traverse (fetch_missing_wallet C N) s ws"

text \<open>The function literal of \<open>startupSync\<close> for one wallet.\<close>

definition load_filters :: "('x, 'g, 'sc, 'f) chain_lib \<Rightarrow> ('x, 'sc, 'f) syncer \<Rightarrow> int \<Rightarrow> ('x, 'sc, 'f) syncer \<times> err option" where
  "load_filters C s w =
     (case LoadActiveDataFilters C (ss_world s) w (ss_filters s) of
        (fl, Some e) \<Rightarrow> (s\<lparr>ss_filters := fl\<rparr>, Some e)
      | (fl, None) \<Rightarrow> (s\<lparr>ss_filters := fl, ss_loaded := (ss_loaded s)(w := True)\<rparr>, None))"

definition rescan_wallet ::
  "('x, 'g, 'sc, 'f) chain_lib \<Rightarrow> (event \<Rightarrow> bool) \<Rightarrow> ('x, 'sc, 'f) syncer \<Rightarrow> int \<Rightarrow> hash \<Rightarrow> ('x, 'sc, 'f) syncer \<times> err option" where
  "rescan_wallet C N s w rescanPoint =
     (let s1 = discoverAddressesStart N w (unsynced N w s) in
      case DiscoverActiveAddresses C (ss_world s1) w rescanPoint of
        (x, Some e) \<Rightarrow> (s1\<lparr>ss_world := x\<rparr>, Some e)
      | (x, None) \<Rightarrow>
          (case load_filters C (discoverAddressesFinished N w (s1\<lparr>ss_world := x\<rparr>)) w of
             (s2, Some e) \<Rightarrow> (s2, Some e)
           | (s2, None) \<Rightarrow>
               let s3 = rescanStart N w s2 in
               (case w_BlockHeader C (ss_world s3) w rescanPoint of
                  Inl e \<Rightarrow> (s3, Some e)
                | Inr h \<Rightarrow>
                    (case RescanProgressFromHeight C (ss_world s3) w (int32_of (int (hd_Height h))) (ss_filters s3) of
                       (ps, x', fl) \<Rightarrow>
                         (case drain N (RescanProgress w) ps (s3\<lparr>ss_world := x', ss_filters := fl\<rparr>) of
                            (Some e, s4) \<Rightarrow> (s4, Some e)
                          | (None, s4) \<Rightarrow> (synced N w (rescanFinished N w s4), None))))))"

definition catch_up_wallet ::
  "('x, 'g, 'sc, 'f) chain_lib \<Rightarrow> (event \<Rightarrow> bool) \<Rightarrow> ('x, 'sc, 'f) syncer \<Rightarrow> int \<Rightarrow> ('x, 'sc, 'f) syncer \<times> err option" where
  "catch_up_wallet C N s w =
     (case RescanPoint C (ss_world s) w of
        Inl e \<Rightarrow> (s, Some e)
      | Inr None \<Rightarrow>
          (case (if \<not> ss_loaded s w then load_filters C s w else (s, None)) of
             (s1, Some e) \<Rightarrow> (s1, Some e)
           | (s1, None) \<Rightarrow> (synced N w s1, None))
      | Inr (Some rescanPoint) \<Rightarrow> rescan_wallet C N s w rescanPoint)"

text \<open>The loop assigns \<open>err\<close> anew for every wallet.\<close>

definition catch_up_all ::
  "('x, 'g, 'sc, 'f) chain_lib \<Rightarrow> (event \<Rightarrow> bool) \<Rightarrow> int list \<Rightarrow> ('x, 'sc, 'f) syncer \<Rightarrow> ('x, 'sc, 'f) syncer \<times> err option" where
  "catch_up_all C N ws s = foldl (\<lambda>(s, err) w. catch_up_wallet C N s w) (s, None) ws"

definition resend_unmined :: "('x, 'g, 'sc, 'f) chain_lib \<Rightarrow> int list \<Rightarrow> ('x, 'sc, 'f) syncer \<Rightarrow> ('x, 'sc, 'f) syncer" where
  "resend_unmined C ws s =
     foldl (\<lambda>s w. case UnminedTransactions C (ss_world s) w of
              Inl e \<Rightarrow> s
            | Inr txs \<Rightarrow> if txs = [] then s else s\<lparr>ss_world := rp_PublishTransactions C (ss_world s) txs\<rparr>) s ws"

definition catch_up :: "('x, 'g, 'sc, 'f) chain_lib \<Rightarrow> (event \<Rightarrow> bool) \<Rightarrow> int list \<Rightarrow> ('x, 'sc, 'f) syncer \<Rightarrow> ('x, 'sc, 'f) syncer \<times> err option" where
  "catch_up C N ws s =
     (if ss_trylock s = 0
      then (case catch_up_all C N ws (s\<lparr>ss_trylock := 1\<rparr>) of (s1, err) \<Rightarrow> (s1\<lparr>ss_trylock := 0\<rparr>, err))
      else (s, None))"

definition startupSync ::
  "('x, 'g, 'sc, 'f) chain_lib \<Rightarrow> (event \<Rightarrow> bool) \<Rightarrow> int list \<Rightarrow> ('x, 'sc, 'f) syncer \<Rightarrow> (err option \<times> ('x, 'sc, 'f) syncer) option" where
  "startupSync C N ws s =
     (case highestChainTip C (ss_world s) ws of
        (_, tipHeight, _) \<Rightarrow>
          if InitialHeight C < int32_of (tipHeight - 6) then Some (Some (E OtherKind ''peer is not synced''), s)
          else (case fetchMissingCFilters C N ws s of
             Inl (e, s1) \<Rightarrow> Some (Some e, s1)
           | Inr s1 \<Rightarrow>
               (case getHeaders C N ws (fetchHeadersStart N (InitialHeight C) s1) of
                  None \<Rightarrow> None
                | Some (Some e, s2) \<Rightarrow> Some (Some e, s2)
                | Some (None, s2) \<Rightarrow>
                    (case catch_up C N ws (fetchHeadersFinished N s2) of
                       (s3, Some e) \<Rightarrow> Some (Some e, s3)
                     | (s3, None) \<Rightarrow> Some (None, resend_unmined C ws s3)))))"

section \<open>Which steps are silent about syncness\<close>

fun is_synced_event :: "event \<Rightarrow> bool" where
  "is_synced_event (Synced w b) = True"
| "is_synced_event _ = False"

definition quiet :: "('x, 'sc, 'f) syncer \<Rightarrow> ('x, 'sc, 'f) syncer \<Rightarrow> bool" where
  "quiet s s' \<longleftrightarrow> ss_synced s' = ss_synced s \<and> filter is_synced_event (ss_events s') = filter is_synced_event (ss_events s)"

named_theorems quiet_intros \<open>steps that change no syncness\<close>

lemma quiet_refl [quiet_intros, simp]: "quiet s s"
  by (simp add: quiet_def)

lemma quiet_trans [trans]: "quiet s s1 \<Longrightarrow> quiet s1 s2 \<Longrightarrow> quiet s s2"
  by (simp add: quiet_def)

lemma quiet_notify [quiet_intros]: "\<not> is_synced_event ev \<Longrightarrow> quiet s (notify N ev s)"
  by (simp add: quiet_def notify_def)

lemma quiet_update [simp]:
  "quiet s (s'\<lparr>ss_world := x\<rparr>) = quiet s s'" "quiet s (s'\<lparr>ss_filters := fl\<rparr>) = quiet s s'"
  "quiet s (s'\<lparr>ss_sidechains := sc\<rparr>) = quiet s s'" "quiet s (s'\<lparr>ss_loaded := ld\<rparr>) = quiet s s'"
  "quiet s (s'\<lparr>ss_locators := ls\<rparr>) = quiet s s'" "quiet s (s'\<lparr>ss_generation := g\<rparr>) = quiet s s'"
  "quiet s (s'\<lparr>ss_trylock := t\<rparr>) = quiet s s'"
  by (simp_all add: quiet_def)

lemma quiet_from_world [simp]: "quiet (s\<lparr>ss_world := x\<rparr>) s' = quiet s s'"
  by (simp add: quiet_def)

lemma quiet_notify_iff [simp]: "\<not> is_synced_event ev \<Longrightarrow> quiet s (notify N ev s') = quiet s s'"
  by (simp add: quiet_def notify_def)

lemma quiet_drain: "drain N ev ps s = (r, s') \<Longrightarrow> (\<And>p. \<not> is_synced_event (ev p)) \<Longrightarrow> quiet s s'"
proof (induction N ev ps s rule: drain.induct)
  case (3 N ev p ps s)
  then have "quiet (notify N (ev p) s) s'" by simp
  with 3 show ?case using quiet_trans quiet_notify by blast
qed auto

lemma quiet_traverse:
  assumes "\<And>s x e s'. f s x = Inl (e, s') \<Longrightarrow> quiet s s'" and "\<And>s x s'. f s x = Inr s' \<Longrightarrow> quiet s s'"
  shows "(traverse f s xs = Inl (e, s') \<longrightarrow> quiet s s') \<and> (traverse f s xs = Inr s' \<longrightarrow> quiet s s')"
proof (induction xs arbitrary: s)
  case (Cons x xs)
  show ?case
  proof (cases "f s x")
    case (Inr s1)
    with Cons.IH [of s1] assms(2) [OF Inr] show ?thesis by (auto intro: quiet_trans)
  qed (use assms(1) in auto)
qed simp

lemma quiet_headers_wallet:
  "headers_wallet C N headers nodes s w = Inl (e, s') \<Longrightarrow> quiet s s'"
  "headers_wallet C N headers nodes s w = Inr s' \<Longrightarrow> quiet s s'"
  by (auto simp: headers_wallet_def fetchHeadersProgress_def Let_def split: sum.splits list.splits option.splits prod.splits if_splits)

lemma quiet_new_locators:
  "new_locators C lw s = Inl (e, s') \<Longrightarrow> quiet s s'" "new_locators C lw s = Inr s' \<Longrightarrow> quiet s s'"
  by (auto simp: new_locators_def split: sum.splits)

lemma quiet_headers_loop:
  assumes "headers_loop C N ws lw lastHeight locators s = Some out"
  shows "quiet s (snd out)"
proof (rule headers_loop.raw_induct [where P = "\<lambda>C N ws lw lastHeight locators s out. quiet s (snd out)", OF _ assms], goal_cases)
  case (1 loop C N ws lw lastHeight locators s out)
  have tr: "traverse (headers_wallet C N headers nodes) s0 ws = Inl (e, s1) \<Longrightarrow> quiet s0 s1"
    "traverse (headers_wallet C N headers nodes) s0 ws = Inr s1 \<Longrightarrow> quiet s0 s1" for headers nodes s0 e s1
    using quiet_traverse [of "headers_wallet C N headers nodes"] quiet_headers_wallet by blast+
  obtain hs x where h: "rp_Headers C (ss_world s) locators = (hs, x)" by fastforce
  show ?case
  proof (cases "\<exists>headers nodes s1 s2. hs = Inr headers \<and> headers \<noteq> [] \<and> header_nodes C x headers = Inr nodes \<and>
      traverse (headers_wallet C N headers nodes) (s\<lparr>ss_world := x\<rparr>) ws = Inr s1 \<and> new_locators C lw s1 = Inr s2")
    case True
    then obtain headers nodes s1 s2 where c: "hs = Inr headers" "headers \<noteq> []" "header_nodes C x headers = Inr nodes"
      "traverse (headers_wallet C N headers nodes) (s\<lparr>ss_world := x\<rparr>) ws = Inr s1" "new_locators C lw s1 = Inr s2" by blast
    with 1(2) h have "loop C N ws lw (int32_of (int (hd_Height (last headers)))) (ss_locators s2) s2 = Some out"
      by (simp add: Let_def)
    then have "quiet s2 (snd out)" by (rule 1(1))
    moreover have "quiet s (s\<lparr>ss_world := x\<rparr>)" by simp
    ultimately show ?thesis using tr(2) [OF c(4)] quiet_new_locators(2) [OF c(5)] quiet_trans by blast
  next
    case False
    then show ?thesis using 1(2) h
      by (auto simp: Let_def split: sum.splits if_splits prod.splits dest!: tr quiet_new_locators(1) intro: quiet_trans)
  qed
qed

lemma quiet_getHeaders: "getHeaders C N ws s = Some (r, s') \<Longrightarrow> quiet s s'"
  using quiet_headers_loop quiet_new_locators
  by (fastforce simp: getHeaders_def split: prod.splits option.splits sum.splits if_splits intro: quiet_trans)

lemma quiet_fetch_missing_wallet:
  "fetch_missing_wallet C N s w = Inl (e, s') \<Longrightarrow> quiet s s'"
  "fetch_missing_wallet C N s w = Inr s' \<Longrightarrow> quiet s s'"
proof -
  obtain ps x where f: "FetchMissingCFilters C (ss_world (notify N (FetchMissingCFiltersStarted w) s)) w = (ps, x)" by fastforce
  obtain r s2 where d: "drain N (\<lambda>(a, b). FetchMissingCFiltersProgress w a b) ps ((notify N (FetchMissingCFiltersStarted w) s)\<lparr>ss_world := x\<rparr>) = (r, s2)"
    by fastforce
  have "quiet ((notify N (FetchMissingCFiltersStarted w) s)\<lparr>ss_world := x\<rparr>) s2"
    by (rule quiet_drain [OF d]) auto
  then have "quiet s s2" using quiet_trans [OF quiet_notify, of "FetchMissingCFiltersStarted w"] by simp
  with f d show "fetch_missing_wallet C N s w = Inl (e, s') \<Longrightarrow> quiet s s'" "fetch_missing_wallet C N s w = Inr s' \<Longrightarrow> quiet s s'"
    by (auto simp: fetch_missing_wallet_def Let_def split: option.splits)
qed

lemma quiet_fetchMissingCFilters:
  "fetchMissingCFilters C N ws s = Inl (e, s') \<Longrightarrow> quiet s s'" "fetchMissingCFilters C N ws s = Inr s' \<Longrightarrow> quiet s s'"
  unfolding fetchMissingCFilters_def
  using quiet_traverse [of "fetch_missing_wallet C N"] quiet_fetch_missing_wallet by blast+

lemma quiet_resend: "quiet s (resend_unmined C ws s)"
  unfolding resend_unmined_def
proof (induction ws rule: rev_induct)
  case (snoc w ws)
  then show ?case by (auto split: sum.splits)
qed simp

lemma quiet_load_filters: "load_filters C s w = (s', r) \<Longrightarrow> quiet s s' \<and> (r = None \<longrightarrow> ss_loaded s' w)"
  by (auto simp: load_filters_def split: prod.splits option.splits)

section \<open>Flags and notifications\<close>

text \<open>
  \<open>flag_ok s w\<close>: the syncness notifications of the wallet alternate, beginning with \<open>true\<close>, and the
  flag is what the last one said.
\<close>

fun alternates :: "bool \<Rightarrow> bool list \<Rightarrow> bool" where
  "alternates b [] = True"
| "alternates b (x # xs) = (x = b \<and> alternates (\<not> b) xs)"

fun synced_value :: "int \<Rightarrow> event \<Rightarrow> bool list" where
  "synced_value w (Synced v b) = (if v = w then [b] else [])"
| "synced_value w _ = []"

definition synced_log :: "('x, 'sc, 'f) syncer \<Rightarrow> int \<Rightarrow> bool list" where
  "synced_log s w = concat (map (synced_value w) (ss_events s))"

definition flag_ok :: "('x, 'sc, 'f) syncer \<Rightarrow> int \<Rightarrow> bool" where
  "flag_ok s w \<longleftrightarrow> alternates True (synced_log s w) \<and> ss_synced s w = (if odd (length (synced_log s w)) then 1 else 0)"

lemma alternates_snoc: "alternates b (xs @ [x]) \<longleftrightarrow> alternates b xs \<and> x = (if even (length xs) then b else \<not> b)"
  by (induction xs arbitrary: b) auto

lemma synced_value_filter: "concat (map (synced_value w) (filter is_synced_event es)) = concat (map (synced_value w) es)"
proof (induction es)
  case (Cons e es)
  then show ?case by (cases e) auto
qed simp

lemma quiet_flag_ok: "quiet s s' \<Longrightarrow> flag_ok s' w = flag_ok s w"
  unfolding quiet_def flag_ok_def synced_log_def by (metis synced_value_filter)

lemma flag_ok_synced:
  assumes "\<forall>w b. N (Synced w b)" and "flag_ok s v"
  shows "flag_ok (synced N w s) v" "flag_ok (unsynced N w s) v"
  using assms by (auto simp: flag_ok_def synced_def unsynced_def notify_def synced_log_def alternates_snoc split: if_splits)

lemma synced_flag [simp]: "ss_synced (notify N ev s) = ss_synced s" "ss_loaded (notify N ev s) = ss_loaded s"
  "ss_loaded (synced N w s) = ss_loaded s" "ss_loaded (unsynced N w s) = ss_loaded s"
  by (simp_all add: notify_def synced_def unsynced_def)

lemma flag_values: "flag_ok s w \<Longrightarrow> ss_synced s w = 0 \<or> ss_synced s w = 1"
  by (simp add: flag_ok_def)

lemma synced_marks:
  assumes "flag_ok s w"
  shows "ss_synced (synced N w s) w = 1" "ss_synced (unsynced N w s) w = 0"
    "v \<noteq> w \<Longrightarrow> ss_synced (synced N w s) v = ss_synced s v" "v \<noteq> w \<Longrightarrow> ss_synced (unsynced N w s) v = ss_synced s v"
  using flag_values [OF assms] by (auto simp: synced_def unsynced_def)

lemma drain_loaded: "drain N ev ps s = (r, s') \<Longrightarrow> ss_loaded s' = ss_loaded s"
  by (induction N ev ps s rule: drain.induct) auto

text \<open>
  A rescan marks the wallet unsynced first; it fails without touching syncness again, or it marks the
  wallet synced as its last step, with the filters loaded.
\<close>

lemma rescan_wallet_cases:
  assumes "rescan_wallet C N s w rpt = (s', r)"
  shows "(r \<noteq> None \<and> quiet (unsynced N w s) s') \<or>
    (\<exists>t. r = None \<and> quiet (unsynced N w s) t \<and> ss_loaded t w \<and> s' = synced N w (notify N (RescanFinished w) t))"
proof -
  let ?u = "unsynced N w s"
  define s1 where "s1 = notify N (DiscoverAddressesStarted w) ?u"
  have q1: "quiet ?u s1" unfolding s1_def by simp
  obtain x r1 where d: "DiscoverActiveAddresses C (ss_world s1) w rpt = (x, r1)" by fastforce
  define s1' where "s1' = notify N (DiscoverAddressesFinished w) (s1\<lparr>ss_world := x\<rparr>)"
  obtain s2 r2 where l: "load_filters C s1' w = (s2, r2)" by fastforce
  have "quiet ?u s1'" unfolding s1'_def using q1 by simp
  with quiet_load_filters [OF l] have q2: "quiet ?u s2" and ld: "r2 = None \<Longrightarrow> ss_loaded s2 w" using quiet_trans by blast+
  define s3 where "s3 = notify N (RescanStarted w) s2"
  have q3: "quiet ?u s3" unfolding s3_def using q2 by simp
  have dr: "quiet ?u s4 \<and> ss_loaded s4 = ss_loaded s2"
    if "drain N (RescanProgress w) ps (s3\<lparr>ss_world := x', ss_filters := fl\<rparr>) = (e, s4)" for ps x' fl e s4
  proof -
    have "quiet (s3\<lparr>ss_world := x', ss_filters := fl\<rparr>) s4" by (rule quiet_drain [OF that]) simp
    moreover have "quiet ?u (s3\<lparr>ss_world := x', ss_filters := fl\<rparr>)" using q3 by simp
    ultimately have "quiet ?u s4" by (rule quiet_trans [rotated])
    then show ?thesis using drain_loaded [OF that] by (simp add: s3_def)
  qed
  show ?thesis using assms d l q1 q2 q3 ld
    by (auto simp: rescan_wallet_def Let_def s1_def [symmetric] s1'_def [symmetric] s3_def [symmetric]
        split: option.splits sum.splits prod.splits dest!: dr)
qed

lemma unsynced_quiet:
  assumes "\<forall>w b. N (Synced w b)" and "\<forall>v. flag_ok s v" and "quiet (unsynced N w s) t"
  shows "(\<forall>v. flag_ok t v) \<and> (\<forall>v. v \<noteq> w \<longrightarrow> ss_synced t v = ss_synced s v) \<and> ss_synced t w = 0"
proof -
  have "flag_ok (unsynced N w s) v" for v using assms(2) flag_ok_synced(2) [OF assms(1)] by blast
  with assms(3) quiet_flag_ok [OF assms(3)] synced_marks(2,4) [of s w] assms(2) show ?thesis by (simp add: quiet_def)
qed

lemma catch_up_wallet_flags:
  assumes "\<forall>w b. N (Synced w b)" and "\<forall>v. flag_ok s v" and "catch_up_wallet C N s w = (s', r)"
  shows "(\<forall>v. flag_ok s' v) \<and> (\<forall>v. v \<noteq> w \<longrightarrow> ss_synced s' v = ss_synced s v) \<and>
    (r = None \<longrightarrow> ss_synced s' w = 1 \<and> ss_loaded s' w) \<and>
    (\<forall>p. r \<noteq> None \<and> RescanPoint C (ss_world s) w = Inr (Some p) \<longrightarrow> ss_synced s' w = 0)"
proof (cases "\<exists>p. RescanPoint C (ss_world s) w = Inr (Some p)")
  case True
  then obtain p where p: "RescanPoint C (ss_world s) w = Inr (Some p)" ..
  with assms(3) have "rescan_wallet C N s w p = (s', r)" by (simp add: catch_up_wallet_def)
  from rescan_wallet_cases [OF this] consider "r \<noteq> None" "quiet (unsynced N w s) s'"
    | t where "r = None" "quiet (unsynced N w s) (notify N (RescanFinished w) t)" "ss_loaded t w"
        "s' = synced N w (notify N (RescanFinished w) t)" by fastforce
  then show ?thesis
  proof cases
    case 1
    then show ?thesis using unsynced_quiet [OF assms(1,2)] by simp
  next
    case 2
    note u = unsynced_quiet [OF assms(1,2) 2(2)]
    then have "flag_ok s' v" for v using 2(4) flag_ok_synced(1) [OF assms(1)] by blast
    with u 2 synced_marks(1,3) [of "notify N (RescanFinished w) t" w] show ?thesis by simp
  qed
next
  case False
  obtain t r' where l: "(if \<not> ss_loaded s w then load_filters C s w else (s, None)) = (t, r')" by fastforce
  then have q: "quiet s t" and ld: "r' = None \<Longrightarrow> ss_loaded t w" using quiet_load_filters [of C s w t r'] by (auto split: if_splits)
  then have ok: "\<forall>v. flag_ok t v" and same: "ss_synced t = ss_synced s" using assms(2) quiet_flag_ok by (auto simp: quiet_def)
  from False assms(3) l consider "s' = s" "r \<noteq> None" | "s' = t" "r \<noteq> None" | "s' = synced N w t" "r = None" "r' = None"
    by (auto simp: catch_up_wallet_def split: sum.splits option.splits)
  moreover have "flag_ok (synced N w t) v" for v using ok flag_ok_synced(1) [OF assms(1)] by blast
  ultimately show ?thesis using False assms(2) ok same ld synced_marks(1,3) [of t w] by cases auto
qed

lemma catch_up_all_snoc: "catch_up_all C N (ws @ [w]) s = catch_up_wallet C N (fst (catch_up_all C N ws s)) w"
  by (simp add: catch_up_all_def split: prod.splits)

lemma catch_up_all_flags:
  assumes "\<forall>w b. N (Synced w b)" and "\<forall>v. flag_ok s v"
  shows "\<forall>v. flag_ok (fst (catch_up_all C N ws s)) v"
proof (induction ws rule: rev_induct)
  case Nil
  show ?case using assms(2) by (simp add: catch_up_all_def)
next
  case (snoc w ws)
  then show ?case using catch_up_wallet_flags [OF assms(1) snoc.IH] by (metis catch_up_all_snoc prod.collapse)
qed

lemma catch_up_flags:
  assumes "\<forall>w b. N (Synced w b)" and "\<forall>v. flag_ok s v" and "catch_up C N ws s = (s', r)"
  shows "\<forall>v. flag_ok s' v"
proof (cases "ss_trylock s = 0")
  case True
  have eq: "flag_ok (t\<lparr>ss_trylock := k\<rparr>) v = flag_ok t v" for t :: "('a, 'b, 'c) syncer" and k v
    by (simp add: flag_ok_def synced_log_def)
  show ?thesis using True assms catch_up_all_flags [OF assms(1), of "s\<lparr>ss_trylock := 1\<rparr>" C ws]
    by (auto simp: catch_up_def eq split: prod.splits)
qed (use assms in \<open>auto simp: catch_up_def\<close>)

lemma startupSync_flags:
  assumes "\<forall>w b. N (Synced w b)" and "\<forall>v. flag_ok s v" and "startupSync C N ws s = Some (r, s')"
  shows "flag_ok s' v"
proof -
  have keep: "\<forall>v. flag_ok t v" if "quiet s t" for t using that assms(2) quiet_flag_ok by blast
  have q1: "fetchMissingCFilters C N ws s = Inl (e, t) \<Longrightarrow> quiet s t" "fetchMissingCFilters C N ws s = Inr t \<Longrightarrow> quiet s t" for e t
    by (rule quiet_fetchMissingCFilters; assumption)+
  have q2: "quiet s u" if "fetchMissingCFilters C N ws s = Inr t"
    "getHeaders C N ws (notify N (FetchHeadersStarted (InitialHeight C)) t) = Some (e, u)" for t u e
  proof -
    have "quiet t (notify N (FetchHeadersStarted (InitialHeight C)) t)" by simp
    from quiet_trans [OF quiet_trans [OF q1(2) [OF that(1)] this] quiet_getHeaders [OF that(2)]] show ?thesis .
  qed
  have q3: "flag_ok w v" if "fetchMissingCFilters C N ws s = Inr t"
    "getHeaders C N ws (notify N (FetchHeadersStarted (InitialHeight C)) t) = Some (None, u)"
    "catch_up C N ws (notify N FetchHeadersFinished u) = (w, e)" for t u w e
  proof -
    have "\<forall>v. flag_ok (notify N FetchHeadersFinished u) v" using keep [of "notify N FetchHeadersFinished u"] q2 [OF that(1,2)] by simp
    from catch_up_flags [OF assms(1) this that(3)] show ?thesis ..
  qed
  show ?thesis using assms(2,3) keep q1 q2 q3
    by (auto simp: startupSync_def quiet_flag_ok [OF quiet_resend] split: prod.splits if_splits sum.splits option.splits)
qed

section \<open>Properties\<close>


text \<open>
  The examples: wallet 1 cannot read its rescan point, wallet 2 has none and is up to date with a peer
  that sends no headers.
\<close>

definition ex_chain :: "(unit, unit, unit, unit) chain_lib" where
  "ex_chain = \<lparr>MainChainTip = (\<lambda>x w. ([1], 10)), BlockLocators = (\<lambda>x w. Inr [[1]]),
     RescanPoint = (\<lambda>x w. if w = 1 then Inl (New ''db'') else Inr None), w_BlockHeader = (\<lambda>x w h. Inl (E NotExist [])),
     BlockInMainChain = (\<lambda>x w h. Inr True), AddBlockNode = (\<lambda>sc n. (False, sc)), EvaluateBestChain = (\<lambda>x w sc. Inr []),
     ValidateHeaderChainDifficulties = (\<lambda>x w c. None), ChainSwitch = (\<lambda>x w sc c f. Inr ([], x, sc)),
     FetchMissingCFilters = (\<lambda>x w. ([Inr (0, 10)], x)), DiscoverActiveAddresses = (\<lambda>x w h. (x, None)),
     LoadActiveDataFilters = (\<lambda>x w f. (f, None)), RescanProgressFromHeight = (\<lambda>x w h f. ([Inr h], x, f)),
     UnminedTransactions = (\<lambda>x w. Inr []), BlockHash = (\<lambda>h. [1]), InitialHeight = 10,
     rp_Headers = (\<lambda>x ls. (Inr [], x)), rp_CFilter = (\<lambda>x h. Inr ()), rp_CFilters = (\<lambda>x hs. Inr []), rp_Blocks = (\<lambda>hs. Inr []),
     rp_SendHeaders = (\<lambda>x. None), rp_PublishTransactions = (\<lambda>x txs. x), first_error = hd\<rparr>"

definition ex_syncer :: "(unit, unit, unit) syncer" where
  "ex_syncer = \<lparr>ss_world = (), ss_filters = \<lparr>rescanFilter = Map.empty, filterData = Map.empty\<rparr>, ss_sidechains = (), ss_synced = (\<lambda>_. 0),
     ss_loaded = (\<lambda>_. False), ss_locators = [], ss_generation = 0, ss_trylock = 0, ss_events = []\<rparr>"

lemmas ex_sync_simps = ex_chain_def ex_syncer_def catch_up_wallet_def load_filters_def synced_def notify_def


text \<open>
  \<open>startupSync\<close> loses errors.  The loop over the wallets assigns each wallet's result to one
  variable and goes on, so when catching up on an earlier wallet fails and the last wallet of the
  iteration succeeds, no error is returned and the peer is kept as if all wallets were synced.
\<close>

theorem startupSync_loses_errors:
  assumes "highestChainTip C (ss_world s) ws = (h, tip, w)" and "\<not> InitialHeight C < int32_of (tip - 6)"
    and "fetchMissingCFilters C N ws s = Inr s1"
    and "getHeaders C N ws (notify N (FetchHeadersStarted (InitialHeight C)) s1) = Some (None, s2)"
    and "ss_trylock s2 = 0" and "ws = us @ [v]"
    and "catch_up_all C N us ((notify N FetchHeadersFinished s2)\<lparr>ss_trylock := 1\<rparr>) = (s3, Some e)"
    and "catch_up_wallet C N s3 v = (s4, None)"
  shows "startupSync C N ws s = Some (None, resend_unmined C ws (s4\<lparr>ss_trylock := 0\<rparr>))"
proof -
  have "ss_trylock (notify N FetchHeadersFinished s2) = 0" using assms(5) by (simp add: notify_def)
  with assms(6-8) have "catch_up C N ws (notify N FetchHeadersFinished s2) = (s4\<lparr>ss_trylock := 0\<rparr>, None)"
    by (simp add: catch_up_def catch_up_all_snoc)
  with assms(1-4) show ?thesis by (simp add: startupSync_def)
qed

theorem startupSync_loses_errors_witness:
  "\<exists>s'. startupSync ex_chain (\<lambda>_. False) [1, 2] ex_syncer = Some (None, s') \<and>
     snd (catch_up_wallet ex_chain (\<lambda>_. False) ex_syncer 1) = Some (New ''db'')"
proof -
  let ?N = "\<lambda>_. False"
  define s2 where "s2 = ex_syncer\<lparr>ss_locators := [[1]], ss_generation := 1\<rparr>"
  have "startupSync ex_chain ?N [1, 2] ex_syncer = Some (None, resend_unmined ex_chain [1, 2] ((fst (catch_up_wallet ex_chain ?N (s2\<lparr>ss_trylock := 1\<rparr>) 2))\<lparr>ss_trylock := 0\<rparr>))"
  proof (rule startupSync_loses_errors)
    show "getHeaders ex_chain ?N [1, 2] (notify ?N (FetchHeadersStarted (InitialHeight ex_chain)) ex_syncer) = Some (None, s2)"
      by (simp add: getHeaders_def lowestChainTip_def new_locators_def headers_loop.simps headers_done_def s2_def ex_sync_simps)
    show "highestChainTip ex_chain (ss_world ex_syncer) [1, 2] = ([1], 10, Some 1)" by (simp add: highestChainTip_def ex_chain_def)
    show "fetchMissingCFilters ex_chain ?N [1, 2] ex_syncer = Inr ex_syncer"
      by (simp add: fetchMissingCFilters_def fetch_missing_wallet_def ex_sync_simps)
    show "catch_up_all ex_chain ?N [1] ((notify ?N FetchHeadersFinished s2)\<lparr>ss_trylock := 1\<rparr>) = (s2\<lparr>ss_trylock := 1\<rparr>, Some (New ''db''))"
      by (simp add: catch_up_all_def s2_def ex_sync_simps)
    show "[1, 2] = [1] @ [2 :: int]" by simp
    show "catch_up_wallet ex_chain ?N (s2\<lparr>ss_trylock := 1\<rparr>) 2 = (fst (catch_up_wallet ex_chain ?N (s2\<lparr>ss_trylock := 1\<rparr>) 2), None)"
      by (simp add: s2_def ex_sync_simps)
  qed (simp_all add: s2_def ex_chain_def ex_syncer_def int32_of_def)
  then show ?thesis by (simp add: ex_sync_simps)
qed

end
