(* ===== verification/SpvPeers.thy ===== *)
theory SpvPeers
  imports SpvSync SpvRelay "HOL-Library.AList"
begin

text \<open>
  Keeping connections to peers and receiving their messages, \<open>spv/sync.go\<close>: how \<open>Run\<close> starts, the
  goroutines of \<open>connectToCandidates\<close> and \<open>connectToPersistent\<close> as transition systems over the maps of
  remote and of connecting peers, and the handlers of received announcements.  A critical section of
  \<open>remotesMu\<close> and the notification after it are one step, and so is \<open>peerCandidate\<close>.
\<close>

section \<open>Starting (\<open>NewSyncer\<close>, \<open>Run\<close>)\<close>

definition NewSyncer :: "('a, 'f) spv_lib \<Rightarrow> 'x \<Rightarrow> 'sc \<Rightarrow> int list \<Rightarrow> ('x, 'sc, 'f) syncer" where
  "NewSyncer L x noSidechains ids =
     \<lparr>ss_world = x, ss_filters = new_filters L ids, ss_sidechains = noSidechains, ss_synced = (\<lambda>_. 0), ss_loaded = (\<lambda>_. False),
      ss_locators = [], ss_generation = 0, ss_trylock = 0, ss_events = []\<rparr>"

text \<open>The loop over wallets, which looks up what it logs; \<open>Some\<close> is the error it returns.\<close>

fun log_wallets :: "('x, 'g, 'sc, 'f) chain_lib \<Rightarrow> 'x \<Rightarrow> int list \<Rightarrow> err option" where
  "log_wallets C x [] = None"
| "log_wallets C x (w # ws) =
     (case RescanPoint C x w of
        Inl er \<Rightarrow> Some er
      | Inr None \<Rightarrow> log_wallets C x ws
      | Inr (Some rescanPoint) \<Rightarrow>
          (case w_BlockHeader C x w rescanPoint of Inl er \<Rightarrow> Some er | Inr h \<Rightarrow> log_wallets C x ws))"

text \<open>The goroutines of \<open>Run\<close>.\<close>

datatype handler = ReceiveGetData | ReceiveInv | ReceiveHeadersAnnouncements | ConnectToPersistent string | ConnectToCandidates

text \<open>
  \<open>Run\<close> until it waits: an error, or the state with its locators, whether peers are seeded over DNS,
  and the goroutines started.  A method of the nil wallet, when there is no wallet, dereferences it.
\<close>

definition Run_start :: "('x, 'g, 'sc, 'f) chain_lib \<Rightarrow> int list \<Rightarrow> string list \<Rightarrow> ('x, 'sc, 'f) syncer \<Rightarrow> (('x, 'sc, 'f) syncer \<times> bool \<times> handler list) result" where
  "Run_start C ws persistentPeers s =
     (case log_wallets C (ss_world s) ws of
        Some er \<Rightarrow> Inl er
      | None \<Rightarrow>
          (case lowestChainTip C (ss_world s) ws of
             (_, _, None) \<Rightarrow> Inl nil_panic
           | (_, _, Some w) \<Rightarrow>
               bind_res (BlockLocators C (ss_world s) w) (\<lambda>locators.
                 Inr (s\<lparr>ss_locators := locators\<rparr>, persistentPeers = [],
                   [ReceiveGetData, ReceiveInv, ReceiveHeadersAnnouncements] @
                   (if persistentPeers \<noteq> [] then map ConnectToPersistent persistentPeers else [ConnectToCandidates])))))"

section \<open>The maps of peers\<close>

text \<open>
  A remote peer is the number of the goroutine that connected it; \<open>connectingRemotes\<close> is a set.
\<close>

record peers =
  connectingRemotes :: "string list"
  remotes :: "(string \<times> nat) list"
  pe_events :: "event list"

definition tell_peers :: "(event \<Rightarrow> bool) \<Rightarrow> event \<Rightarrow> peers \<Rightarrow> peers" where
  "tell_peers N ev p = (if N ev then p\<lparr>pe_events := pe_events p @ [ev]\<rparr> else p)"

definition begin_connecting :: "string \<Rightarrow> peers \<Rightarrow> peers" where
  "begin_connecting k p = p\<lparr>connectingRemotes := List.insert k (connectingRemotes p)\<rparr>"

definition end_connecting :: "string \<Rightarrow> peers \<Rightarrow> peers" where
  "end_connecting k p = p\<lparr>connectingRemotes := removeAll k (connectingRemotes p)\<rparr>"

definition add_remote :: "(event \<Rightarrow> bool) \<Rightarrow> string \<Rightarrow> nat \<Rightarrow> peers \<Rightarrow> peers" where
  "add_remote N k rp p =
     (let p1 = p\<lparr>remotes := AList.update k rp (remotes p)\<rparr>
      in tell_peers N (PeerConnected (int32_of (int (length (remotes p1)))) k) p1)"

definition delete_remote :: "(event \<Rightarrow> bool) \<Rightarrow> string \<Rightarrow> peers \<Rightarrow> peers" where
  "delete_remote N k p =
     (let p1 = p\<lparr>remotes := AList.delete k (remotes p)\<rparr>
      in tell_peers N (PeerDisconnected (int32_of (int (length (remotes p1)))) k) p1)"

section \<open>Connecting to candidates\<close>

text \<open>
  A goroutine of \<open>connectToCandidates\<close>: started; in \<open>ConnectOutbound\<close>; connected and syncing; about to
  run its deferred function; ended.  \<open>Sleeping\<close> is for the persistent ones below.  Beside it, the key of
  its address.
\<close>

datatype conn_phase = Launched | Connecting | Connected | Ending | Sleeping | Finished

text \<open>
  The loop of \<open>connectToCandidates\<close>: before the check of the context; before the semaphore; with a
  token of the semaphore; without a candidate, still with its token; in \<open>wg.Wait\<close>; returned.
\<close>

datatype connect_loop = LoopTop | Acquire | Picking | Backoff | Draining | Returned

record peer_sys =
  px_peers :: peers
  px_loop :: connect_loop
  px_sem :: nat
  px_jobs :: "(string \<times> conn_phase) list"
  px_cancelled :: bool

definition set_conn :: "nat \<Rightarrow> string \<Rightarrow> conn_phase \<Rightarrow> peer_sys \<Rightarrow> peer_sys" where
  "set_conn n k ph x = x\<lparr>px_jobs := (px_jobs x)[n := (k, ph)]\<rparr>"

text \<open>The two service flags are constants of the \<open>wire\<close> package.\<close>

definition reqSvcs :: "64 word \<Rightarrow> 64 word \<Rightarrow> 64 word" where
  "reqSvcs SFNodeNetwork SFNodeCF = SFNodeNetwork OR SFNodeCF"

definition pick_candidate :: "(nat \<Rightarrow> KnownAddress option) \<Rightarrow> 64 word \<Rightarrow> peer_sys \<Rightarrow> peer_sys" where
  "pick_candidate get svcs x =
     (case peerCandidate get (set (connectingRemotes (px_peers x))) (fst ` set (remotes (px_peers x))) svcs of
        Inl _ \<Rightarrow> x\<lparr>px_loop := Backoff\<rparr>
      | Inr a \<Rightarrow> x\<lparr>px_loop := LoopTop, px_jobs := px_jobs x @ [(ka_Key a, Launched)]\<rparr>)"

text \<open>
  The steps.  With \<open>serial\<close>, the loop does not choose a candidate before the goroutines started so far
  have entered their addresses in \<open>connectingRemotes\<close>.
\<close>

inductive peer_step :: "bool \<Rightarrow> (event \<Rightarrow> bool) \<Rightarrow> peer_sys \<Rightarrow> peer_sys \<Rightarrow> bool" for serial N where
  check: "px_loop x = LoopTop \<Longrightarrow> peer_step serial N x (x\<lparr>px_loop := (if px_cancelled x then Draining else Acquire)\<rparr>)"
| acquire: "px_loop x = Acquire \<Longrightarrow> px_sem x < 8 \<Longrightarrow> peer_step serial N x (x\<lparr>px_loop := Picking, px_sem := px_sem x + 1\<rparr>)"
| stop: "px_loop x = Acquire \<or> px_loop x = Backoff \<Longrightarrow> px_cancelled x \<Longrightarrow> peer_step serial N x (x\<lparr>px_loop := Draining\<rparr>)"
| pick: "px_loop x = Picking \<Longrightarrow> serial \<longrightarrow> Launched \<notin> snd ` set (px_jobs x) \<Longrightarrow> peer_step serial N x (pick_candidate get (reqSvcs sf cf) x)"
| again: "px_loop x = Backoff \<Longrightarrow> peer_step serial N x (x\<lparr>px_loop := LoopTop, px_sem := px_sem x - 1\<rparr>)"
| begun: "n < length (px_jobs x) \<Longrightarrow> px_jobs x ! n = (k, Launched) \<Longrightarrow>
    peer_step serial N x (set_conn n k Connecting (x\<lparr>px_peers := begin_connecting k (px_peers x)\<rparr>))"
| refused: "n < length (px_jobs x) \<Longrightarrow> px_jobs x ! n = (k, Connecting) \<Longrightarrow>
    peer_step serial N x (set_conn n k Ending (x\<lparr>px_peers := end_connecting k (px_peers x)\<rparr>))"
| accepted: "n < length (px_jobs x) \<Longrightarrow> px_jobs x ! n = (k, Connecting) \<Longrightarrow>
    peer_step serial N x (set_conn n k Connected (x\<lparr>px_peers := add_remote N k n (end_connecting k (px_peers x))\<rparr>))"
| lost: "n < length (px_jobs x) \<Longrightarrow> px_jobs x ! n = (k, Connected) \<Longrightarrow>
    peer_step serial N x (set_conn n k Ending (x\<lparr>px_peers := delete_remote N k (px_peers x)\<rparr>))"
| released: "n < length (px_jobs x) \<Longrightarrow> px_jobs x ! n = (k, Ending) \<Longrightarrow>
    peer_step serial N x (set_conn n k Finished (x\<lparr>px_sem := px_sem x - 1\<rparr>))"
| cancel: "peer_step serial N x (x\<lparr>px_cancelled := True\<rparr>)"
| drained: "px_loop x = Draining \<Longrightarrow> snd ` set (px_jobs x) \<subseteq> {Finished} \<Longrightarrow> peer_step serial N x (x\<lparr>px_loop := Returned\<rparr>)"

definition no_peers :: peers where
  "no_peers = \<lparr>connectingRemotes = [], remotes = [], pe_events = []\<rparr>"

inductive peer_reach :: "bool \<Rightarrow> (event \<Rightarrow> bool) \<Rightarrow> peer_sys \<Rightarrow> bool" for serial N where
  init: "peer_reach serial N \<lparr>px_peers = no_peers, px_loop = LoopTop, px_sem = 0, px_jobs = [], px_cancelled = False\<rparr>"
| step: "peer_reach serial N x \<Longrightarrow> peer_step serial N x y \<Longrightarrow> peer_reach serial N y"

section \<open>Persistent peers\<close>

text \<open>
  The goroutines of \<open>connectToPersistent\<close>, one per configured address.  The key of a peer is the address
  it connected from, known only then.  After the loss of a peer its goroutine waits for \<open>startupSync\<close>,
  checks the context, and sleeps.
\<close>

record persistent_sys =
  pp_peers :: peers
  pp_jobs :: "(string \<times> conn_phase) list"
  pp_cancelled :: bool

definition set_persistent :: "nat \<Rightarrow> string \<Rightarrow> conn_phase \<Rightarrow> persistent_sys \<Rightarrow> persistent_sys" where
  "set_persistent n k ph x = x\<lparr>pp_jobs := (pp_jobs x)[n := (k, ph)]\<rparr>"

inductive persistent_step :: "(event \<Rightarrow> bool) \<Rightarrow> persistent_sys \<Rightarrow> persistent_sys \<Rightarrow> bool" for N where
  p_refused: "n < length (pp_jobs x) \<Longrightarrow> pp_jobs x ! n = (k, Connecting) \<Longrightarrow> persistent_step N x (set_persistent n k Ending x)"
| p_accepted: "n < length (pp_jobs x) \<Longrightarrow> pp_jobs x ! n = (k, Connecting) \<Longrightarrow>
    persistent_step N x (set_persistent n k' Connected (x\<lparr>pp_peers := add_remote N k' n (pp_peers x)\<rparr>))"
| p_lost: "n < length (pp_jobs x) \<Longrightarrow> pp_jobs x ! n = (k, Connected) \<Longrightarrow>
    persistent_step N x (set_persistent n k Ending (x\<lparr>pp_peers := delete_remote N k (pp_peers x)\<rparr>))"
| p_checked: "n < length (pp_jobs x) \<Longrightarrow> pp_jobs x ! n = (k, Ending) \<Longrightarrow>
    persistent_step N x (set_persistent n k (if pp_cancelled x then Finished else Sleeping) x)"
| p_woken: "n < length (pp_jobs x) \<Longrightarrow> pp_jobs x ! n = (k, Sleeping) \<Longrightarrow> persistent_step N x (set_persistent n k Connecting x)"
| p_cancel: "persistent_step N x (x\<lparr>pp_cancelled := True\<rparr>)"

inductive persistent_reach :: "(event \<Rightarrow> bool) \<Rightarrow> string list \<Rightarrow> persistent_sys \<Rightarrow> bool" for N addrs where
  p_init: "persistent_reach N addrs \<lparr>pp_peers = no_peers, pp_jobs = map (\<lambda>a. (a, Connecting)) addrs, pp_cancelled = False\<rparr>"
| p_step: "persistent_reach N addrs x \<Longrightarrow> persistent_step N x y \<Longrightarrow> persistent_reach N addrs y"

section \<open>Received announcements\<close>

text \<open>What becomes of an error of a handler; a panic ends the program.\<close>

datatype reaction = Handled | Logged err | Disconnected err | Crashed err

fun react :: "err \<Rightarrow> reaction" where
  "react (E Protocol m) = Disconnected (E Protocol m)"
| "react (E Consensus m) = Disconnected (E Consensus m)"
| "react (Panic m) = Crashed (Panic m)"
| "react e = Logged e"

definition handled :: "(err \<times> 's) + 's \<Rightarrow> 's \<times> reaction" where
  "handled r = (case r of Inl (e, s) \<Rightarrow> (s, react e) | Inr s \<Rightarrow> (s, Handled))"

definition inv_hashes :: "InvType \<Rightarrow> InvVect list \<Rightarrow> hash list" where
  "inv_hashes ty invList = map inv_Hash (filter (\<lambda>inv. inv_Type inv = ty) invList)"

text \<open>
  \<open>receiveInv\<close> for one message: announced blocks are handled, and the hashes of announced transactions
  go to \<open>handleTxInvs\<close> if there are any.
\<close>

definition receiveInv ::
  "('x, 'g, 'sc, 'f) chain_lib \<Rightarrow> ('a, 'f) spv_lib \<Rightarrow> 'g peer \<Rightarrow> (event \<Rightarrow> bool) \<Rightarrow> (found \<Rightarrow> MsgTx list) \<Rightarrow> int list \<Rightarrow> InvVect list \<Rightarrow>
   ('x, 'sc, 'f) syncer \<Rightarrow> ('x, 'sc, 'f) syncer \<times> reaction \<times> hash list option" where
  "receiveInv C L P N ranging ws invList s =
     (let blocks = inv_hashes InvTypeBlock invList; txs = inv_hashes InvTypeTx invList;
          (s', r) = (if blocks \<noteq> [] then handled (handleBlockInvs C L P N ranging ws blocks s) else (s, Handled))
      in (s', r, if txs \<noteq> [] then Some txs else None))"

definition receiveHeadersAnnouncements ::
  "('x, 'g, 'sc, 'f) chain_lib \<Rightarrow> ('a, 'f) spv_lib \<Rightarrow> 'g peer \<Rightarrow> (event \<Rightarrow> bool) \<Rightarrow> (found \<Rightarrow> MsgTx list) \<Rightarrow> int list \<Rightarrow> BlockHeader list \<Rightarrow>
   ('x, 'sc, 'f) syncer \<Rightarrow> ('x, 'sc, 'f) syncer \<times> reaction" where
  "receiveHeadersAnnouncements C L P N ranging ws headers s =
     handled (handleBlockAnnouncements C L P N ranging ws headers Map.empty s)"

section \<open>Who owns a peer\<close>

text \<open>Every remote peer belongs to a goroutine that is connected to it.\<close>

definition owned :: "peers \<Rightarrow> (string \<times> conn_phase) list \<Rightarrow> bool" where
  "owned p jobs \<longleftrightarrow> distinct (map fst (remotes p)) \<and>
     (\<forall>k n. map_of (remotes p) k = Some n \<longrightarrow> n < length jobs \<and> jobs ! n = (k, Connected))"

definition is_active :: "string \<times> conn_phase \<Rightarrow> bool" where
  "is_active j \<longleftrightarrow> snd j \<noteq> Finished"

abbreviation how_many :: "('a \<Rightarrow> bool) \<Rightarrow> 'a list \<Rightarrow> nat" where
  "how_many P xs \<equiv> length (filter P xs)"

lemma how_many_update:
  "n < length xs \<Longrightarrow> how_many P (xs[n := y]) + of_bool (P (xs ! n)) = how_many P xs + of_bool (P y)"
proof (induction xs arbitrary: n)
  case (Cons x xs)
  then show ?case by (cases n) auto
qed simp

lemma remotes_tell_peers [simp]:
  "remotes (tell_peers N ev p) = remotes p" "connectingRemotes (tell_peers N ev p) = connectingRemotes p"
  by (simp_all add: tell_peers_def)

lemma peers_simps [simp]:
  "remotes (begin_connecting k p) = remotes p" "pe_events (begin_connecting k p) = pe_events p"
  "remotes (end_connecting k p) = remotes p" "pe_events (end_connecting k p) = pe_events p"
  "remotes (add_remote N k n p) = AList.update k n (remotes p)" "connectingRemotes (add_remote N k n p) = connectingRemotes p"
  "remotes (delete_remote N k p) = AList.delete k (remotes p)" "connectingRemotes (delete_remote N k p) = connectingRemotes p"
  "set (connectingRemotes (begin_connecting k p)) = insert k (set (connectingRemotes p))"
  "set (connectingRemotes (end_connecting k p)) = set (connectingRemotes p) - {k}"
  by (auto simp: begin_connecting_def end_connecting_def add_remote_def delete_remote_def Let_def)

lemma owned_cong: "remotes p = remotes q \<Longrightarrow> owned p jobs = owned q jobs"
  by (simp add: owned_def)

lemma owned_connecting [simp]:
  "owned (begin_connecting k p) jobs = owned p jobs" "owned (end_connecting k p) jobs = owned p jobs"
  by (simp_all add: owned_def)

lemma ownedD: "owned p jobs \<Longrightarrow> (k, n) \<in> set (remotes p) \<Longrightarrow> n < length jobs \<and> jobs ! n = (k, Connected)"
  by (simp add: owned_def)

lemma ownedI:
  "distinct (map fst (remotes p)) \<Longrightarrow> (\<And>k n. (k, n) \<in> set (remotes p) \<Longrightarrow> n < length jobs \<and> jobs ! n = (k, Connected)) \<Longrightarrow> owned p jobs"
  by (simp add: owned_def)

lemma owned_distinct: "owned p jobs \<Longrightarrow> distinct (map fst (remotes p))"
  by (simp add: owned_def)

lemma owned_append: "owned p jobs \<Longrightarrow> owned p (jobs @ js)"
  by (rule ownedI) (auto simp: nth_append owned_distinct dest: ownedD)

lemma owned_other:
  assumes "owned p jobs" "jobs ! n = (k, ph)" "ph \<noteq> Connected"
  shows "owned p (jobs[n := j])"
proof (rule ownedI)
  show "m < length (jobs[n := j]) \<and> jobs[n := j] ! m = (k', Connected)" if "(k', m) \<in> set (remotes p)" for k' m
    using ownedD [OF assms(1) that] assms(2,3) by (cases "m = n") auto
qed (rule owned_distinct [OF assms(1)])

lemma set_AList_update: "distinct (map fst xs) \<Longrightarrow> (a, b) \<in> set (AList.update k v xs) \<Longrightarrow> a = k \<and> b = v \<or> a \<noteq> k \<and> (a, b) \<in> set xs"
proof (induction xs)
  case (Cons y ys)
  then show ?case by (cases y) (force split: if_splits)
qed simp

lemma owned_add:
  assumes "owned p jobs" "n < length jobs" "jobs ! n = (k0, ph)" "ph \<noteq> Connected"
  shows "owned (add_remote N k n p) (jobs[n := (k, Connected)])"
proof (rule ownedI)
  fix k' m assume "(k', m) \<in> set (remotes (add_remote N k n p))"
  then consider "k' = k" "m = n" | "(k', m) \<in> set (remotes p)" using set_AList_update [OF owned_distinct [OF assms(1)]] by fastforce
  then show "m < length (jobs[n := (k, Connected)]) \<and> jobs[n := (k, Connected)] ! m = (k', Connected)"
    using assms ownedD [OF assms(1), of k' m] by cases (auto simp: nth_list_update)
qed (simp add: owned_distinct [OF assms(1)] AList.distinct_update)

lemma owned_delete:
  assumes "owned p jobs" "jobs ! n = (k, Connected)"
  shows "owned (delete_remote N k p) (jobs[n := j])"
proof (rule ownedI)
  fix k' m assume "(k', m) \<in> set (remotes (delete_remote N k p))"
  then have "k' \<noteq> k" "(k', m) \<in> set (remotes p)" by (auto simp: AList.delete_eq)
  then show "m < length (jobs[n := j]) \<and> jobs[n := j] ! m = (k', Connected)"
    using assms(2) ownedD [OF assms(1), of k' m] by (cases "m = n") auto
qed (simp add: owned_distinct [OF assms(1)] AList.distinct_delete)

lemma owned_bound:
  assumes "owned p jobs"
  shows "length (remotes p) \<le> how_many (\<lambda>j. snd j = Connected) jobs"
proof -
  have "inj_on snd (set (remotes p))" by (rule inj_onI) (auto dest!: ownedD [OF assms])
  then have "distinct (map snd (remotes p))" using owned_distinct [OF assms] by (simp add: distinct_map)
  then have "length (remotes p) = card (set (map snd (remotes p)))" by (metis distinct_card length_map)
  also have "\<dots> \<le> card {n. n < length jobs \<and> snd (jobs ! n) = Connected}"
    by (intro card_mono) (auto dest: ownedD [OF assms])
  finally show ?thesis by (simp add: length_filter_conv_card)
qed

lemma active_bound: "how_many (\<lambda>j. snd j = Connected) jobs \<le> how_many is_active jobs"
  by (induction jobs) (auto simp: is_active_def)

lemma all_finished: "how_many is_active jobs = 0 \<longleftrightarrow> snd ` set jobs \<subseteq> {Finished}"
  by (auto simp: filter_empty_conv is_active_def)

section \<open>The invariant of the connections to candidates\<close>

definition holds_token :: "connect_loop \<Rightarrow> bool" where
  "holds_token l \<longleftrightarrow> l = Picking \<or> l = Backoff"

definition peer_inv :: "peer_sys \<Rightarrow> bool" where
  "peer_inv x \<longleftrightarrow> owned (px_peers x) (px_jobs x) \<and>
     how_many is_active (px_jobs x) + of_bool (holds_token (px_loop x)) \<le> px_sem x \<and> px_sem x \<le> 8 \<and>
     (\<forall>k \<in> set (connectingRemotes (px_peers x)). (k, Connecting) \<in> set (px_jobs x)) \<and>
     (px_loop x = Returned \<longrightarrow> snd ` set (px_jobs x) \<subseteq> {Finished})"

lemma in_set_update: "a \<in> set xs \<Longrightarrow> xs ! n \<noteq> a \<Longrightarrow> a \<in> set (xs[n := y])"
  by (metis in_set_conv_nth length_list_update nth_list_update_neq)

text \<open>A goroutine that is not ended moves to its next phase.\<close>

lemma peer_inv_move:
  assumes "peer_inv x" "n < length (px_jobs x)" "px_jobs x ! n = (k, ph)" "ph \<noteq> Finished"
    and "owned p ((px_jobs x)[n := (k, ph')])"
    and "\<forall>k' \<in> set (connectingRemotes p). (k', Connecting) \<in> set ((px_jobs x)[n := (k, ph')])"
  shows "peer_inv (set_conn n k ph' (x\<lparr>px_peers := p, px_sem := px_sem x - of_bool (ph' = Finished)\<rparr>))"
proof -
  have "(k, ph) \<in> set (px_jobs x)" using assms(2,3) nth_mem by metis
  then have "px_loop x \<noteq> Returned" using assms(1,4) by (auto simp: peer_inv_def)
  moreover have "how_many is_active ((px_jobs x)[n := (k, ph')]) + 1 = how_many is_active (px_jobs x) + of_bool (ph' \<noteq> Finished)"
    using how_many_update [OF assms(2), of is_active "(k, ph')"] assms(3,4) by (simp add: is_active_def)
  ultimately show ?thesis using assms(1,5,6) by (cases "ph' = Finished") (auto simp: peer_inv_def set_conn_def)
qed

lemma peer_inv_step:
  assumes "peer_step serial N x y" "peer_inv x"
  shows "peer_inv y"
proof -
  have own: "owned (px_peers x) (px_jobs x)" and con: "\<forall>k \<in> set (connectingRemotes (px_peers x)). (k, Connecting) \<in> set (px_jobs x)"
    using assms(2) by (auto simp: peer_inv_def)
  from assms(1) show ?thesis
  proof cases
    case (pick get sf cf)
    then show ?thesis using assms(2)
      by (auto simp: peer_inv_def pick_candidate_def holds_token_def is_active_def owned_append split: sum.splits)
  next
    case (begun n k)
    have "owned (begin_connecting k (px_peers x)) ((px_jobs x)[n := (k, Connecting)])" using own begun(2,3) by (auto intro: owned_other)
    moreover have "\<forall>k' \<in> set (connectingRemotes (begin_connecting k (px_peers x))). (k', Connecting) \<in> set ((px_jobs x)[n := (k, Connecting)])"
      using con begun(2,3) by (auto intro: in_set_update set_update_memI)
    ultimately show ?thesis using peer_inv_move [OF assms(2) begun(2,3)] begun(1) by fastforce
  next
    case (refused n k)
    have "owned (end_connecting k (px_peers x)) ((px_jobs x)[n := (k, Ending)])" using own refused(2,3) by (auto intro: owned_other)
    moreover have "\<forall>k' \<in> set (connectingRemotes (end_connecting k (px_peers x))). (k', Connecting) \<in> set ((px_jobs x)[n := (k, Ending)])"
      using con refused(2,3) by (auto intro: in_set_update set_update_memI)
    ultimately show ?thesis using peer_inv_move [OF assms(2) refused(2,3)] refused(1) by fastforce
  next
    case (accepted n k)
    have "owned (add_remote N k n (end_connecting k (px_peers x))) ((px_jobs x)[n := (k, Connected)])" using own accepted(2,3) by (auto intro: owned_add)
    moreover have "\<forall>k' \<in> set (connectingRemotes (add_remote N k n (end_connecting k (px_peers x)))). (k', Connecting) \<in> set ((px_jobs x)[n := (k, Connected)])"
      using con accepted(2,3) by (auto intro: in_set_update set_update_memI)
    ultimately show ?thesis using peer_inv_move [OF assms(2) accepted(2,3)] accepted(1) by fastforce
  next
    case (lost n k)
    have "owned (delete_remote N k (px_peers x)) ((px_jobs x)[n := (k, Ending)])" using own lost(2,3) by (auto intro: owned_delete)
    moreover have "\<forall>k' \<in> set (connectingRemotes (delete_remote N k (px_peers x))). (k', Connecting) \<in> set ((px_jobs x)[n := (k, Ending)])"
      using con lost(2,3) by (auto intro: in_set_update set_update_memI)
    ultimately show ?thesis using peer_inv_move [OF assms(2) lost(2,3)] lost(1) by fastforce
  next
    case (released n k)
    have "owned (px_peers x) ((px_jobs x)[n := (k, Finished)])" using own released(2,3) by (auto intro: owned_other)
    moreover have "\<forall>k' \<in> set (connectingRemotes (px_peers x)). (k', Connecting) \<in> set ((px_jobs x)[n := (k, Finished)])"
      using con released(2,3) by (auto intro: in_set_update set_update_memI)
    ultimately show ?thesis using peer_inv_move [OF assms(2) released(2,3)] released(1) by fastforce
  qed (use assms(2) in \<open>auto simp: peer_inv_def holds_token_def\<close>)
qed

lemma peer_inv_reach: "peer_reach serial N x \<Longrightarrow> peer_inv x"
proof (induction rule: peer_reach.induct)
  case init
  show ?case by (simp add: peer_inv_def owned_def no_peers_def holds_token_def)
qed (blast intro: peer_inv_step)

text \<open>The peer counts that are reported.\<close>

fun count_ok :: "int \<Rightarrow> event \<Rightarrow> bool" where
  "count_ok m (PeerConnected n k) \<longleftrightarrow> 1 \<le> n \<and> n \<le> m"
| "count_ok m (PeerDisconnected n k) \<longleftrightarrow> 0 \<le> n \<and> n < m"
| "count_ok m _ \<longleftrightarrow> True"

lemma small_int32: "n \<le> 8 \<Longrightarrow> int32_of (int n) = int n"
  by (simp add: int32_of_def signed_take_bit_int_eq_self)

lemma counts_step:
  assumes "peer_step serial N x y" "peer_inv x" "list_all (count_ok 8) (pe_events (px_peers x))"
  shows "list_all (count_ok 8) (pe_events (px_peers y))"
proof -
  note y = peer_inv_step [OF assms(1,2)]
  have few: "length (remotes (px_peers y)) \<le> how_many (\<lambda>j. snd j = Connected) (px_jobs y)"
    "how_many is_active (px_jobs y) \<le> 8"
    using y owned_bound by (auto simp: peer_inv_def)
  from assms(1) show ?thesis
  proof cases
    case (pick get sf cf)
    then show ?thesis using assms(3) by (simp add: pick_candidate_def split: sum.split)
  next
    case (accepted n k)
    have "remotes (px_peers y) \<noteq> []" using accepted(1) by (simp add: set_conn_def AList.update_nonempty)
    then show ?thesis using assms(3) few active_bound [of "px_jobs y"] accepted(1)
      by (auto simp: set_conn_def add_remote_def tell_peers_def Let_def small_int32 Suc_le_eq)
  next
    case (lost n k)
    have "how_many (\<lambda>j. snd j = Connected) (px_jobs y) < how_many is_active (px_jobs y)"
    proof -
      have "(k, Ending) \<in> set (px_jobs y)" using lost(1,2) by (simp add: set_conn_def set_update_memI)
      then obtain as bs where "px_jobs y = as @ (k, Ending) # bs" by (meson split_list)
      then show ?thesis using active_bound [of as] active_bound [of bs] by (simp add: is_active_def)
    qed
    then have "length (remotes (px_peers y)) < 8" using few by linarith
    then show ?thesis using assms(3) lost(1)
      by (auto simp: set_conn_def delete_remote_def tell_peers_def Let_def small_int32)
  qed (use assms(3) in \<open>auto simp: set_conn_def\<close>)
qed

lemma counts_reach: "peer_reach serial N x \<Longrightarrow> list_all (count_ok 8) (pe_events (px_peers x))"
  by (induction rule: peer_reach.induct) (auto simp: no_peers_def intro: counts_step peer_inv_reach)

section \<open>Serial choice of candidates\<close>

lemma peerCandidate_fresh:
  assumes "peerCandidate get connecting connected_now svcs = Inr a"
  shows "ka_Key a \<notin> connecting \<and> ka_Key a \<notin> connected_now"
proof -
  have "candidate_loop get f svcs tries = Inr a \<Longrightarrow> \<not> f (ka_Key a)" for f tries
  proof (induction get f svcs tries rule: candidate_loop.induct)
    case (1 get f svcs tries)
    from 1(2) show ?case using 1(1) by (subst (asm) candidate_loop.simps) (auto split: if_splits option.splits)
  qed
  then show ?thesis using assms by (auto simp: peerCandidate_def)
qed

text \<open>The maps hold exactly the addresses the goroutines are at, and no two are at the same address.\<close>

definition in_use :: "conn_phase \<Rightarrow> bool" where
  "in_use ph \<longleftrightarrow> ph = Launched \<or> ph = Connecting \<or> ph = Connected"

definition exact :: "peers \<Rightarrow> (string \<times> conn_phase) list \<Rightarrow> bool" where
  "exact p jobs \<longleftrightarrow>
     (\<forall>n < length jobs. \<forall>m < length jobs. n \<noteq> m \<and> in_use (snd (jobs ! n)) \<and> in_use (snd (jobs ! m)) \<longrightarrow> fst (jobs ! n) \<noteq> fst (jobs ! m)) \<and>
     (\<forall>n < length jobs. snd (jobs ! n) = Connecting \<longrightarrow> fst (jobs ! n) \<in> set (connectingRemotes p)) \<and>
     (\<forall>n < length jobs. snd (jobs ! n) = Connected \<longrightarrow> map_of (remotes p) (fst (jobs ! n)) = Some n)"

lemma exact_move:
  assumes "exact p jobs" "n < length jobs" "jobs ! n = (k, ph)" "in_use ph"
    and "\<And>k'. k' \<noteq> k \<Longrightarrow> k' \<in> set (connectingRemotes p) \<Longrightarrow> k' \<in> set (connectingRemotes p')"
    and "\<And>k'. k' \<noteq> k \<Longrightarrow> map_of (remotes p') k' = map_of (remotes p) k'"
    and "ph' = Connecting \<Longrightarrow> k \<in> set (connectingRemotes p')" "ph' = Connected \<Longrightarrow> map_of (remotes p') k = Some n"
  shows "exact p' (jobs[n := (k, ph')])"
proof -
  have other: "fst (jobs ! m) \<noteq> k" if "m < length jobs" "m \<noteq> n" "in_use (snd (jobs ! m))" for m
    using assms(1-4) that unfolding exact_def by (metis fst_conv snd_conv)
  then have other': "k \<noteq> fst (jobs ! m)" if "m < length jobs" "m \<noteq> n" "in_use (snd (jobs ! m))" for m using that by blast
  have "fst (jobs ! m) \<in> set (connectingRemotes p')" if "m < length jobs" "m \<noteq> n" "snd (jobs ! m) = Connecting" for m
    using other [of m] assms(1,5) that by (simp add: in_use_def exact_def)
  moreover have "map_of (remotes p') (fst (jobs ! m)) = Some m" if "m < length jobs" "m \<noteq> n" "snd (jobs ! m) = Connected" for m
    using other [of m] assms(1,6) that by (simp add: in_use_def exact_def)
  moreover have "fst (jobs ! m) \<noteq> fst (jobs ! l)" if "m < length jobs" "l < length jobs" "m \<noteq> l" "in_use (snd (jobs ! m))" "in_use (snd (jobs ! l))" for m l
    using assms(1) that unfolding exact_def by blast
  ultimately show ?thesis using other other' assms(2,7,8) by (auto simp: exact_def nth_list_update)
qed

lemma exact_drop: "exact p jobs \<Longrightarrow> \<not> in_use ph \<Longrightarrow> exact p (jobs[n := (k, ph)])"
  by (cases "n < length jobs") (auto simp: exact_def nth_list_update in_use_def)

lemma exact_append:
  assumes "exact p jobs" "k \<notin> set (connectingRemotes p)" "k \<notin> fst ` set (remotes p)" "Launched \<notin> snd ` set jobs"
  shows "exact p (jobs @ [(k, Launched)])"
proof -
  have "fst (jobs ! m) \<noteq> k" if "m < length jobs" "in_use (snd (jobs ! m))" for m
  proof -
    have "snd (jobs ! m) \<noteq> Launched" using assms(4) that(1) by (metis imageI nth_mem)
    then have "fst (jobs ! m) \<in> set (connectingRemotes p) \<or> fst (jobs ! m) \<in> fst ` set (remotes p)"
      using assms(1) that map_of_SomeD unfolding exact_def in_use_def by (metis fst_conv image_eqI)
    then show ?thesis using assms(2,3) by auto
  qed
  then show ?thesis using assms(1) by (auto simp: exact_def nth_append less_Suc_eq)
qed

lemma exact_step:
  assumes "peer_step True N x y" "exact (px_peers x) (px_jobs x)"
  shows "exact (px_peers y) (px_jobs y)"
  using assms(1)
proof cases
  case (pick get sf cf)
  then show ?thesis using assms(2)
    by (auto simp: pick_candidate_def intro: exact_append dest: peerCandidate_fresh split: sum.splits)
next
  case (begun n k)
  then show ?thesis by (auto simp: set_conn_def in_use_def intro: exact_move [OF assms(2)])
next
  case (refused n k)
  then show ?thesis by (auto simp: set_conn_def in_use_def intro: exact_move [OF assms(2)])
next
  case (accepted n k)
  then show ?thesis by (auto simp: set_conn_def in_use_def AList.update_conv' intro: exact_move [OF assms(2)])
next
  case (lost n k)
  then show ?thesis by (auto simp: set_conn_def in_use_def AList.delete_conv' intro: exact_move [OF assms(2)])
next
  case (released n k)
  then show ?thesis using assms(2) by (simp add: set_conn_def exact_drop in_use_def)
qed (use assms(2) in auto)

lemma exact_reach: "peer_reach True N x \<Longrightarrow> exact (px_peers x) (px_jobs x)"
proof (induction rule: peer_reach.induct)
  case init
  show ?case by (simp add: exact_def)
qed (blast intro: exact_step)

section \<open>The invariant of the connections to persistent peers\<close>

definition persistent_inv :: "nat \<Rightarrow> persistent_sys \<Rightarrow> bool" where
  "persistent_inv len x \<longleftrightarrow> owned (pp_peers x) (pp_jobs x) \<and> length (pp_jobs x) = len \<and>
     (Finished \<in> snd ` set (pp_jobs x) \<longrightarrow> pp_cancelled x)"

lemma persistent_inv_step:
  assumes "persistent_step N x y" "persistent_inv len x"
  shows "persistent_inv len y"
proof -
  have own: "owned (pp_peers x) (pp_jobs x)" and fin: "Finished \<in> snd ` set (pp_jobs x) \<Longrightarrow> pp_cancelled x"
    using assms(2) by (auto simp: persistent_inv_def)
  have fin': "pp_cancelled x" if "(k, Finished) \<in> set ((pp_jobs x)[n := (k', ph)])" "ph \<noteq> Finished" for k n k' ph
    using that fin set_update_subset_insert [of "pp_jobs x" n "(k', ph)"] by force
  from assms(1) show ?thesis
  proof cases
    case (p_accepted n k k')
    then show ?thesis using assms(2) own owned_add [OF own p_accepted(2,3)]
      by (auto simp: persistent_inv_def set_persistent_def dest: fin')
  next
    case (p_lost n k)
    then show ?thesis using assms(2) own owned_delete [OF own p_lost(3)]
      by (auto simp: persistent_inv_def set_persistent_def dest: fin')
  qed (use assms(2) own in \<open>auto simp: persistent_inv_def set_persistent_def dest: fin' intro: owned_other\<close>)
qed

text \<open>
  A goroutine for a persistent peer returns only after the cancellation; there are never more remote
  peers than configured addresses, and none when all goroutines have returned.
\<close>

theorem persistent_peers_are_kept:
  assumes "persistent_reach N addrs x"
  shows "(Finished \<in> snd ` set (pp_jobs x) \<longrightarrow> pp_cancelled x) \<and> length (remotes (pp_peers x)) \<le> length addrs \<and>
    (snd ` set (pp_jobs x) \<subseteq> {Finished} \<longrightarrow> remotes (pp_peers x) = [])"
proof -
  have inv: "persistent_inv (length addrs) x" using assms
  proof (induction rule: persistent_reach.induct)
    case p_init
    show ?case by (auto simp: persistent_inv_def owned_def no_peers_def)
  qed (blast intro: persistent_inv_step)
  then have "length (remotes (pp_peers x)) \<le> how_many (\<lambda>j. snd j = Connected) (pp_jobs x)"
    using owned_bound by (auto simp: persistent_inv_def)
  moreover have "how_many (\<lambda>j. snd j = Connected) (pp_jobs x) = 0" if "snd ` set (pp_jobs x) \<subseteq> {Finished}"
    using that by (auto simp: filter_empty_conv)
  moreover have "how_many (\<lambda>j. snd j = Connected) (pp_jobs x) \<le> length addrs"
    using inv by (metis length_filter_le persistent_inv_def)
  ultimately show ?thesis using inv by (auto simp: persistent_inv_def)
qed

section \<open>Properties\<close>

text \<open>
  C17.  However the goroutines of \<open>connectToCandidates\<close> interleave, at most 8 peers are connected, every
  remote peer belongs to a goroutine that is still connected to it, the reported counts are from 1 to 8
  after a connection and from 0 to 7 after a loss, and once \<open>connectToCandidates\<close> has returned no
  peer is connected or connecting.
\<close>

theorem candidate_peers_are_bounded:
  assumes "peer_reach serial N x"
  shows "length (remotes (px_peers x)) \<le> 8 \<and> owned (px_peers x) (px_jobs x) \<and>
    list_all (count_ok 8) (pe_events (px_peers x)) \<and>
    (px_loop x = Returned \<longrightarrow> remotes (px_peers x) = [] \<and> connectingRemotes (px_peers x) = [])"
proof -
  have inv: "peer_inv x" by (rule peer_inv_reach [OF assms])
  then have own: "owned (px_peers x) (px_jobs x)" by (simp add: peer_inv_def)
  have "length (remotes (px_peers x)) \<le> 8"
    using owned_bound [OF own] active_bound [of "px_jobs x"] inv by (simp add: peer_inv_def)
  moreover have "remotes (px_peers x) = [] \<and> connectingRemotes (px_peers x) = []" if "px_loop x = Returned"
  proof -
    have fin: "snd ` set (px_jobs x) \<subseteq> {Finished}" using inv that by (simp add: peer_inv_def)
    then have "how_many (\<lambda>j. snd j = Connected) (px_jobs x) = 0" by (auto simp: filter_empty_conv)
    moreover have "set (connectingRemotes (px_peers x)) = {}"
      using inv fin unfolding peer_inv_def by (metis conn_phase.distinct(17) equals0I imageI singletonD snd_conv subsetD)
    ultimately show ?thesis using owned_bound [OF own] by auto
  qed
  ultimately show ?thesis using own counts_reach [OF assms] by blast
qed

text \<open>
  When the loop chooses a candidate only after the goroutines started so far have entered their
  addresses, no two goroutines work at the same address, and the map of remote peers is exactly the
  peers that the goroutines are connected to.
\<close>

theorem serial_candidates_are_exact:
  assumes "peer_reach True N x"
  shows "(map_of (remotes (px_peers x)) k = Some n \<longleftrightarrow> n < length (px_jobs x) \<and> px_jobs x ! n = (k, Connected)) \<and>
    (n < length (px_jobs x) \<and> m < length (px_jobs x) \<and> n \<noteq> m \<and> in_use (snd (px_jobs x ! n)) \<and> in_use (snd (px_jobs x ! m)) \<longrightarrow>
     fst (px_jobs x ! n) \<noteq> fst (px_jobs x ! m))"
proof -
  have "owned (px_peers x) (px_jobs x)" using peer_inv_reach [OF assms] by (simp add: peer_inv_def)
  moreover have e: "exact (px_peers x) (px_jobs x)" by (rule exact_reach [OF assms])
  ultimately have "map_of (remotes (px_peers x)) k = Some n \<longleftrightarrow> n < length (px_jobs x) \<and> px_jobs x ! n = (k, Connected)"
    unfolding exact_def owned_def by (metis fst_conv snd_conv)
  moreover have "fst (px_jobs x ! n) \<noteq> fst (px_jobs x ! m)"
    if "n < length (px_jobs x)" "m < length (px_jobs x)" "n \<noteq> m" "in_use (snd (px_jobs x ! n))" "in_use (snd (px_jobs x ! m))"
    using e that unfolding exact_def by blast
  ultimately show ?thesis by blast
qed

text \<open>The states of an execution in which the address \<open>k\<close> is offered twice before the first goroutine runs.\<close>

definition offer :: "string \<Rightarrow> nat \<Rightarrow> KnownAddress option" where
  "offer k tries = Some \<lparr>ka_Key = k, ka_Services = reqSvcs 1 4, ka_recent = False\<rparr>"

lemma peerCandidate_offer: "k \<notin> A \<Longrightarrow> k \<notin> B \<Longrightarrow> peerCandidate (offer k) A B (reqSvcs 1 4) = Inr \<lparr>ka_Key = k, ka_Services = reqSvcs 1 4, ka_recent = False\<rparr>"
  by (simp add: peerCandidate_def candidate_loop.simps offer_def)

text \<open>The loop takes a token and starts a goroutine for \<open>k\<close>.\<close>

lemma launch_reach:
  assumes "peer_reach serial N x" "px_loop x = LoopTop" "\<not> px_cancelled x" "px_sem x < 8" "serial \<longrightarrow> Launched \<notin> snd ` set (px_jobs x)"
    and "k \<notin> set (connectingRemotes (px_peers x))" "k \<notin> fst ` set (remotes (px_peers x))"
  shows "peer_reach serial N (x\<lparr>px_sem := px_sem x + 1, px_loop := LoopTop, px_jobs := px_jobs x @ [(k, Launched)]\<rparr>)"
proof -
  have "peer_reach serial N (x\<lparr>px_loop := Acquire\<rparr>)" using peer_reach.step [OF assms(1) peer_step.check [OF assms(2)]] assms(3) by simp
  from peer_reach.step [OF this peer_step.acquire] assms(4)
  have "peer_reach serial N (x\<lparr>px_loop := Picking, px_sem := px_sem x + 1\<rparr>)" by simp
  from peer_reach.step [OF this peer_step.pick [of _ _ _ "offer k" 1 4]] assms(2,5-7)
  show ?thesis by (simp add: pick_candidate_def peerCandidate_offer)
qed

text \<open>A started goroutine connects, if its address is not connected yet.\<close>

lemma connect_reach:
  assumes "peer_reach serial N x" "n < length (px_jobs x)" "px_jobs x ! n = (k, Launched)"
  shows "\<exists>y. peer_reach serial N y \<and> px_jobs y = (px_jobs x)[n := (k, Connected)] \<and> remotes (px_peers y) = AList.update k n (remotes (px_peers x)) \<and>
    set (connectingRemotes (px_peers y)) = set (connectingRemotes (px_peers x)) - {k} \<and> px_loop y = px_loop x"
proof -
  let ?x1 = "set_conn n k Connecting (x\<lparr>px_peers := begin_connecting k (px_peers x)\<rparr>)"
  have x1: "peer_reach serial N ?x1" by (rule peer_reach.step [OF assms(1) peer_step.begun [OF assms(2,3)]])
  have "px_jobs ?x1 ! n = (k, Connecting)" "n < length (px_jobs ?x1)" using assms(2) by (simp_all add: set_conn_def)
  then have "peer_reach serial N (set_conn n k Connected (?x1\<lparr>px_peers := add_remote N k n (end_connecting k (px_peers ?x1))\<rparr>))" (is "peer_reach _ _ ?y")
    by (intro peer_reach.step [OF x1] peer_step.accepted)
  then show ?thesis by (intro exI [of _ ?y]) (auto simp: set_conn_def)
qed

text \<open>
  C39.  The loop of \<open>connectToCandidates\<close> looks an address up before the goroutine it starts enters it:
  the same address can be chosen twice.  When the first of the two connections is lost, the syncer has
  no remote peer although the second is still up.
\<close>

theorem connected_peer_forgotten:
  "\<exists>x. peer_reach False N x \<and> px_jobs x = [(k, Ending), (k, Connected)] \<and> remotes (px_peers x) = []"
proof -
  let ?x0 = "\<lparr>px_peers = no_peers, px_loop = LoopTop, px_sem = 0, px_jobs = [], px_cancelled = False\<rparr>"
  have "peer_reach False N (?x0\<lparr>px_sem := px_sem ?x0 + 1, px_loop := LoopTop, px_jobs := px_jobs ?x0 @ [(k, Launched)]\<rparr>)" (is "peer_reach _ _ ?x1")
    by (rule launch_reach [OF peer_reach.init]) (simp_all add: no_peers_def)
  then have "peer_reach False N (?x1\<lparr>px_sem := px_sem ?x1 + 1, px_loop := LoopTop, px_jobs := px_jobs ?x1 @ [(k, Launched)]\<rparr>)" (is "peer_reach _ _ ?x2")
    by (rule launch_reach) (simp_all add: no_peers_def)
  from connect_reach [OF this, of 0 k] obtain x3
    where x3: "peer_reach False N x3" "px_jobs x3 = [(k, Connected), (k, Launched)]" "remotes (px_peers x3) = [(k, 0)]"
    by (auto simp: no_peers_def)
  from connect_reach [OF x3(1), of 1 k] x3(2,3) obtain x4
    where x4: "peer_reach False N x4" "px_jobs x4 = [(k, Connected), (k, Connected)]" "remotes (px_peers x4) = [(k, 1)]"
    by auto
  from peer_reach.step [OF x4(1) peer_step.lost [of 0 _ k]] x4(2,3) show ?thesis
    by (intro exI [of _ "set_conn 0 k Ending (x4\<lparr>px_peers := delete_remote N k (px_peers x4)\<rparr>)"]) (simp add: set_conn_def)
qed

section \<open>Witnesses\<close>

lemma one_peer_reach:
  "\<exists>x. peer_reach True N x \<and> px_jobs x = [(k, Connected)] \<and> remotes (px_peers x) = [(k, 0)]"
proof -
  let ?x0 = "\<lparr>px_peers = no_peers, px_loop = LoopTop, px_sem = 0, px_jobs = [], px_cancelled = False\<rparr>"
  have "peer_reach True N (?x0\<lparr>px_sem := px_sem ?x0 + 1, px_loop := LoopTop, px_jobs := px_jobs ?x0 @ [(k, Launched)]\<rparr>)"
    by (rule launch_reach [OF peer_reach.init]) (simp_all add: no_peers_def)
  from connect_reach [OF this, of 0 k] show ?thesis by (auto simp: no_peers_def)
qed

theorem candidate_peers_are_bounded_witness:
  "\<exists>x. peer_reach True (\<lambda>_. True) x \<and> remotes (px_peers x) = [(''1.2.3.4:9108'', 0)] \<and> list_all (count_ok 8) (pe_events (px_peers x)) \<and> px_loop x \<noteq> Returned"
proof -
  obtain x where x: "peer_reach True (\<lambda>_. True) x" "remotes (px_peers x) = [(''1.2.3.4:9108'', 0)]" using one_peer_reach by blast
  from candidate_peers_are_bounded [OF x(1)] x show ?thesis by auto
qed

theorem serial_candidates_are_exact_witness:
  "\<exists>x. peer_reach True (\<lambda>_. True) x \<and> map_of (remotes (px_peers x)) ''1.2.3.4:9108'' = Some 0 \<and> px_jobs x ! 0 = (''1.2.3.4:9108'', Connected)"
proof -
  obtain x where x: "peer_reach True (\<lambda>_. True) x" "remotes (px_peers x) = [(''1.2.3.4:9108'', 0)]" using one_peer_reach by blast
  then have "map_of (remotes (px_peers x)) ''1.2.3.4:9108'' = Some 0" by simp
  with serial_candidates_are_exact [OF x(1), of "''1.2.3.4:9108''" 0] x show ?thesis by blast
qed

end
