(* ===== verification/Config.thy ===== *)
theory Config
  imports Prelude
begin

text \<open>
  User configuration: \<open>multiwallet_config.go\<close>, \<open>wallet_config.go\<close> and the functions of
  \<open>utils.go\<close> they rest on.  Values of all wallets share one bucket of the wallets database; the
  values of a wallet have their keys prefixed by its id.  The key/value store of storm is
  third-party and a parameter.
\<close>

section \<open>Decimal numbers\<close>

text \<open>\<open>strconv.Itoa\<close> and \<open>%d\<close> of a wallet id (ids are positive).\<close>

definition digit :: "nat \<Rightarrow> char" where
  "digit n = ''0123456789'' ! (n mod 10)"

fun itoa :: "nat \<Rightarrow> string" where
  "itoa n = (if n < 10 then [digit n] else itoa (n div 10) @ [digit n])"

declare itoa.simps [simp del]

definition is_digit :: "char \<Rightarrow> bool" where
  "is_digit c \<longleftrightarrow> c \<in> set ''0123456789''"

section \<open>The store\<close>

text \<open>A stored value; a \<open>float64\<close> is its bit pattern.\<close>

datatype cfg = CBool bool | CInt int | CDouble "64 word" | CString string | CBytes bytes

datatype kv_err = KvNotFound | KvErr string

record 's kv =
  kv_Get :: "'s \<Rightarrow> string \<Rightarrow> string \<Rightarrow> kv_err + cfg"
  kv_Set :: "'s \<Rightarrow> string \<Rightarrow> string \<Rightarrow> cfg \<Rightarrow> kv_err + 's"
  kv_Delete :: "'s \<Rightarrow> string \<Rightarrow> string \<Rightarrow> kv_err + 's"
  kv_Drop :: "'s \<Rightarrow> string \<Rightarrow> kv_err + 's"

section \<open>Keys\<close>

definition userConfigBucketName :: string where "userConfigBucketName = ''user_config''"
definition SpendUnconfirmedConfigKey :: string where "SpendUnconfirmedConfigKey = ''spend_unconfirmed''"
definition IsStartupSecuritySetConfigKey :: string where "IsStartupSecuritySetConfigKey = ''startup_security_set''"
definition StartupSecurityTypeConfigKey :: string where "StartupSecurityTypeConfigKey = ''startup_security_type''"
definition PassphraseTypePin :: int where "PassphraseTypePin = 0"
definition PassphraseTypePass :: int where "PassphraseTypePass = 1"
definition DefaultRequiredConfirmations :: int where "DefaultRequiredConfirmations = 2"

definition WalletUniqueConfigKey :: "nat \<Rightarrow> string \<Rightarrow> string" where
  "WalletUniqueConfigKey walletID key = itoa walletID @ key"

section \<open>Reading and writing\<close>

definition walletConfigSetFn :: "'s kv \<Rightarrow> nat \<Rightarrow> 's \<Rightarrow> string \<Rightarrow> cfg \<Rightarrow> kv_err + 's" where
  "walletConfigSetFn K walletID st key v = kv_Set K st userConfigBucketName (WalletUniqueConfigKey walletID key) v"

definition walletConfigReadFn :: "'s kv \<Rightarrow> nat \<Rightarrow> 's \<Rightarrow> bool \<Rightarrow> string \<Rightarrow> kv_err + cfg" where
  "walletConfigReadFn K walletID st multiwallet key =
     kv_Get K st userConfigBucketName (if \<not> multiwallet then WalletUniqueConfigKey walletID key else key)"

text \<open>Errors of a write are only logged: the store stays as it was.\<close>

definition mw_SaveUserConfigValue :: "'s kv \<Rightarrow> 's \<Rightarrow> string \<Rightarrow> cfg \<Rightarrow> 's" where
  "mw_SaveUserConfigValue K st key v = (case kv_Set K st userConfigBucketName key v of Inl e \<Rightarrow> st | Inr st' \<Rightarrow> st')"

definition mw_ReadUserConfigValue :: "'s kv \<Rightarrow> 's \<Rightarrow> string \<Rightarrow> kv_err + cfg" where
  "mw_ReadUserConfigValue K st key = kv_Get K st userConfigBucketName key"

definition DeleteUserConfigValueForKey :: "'s kv \<Rightarrow> 's \<Rightarrow> string \<Rightarrow> 's" where
  "DeleteUserConfigValueForKey K st key = (case kv_Delete K st userConfigBucketName key of Inl e \<Rightarrow> st | Inr st' \<Rightarrow> st')"

definition ClearConfig :: "'s kv \<Rightarrow> 's \<Rightarrow> 's" where
  "ClearConfig K st = (case kv_Drop K st userConfigBucketName of Inl e \<Rightarrow> st | Inr st' \<Rightarrow> st')"

text \<open>\<open>prepared\<close> tells whether \<open>wallet.prepare\<close> has installed the wallet's functions.\<close>

definition SaveUserConfigValue :: "'s kv \<Rightarrow> bool \<Rightarrow> nat \<Rightarrow> 's \<Rightarrow> string \<Rightarrow> cfg \<Rightarrow> 's" where
  "SaveUserConfigValue K prepared walletID st key v =
     (if \<not> prepared then st
      else case walletConfigSetFn K walletID st key v of Inl e \<Rightarrow> st | Inr st' \<Rightarrow> st')"

definition ReadUserConfigValue :: "'s kv \<Rightarrow> bool \<Rightarrow> nat \<Rightarrow> 's \<Rightarrow> string \<Rightarrow> kv_err + cfg" where
  "ReadUserConfigValue K prepared walletID st key =
     (if \<not> prepared then Inl (KvErr ''failed_precondition'') else walletConfigReadFn K walletID st False key)"

text \<open>The typed writers.\<close>

definition mw_SetBoolConfigValueForKey :: "'s kv \<Rightarrow> 's \<Rightarrow> string \<Rightarrow> bool \<Rightarrow> 's" where
  "mw_SetBoolConfigValueForKey K st key v = mw_SaveUserConfigValue K st key (CBool v)"
definition mw_SetDoubleConfigValueForKey :: "'s kv \<Rightarrow> 's \<Rightarrow> string \<Rightarrow> 64 word \<Rightarrow> 's" where
  "mw_SetDoubleConfigValueForKey K st key v = mw_SaveUserConfigValue K st key (CDouble v)"
definition mw_SetIntConfigValueForKey :: "'s kv \<Rightarrow> 's \<Rightarrow> string \<Rightarrow> int \<Rightarrow> 's" where
  "mw_SetIntConfigValueForKey K st key v = mw_SaveUserConfigValue K st key (CInt v)"
definition mw_SetInt32ConfigValueForKey :: "'s kv \<Rightarrow> 's \<Rightarrow> string \<Rightarrow> int \<Rightarrow> 's" where
  "mw_SetInt32ConfigValueForKey K st key v = mw_SaveUserConfigValue K st key (CInt v)"
definition mw_SetLongConfigValueForKey :: "'s kv \<Rightarrow> 's \<Rightarrow> string \<Rightarrow> int \<Rightarrow> 's" where
  "mw_SetLongConfigValueForKey K st key v = mw_SaveUserConfigValue K st key (CInt v)"
definition mw_SetStringConfigValueForKey :: "'s kv \<Rightarrow> 's \<Rightarrow> string \<Rightarrow> string \<Rightarrow> 's" where
  "mw_SetStringConfigValueForKey K st key v = mw_SaveUserConfigValue K st key (CString v)"

definition SetBoolConfigValueForKey :: "'s kv \<Rightarrow> bool \<Rightarrow> nat \<Rightarrow> 's \<Rightarrow> string \<Rightarrow> bool \<Rightarrow> 's" where
  "SetBoolConfigValueForKey K prepared w st key v = SaveUserConfigValue K prepared w st key (CBool v)"
definition SetDoubleConfigValueForKey :: "'s kv \<Rightarrow> bool \<Rightarrow> nat \<Rightarrow> 's \<Rightarrow> string \<Rightarrow> 64 word \<Rightarrow> 's" where
  "SetDoubleConfigValueForKey K prepared w st key v = SaveUserConfigValue K prepared w st key (CDouble v)"
definition SetIntConfigValueForKey :: "'s kv \<Rightarrow> bool \<Rightarrow> nat \<Rightarrow> 's \<Rightarrow> string \<Rightarrow> int \<Rightarrow> 's" where
  "SetIntConfigValueForKey K prepared w st key v = SaveUserConfigValue K prepared w st key (CInt v)"
definition SetInt32ConfigValueForKey :: "'s kv \<Rightarrow> bool \<Rightarrow> nat \<Rightarrow> 's \<Rightarrow> string \<Rightarrow> int \<Rightarrow> 's" where
  "SetInt32ConfigValueForKey K prepared w st key v = SaveUserConfigValue K prepared w st key (CInt v)"
definition SetLongConfigValueForKey :: "'s kv \<Rightarrow> bool \<Rightarrow> nat \<Rightarrow> 's \<Rightarrow> string \<Rightarrow> int \<Rightarrow> 's" where
  "SetLongConfigValueForKey K prepared w st key v = SaveUserConfigValue K prepared w st key (CInt v)"
definition SetStringConfigValueForKey :: "'s kv \<Rightarrow> bool \<Rightarrow> nat \<Rightarrow> 's \<Rightarrow> string \<Rightarrow> string \<Rightarrow> 's" where
  "SetStringConfigValueForKey K prepared w st key v = SaveUserConfigValue K prepared w st key (CString v)"

text \<open>
  The typed readers: the default only for a missing key; after any other error, a value of
  another type included, the zero value the output variable started with.
\<close>

definition read_or :: "(cfg \<Rightarrow> 'a option) \<Rightarrow> 'a \<Rightarrow> 'a \<Rightarrow> kv_err + cfg \<Rightarrow> 'a" where
  "read_or get zero dflt r =
     (case r of
        Inl KvNotFound \<Rightarrow> dflt
      | Inl (KvErr m) \<Rightarrow> zero
      | Inr v \<Rightarrow> (case get v of None \<Rightarrow> zero | Some x \<Rightarrow> x))"

fun as_bool :: "cfg \<Rightarrow> bool option" where
  "as_bool (CBool b) = Some b" | "as_bool _ = None"
fun as_int :: "cfg \<Rightarrow> int option" where
  "as_int (CInt i) = Some i" | "as_int _ = None"
fun as_double :: "cfg \<Rightarrow> 64 word option" where
  "as_double (CDouble d) = Some d" | "as_double _ = None"
fun as_string :: "cfg \<Rightarrow> string option" where
  "as_string (CString s) = Some s" | "as_string _ = None"

definition mw_ReadBoolConfigValueForKey :: "'s kv \<Rightarrow> 's \<Rightarrow> string \<Rightarrow> bool \<Rightarrow> bool" where
  "mw_ReadBoolConfigValueForKey K st key dflt = read_or as_bool False dflt (mw_ReadUserConfigValue K st key)"
definition mw_ReadDoubleConfigValueForKey :: "'s kv \<Rightarrow> 's \<Rightarrow> string \<Rightarrow> 64 word \<Rightarrow> 64 word" where
  "mw_ReadDoubleConfigValueForKey K st key dflt = read_or as_double 0 dflt (mw_ReadUserConfigValue K st key)"
definition mw_ReadIntConfigValueForKey :: "'s kv \<Rightarrow> 's \<Rightarrow> string \<Rightarrow> int \<Rightarrow> int" where
  "mw_ReadIntConfigValueForKey K st key dflt = read_or as_int 0 dflt (mw_ReadUserConfigValue K st key)"

text \<open>\<open>ReadInt32ConfigValueForKey\<close>: a number outside the range of \<open>int32\<close> cannot be decoded.\<close>

definition as_int32 :: "cfg \<Rightarrow> int option" where
  "as_int32 v = (case as_int v of Some i \<Rightarrow> if is_int32 i then Some i else None | None \<Rightarrow> None)"

definition mw_ReadInt32ConfigValueForKey :: "'s kv \<Rightarrow> 's \<Rightarrow> string \<Rightarrow> int \<Rightarrow> int" where
  "mw_ReadInt32ConfigValueForKey K st key dflt = read_or as_int32 0 dflt (mw_ReadUserConfigValue K st key)"
definition mw_ReadLongConfigValueForKey :: "'s kv \<Rightarrow> 's \<Rightarrow> string \<Rightarrow> int \<Rightarrow> int" where
  "mw_ReadLongConfigValueForKey K st key dflt = read_or as_int 0 dflt (mw_ReadUserConfigValue K st key)"
definition mw_ReadStringConfigValueForKey :: "'s kv \<Rightarrow> 's \<Rightarrow> string \<Rightarrow> string" where
  "mw_ReadStringConfigValueForKey K st key = read_or as_string [] [] (mw_ReadUserConfigValue K st key)"

definition ReadBoolConfigValueForKey :: "'s kv \<Rightarrow> bool \<Rightarrow> nat \<Rightarrow> 's \<Rightarrow> string \<Rightarrow> bool \<Rightarrow> bool" where
  "ReadBoolConfigValueForKey K prepared w st key dflt = read_or as_bool False dflt (ReadUserConfigValue K prepared w st key)"
definition ReadDoubleConfigValueForKey :: "'s kv \<Rightarrow> bool \<Rightarrow> nat \<Rightarrow> 's \<Rightarrow> string \<Rightarrow> 64 word \<Rightarrow> 64 word" where
  "ReadDoubleConfigValueForKey K prepared w st key dflt = read_or as_double 0 dflt (ReadUserConfigValue K prepared w st key)"
definition ReadIntConfigValueForKey :: "'s kv \<Rightarrow> bool \<Rightarrow> nat \<Rightarrow> 's \<Rightarrow> string \<Rightarrow> int \<Rightarrow> int" where
  "ReadIntConfigValueForKey K prepared w st key dflt = read_or as_int 0 dflt (ReadUserConfigValue K prepared w st key)"
definition ReadInt32ConfigValueForKey :: "'s kv \<Rightarrow> bool \<Rightarrow> nat \<Rightarrow> 's \<Rightarrow> string \<Rightarrow> int \<Rightarrow> int" where
  "ReadInt32ConfigValueForKey K prepared w st key dflt = read_or as_int32 0 dflt (ReadUserConfigValue K prepared w st key)"
definition ReadLongConfigValueForKey :: "'s kv \<Rightarrow> bool \<Rightarrow> nat \<Rightarrow> 's \<Rightarrow> string \<Rightarrow> int \<Rightarrow> int" where
  "ReadLongConfigValueForKey K prepared w st key dflt = read_or as_int 0 dflt (ReadUserConfigValue K prepared w st key)"
definition ReadStringConfigValueForKey :: "'s kv \<Rightarrow> bool \<Rightarrow> nat \<Rightarrow> 's \<Rightarrow> string \<Rightarrow> string \<Rightarrow> string" where
  "ReadStringConfigValueForKey K prepared w st key dflt = read_or as_string [] dflt (ReadUserConfigValue K prepared w st key)"

section \<open>Confirmations (\<open>utils.go\<close>)\<close>

definition mw_RequiredConfirmations :: "'s kv \<Rightarrow> 's \<Rightarrow> int" where
  "mw_RequiredConfirmations K st =
     (if mw_ReadBoolConfigValueForKey K st SpendUnconfirmedConfigKey False then 0 else DefaultRequiredConfirmations)"

text \<open>A wallet reads the setting of the multi-wallet; an error leaves the variable false.\<close>

definition RequiredConfirmations :: "'s kv \<Rightarrow> nat \<Rightarrow> 's \<Rightarrow> int" where
  "RequiredConfirmations K walletID st =
     (if read_or as_bool False False (walletConfigReadFn K walletID st True SpendUnconfirmedConfigKey) then 0
      else DefaultRequiredConfirmations)"

section \<open>Lemmas\<close>

lemma itoa_digits: "itoa n \<noteq> [] \<and> (\<forall>c \<in> set (itoa n). is_digit c)"
proof (induction n rule: itoa.induct)
  case (1 n)
  have "is_digit (digit n)" unfolding is_digit_def digit_def by (rule nth_mem) simp
  with 1 show ?case by (simp add: itoa.simps [of n])
qed

lemma digit_inj: "m < 10 \<Longrightarrow> n < 10 \<Longrightarrow> digit m = digit n \<Longrightarrow> m = n"
  using nth_eq_iff_index_eq [of "''0123456789''" m n] by (simp add: digit_def)

lemma itoa_inj: "itoa m = itoa n \<Longrightarrow> m = n"
proof (induction m arbitrary: n rule: itoa.induct)
  case (1 m)
  have "digit k = digit (k mod 10)" for k by (simp add: digit_def)
  then have d: "digit m = digit n \<Longrightarrow> m mod 10 = n mod 10" using digit_inj [of "m mod 10" "n mod 10"] by simp
  show ?case
  proof (cases "m < 10 \<or> n < 10")
    case True
    have "itoa k \<noteq> []" "[] \<noteq> itoa k" for k using itoa_digits [of k] by auto
    with True 1(2) d show ?thesis
      by (auto simp: itoa.simps [of m] itoa.simps [of n] split: if_splits)
  next
    case False
    with 1 d have "m div 10 = n div 10" "m mod 10 = n mod 10"
      by (auto simp: itoa.simps [of m] itoa.simps [of n])
    then show ?thesis by (metis div_mult_mod_eq)
  qed
qed

text \<open>A key that can carry a wallet id in front: it does not start with a digit.\<close>

definition plain_key :: "string \<Rightarrow> bool" where
  "plain_key k \<longleftrightarrow> (case k of [] \<Rightarrow> True | c # _ \<Rightarrow> \<not> is_digit c)"

lemma takeWhile_unique_key: "plain_key k \<Longrightarrow> takeWhile is_digit (WalletUniqueConfigKey w k) = itoa w"
  using itoa_digits [of w]
  by (cases k) (simp_all add: WalletUniqueConfigKey_def plain_key_def takeWhile_append2 takeWhile_tail)

lemma unique_key_inj:
  assumes "plain_key k" and "plain_key k'" and "WalletUniqueConfigKey w k = WalletUniqueConfigKey w' k'"
  shows "w = w' \<and> k = k'"
proof -
  have "w = w'" using takeWhile_unique_key [OF assms(1)] takeWhile_unique_key [OF assms(2)] assms(3) itoa_inj by metis
  with assms(3) show ?thesis by (simp add: WalletUniqueConfigKey_def)
qed

lemma unique_key_plain: "plain_key k' \<Longrightarrow> WalletUniqueConfigKey w k \<noteq> k'"
  using itoa_digits [of w] by (cases "itoa w") (auto simp: WalletUniqueConfigKey_def plain_key_def)

text \<open>Documented behaviour of the key/value store.\<close>

locale kv_db =
  fixes K :: "'s kv"
  assumes get_set: "kv_Set K st b k v = Inr st' \<Longrightarrow> kv_Get K st' b' k' = (if b' = b \<and> k' = k then Inr v else kv_Get K st b' k')"
    and get_delete: "kv_Delete K st b k = Inr st' \<Longrightarrow> kv_Get K st' b' k' = (if b' = b \<and> k' = k then Inl KvNotFound else kv_Get K st b' k')"

text \<open>A reference store.\<close>

definition ref_kv :: "((string \<times> string) \<times> cfg) list kv" where
  "ref_kv = \<lparr>kv_Get = (\<lambda>st b k. case map_of st (b, k) of None \<Rightarrow> Inl KvNotFound | Some v \<Rightarrow> Inr v),
     kv_Set = (\<lambda>st b k v. Inr (((b, k), v) # st)), kv_Delete = (\<lambda>st b k. Inr (filter (\<lambda>(bk, _). bk \<noteq> (b, k)) st)),
     kv_Drop = (\<lambda>st b. Inr (filter (\<lambda>((b', _), _). b' \<noteq> b) st))\<rparr>"

lemma map_of_filter_key: "map_of (filter (\<lambda>(bk, _). bk \<noteq> x) st) y = (if y = x then None else map_of st y)"
  by (induction st) auto

interpretation ref_config: kv_db ref_kv
  by unfold_locales (auto simp: ref_kv_def map_of_filter_key split: option.splits if_splits)

section \<open>Properties\<close>

text \<open>
  A wallet's configuration is its own: after a successful save of a value under a key, the wallet
  reads that value back, and every other wallet, every other key of the wallet and every setting
  of the multi-wallet reads what it read before, as long as keys do not start with a digit (as
  all keys of the library do not).
\<close>

theorem wallet_config_isolation:
  assumes "kv_db K" and "plain_key key" and "walletConfigSetFn K w st key v = Inr st'"
  shows "ReadUserConfigValue K True w (SaveUserConfigValue K True w st key v) key = Inr v \<and>
    (\<forall>w' key'. plain_key key' \<and> (w', key') \<noteq> (w, key) \<longrightarrow>
       ReadUserConfigValue K True w' (SaveUserConfigValue K True w st key v) key' = ReadUserConfigValue K True w' st key') \<and>
    (\<forall>key'. plain_key key' \<longrightarrow> mw_ReadUserConfigValue K (SaveUserConfigValue K True w st key v) key' = mw_ReadUserConfigValue K st key')"
proof -
  have s: "kv_Set K st userConfigBucketName (WalletUniqueConfigKey w key) v = Inr st'"
    and e: "SaveUserConfigValue K True w st key v = st'"
    using assms(3) by (simp_all add: walletConfigSetFn_def SaveUserConfigValue_def)
  note g = kv_db.get_set [OF assms(1) s]
  have "WalletUniqueConfigKey w' key' \<noteq> WalletUniqueConfigKey w key" if "plain_key key'" "(w', key') \<noteq> (w, key)" for w' key'
    using unique_key_inj [OF that(1) assms(2)] that(2) by blast
  then show ?thesis
    using unique_key_plain [of _ w key]
    by (auto simp: e ReadUserConfigValue_def walletConfigReadFn_def mw_ReadUserConfigValue_def g)
qed

theorem wallet_config_isolation_witness:
  "ReadUserConfigValue ref_kv True 1 (SaveUserConfigValue ref_kv True 1 [] ''key'' (CBool True)) ''key'' = Inr (CBool True) \<and>
   ReadUserConfigValue ref_kv True 11 (SaveUserConfigValue ref_kv True 1 [] ''key'' (CBool True)) ''key'' = Inl KvNotFound"
proof -
  have p: "plain_key ''key''" by (simp add: plain_key_def is_digit_def)
  have "walletConfigSetFn ref_kv 1 [] ''key'' (CBool True) = Inr [((userConfigBucketName, WalletUniqueConfigKey 1 ''key''), CBool True)]"
    by (simp add: walletConfigSetFn_def ref_kv_def)
  from wallet_config_isolation [OF ref_config.kv_db_axioms p this] p show ?thesis
    by (simp add: ReadUserConfigValue_def walletConfigReadFn_def ref_kv_def)
qed

text \<open>
  The restriction is needed: the keys of different wallets coincide when a key may start with a
  digit, so wallet 1 with the key \<open>1x\<close> and wallet 11 with the key \<open>x\<close> share one value.
\<close>

theorem wallet_config_keys_collide:
  "WalletUniqueConfigKey 1 (CHR ''1'' # key) = WalletUniqueConfigKey 11 key"
  by (simp add: WalletUniqueConfigKey_def itoa.simps digit_def)

end
