(* ===== verification/TxAuthor.thy ===== *)
theory TxAuthor
  imports TxHelper
begin

text \<open>
  Authoring of transactions: \<open>txauthor.go\<close>, with \<open>translateError\<close> of \<open>errors.go\<close>.  Destinations
  are collected, then \<open>constructTransaction\<close> turns them into outputs and a change source for the
  wallet's transaction builder, which is third-party and a parameter together with the rest of the
  wallet.
\<close>

section \<open>\<open>errors.go\<close>\<close>

definition ErrInsufficientBalance :: string where "ErrInsufficientBalance = ''insufficient_balance''"
definition ErrInvalid :: string where "ErrInvalid = ''invalid''"
definition ErrInvalidPassphrase :: string where "ErrInvalidPassphrase = ''invalid_passphrase''"
definition ErrExist :: string where "ErrExist = ''exists''"
definition ErrNotExist :: string where "ErrNotExist = ''not_exists''"
definition ErrNoPeers :: string where "ErrNoPeers = ''no_peers''"

fun translateError :: "err \<Rightarrow> err" where
  "translateError (E InsufficientBalance m) = New ErrInsufficientBalance"
| "translateError (E NotExist m) = New ErrNotExist"
| "translateError (E Passphrase m) = New ErrInvalidPassphrase"
| "translateError (E NoPeers m) = New ErrNoPeers"
| "translateError e = e"

definition translate_result :: "'a result \<Rightarrow> 'a result" where
  "translate_result r = (case r of Inl e \<Rightarrow> Inl (translateError e) | Inr x \<Rightarrow> Inr x)"

section \<open>State and parameters\<close>

record TransactionDestination =
  Address :: string
  AtomAmount :: int
  SendMax :: bool

record TxAuthor =
  sourceAccountNumber :: nat
  destinations :: "TransactionDestination list"
  changeAddress :: string

datatype OutputSelectionAlgorithm = OutputSelectionAlgorithmDefault | OutputSelectionAlgorithmAll

record AuthoredTx =
  at_Tx :: MsgTx
  ChangeIndex :: int
  EstimatedSignedSerializeSize :: int

text \<open>
  The source wallet (\<open>sourceWallet.internal\<close>) over its state \<open>'w\<close>, the transaction rules and the
  serialization: \<open>decode_ok\<close> is \<open>Deserialize\<close> of the serialized transaction.
\<close>

record ('a, 'w) author_lib =
  addresses :: "'a address_lib"
  NewChangeAddress :: "'w \<Rightarrow> nat \<Rightarrow> (string \<times> 'w) result"
  NewUnsignedTransaction :: "'w \<Rightarrow> wire_TxOut list \<Rightarrow> nat \<Rightarrow> int \<Rightarrow> OutputSelectionAlgorithm \<Rightarrow> txChangeSource \<Rightarrow> AuthoredTx result"
  FeeForSerializeSize :: "int \<Rightarrow> int"
  SpendableBalance :: "'w \<Rightarrow> nat \<Rightarrow> int \<Rightarrow> int result"
  NetworkBackend :: "'w \<Rightarrow> err option"
  RandomizeChangePosition :: "AuthoredTx \<Rightarrow> AuthoredTx"
  SerializeTx :: "MsgTx \<Rightarrow> bytes result"
  DeserializeTx :: "bytes \<Rightarrow> MsgTx result"
  Unlock :: "'w \<Rightarrow> bytes \<Rightarrow> 'w result"
  Lock :: "'w \<Rightarrow> 'w"
  SignTransaction :: "'w \<Rightarrow> MsgTx \<Rightarrow> MsgTx result"
  PublishTransaction :: "'w \<Rightarrow> MsgTx \<Rightarrow> bytes \<Rightarrow> (hash \<times> 'w) result"

text \<open>\<open>dcrutil.MaxAmount\<close>: 21 million coins of \<open>1e8\<close> atoms.\<close>

definition MaxAmountAtom :: int where "MaxAmountAtom = 21000000 * 100000000"

section \<open>Destinations\<close>

definition NewUnsignedTx :: "int \<Rightarrow> TxAuthor" where
  "NewUnsignedTx accountNumber = \<lparr>sourceAccountNumber = uint32_of accountNumber, destinations = [], changeAddress = []\<rparr>"

definition AddSendDestination :: "('a, 'w) author_lib \<Rightarrow> TxAuthor \<Rightarrow> string \<Rightarrow> int \<Rightarrow> bool \<Rightarrow> TxAuthor result" where
  "AddSendDestination L tx address atomAmount sendMax =
     (case DecodeAddress (addresses L) address of
        Inl e \<Rightarrow> Inl (translateError (New e))
      | Inr a \<Rightarrow> Inr (tx\<lparr>destinations := destinations tx @ [\<lparr>Address = address, AtomAmount = atomAmount, SendMax = sendMax\<rparr>]\<rparr>))"

definition UpdateSendDestination :: "TxAuthor \<Rightarrow> int \<Rightarrow> string \<Rightarrow> int \<Rightarrow> bool \<Rightarrow> TxAuthor result" where
  "UpdateSendDestination tx index address atomAmount sendMax =
     (if 0 \<le> index \<and> index < int (length (destinations tx))
      then Inr (tx\<lparr>destinations := (destinations tx)[nat index := \<lparr>Address = address, AtomAmount = atomAmount, SendMax = sendMax\<rparr>]\<rparr>)
      else Inl (Panic ''index out of range''))"

text \<open>Past the end nothing is removed; a negative index is a slice-bounds panic.\<close>

definition RemoveSendDestination :: "TxAuthor \<Rightarrow> int \<Rightarrow> TxAuthor result" where
  "RemoveSendDestination tx index =
     (if int (length (destinations tx)) > index
      then if index < 0 then Inl (Panic ''slice bounds out of range'')
           else Inr (tx\<lparr>destinations := take (nat index) (destinations tx) @ drop (Suc (nat index)) (destinations tx)\<rparr>)
      else Inr tx)"

definition SendDestination :: "TxAuthor \<Rightarrow> int \<Rightarrow> TransactionDestination result" where
  "SendDestination tx atIndex =
     (if 0 \<le> atIndex \<and> atIndex < int (length (destinations tx)) then Inr (destinations tx ! nat atIndex)
      else Inl (Panic ''index out of range''))"

text \<open>\<open>TotalSendAmount\<close> in atoms; the sum wraps around at 64 bits.\<close>

definition TotalSendAmount :: "TxAuthor \<Rightarrow> int" where
  "TotalSendAmount tx = foldl (\<lambda>t d. int64_of (t + AtomAmount d)) 0 (destinations tx)"

section \<open>Construction\<close>

record construction =
  c_outputs :: "wire_TxOut list"
  c_algorithm :: OutputSelectionAlgorithm
  c_changeSource :: "txChangeSource option"

definition add_destination :: "('a, 'w) author_lib \<Rightarrow> construction \<Rightarrow> TransactionDestination \<Rightarrow> construction result" where
  "add_destination L c d =
     (if \<not> SendMax d \<and> (AtomAmount d \<le> 0 \<or> AtomAmount d > MaxAmountAtom) then Inl (E Invalid ''invalid amount'')
      else if SendMax d \<and> c_changeSource c \<noteq> None then Inl (New ''cannot send max amount to multiple recipients'')
      else if SendMax d
      then (case MakeTxChangeSource (addresses L) (Address d) of
              Inl e \<Rightarrow> Inl (New ''max amount change source error'')
            | Inr src \<Rightarrow> Inr (c\<lparr>c_algorithm := OutputSelectionAlgorithmAll, c_changeSource := Some src\<rparr>))
      else (case MakeTxOutput (addresses L) (Address d) (AtomAmount d) of
              Inl e \<Rightarrow> Inl (New ''make tx output error'')
            | Inr output \<Rightarrow> Inr (c\<lparr>c_outputs := c_outputs c @ [output]\<rparr>)))"

text \<open>\<open>changeSource\<close>: the address is derived once and remembered in the author.\<close>

definition changeSource :: "('a, 'w) author_lib \<Rightarrow> 'w \<Rightarrow> TxAuthor \<Rightarrow> txChangeSource result \<times> TxAuthor \<times> 'w" where
  "changeSource L w tx =
     (case (if changeAddress tx = []
            then (case NewChangeAddress L w (sourceAccountNumber tx) of
                    Inl e \<Rightarrow> Inl (New ''change address error'')
                  | Inr (a, w') \<Rightarrow> Inr (tx\<lparr>changeAddress := a\<rparr>, w'))
            else Inr (tx, w)) of
        Inl e \<Rightarrow> (Inl e, tx, w)
      | Inr (tx', w') \<Rightarrow>
          (case MakeTxChangeSource (addresses L) (changeAddress tx') of
             Inl e \<Rightarrow> (Inl (New ''change source error''), tx', w')
           | Inr src \<Rightarrow> (Inr src, tx', w')))"

definition constructTransaction :: "('a, 'w) author_lib \<Rightarrow> int \<Rightarrow> 'w \<Rightarrow> TxAuthor \<Rightarrow> AuthoredTx result \<times> TxAuthor \<times> 'w" where
  "constructTransaction L requiredConfirmations w tx =
     (case traverse (add_destination L) \<lparr>c_outputs = [], c_algorithm = OutputSelectionAlgorithmDefault, c_changeSource = None\<rparr>
             (destinations tx) of
        Inl e \<Rightarrow> (Inl e, tx, w)
      | Inr c \<Rightarrow>
          (case (case c_changeSource c of None \<Rightarrow> changeSource L w tx | Some src \<Rightarrow> (Inr src, tx, w)) of
             (Inl e, tx', w') \<Rightarrow> (Inl e, tx', w')
           | (Inr src, tx', w') \<Rightarrow>
               (NewUnsignedTransaction L w' (c_outputs c) (sourceAccountNumber tx) requiredConfirmations (c_algorithm c) src, tx', w')))"

record TxFeeAndSize =
  Fee :: int
  EstimatedSignedSize :: int

definition EstimateFeeAndSize :: "('a, 'w) author_lib \<Rightarrow> int \<Rightarrow> 'w \<Rightarrow> TxAuthor \<Rightarrow> TxFeeAndSize result \<times> TxAuthor \<times> 'w" where
  "EstimateFeeAndSize L rc w tx =
     (case constructTransaction L rc w tx of
        (Inl e, tx', w') \<Rightarrow> (Inl (translateError e), tx', w')
      | (Inr u, tx', w') \<Rightarrow>
          (Inr \<lparr>Fee = FeeForSerializeSize L (EstimatedSignedSerializeSize u), EstimatedSignedSize = EstimatedSignedSerializeSize u\<rparr>, tx', w'))"

text \<open>\<open>SpendableForAccount\<close> of \<open>accounts.go\<close>.\<close>

definition SpendableForAccount :: "('a, 'w) author_lib \<Rightarrow> int \<Rightarrow> 'w \<Rightarrow> int \<Rightarrow> int result" where
  "SpendableForAccount L rc w account = translate_result (SpendableBalance L w (uint32_of account) rc)"

definition EstimateMaxSendAmount :: "('a, 'w) author_lib \<Rightarrow> int \<Rightarrow> 'w \<Rightarrow> TxAuthor \<Rightarrow> int result \<times> TxAuthor \<times> 'w" where
  "EstimateMaxSendAmount L rc w tx =
     (case EstimateFeeAndSize L rc w tx of
        (Inl e, tx', w') \<Rightarrow> (Inl e, tx', w')
      | (Inr f, tx', w') \<Rightarrow>
          (bind_res (SpendableForAccount L rc w' (int32_of (int (sourceAccountNumber tx))))
             (\<lambda>spendable. Inr (int64_of (spendable - Fee f))), tx', w'))"

text \<open>
  \<open>Broadcast\<close>.  The passphrase is cleared on every path; the value sent on the lock channel locks the
  wallet again once it was unlocked.
\<close>

definition Broadcast ::
  "('a, 'w) author_lib \<Rightarrow> int \<Rightarrow> 'w \<Rightarrow> TxAuthor \<Rightarrow> bytes \<Rightarrow> hash result \<times> TxAuthor \<times> 'w \<times> bytes" where
  "Broadcast L rc w tx privatePassphrase =
     (let zeroed = replicate (length privatePassphrase) 0 in
      case NetworkBackend L w of
        Some e \<Rightarrow> (Inl e, tx, w, zeroed)
      | None \<Rightarrow>
          (case constructTransaction L rc w tx of
             (Inl e, tx', w') \<Rightarrow> (Inl (translateError e), tx', w', zeroed)
           | (Inr u, tx', w') \<Rightarrow>
               let u' = (if ChangeIndex u \<ge> 0 then RandomizeChangePosition L u else u) in
               case bind_res (SerializeTx L (at_Tx u')) (DeserializeTx L) of
                 Inl e \<Rightarrow> (Inl e, tx', w', zeroed)
               | Inr msgTx \<Rightarrow>
                   (case Unlock L w' privatePassphrase of
                      Inl e \<Rightarrow> (Inl (New ErrInvalidPassphrase), tx', w', zeroed)
                    | Inr w1 \<Rightarrow>
                        (case SignTransaction L w1 msgTx of
                           Inl e \<Rightarrow> (Inl e, tx', Lock L w1, zeroed)
                         | Inr signedTx \<Rightarrow>
                             (case SerializeTx L signedTx of
                                Inl e \<Rightarrow> (Inl e, tx', Lock L w1, zeroed)
                              | Inr ser \<Rightarrow>
                                  (case DeserializeTx L ser of
                                     Inl e \<Rightarrow> (Inl e, tx', Lock L w1, zeroed)
                                   | Inr msgTx' \<Rightarrow>
                                       (case PublishTransaction L w1 msgTx' ser of
                                          Inl e \<Rightarrow> (Inl (translateError e), tx', Lock L w1, zeroed)
                                        | Inr (h, w2) \<Rightarrow> (Inr h, tx', Lock L w2, zeroed))))))))"

section \<open>Lemmas\<close>

text \<open>The specification of the outputs: one per ordinary destination, in order.\<close>

definition ordinary :: "TransactionDestination list \<Rightarrow> TransactionDestination list" where
  "ordinary ds = filter (\<lambda>d. \<not> SendMax d) ds"

definition max_recipients :: "TransactionDestination list \<Rightarrow> TransactionDestination list" where
  "max_recipients ds = filter SendMax ds"

lemma add_destination_step:
  assumes "add_destination L c d = Inr c'"
  shows "if SendMax d
    then c_changeSource c = None \<and> c_outputs c' = c_outputs c \<and> c_algorithm c' = OutputSelectionAlgorithmAll \<and>
      (\<exists>src. MakeTxChangeSource (addresses L) (Address d) = Inr src \<and> c_changeSource c' = Some src)
    else 0 < AtomAmount d \<and> AtomAmount d \<le> MaxAmountAtom \<and> c_algorithm c' = c_algorithm c \<and> c_changeSource c' = c_changeSource c \<and>
      (\<exists>out. MakeTxOutput (addresses L) (Address d) (AtomAmount d) = Inr out \<and> c_outputs c' = c_outputs c @ [out])"
  using assms by (auto simp: add_destination_def split: if_splits sum.splits)

definition collected :: "('a, 'w) author_lib \<Rightarrow> construction \<Rightarrow> TransactionDestination list \<Rightarrow> construction \<Rightarrow> bool" where
  "collected L c ds c' \<longleftrightarrow>
     (\<exists>outs. c_outputs c' = c_outputs c @ outs \<and>
        list_all2 (\<lambda>d out. 0 < AtomAmount d \<and> AtomAmount d \<le> MaxAmountAtom \<and>
          MakeTxOutput (addresses L) (Address d) (AtomAmount d) = Inr out) (ordinary ds) outs) \<and>
     (case max_recipients ds of
        [] \<Rightarrow> c_algorithm c' = c_algorithm c \<and> c_changeSource c' = c_changeSource c
      | [d] \<Rightarrow> c_changeSource c = None \<and> c_algorithm c' = OutputSelectionAlgorithmAll \<and>
          (\<exists>src. MakeTxChangeSource (addresses L) (Address d) = Inr src \<and> c_changeSource c' = Some src)
      | _ \<Rightarrow> False)"

lemma collect_destinations:
  "traverse (add_destination L) c ds = Inr c' \<Longrightarrow> collected L c ds c'"
proof (induction ds arbitrary: c)
  case (Cons d ds)
  then obtain c1 where c1: "add_destination L c d = Inr c1" "collected L c1 ds c'" by (auto split: sum.splits)
  note st = add_destination_step [OF c1(1)]
  show ?case
  proof (cases "SendMax d")
    case True
    with st c1(2) have "max_recipients ds = []"
      by (auto simp: collected_def max_recipients_def split: list.splits)
    with st c1(2) True show ?thesis by (simp add: collected_def ordinary_def max_recipients_def)
  next
    case False
    with st c1(2) show ?thesis
      by (force simp: collected_def ordinary_def max_recipients_def split: list.splits)
  qed
qed (simp add: collected_def ordinary_def max_recipients_def)

lemma TotalSendAmount_mod: "TotalSendAmount tx = int64_of (sum_list (map AtomAmount (destinations tx)))"
proof -
  have "foldl (\<lambda>t d. int64_of (t + AtomAmount d)) (int64_of a) ds = int64_of (a + sum_list (map AtomAmount ds))" for a ds
  proof (induction ds arbitrary: a)
    case (Cons d ds)
    from Cons.IH [of "a + AtomAmount d"] show ?case by (simp add: int64_of_add_left add.assoc)
  qed simp
  from this [of 0] show ?thesis by (simp add: TotalSendAmount_def int64_of_id is_int64_def)
qed

lemma changeSource_Inr:
  assumes "changeSource L w tx = (Inr src, tx', w')"
  shows "MakeTxChangeSource (addresses L) (changeAddress tx') = Inr src \<and> destinations tx' = destinations tx \<and>
    (changeAddress tx \<noteq> [] \<longrightarrow> tx' = tx \<and> w' = w) \<and>
    (changeAddress tx = [] \<longrightarrow> NewChangeAddress L w (sourceAccountNumber tx) = Inr (changeAddress tx', w'))"
  using assms by (auto simp: changeSource_def split: if_splits sum.splits)

section \<open>Example data\<close>

definition ex_author_lib :: "(string, nat) author_lib" where
  "ex_author_lib = \<lparr>addresses = \<lparr>DecodeAddress = Inr, PayToAddrScript = (\<lambda>a. Inr [of_nat (length a)])\<rparr>,
     NewChangeAddress = (\<lambda>w acc. Inr (''change'', Suc w)),
     NewUnsignedTransaction = (\<lambda>w outs acc rc alg src. Inr \<lparr>at_Tx = \<lparr>tx_Version = 1, TxIn = [], TxOut = outs, LockTime = 0, Expiry = 0\<rparr>,
       ChangeIndex = -1, EstimatedSignedSerializeSize = 250\<rparr>),
     FeeForSerializeSize = (\<lambda>n. n), SpendableBalance = (\<lambda>w acc rc. Inr 1000), NetworkBackend = (\<lambda>w. None),
     RandomizeChangePosition = (\<lambda>u. u), SerializeTx = (\<lambda>tx. Inr []),
     DeserializeTx = (\<lambda>b. Inr \<lparr>tx_Version = 1, TxIn = [], TxOut = [], LockTime = 0, Expiry = 0\<rparr>),
     Unlock = (\<lambda>w p. if p = [7] then Inr (w + 100) else Inl (E Passphrase [])), Lock = (\<lambda>w. w - 100),
     SignTransaction = (\<lambda>w tx. Inr tx), PublishTransaction = (\<lambda>w tx b. Inr ([1], w))\<rparr>"

definition ex_author :: TxAuthor where
  "ex_author = \<lparr>sourceAccountNumber = 0, destinations = [\<lparr>Address = ''D1'', AtomAmount = 5, SendMax = False\<rparr>], changeAddress = []\<rparr>"

section \<open>Properties\<close>

text \<open>
  C7.  Whatever \<open>constructTransaction\<close> hands to the wallet is what was asked for: one output per
  ordinary destination, in order, each with a positive amount of at most 21 million coins; at most
  one destination receives the maximum, and then it alone is the change source and all outputs of
  the account are selected; otherwise the change goes to the author's change address, which is
  derived from the wallet only when none was derived before.
\<close>

theorem constructTransaction_uses_destinations:
  assumes "constructTransaction L rc w tx = (Inr u, tx', w')"
  shows "\<exists>outs alg src. NewUnsignedTransaction L w' outs (sourceAccountNumber tx) rc alg src = Inr u \<and>
    list_all2 (\<lambda>d out. 0 < AtomAmount d \<and> AtomAmount d \<le> MaxAmountAtom \<and>
      MakeTxOutput (addresses L) (Address d) (AtomAmount d) = Inr out) (ordinary (destinations tx)) outs \<and>
    destinations tx' = destinations tx \<and>
    (case max_recipients (destinations tx) of
       [] \<Rightarrow> alg = OutputSelectionAlgorithmDefault \<and> MakeTxChangeSource (addresses L) (changeAddress tx') = Inr src \<and>
         (changeAddress tx \<noteq> [] \<longrightarrow> tx' = tx \<and> w' = w)
     | [d] \<Rightarrow> alg = OutputSelectionAlgorithmAll \<and> MakeTxChangeSource (addresses L) (Address d) = Inr src \<and> tx' = tx \<and> w' = w
     | _ \<Rightarrow> False)"
proof -
  let ?c0 = "\<lparr>c_outputs = [], c_algorithm = OutputSelectionAlgorithmDefault, c_changeSource = None\<rparr>"
  from assms obtain c src where c: "traverse (add_destination L) ?c0 (destinations tx) = Inr c"
    and src: "(case c_changeSource c of None \<Rightarrow> changeSource L w tx | Some src \<Rightarrow> (Inr src, tx, w)) = (Inr src, tx', w')"
    and u: "NewUnsignedTransaction L w' (c_outputs c) (sourceAccountNumber tx) rc (c_algorithm c) src = Inr u"
    unfolding constructTransaction_def by (auto split: sum.splits prod.splits)
  from collect_destinations [OF c] have col: "collected L ?c0 (destinations tx) c" .
  then have outs: "list_all2 (\<lambda>d out. 0 < AtomAmount d \<and> AtomAmount d \<le> MaxAmountAtom \<and>
      MakeTxOutput (addresses L) (Address d) (AtomAmount d) = Inr out) (ordinary (destinations tx)) (c_outputs c)"
    by (auto simp: collected_def)
  show ?thesis
  proof (cases "max_recipients (destinations tx)")
    case Nil
    with col have "c_algorithm c = OutputSelectionAlgorithmDefault" "c_changeSource c = None" by (simp_all add: collected_def)
    with Nil u outs changeSource_Inr [of L w tx src tx' w'] src show ?thesis by auto
  next
    case (Cons d ds)
    with col have "ds = []" "c_algorithm c = OutputSelectionAlgorithmAll"
      "\<exists>src. MakeTxChangeSource (addresses L) (Address d) = Inr src \<and> c_changeSource c = Some src"
      by (auto simp: collected_def split: list.splits)
    with Cons u outs src show ?thesis by auto
  qed
qed

theorem constructTransaction_uses_destinations_witness:
  "\<exists>u outs. constructTransaction ex_author_lib 2 0 ex_author = (Inr u, ex_author\<lparr>changeAddress := ''change''\<rparr>, 1) \<and>
     list_all2 (\<lambda>d out. MakeTxOutput (addresses ex_author_lib) (Address d) (AtomAmount d) = Inr out) (destinations ex_author) outs"
proof -
  obtain u where u: "constructTransaction ex_author_lib 2 0 ex_author = (Inr u, ex_author\<lparr>changeAddress := ''change''\<rparr>, 1)"
    by (simp add: constructTransaction_def ex_author_def ex_author_lib_def add_destination_def MaxAmountAtom_def MakeTxOutput_def
        PkScript_def changeSource_def MakeTxChangeSource_def)
  have "ordinary (destinations ex_author) = destinations ex_author" by (simp add: ordinary_def ex_author_def)
  with constructTransaction_uses_destinations [OF u] u show ?thesis by (auto simp: list_all2_conv_all_nth)
qed

text \<open>
  \<open>Broadcast\<close> leaves no secret behind, on every path: the caller's passphrase is overwritten with
  zeros, and when the wallet was unlocked it is locked again as the last thing that happens to it;
  it is unlocked only with the caller's passphrase.
\<close>

theorem Broadcast_clears_and_locks:
  assumes "Broadcast L rc w tx pass = (r, tx', w', pass')"
  shows "pass' = replicate (length pass) 0 \<and>
    (w' = w \<or> w' = snd (snd (constructTransaction L rc w tx)) \<or>
     (\<exists>w1 w2. Unlock L (snd (snd (constructTransaction L rc w tx))) pass = Inr w1 \<and> w' = Lock L w2 \<and>
       (w2 = w1 \<or> (\<exists>m b h. PublishTransaction L w1 m b = Inr (h, w2))))) \<and>
    (is_ok r \<longrightarrow> is_ok (Unlock L (snd (snd (constructTransaction L rc w tx))) pass))"
  using assms
  by (auto simp: Broadcast_def Let_def split: option.splits sum.splits prod.splits)

theorem Broadcast_clears_and_locks_witness:
  "\<exists>r tx' w'. Broadcast ex_author_lib 2 0 ex_author [7] = (r, tx', w', [0]) \<and> is_ok r \<and> w' < 100"
proof -
  obtain r tx' w' p where b: "Broadcast ex_author_lib 2 0 ex_author [7] = (r, tx', w', p)" by (metis prod_cases4)
  then have "is_ok r \<and> w' < 100"
    by (auto simp: Broadcast_def constructTransaction_def ex_author_def ex_author_lib_def add_destination_def MaxAmountAtom_def
        MakeTxOutput_def PkScript_def changeSource_def MakeTxChangeSource_def Let_def)
  with Broadcast_clears_and_locks [OF b] b show ?thesis by simp
qed

text \<open>
  Editing the destinations.  Removing at a valid index takes out exactly that destination and
  keeps the order of the others, past the end nothing happens, and a negative index panics; and
  the total is the sum of the amounts modulo \<open>2 ^ 64\<close>, the exact sum whenever it fits.
\<close>

theorem destinations_editing:
  "(0 \<le> i \<and> i < int (length (destinations tx)) \<longrightarrow>
      (\<exists>tx' pre d post. RemoveSendDestination tx i = Inr tx' \<and> destinations tx = pre @ d # post \<and> int (length pre) = i \<and>
        destinations tx' = pre @ post)) \<and>
   (int (length (destinations tx)) \<le> i \<longrightarrow> RemoveSendDestination tx i = Inr tx) \<and>
   (i < 0 \<longrightarrow> is_panic (RemoveSendDestination tx i)) \<and>
   (is_int64 (sum_list (map AtomAmount (destinations tx))) \<longrightarrow>
      TotalSendAmount tx = sum_list (map AtomAmount (destinations tx)))"
proof (intro conjI impI)
  assume "0 \<le> i \<and> i < int (length (destinations tx))"
  then have "nat i < length (destinations tx)" "int (nat i) = i" by auto
  then show "\<exists>tx' pre d post. RemoveSendDestination tx i = Inr tx' \<and> destinations tx = pre @ d # post \<and> int (length pre) = i \<and>
      destinations tx' = pre @ post"
    by (intro exI [of _ "tx\<lparr>destinations := take (nat i) (destinations tx) @ drop (Suc (nat i)) (destinations tx)\<rparr>"]
        exI [of _ "take (nat i) (destinations tx)"] exI [of _ "destinations tx ! nat i"]
        exI [of _ "drop (Suc (nat i)) (destinations tx)"])
      (auto simp: RemoveSendDestination_def id_take_nth_drop)
qed (auto simp: RemoveSendDestination_def TotalSendAmount_mod int64_of_id)

theorem destinations_editing_witness:
  "\<exists>tx'. RemoveSendDestination ex_author 0 = Inr tx' \<and> destinations tx' = [] \<and> is_panic (RemoveSendDestination ex_author (-1)) \<and>
     TotalSendAmount ex_author = 5"
  using destinations_editing [of 0 ex_author] destinations_editing [of "-1" ex_author]
  by (auto simp: ex_author_def is_int64_def Cons_eq_append_conv)

end
