(* ===== verification/Wallets.thy ===== *)
theory Wallets
  imports Config TxAuthor
begin

text \<open>
  The wallet registry: \<open>multiwallet.go\<close>, \<open>multiwallet_utils.go\<close>, the passphrase operations of
  \<open>wallet.go\<close> and the file helpers of \<open>utils.go\<close>.  It keeps the wallets in a database and in
  memory, guards the application by a startup passphrase and re-encrypts seeds when a private
  passphrase changes.  The databases, the file system, the cryptography and the opened wallets are
  parameters.
\<close>

section \<open>Files (\<open>utils.go\<close>)\<close>

record 'e fs =
  Stat :: "'e \<Rightarrow> string \<Rightarrow> bool result"
  Rename :: "'e \<Rightarrow> string \<Rightarrow> string \<Rightarrow> 'e result"
  MkdirAll :: "'e \<Rightarrow> string \<Rightarrow> 'e"
  RemoveAll :: "'e \<Rightarrow> string \<Rightarrow> 'e result"

definition fileExists :: "'e fs \<Rightarrow> 'e \<Rightarrow> string \<Rightarrow> bool result" where
  "fileExists F e path = Stat F e path"

definition moveFile :: "'e fs \<Rightarrow> 'e \<Rightarrow> string \<Rightarrow> string \<Rightarrow> 'e result" where
  "moveFile F e src dest = (case fileExists F e src of Inr True \<Rightarrow> Rename F e src dest | _ \<Rightarrow> Inr e)"

definition backup_name :: "string \<Rightarrow> nat \<Rightarrow> string" where
  "backup_name fileName suffix = fileName @ ''.bak'' @ itoa suffix"

text \<open>\<open>backupFile\<close> tries suffixes until one is free; \<open>None\<close> is a search that never ends.\<close>

partial_function (option) backupFile :: "'e fs \<Rightarrow> 'e \<Rightarrow> string \<Rightarrow> nat \<Rightarrow> (string \<times> 'e) result option" where
  "backupFile F e fileName suffix =
     (case fileExists F e (backup_name fileName suffix) of
        Inl er \<Rightarrow> Some (Inl er)
      | Inr exists \<Rightarrow>
          if exists then backupFile F e fileName (Suc suffix)
          else (case moveFile F e fileName (backup_name fileName suffix) of
             Inl er \<Rightarrow> Some (Inl er)
           | Inr e' \<Rightarrow> Some (Inr (backup_name fileName suffix, e'))))"

section \<open>The startup passphrase (\<open>multiwallet.go\<close>)\<close>

definition walletsMetadataBucketName :: string where "walletsMetadataBucketName = ''metadata''"
definition walletstartupPassphraseField :: string where "walletstartupPassphraseField = ''startup-passphrase''"

record crypt =
  GenerateFromPassword :: "bytes \<Rightarrow> bytes result"
  CompareHashAndPassword :: "bytes \<Rightarrow> bytes \<Rightarrow> bool"
  scryptKey :: "bytes \<Rightarrow> bytes \<Rightarrow> nat \<Rightarrow> nat \<Rightarrow> nat \<Rightarrow> nat \<Rightarrow> bytes result"
  naclLoad :: "string \<Rightarrow> bytes result"
  EasySeal :: "string \<Rightarrow> bytes \<Rightarrow> bytes"
  EasyOpen :: "bytes \<Rightarrow> bytes \<Rightarrow> string result"

fun kv_error :: "kv_err \<Rightarrow> err" where
  "kv_error KvNotFound = New ''not found''"
| "kv_error (KvErr m) = New m"

definition VerifyStartupPassphrase :: "'s kv \<Rightarrow> crypt \<Rightarrow> 's \<Rightarrow> bytes \<Rightarrow> err option" where
  "VerifyStartupPassphrase K C st startupPassphrase =
     (case kv_Get K st walletsMetadataBucketName walletstartupPassphraseField of
        Inl (KvErr m) \<Rightarrow> Some (New m)
      | Inl KvNotFound \<Rightarrow> if startupPassphrase \<noteq> [] then Some (New ErrInvalidPassphrase) else None
      | Inr (CBytes h) \<Rightarrow> if \<not> CompareHashAndPassword C h startupPassphrase then Some (New ErrInvalidPassphrase) else None
      | Inr v \<Rightarrow> Some (New ''cannot decode''))"

definition RemoveStartupPassphrase :: "'s kv \<Rightarrow> crypt \<Rightarrow> 's \<Rightarrow> bytes \<Rightarrow> 's \<times> err option" where
  "RemoveStartupPassphrase K C st oldPassphrase =
     (case VerifyStartupPassphrase K C st oldPassphrase of
        Some e \<Rightarrow> (st, Some e)
      | None \<Rightarrow>
          (case kv_Delete K st walletsMetadataBucketName walletstartupPassphraseField of
             Inl e \<Rightarrow> (st, Some (kv_error e))
           | Inr st1 \<Rightarrow>
               (DeleteUserConfigValueForKey K
                  (mw_SaveUserConfigValue K st1 IsStartupSecuritySetConfigKey (CBool False)) StartupSecurityTypeConfigKey, None)))"

definition ChangeStartupPassphrase :: "'s kv \<Rightarrow> crypt \<Rightarrow> 's \<Rightarrow> bytes \<Rightarrow> bytes \<Rightarrow> int \<Rightarrow> 's \<times> err option" where
  "ChangeStartupPassphrase K C st oldPassphrase newPassphrase passphraseType =
     (if newPassphrase = [] then RemoveStartupPassphrase K C st oldPassphrase
      else case VerifyStartupPassphrase K C st oldPassphrase of
        Some e \<Rightarrow> (st, Some e)
      | None \<Rightarrow>
          (case GenerateFromPassword C newPassphrase of
             Inl e \<Rightarrow> (st, Some e)
           | Inr h \<Rightarrow>
               (case kv_Set K st walletsMetadataBucketName walletstartupPassphraseField (CBytes h) of
                  Inl e \<Rightarrow> (st, Some (kv_error e))
                | Inr st1 \<Rightarrow>
                    (mw_SaveUserConfigValue K
                       (mw_SaveUserConfigValue K st1 IsStartupSecuritySetConfigKey (CBool True))
                       StartupSecurityTypeConfigKey (CInt passphraseType), None))))"

definition SetStartupPassphrase :: "'s kv \<Rightarrow> crypt \<Rightarrow> 's \<Rightarrow> bytes \<Rightarrow> int \<Rightarrow> 's \<times> err option" where
  "SetStartupPassphrase K C st passphrase passphraseType = ChangeStartupPassphrase K C st [] passphrase passphraseType"

definition IsStartupSecuritySet :: "'s kv \<Rightarrow> 's \<Rightarrow> bool" where
  "IsStartupSecuritySet K st = mw_ReadBoolConfigValueForKey K st IsStartupSecuritySetConfigKey False"

definition StartupSecurityType :: "'s kv \<Rightarrow> 's \<Rightarrow> int" where
  "StartupSecurityType K st = mw_ReadInt32ConfigValueForKey K st StartupSecurityTypeConfigKey PassphraseTypePass"

section \<open>Seeds (\<open>multiwallet_utils.go\<close>)\<close>

definition hex_digit :: "nat \<Rightarrow> char" where
  "hex_digit n = ''0123456789abcdef'' ! n"

definition EncodeHex :: "bytes \<Rightarrow> string" where
  "EncodeHex hexBytes = concat (map (\<lambda>b. [hex_digit (unat b div 16), hex_digit (unat b mod 16)]) hexBytes)"

text \<open>The salt is nil.  \<open>nacl.Load\<close> reads the key back from its hexadecimal text.\<close>

definition naclLoadFromPass :: "crypt \<Rightarrow> bytes \<Rightarrow> bytes result" where
  "naclLoadFromPass C pass =
     (case scryptKey C pass [] (2 ^ 15) 8 1 32 of
        Inl e \<Rightarrow> Inl e
      | Inr hash \<Rightarrow> naclLoad C (EncodeHex hash))"

definition encryptWalletSeed :: "crypt \<Rightarrow> bytes \<Rightarrow> string \<Rightarrow> bytes result" where
  "encryptWalletSeed C pass seed = (case naclLoadFromPass C pass of Inl e \<Rightarrow> Inl e | Inr key \<Rightarrow> Inr (EasySeal C seed key))"

text \<open>A nil seed is opened like an empty one.\<close>

definition decryptWalletSeed :: "crypt \<Rightarrow> bytes \<Rightarrow> bytes option \<Rightarrow> string result" where
  "decryptWalletSeed C pass encryptedSeed =
     (case naclLoadFromPass C pass of
        Inl e \<Rightarrow> Inl e
      | Inr key \<Rightarrow>
          (case EasyOpen C (case encryptedSeed of None \<Rightarrow> [] | Some s \<Rightarrow> s) key of
             Inl e \<Rightarrow> Inl (New ErrInvalidPassphrase)
           | Inr seed \<Rightarrow> Inr seed))"

section \<open>Wallets\<close>

text \<open>The fields of \<open>Wallet\<close> that are stored, and the opened wallet \<open>internal\<close> of state type \<open>'w\<close>.\<close>

record 'w Wallet =
  w_ID :: nat
  w_Name :: string
  w_DbDriver :: string
  EncryptedSeed :: "bytes option"
  IsRestored :: bool
  HasDiscoveredAccounts :: bool
  PrivatePassphraseType :: int
  dataDir :: string
  internal :: "'w option"

text \<open>The stored wallets; \<open>Save\<close> assigns the next id to a wallet without one.\<close>

record ('s, 'w, 'x) wallet_db =
  ws_Save :: "'s \<Rightarrow> ('w, 'x) Wallet_scheme \<Rightarrow> (('w, 'x) Wallet_scheme \<times> 's) result"
  ws_DeleteStruct :: "'s \<Rightarrow> ('w, 'x) Wallet_scheme \<Rightarrow> 's result"
  ws_OneName :: "'s \<Rightarrow> string \<Rightarrow> kv_err + ('w, 'x) Wallet_scheme"
  ws_Begin :: "'s \<Rightarrow> 's result"
  ws_Commit :: "'s \<Rightarrow> 's result"

text \<open>
  The wallets by id, the flags of the sync data, and the shutdown listener: whether a goroutine still
  receives from \<open>shuttingDown\<close>, the contexts with a cancel function and the cancelled ones.
\<close>

record ('s, 'w, 'x, 'e) MultiWallet =
  mw_db :: 's
  wallets :: "nat \<rightharpoonup> ('w, 'x) Wallet_scheme"
  mw_fs :: 'e
  rootDir :: string
  dbDriver :: string
  mw_chainParams :: string
  syncing_now :: bool
  synced_now :: bool
  mw_awaiting :: bool
  mw_cancelFuncs :: "nat list"
  mw_cancelled :: "nat list"

text \<open>\<open>IsConnectedToDecredNetwork\<close> reads the flags of the sync data.\<close>

definition network_connected :: "('s, 'w, 'x, 'e) MultiWallet \<Rightarrow> bool" where
  "network_connected mw = (syncing_now mw \<or> synced_now mw)"

definition ErrReservedWalletName :: string where "ErrReservedWalletName = ''wallet_name_reserved''"
definition ErrSyncAlreadyInProgress :: string where "ErrSyncAlreadyInProgress = ''sync_already_in_progress''"
definition ErrWalletNotLoaded :: string where "ErrWalletNotLoaded = ''wallet_not_loaded''"
definition ErrChangingPassphrase :: string where "ErrChangingPassphrase = ''err_changing_passphrase''"
definition ErrSavingWallet :: string where "ErrSavingWallet = ''err_saving_wallet''"

definition WalletWithID :: "('s, 'w, 'x, 'e) MultiWallet \<Rightarrow> nat \<Rightarrow> ('w, 'x) Wallet_scheme option" where
  "WalletWithID mw walletID = wallets mw walletID"

definition HasPrefix :: "string \<Rightarrow> string \<Rightarrow> bool" where
  "HasPrefix s p = (take (length p) s = p)"

definition WalletNameExists :: "('s, 'w, 'x) wallet_db \<Rightarrow> ('s, 'w, 'x, 'e) MultiWallet \<Rightarrow> string \<Rightarrow> bool result" where
  "WalletNameExists D mw walletName =
     (if HasPrefix walletName ''wallet-'' then Inl (New ErrReservedWalletName)
      else case ws_OneName D (mw_db mw) walletName of
        Inr w \<Rightarrow> Inr True
      | Inl KvNotFound \<Rightarrow> Inr False
      | Inl (KvErr m) \<Rightarrow> Inl (New m))"

text \<open>The assignments of \<open>saveNewWallet\<close> to the wallet once it has an id.\<close>

definition complete_wallet :: "string \<Rightarrow> string \<Rightarrow> ('w, 'x) Wallet_scheme \<Rightarrow> ('w, 'x) Wallet_scheme" where
  "complete_wallet walletDataDir driver w =
     w\<lparr>w_Name := (if w_Name w = [] then ''wallet-'' @ itoa (w_ID w) else w_Name w),
       dataDir := walletDataDir, w_DbDriver := driver\<rparr>"

text \<open>The body of the batch transaction of \<open>saveNewWallet\<close>, on the transaction's database \<open>s\<close>.\<close>

definition new_wallet_body ::
  "('s, 'w, 'x) wallet_db \<Rightarrow> 'e fs \<Rightarrow> (('w, 'x) Wallet_scheme \<Rightarrow> 'e \<Rightarrow> ('w, 'x) Wallet_scheme \<times> 'e \<times> err option) \<Rightarrow> string \<Rightarrow> string \<Rightarrow>
   's \<Rightarrow> 'e \<Rightarrow> ('w, 'x) Wallet_scheme \<Rightarrow> ((('w, 'x) Wallet_scheme \<times> 's) result \<times> 'e) option" where
  "new_wallet_body D F setupWallet root driver s e wallet =
     (case ws_Save D s wallet of
        Inl er \<Rightarrow> Some (Inl er, e)
      | Inr (w1, s1) \<Rightarrow>
          let walletDataDir = root @ ''/'' @ itoa (w_ID w1) in
          case fileExists F e walletDataDir of
            Inl er \<Rightarrow> Some (Inl er, e)
          | Inr dirExists \<Rightarrow>
              (case (if dirExists then backupFile F e walletDataDir 1 else Some (Inr ([], e))) of
                 None \<Rightarrow> None
               | Some (Inl er) \<Rightarrow> Some (Inl er, e)
               | Some (Inr (_, e1)) \<Rightarrow>
                   let e2 = MkdirAll F e1 walletDataDir;
                       w2 = complete_wallet walletDataDir driver w1 in
                   case ws_Save D s1 w2 of
                     Inl er \<Rightarrow> Some (Inl er, e2)
                   | Inr (w3, s2) \<Rightarrow>
                       (case setupWallet w3 e2 of
                          (w4, e3, Some er) \<Rightarrow> Some (Inl er, e3)
                        | (w4, e3, None) \<Rightarrow> Some (Inr (w4, s2), e3))))"

text \<open>\<open>batchDbTransaction\<close>: roll back on an error, commit otherwise.\<close>

definition batchDbTransaction ::
  "('s, 'w, 'x) wallet_db \<Rightarrow> 's \<Rightarrow> ('s \<Rightarrow> (('a \<times> 's) result \<times> 'e) option) \<Rightarrow> 'e \<Rightarrow> ('a result \<times> 's \<times> 'e) option" where
  "batchDbTransaction D s dbOp e =
     (case ws_Begin D s of
        Inl er \<Rightarrow> Some (Inl er, s, e)
      | Inr s0 \<Rightarrow>
          (case dbOp s0 of
             None \<Rightarrow> None
           | Some (Inl er, e') \<Rightarrow> Some (Inl er, s, e')
           | Some (Inr (x, s1), e') \<Rightarrow>
               (case ws_Commit D s1 of Inl er \<Rightarrow> Some (Inl er, s, e') | Inr s2 \<Rightarrow> Some (Inr x, s2, e'))))"

definition saveNewWallet ::
  "('s, 'w, 'x) wallet_db \<Rightarrow> 'e fs \<Rightarrow> (('w, 'x) Wallet_scheme \<Rightarrow> 'e \<Rightarrow> ('w, 'x) Wallet_scheme \<times> 'e \<times> err option) \<Rightarrow>
   ('s, 'w, 'x, 'e) MultiWallet \<Rightarrow> ('w, 'x) Wallet_scheme \<Rightarrow> (('w, 'x) Wallet_scheme result \<times> ('s, 'w, 'x, 'e) MultiWallet) option" where
  "saveNewWallet D F setupWallet mw wallet =
     (case WalletNameExists D mw (w_Name wallet) of
        Inl er \<Rightarrow> Some (Inl er, mw)
      | Inr True \<Rightarrow> Some (Inl (New ErrExist), mw)
      | Inr False \<Rightarrow>
          if network_connected mw then Some (Inl (New ErrSyncAlreadyInProgress), mw)
          else case batchDbTransaction D (mw_db mw)
                 (\<lambda>s. new_wallet_body D F setupWallet (rootDir mw) (dbDriver mw) s (mw_fs mw) wallet) (mw_fs mw) of
            None \<Rightarrow> None
          | Some (Inl er, s, e) \<Rightarrow> Some (Inl (translateError er), mw\<lparr>mw_db := s, mw_fs := e\<rparr>)
          | Some (Inr w, s, e) \<Rightarrow>
              Some (Inr w, mw\<lparr>mw_db := s, mw_fs := e, wallets := (wallets mw)(w_ID w \<mapsto> w)\<rparr>))"

text \<open>\<open>RenameWallet\<close>: the wallet in memory is renamed before it is saved.\<close>

definition RenameWallet ::
  "('s, 'w, 'x) wallet_db \<Rightarrow> ('s, 'w, 'x, 'e) MultiWallet \<Rightarrow> nat \<Rightarrow> string \<Rightarrow> ('s, 'w, 'x, 'e) MultiWallet \<times> err option" where
  "RenameWallet D mw walletID newName =
     (if HasPrefix newName ''wallet-'' then (mw, Some (New ErrReservedWalletName))
      else case WalletNameExists D mw newName of
        Inl er \<Rightarrow> (mw, Some (translateError er))
      | Inr True \<Rightarrow> (mw, Some (New ErrExist))
      | Inr False \<Rightarrow>
          (case WalletWithID mw walletID of
             None \<Rightarrow> (mw, Some (New ErrInvalid))
           | Some w \<Rightarrow>
               let w' = w\<lparr>w_Name := newName\<rparr>; mw' = mw\<lparr>wallets := (wallets mw)(walletID \<mapsto> w')\<rparr> in
               (case ws_Save D (mw_db mw) w' of
                  Inl er \<Rightarrow> (mw', Some er)
                | Inr (_, s) \<Rightarrow> (mw'\<lparr>mw_db := s\<rparr>, None))))"

definition VerifySeedForWallet ::
  "('s, 'w, 'x) wallet_db \<Rightarrow> crypt \<Rightarrow> ('s, 'w, 'x, 'e) MultiWallet \<Rightarrow> nat \<Rightarrow> string \<Rightarrow> bytes \<Rightarrow>
   ('s, 'w, 'x, 'e) MultiWallet \<times> bool \<times> err option" where
  "VerifySeedForWallet D C mw walletID seedMnemonic privpass =
     (case WalletWithID mw walletID of
        None \<Rightarrow> (mw, False, Some (New ErrNotExist))
      | Some w \<Rightarrow>
          (case decryptWalletSeed C privpass (EncryptedSeed w) of
             Inl er \<Rightarrow> (mw, False, Some er)
           | Inr decryptedSeed \<Rightarrow>
               if decryptedSeed = seedMnemonic
               then let w' = w\<lparr>EncryptedSeed := None\<rparr>; mw' = mw\<lparr>wallets := (wallets mw)(walletID \<mapsto> w')\<rparr> in
                    (case ws_Save D (mw_db mw) w' of
                       Inl er \<Rightarrow> (mw', True, Some (translateError er))
                     | Inr (_, s) \<Rightarrow> (mw'\<lparr>mw_db := s\<rparr>, True, None))
               else (mw, False, Some (New ErrInvalid))))"

section \<open>Changing the private passphrase\<close>

text \<open>
  \<open>changePrivatePassphrase\<close> of \<open>wallet.go\<close>: the two slices of the caller are overwritten with
  zeros when it returns, whatever the result.
\<close>

definition zeroes :: "bytes \<Rightarrow> bytes" where
  "zeroes p = replicate (length p) 0"

definition changePrivatePassphrase ::
  "('w \<Rightarrow> bytes \<Rightarrow> bytes \<Rightarrow> 'w result) \<Rightarrow> ('w, 'x) Wallet_scheme \<Rightarrow> bytes \<Rightarrow> bytes \<Rightarrow> ('w, 'x) Wallet_scheme result \<times> bytes \<times> bytes" where
  "changePrivatePassphrase change w oldPass newPass =
     (case internal w of
        None \<Rightarrow> (Inl (Panic ''nil wallet''), zeroes oldPass, zeroes newPass)
      | Some i \<Rightarrow>
          (case change i oldPass newPass of
             Inl er \<Rightarrow> (Inl (translateError er), zeroes oldPass, zeroes newPass)
           | Inr i' \<Rightarrow> (Inr (w\<lparr>internal := Some i'\<rparr>), zeroes oldPass, zeroes newPass)))"

definition reencrypt :: "crypt \<Rightarrow> bytes option \<Rightarrow> bytes \<Rightarrow> bytes \<Rightarrow> bytes option result" where
  "reencrypt C encryptedSeed oldPass newPass =
     (case encryptedSeed of
        None \<Rightarrow> Inr None
      | Some s \<Rightarrow>
          bind_res (decryptWalletSeed C oldPass (Some s)) (\<lambda>seed.
          bind_res (encryptWalletSeed C newPass seed) (\<lambda>s'. Inr (Some s'))))"

definition ChangePrivatePassphraseForWallet ::
  "('s, 'w, 'x) wallet_db \<Rightarrow> crypt \<Rightarrow> ('w \<Rightarrow> bytes \<Rightarrow> bytes \<Rightarrow> 'w result) \<Rightarrow> ('s, 'w, 'x, 'e) MultiWallet \<Rightarrow> nat \<Rightarrow>
   bytes \<Rightarrow> bytes \<Rightarrow> int \<Rightarrow> ('s, 'w, 'x, 'e) MultiWallet \<times> err option" where
  "ChangePrivatePassphraseForWallet D C change mw walletID oldPass newPass passType =
     (if passType \<noteq> PassphraseTypePin \<and> passType \<noteq> PassphraseTypePass then (mw, Some (New ErrInvalid))
      else case WalletWithID mw walletID of
        None \<Rightarrow> (mw, Some (New ErrInvalid))
      | Some w \<Rightarrow>
          (case reencrypt C (EncryptedSeed w) oldPass newPass of
             Inl er \<Rightarrow> (mw, Some er)
           | Inr encryptedSeed \<Rightarrow>
               (case changePrivatePassphrase change w oldPass newPass of
                  (Inl er, _, _) \<Rightarrow> (mw, Some (translateError er))
                | (Inr w1, oldPass1, newPass1) \<Rightarrow>
                    let w2 = w1\<lparr>EncryptedSeed := encryptedSeed, PrivatePassphraseType := passType\<rparr>;
                        mw2 = mw\<lparr>wallets := (wallets mw)(walletID \<mapsto> w2)\<rparr> in
                    (case ws_Save D (mw_db mw) w2 of
                       Inr (_, s) \<Rightarrow> (mw2\<lparr>mw_db := s\<rparr>, None)
                     | Inl er \<Rightarrow>
                         (case changePrivatePassphrase change w2 newPass1 oldPass1 of
                            (Inl er2, _, _) \<Rightarrow> (mw2, Some (New ErrSavingWallet))
                          | (Inr w3, _, _) \<Rightarrow>
                              (mw\<lparr>wallets := (wallets mw)(walletID \<mapsto> w3)\<rparr>, Some (New ErrChangingPassphrase)))))))"

section \<open>Lemmas\<close>

lemma backupFile_step:
  assumes "fileExists F e (backup_name f n) = Inr True"
  shows "backupFile F e f n = backupFile F e f (Suc n)"
  by (subst backupFile.simps) (simp add: assms)

lemma backupFile_search:
  assumes "\<And>k. n \<le> k \<Longrightarrow> k < m \<Longrightarrow> fileExists F e (backup_name f k) = Inr True" and "n \<le> m"
  shows "backupFile F e f n = backupFile F e f m"
  using assms(2,1)
proof (induction rule: inc_induct)
  case (step k)
  then show ?case using backupFile_step [of F e f k] by auto
qed simp

lemma VerifyStartupPassphrase_config:
  assumes "kv_db K" and "kv_Set K st userConfigBucketName k v = Inr st' \<or> kv_Delete K st userConfigBucketName k = Inr st'"
  shows "VerifyStartupPassphrase K C st' p = VerifyStartupPassphrase K C st p"
proof -
  have "kv_Get K st' walletsMetadataBucketName walletstartupPassphraseField =
      kv_Get K st walletsMetadataBucketName walletstartupPassphraseField"
    using assms(2) kv_db.get_set [OF assms(1)] kv_db.get_delete [OF assms(1)]
    by (auto simp: walletsMetadataBucketName_def userConfigBucketName_def)
  then show ?thesis by (simp add: VerifyStartupPassphrase_def)
qed

lemma Verify_mw_Save: "kv_db K \<Longrightarrow> VerifyStartupPassphrase K C (mw_SaveUserConfigValue K st k v) p = VerifyStartupPassphrase K C st p"
  using VerifyStartupPassphrase_config [of K st k v] by (auto simp: mw_SaveUserConfigValue_def split: sum.splits)

lemma Verify_mw_Delete: "kv_db K \<Longrightarrow> VerifyStartupPassphrase K C (DeleteUserConfigValueForKey K st k) p = VerifyStartupPassphrase K C st p"
  using VerifyStartupPassphrase_config [of K st k] by (auto simp: DeleteUserConfigValueForKey_def split: sum.splits)

lemma new_wallet_body_Inr:
  assumes "new_wallet_body D F setup root driver s e w = Some (Inr (w', s'), e')"
  obtains w1 s1 w3 e2 where "ws_Save D s w = Inr (w1, s1)"
    and "ws_Save D s1 (complete_wallet (root @ ''/'' @ itoa (w_ID w1)) driver w1) = Inr (w3, s')"
    and "setup w3 e2 = (w', e', None)"
  using assms unfolding new_wallet_body_def Let_def
  by (auto split: sum.splits option.splits prod.splits if_splits)

lemma backup_name_inj: "inj (backup_name f)"
  by (auto simp: inj_on_def backup_name_def dest: itoa_inj)

lemma free_backup_suffix:
  assumes "finite {p. Stat F e p = Inr True}"
  obtains m where "n \<le> m" and "fileExists F e (backup_name f m) \<noteq> Inr True"
    and "\<And>k. n \<le> k \<Longrightarrow> k < m \<Longrightarrow> fileExists F e (backup_name f k) = Inr True"
proof -
  have inf: "infinite (backup_name f ` {n..})"
    using backup_name_inj inj_on_subset [of "backup_name f" UNIV "{n..}"] by (auto dest: finite_imageD simp: infinite_Ici)
  have "\<exists>k. n \<le> k \<and> fileExists F e (backup_name f k) \<noteq> Inr True"
  proof (rule ccontr)
    assume "\<not> (\<exists>k. n \<le> k \<and> fileExists F e (backup_name f k) \<noteq> Inr True)"
    then have "backup_name f ` {n..} \<subseteq> {p. Stat F e p = Inr True}" by (auto simp: fileExists_def)
    with assms inf show False using finite_subset by blast
  qed
  then obtain k where "n \<le> k \<and> fileExists F e (backup_name f k) \<noteq> Inr True" ..
  from LeastI [of "\<lambda>k. n \<le> k \<and> fileExists F e (backup_name f k) \<noteq> Inr True", OF this]
    not_less_Least [of _ "\<lambda>k. n \<le> k \<and> fileExists F e (backup_name f k) \<noteq> Inr True"]
  show thesis using that by blast
qed

text \<open>What a sealed seed promises: opening with the key it was sealed with gives it back.\<close>

locale secret_box =
  fixes C :: crypt
  assumes open_seal: "EasyOpen C (EasySeal C seed key) key = Inr seed"
begin

lemma decrypt_encrypt: "encryptWalletSeed C p seed = Inr s \<Longrightarrow> decryptWalletSeed C p (Some s) = Inr seed"
  by (auto simp: encryptWalletSeed_def decryptWalletSeed_def open_seal split: sum.splits)

lemma reencrypt_Inr:
  assumes "reencrypt C es old new = Inr es'"
  shows "case es of None \<Rightarrow> es' = None
    | Some s \<Rightarrow> \<exists>seed s'. es' = Some s' \<and> decryptWalletSeed C old es = Inr seed \<and> decryptWalletSeed C new es' = Inr seed"
  using assms decrypt_encrypt by (auto simp: reencrypt_def bind_res_def split: option.splits sum.splits)

end

section \<open>Properties\<close>

text \<open>
  The startup passphrase.  A successful change was authorised by the old passphrase, and
  afterwards exactly the passphrases that match the new hash open the application; with an empty
  new passphrase the protection is removed and only the empty passphrase is accepted; a failed
  change leaves the store as it was.
\<close>

theorem ChangeStartupPassphrase_sets:
  assumes "kv_db K" and "ChangeStartupPassphrase K C st old new ty = (st', r)"
  shows "(r = None \<longrightarrow> VerifyStartupPassphrase K C st old = None \<and>
      (\<forall>p. VerifyStartupPassphrase K C st' p = None \<longleftrightarrow>
        (if new = [] then p = [] else CompareHashAndPassword C (projr (GenerateFromPassword C new)) p))) \<and>
    (r \<noteq> None \<longrightarrow> st' = st)"
proof (cases "new = []")
  case True
  show ?thesis
  proof (intro conjI impI)
    assume "r = None"
    with assms(2) True obtain st1 where v: "VerifyStartupPassphrase K C st old = None"
      and d: "kv_Delete K st walletsMetadataBucketName walletstartupPassphraseField = Inr st1"
      and st': "st' = DeleteUserConfigValueForKey K (mw_SaveUserConfigValue K st1 IsStartupSecuritySetConfigKey (CBool False)) StartupSecurityTypeConfigKey"
      by (auto simp: ChangeStartupPassphrase_def RemoveStartupPassphrase_def split: option.splits sum.splits)
    have "VerifyStartupPassphrase K C st1 p = None \<longleftrightarrow> p = []" for p
      using kv_db.get_delete [OF assms(1) d] by (simp add: VerifyStartupPassphrase_def)
    with v st' show "VerifyStartupPassphrase K C st old = None"
      "\<forall>p. VerifyStartupPassphrase K C st' p = None \<longleftrightarrow>
        (if new = [] then p = [] else CompareHashAndPassword C (projr (GenerateFromPassword C new)) p)"
      using True by (simp_all add: Verify_mw_Save [OF assms(1)] Verify_mw_Delete [OF assms(1)])
  qed (use assms(2) True in \<open>auto simp: ChangeStartupPassphrase_def RemoveStartupPassphrase_def split: option.splits sum.splits\<close>)
next
  case False
  show ?thesis
  proof (intro conjI impI)
    assume "r = None"
    with assms(2) False obtain h st1 where v: "VerifyStartupPassphrase K C st old = None" and h: "GenerateFromPassword C new = Inr h"
      and s: "kv_Set K st walletsMetadataBucketName walletstartupPassphraseField (CBytes h) = Inr st1"
      and st': "st' = mw_SaveUserConfigValue K (mw_SaveUserConfigValue K st1 IsStartupSecuritySetConfigKey (CBool True))
        StartupSecurityTypeConfigKey (CInt ty)"
      by (auto simp: ChangeStartupPassphrase_def split: option.splits sum.splits)
    have "VerifyStartupPassphrase K C st1 p = None \<longleftrightarrow> CompareHashAndPassword C h p" for p
      using kv_db.get_set [OF assms(1) s] by (simp add: VerifyStartupPassphrase_def)
    with v st' h show "VerifyStartupPassphrase K C st old = None"
      "\<forall>p. VerifyStartupPassphrase K C st' p = None \<longleftrightarrow>
        (if new = [] then p = [] else CompareHashAndPassword C (projr (GenerateFromPassword C new)) p)"
      using False by (simp_all add: Verify_mw_Save [OF assms(1)])
  qed (use assms(2) False in \<open>auto simp: ChangeStartupPassphrase_def split: option.splits sum.splits\<close>)
qed

text \<open>Reading hexadecimal text back.\<close>

definition hex_value :: "char \<Rightarrow> nat" where
  "hex_value c = length (takeWhile ((\<noteq>) c) ''0123456789abcdef'')"

fun unhex :: "string \<Rightarrow> bytes" where
  "unhex (a # b # t) = of_nat (16 * hex_value a + hex_value b) # unhex t"
| "unhex t = []"

lemma hex_value_digit: "n < 16 \<Longrightarrow> hex_value (hex_digit n) = n"
proof -
  have "list_all (\<lambda>n. hex_value (hex_digit n) = n) [0..<16]" by code_simp
  then show "n < 16 \<Longrightarrow> hex_value (hex_digit n) = n" by (simp add: list_all_iff)
qed

lemma unhex_EncodeHex: "unhex (EncodeHex bs) = bs"
proof (induction bs)
  case (Cons b bs)
  have "unat b < 256" using unsigned_less [of b] by simp
  then have "unat b div 16 < 16" "unat b mod 16 < 16" by auto
  moreover have "of_nat (16 * (unat b div 16) + unat b mod 16) = b" by (simp only: mult_div_mod_eq word_of_nat_eq_iff word_unat_eq_iff unat_of_nat) (use \<open>unat b < 256\<close> in simp)
  ultimately show ?case using Cons by (simp add: EncodeHex_def hex_value_digit)
qed (simp add: EncodeHex_def)

definition ex_crypt :: crypt where
  "ex_crypt = \<lparr>GenerateFromPassword = (\<lambda>p. Inr (1 # p)), CompareHashAndPassword = (\<lambda>h p. h = 1 # p), scryptKey = (\<lambda>p salt N r q len. Inr p),
     naclLoad = (\<lambda>t. Inr (unhex t)), EasySeal = (\<lambda>m k. k @ map (\<lambda>c. of_nat (of_char c)) m),
     EasyOpen = (\<lambda>b k. if take (length k) b = k then Inr (map (\<lambda>x. char_of (unat x)) (drop (length k) b)) else Inl (New ''open''))\<rparr>"

lemma ex_box:
  "EasySeal ex_crypt m k = k @ map (\<lambda>c. of_nat (of_char c)) m"
  "EasyOpen ex_crypt b k = (if take (length k) b = k then Inr (map (\<lambda>x. char_of (unat x)) (drop (length k) b)) else Inl (New ''open''))"
  by (simp_all add: ex_crypt_def)

lemma ex_key [simp]: "naclLoadFromPass ex_crypt pass = Inr pass"
  by (simp add: naclLoadFromPass_def ex_crypt_def unhex_EncodeHex)

theorem ChangeStartupPassphrase_sets_witness:
  "\<exists>st'. ChangeStartupPassphrase ref_kv ex_crypt [] [] [5] 1 = (st', None) \<and>
     VerifyStartupPassphrase ref_kv ex_crypt st' [5] = None \<and> VerifyStartupPassphrase ref_kv ex_crypt st' [6] \<noteq> None"
proof -
  obtain st' where c: "ChangeStartupPassphrase ref_kv ex_crypt [] [] [5] 1 = (st', None)"
    by (simp add: ChangeStartupPassphrase_def VerifyStartupPassphrase_def ref_kv_def ex_crypt_def)
  have h: "CompareHashAndPassword ex_crypt (projr (GenerateFromPassword ex_crypt [5])) p \<longleftrightarrow> p = [5]" for p
    by (auto simp: ex_crypt_def)
  have "VerifyStartupPassphrase ref_kv ex_crypt st' p = None \<longleftrightarrow> p = [5]" for p
    using ChangeStartupPassphrase_sets [OF ref_config.kv_db_axioms c] h by simp
  with c show ?thesis by (simp del: not_None_eq)
qed

text \<open>
  \<open>backupFile\<close> returns on every file system with finitely many files: it takes the first free
  suffix from the given one on, skipping exactly the suffixes in use, and moves the file there; so
  it never overwrites an earlier backup.
\<close>

theorem backupFile_takes_first_free:
  assumes "\<forall>p. \<exists>b. Stat F e p = Inr b" and "finite {p. Stat F e p = Inr True}"
  shows "\<exists>m\<ge>n. (\<forall>k. n \<le> k \<and> k < m \<longrightarrow> fileExists F e (backup_name f k) = Inr True) \<and>
     fileExists F e (backup_name f m) = Inr False \<and>
     backupFile F e f n = Some (case moveFile F e f (backup_name f m) of Inl er \<Rightarrow> Inl er | Inr e' \<Rightarrow> Inr (backup_name f m, e'))"
proof -
  obtain m where m: "n \<le> m" "fileExists F e (backup_name f m) \<noteq> Inr True"
    "\<And>k. n \<le> k \<Longrightarrow> k < m \<Longrightarrow> fileExists F e (backup_name f k) = Inr True"
    using free_backup_suffix [OF assms(2), of n f] by blast
  from assms(1) obtain b where "Stat F e (backup_name f m) = Inr b" by blast
  with m(2) have free: "fileExists F e (backup_name f m) = Inr False" by (simp add: fileExists_def)
  have "backupFile F e f n = backupFile F e f m" by (rule backupFile_search) (use m in auto)
  also have "\<dots> = Some (case moveFile F e f (backup_name f m) of Inl er \<Rightarrow> Inl er | Inr e' \<Rightarrow> Inr (backup_name f m, e'))"
    by (subst backupFile.simps) (simp add: free split: sum.splits)
  finally show ?thesis using m(1,3) free by (intro exI [of _ m] conjI) auto
qed

definition ex_fs :: "string list fs" where
  "ex_fs = \<lparr>Stat = (\<lambda>e p. Inr (p \<in> set e)), Rename = (\<lambda>e p q. Inr (q # removeAll p e)), MkdirAll = (\<lambda>e p. p # e), RemoveAll = (\<lambda>e p. Inr (removeAll p e))\<rparr>"

theorem backupFile_takes_first_free_witness:
  "\<exists>m\<ge>1. fileExists ex_fs [''a'', ''a.bak1''] (backup_name ''a'' m) = Inr False \<and>
     backupFile ex_fs [''a'', ''a.bak1''] ''a'' 1 = Some (Inr (backup_name ''a'' m, [backup_name ''a'' m, ''a.bak1'']))"
proof -
  define e where "e = [''a'', ''a.bak1'']"
  have fin: "finite {p. Stat ex_fs e p = Inr True}" and total: "\<forall>p. \<exists>b. Stat ex_fs e p = Inr b" by (simp_all add: ex_fs_def)
  have mv: "moveFile ex_fs e ''a'' q = Inr [q, ''a.bak1'']" for q
    by (simp add: moveFile_def fileExists_def ex_fs_def e_def)
  obtain m where "m \<ge> 1" "fileExists ex_fs e (backup_name ''a'' m) = Inr False"
    and "backupFile ex_fs e ''a'' 1 = Some (Inr (backup_name ''a'' m, [backup_name ''a'' m, ''a.bak1'']))"
    using backupFile_takes_first_free [OF total fin, of 1 "''a''"] unfolding mv by auto
  then show ?thesis unfolding e_def by blast
qed

lemma saveNewWallet_spec:
  assumes "saveNewWallet D F setup mw w = Some (r, mw')"
  shows "case r of
     Inl er \<Rightarrow> mw_db mw' = mw_db mw \<and> wallets mw' = wallets mw
   | Inr w' \<Rightarrow> \<not> network_connected mw \<and> WalletNameExists D mw (w_Name w) = Inr False \<and> wallets mw' = (wallets mw)(w_ID w' \<mapsto> w') \<and>
       (\<exists>s0 w1 s1 w3 s2 e2. ws_Begin D (mw_db mw) = Inr s0 \<and> ws_Save D s0 w = Inr (w1, s1) \<and>
          ws_Save D s1 (complete_wallet (rootDir mw @ ''/'' @ itoa (w_ID w1)) (dbDriver mw) w1) = Inr (w3, s2) \<and>
          setup w3 e2 = (w', mw_fs mw', None) \<and> ws_Commit D s2 = Inr (mw_db mw'))"
proof -
  have fresh: "network_connected mw = False \<and> WalletNameExists D mw (w_Name w) = Inr False" if "r = Inr w'" for w'
    using assms that by (auto simp: saveNewWallet_def split: sum.splits bool.splits if_splits)
  show ?thesis
  proof (cases r)
    case (Inl er)
    with assms show ?thesis
      by (auto simp: saveNewWallet_def batchDbTransaction_def split: sum.splits bool.splits if_splits option.splits prod.splits)
  next
    case (Inr w')
    with assms obtain s e where b: "batchDbTransaction D (mw_db mw)
        (\<lambda>s. new_wallet_body D F setup (rootDir mw) (dbDriver mw) s (mw_fs mw) w) (mw_fs mw) = Some (Inr w', s, e)"
      and mw': "mw' = mw\<lparr>mw_db := s, mw_fs := e, wallets := (wallets mw)(w_ID w' \<mapsto> w')\<rparr>"
      by (auto simp: saveNewWallet_def split: sum.splits bool.splits if_splits option.splits prod.splits)
    from b obtain s0 s2 where "ws_Begin D (mw_db mw) = Inr s0" "ws_Commit D s2 = Inr s"
      and body: "new_wallet_body D F setup (rootDir mw) (dbDriver mw) s0 (mw_fs mw) w = Some (Inr (w', s2), e)"
      by (auto simp: batchDbTransaction_def split: sum.splits option.splits prod.splits)
    with new_wallet_body_Inr [OF body] mw' fresh [OF Inr] Inr show ?thesis by simp metis
  qed
qed

text \<open>
  C8.  \<open>saveNewWallet\<close> is all or nothing.  On an error the wallets database and the registry of
  loaded wallets are what they were.  On success the name was neither reserved nor in use, the
  wallet was saved twice in one committed transaction, the second time with its generated id, data
  directory and driver and with a name, and it is registered under its id, every other id untouched.
\<close>

theorem saveNewWallet_all_or_nothing:
  assumes "saveNewWallet D F setup mw w = Some (r, mw')"
  shows "case r of
     Inl er \<Rightarrow> mw_db mw' = mw_db mw \<and> wallets mw' = wallets mw
   | Inr w' \<Rightarrow> \<not> network_connected mw \<and> WalletNameExists D mw (w_Name w) = Inr False \<and> wallets mw' = (wallets mw)(w_ID w' \<mapsto> w') \<and>
       (\<exists>s0 w1 s1 w3 s2 e2. ws_Begin D (mw_db mw) = Inr s0 \<and> ws_Save D s0 w = Inr (w1, s1) \<and>
          ws_Save D s1 (complete_wallet (rootDir mw @ ''/'' @ itoa (w_ID w1)) (dbDriver mw) w1) = Inr (w3, s2) \<and>
          setup w3 e2 = (w', mw_fs mw', None) \<and> ws_Commit D s2 = Inr (mw_db mw'))"
  by (rule saveNewWallet_spec [OF assms])

text \<open>The wallets database of the examples: a list, a wallet without id gets the next one.\<close>

definition ex_wdb :: "(unit Wallet list, unit, unit) wallet_db" where
  "ex_wdb = \<lparr>ws_Save = (\<lambda>s w. let w' = (if w_ID w = 0 then w\<lparr>w_ID := Suc (length s)\<rparr> else w) in
       Inr (w', w' # filter (\<lambda>v. w_ID v \<noteq> w_ID w') s)),
     ws_DeleteStruct = (\<lambda>s w. Inr (filter (\<lambda>v. w_ID v \<noteq> w_ID w) s)),
     ws_OneName = (\<lambda>s n. case filter (\<lambda>v. w_Name v = n) s of [] \<Rightarrow> Inl KvNotFound | w # _ \<Rightarrow> Inr w),
     ws_Begin = Inr, ws_Commit = Inr\<rparr>"

definition ex_wallet :: "string \<Rightarrow> unit Wallet" where
  "ex_wallet n = \<lparr>w_ID = 0, w_Name = n, w_DbDriver = [], EncryptedSeed = None, IsRestored = False, HasDiscoveredAccounts = True,
     PrivatePassphraseType = 0, dataDir = [], internal = None\<rparr>"

definition ex_mw :: "(unit Wallet list, unit, unit, string list) MultiWallet" where
  "ex_mw = \<lparr>mw_db = [], wallets = Map.empty, mw_fs = [], rootDir = ''r'', dbDriver = ''bdb'', mw_chainParams = [], syncing_now = False, synced_now = False,
     mw_awaiting = True, mw_cancelFuncs = [], mw_cancelled = []\<rparr>"

theorem saveNewWallet_all_or_nothing_witness:
  "\<exists>w' mw'. saveNewWallet ex_wdb ex_fs (\<lambda>w e. (w\<lparr>internal := Some ()\<rparr>, e, None)) ex_mw (ex_wallet ''savings'') = Some (Inr w', mw') \<and>
     w_ID w' = 1 \<and> internal w' = Some () \<and> wallets mw' = [1 \<mapsto> w']"
proof -
  obtain w' mw' where r: "saveNewWallet ex_wdb ex_fs (\<lambda>w e. (w\<lparr>internal := Some ()\<rparr>, e, None)) ex_mw (ex_wallet ''savings'') = Some (Inr w', mw')"
      and w': "w_ID w' = 1" "internal w' = Some ()"
    by (simp add: saveNewWallet_def network_connected_def WalletNameExists_def HasPrefix_def ex_wdb_def ex_mw_def ex_wallet_def batchDbTransaction_def
        new_wallet_body_def fileExists_def ex_fs_def complete_wallet_def Let_def)
  have "wallets mw' = [1 \<mapsto> w']"
    using saveNewWallet_all_or_nothing [OF r] w' by (simp add: ex_mw_def)
  with r w' show ?thesis by blast
qed

interpretation ref_box: secret_box ex_crypt
proof
  have "char_of (unat (of_nat (of_char c) :: 8 word)) = c" for c :: char
    using nat_of_char_less_256 [of c] by (simp add: unat_of_nat)
  then show "EasyOpen ex_crypt (EasySeal ex_crypt seed key) key = Inr seed" for seed key
    by (simp add: ex_crypt_def comp_def)
qed

lemmas change_private_splits = sum.splits option.splits prod.splits if_splits

text \<open>
  C31.  A successful \<open>ChangePrivatePassphraseForWallet\<close>: the opened wallet changed its passphrase,
  the seed that the old passphrase opened is the one the new passphrase opens (a wallet whose seed
  was already verified still has none), the new passphrase type is recorded, the database holds
  this wallet and no other wallet changed.
\<close>

theorem ChangePrivatePassphrase_reencrypts:
  assumes "secret_box C" and "WalletWithID mw walletID = Some w"
    and "ChangePrivatePassphraseForWallet D C change mw walletID old new ty = (mw', None)"
  shows "\<exists>w' i i' x. WalletWithID mw' walletID = Some w' \<and> (\<forall>j. j \<noteq> walletID \<longrightarrow> WalletWithID mw' j = WalletWithID mw j) \<and>
     internal w = Some i \<and> change i old new = Inr i' \<and> internal w' = Some i' \<and> PrivatePassphraseType w' = ty \<and>
     (case EncryptedSeed w of None \<Rightarrow> EncryptedSeed w' = None
      | Some s \<Rightarrow> \<exists>seed. decryptWalletSeed C old (Some s) = Inr seed \<and> decryptWalletSeed C new (EncryptedSeed w') = Inr seed) \<and>
     ws_Save D (mw_db mw) w' = Inr (x, mw_db mw')"
proof -
  from assms(2,3) obtain es where es: "reencrypt C (EncryptedSeed w) old new = Inr es"
    by (auto simp: ChangePrivatePassphraseForWallet_def split: sum.splits if_splits)
  with assms(2,3) obtain i i' x s where i: "internal w = Some i" "change i old new = Inr i'"
    and save: "ws_Save D (mw_db mw) (w\<lparr>internal := Some i', EncryptedSeed := es, PrivatePassphraseType := ty\<rparr>) = Inr (x, s)"
    and mw': "mw' = mw\<lparr>wallets := (wallets mw)(walletID \<mapsto> w\<lparr>internal := Some i', EncryptedSeed := es, PrivatePassphraseType := ty\<rparr>), mw_db := s\<rparr>"
    by (auto simp: ChangePrivatePassphraseForWallet_def changePrivatePassphrase_def Let_def split: change_private_splits)
  define w' where "w' = w\<lparr>internal := Some i', EncryptedSeed := es, PrivatePassphraseType := ty\<rparr>"
  have "case EncryptedSeed w of None \<Rightarrow> EncryptedSeed w' = None
      | Some s \<Rightarrow> \<exists>seed. decryptWalletSeed C old (Some s) = Inr seed \<and> decryptWalletSeed C new (EncryptedSeed w') = Inr seed"
    using secret_box.reencrypt_Inr [OF assms(1) es] by (auto simp: w'_def split: option.splits)
  moreover have "WalletWithID mw' walletID = Some w'" "\<forall>j. j \<noteq> walletID \<longrightarrow> WalletWithID mw' j = WalletWithID mw j"
    "internal w' = Some i'" "PrivatePassphraseType w' = ty" "ws_Save D (mw_db mw) w' = Inr (x, mw_db mw')"
    using mw' save by (simp_all add: w'_def WalletWithID_def)
  ultimately show ?thesis using i by blast
qed

definition ex_change :: "bytes \<Rightarrow> bytes \<Rightarrow> bytes \<Rightarrow> bytes result" where
  "ex_change current old new = (if old = current then Inr new else Inl (E Passphrase ''invalid passphrase''))"

text \<open>A database that saves wallets or, read-only, fails.\<close>

definition ex_save :: "bool \<Rightarrow> (nat, bytes, unit) wallet_db" where
  "ex_save ok = \<lparr>ws_Save = (\<lambda>s w. if ok then Inr (w, Suc s) else Inl (New ''disk'')), ws_DeleteStruct = (\<lambda>s w. Inr s),
     ws_OneName = (\<lambda>s n. Inl KvNotFound), ws_Begin = Inr, ws_Commit = Inr\<rparr>"

definition ex_mw1 :: "(nat, bytes, unit, unit) MultiWallet" where
  "ex_mw1 = \<lparr>mw_db = 0, wallets = [1 \<mapsto> \<lparr>w_ID = 1, w_Name = ''a'', w_DbDriver = [], EncryptedSeed = Some [7, 65], IsRestored = False,
     HasDiscoveredAccounts = True, PrivatePassphraseType = 0, dataDir = [], internal = Some [7]\<rparr>],
     mw_fs = (), rootDir = [], dbDriver = [], mw_chainParams = [], syncing_now = False, synced_now = False,
     mw_awaiting = True, mw_cancelFuncs = [], mw_cancelled = []\<rparr>"

theorem ChangePrivatePassphrase_reencrypts_witness:
  "\<exists>mw' w'. ChangePrivatePassphraseForWallet (ex_save True) ex_crypt ex_change ex_mw1 1 [7] [8] 1 = (mw', None) \<and>
     WalletWithID mw' 1 = Some w' \<and> internal w' = Some [8] \<and> decryptWalletSeed ex_crypt [8] (EncryptedSeed w') = Inr ''A''"
proof -
  let ?w = "the (wallets ex_mw1 1)"
  have w: "WalletWithID ex_mw1 1 = Some ?w" by (simp add: ex_mw1_def WalletWithID_def)
  obtain mw' where c: "ChangePrivatePassphraseForWallet (ex_save True) ex_crypt ex_change ex_mw1 1 [7] [8] 1 = (mw', None)"
    by (simp add: ChangePrivatePassphraseForWallet_def ex_mw1_def WalletWithID_def reencrypt_def decryptWalletSeed_def
        encryptWalletSeed_def ex_box bind_res_def changePrivatePassphrase_def ex_change_def ex_save_def Let_def
        PassphraseTypePin_def PassphraseTypePass_def)
  have old: "decryptWalletSeed ex_crypt [7] (Some [7, 65]) = Inr ''A''"
    by (simp add: decryptWalletSeed_def ex_box char_of_def bit_0)
  from ChangePrivatePassphrase_reencrypts [OF ref_box.secret_box_axioms w c] c old show ?thesis
    by (auto simp: ex_mw1_def ex_change_def)
qed

text \<open>
  The undo of a passphrase change does not undo.  When the wallet cannot be saved,
  \<open>changePrivatePassphrase\<close> is called again with the two slices swapped, but its first call has
  overwritten both with zeros: an opened wallet that rejects a wrong old passphrase stays on the new
  passphrase, and the caller gets the error for a failed undo.  In memory the seed is encrypted with
  the new passphrase, in the database with the old one.
\<close>

theorem failed_save_keeps_new_passphrase:
  assumes "WalletWithID mw walletID = Some w" and "internal w = Some i" and "change i old new = Inr i'"
    and "\<forall>p q. p \<noteq> new \<longrightarrow> (\<exists>er. change i' p q = Inl er)"
    and "\<exists>b \<in> set new. b \<noteq> 0"
    and "reencrypt C (EncryptedSeed w) old new = Inr es"
    and "ty = PassphraseTypePin \<or> ty = PassphraseTypePass"
    and "\<forall>s v. \<exists>er. ws_Save D s v = Inl er"
  shows "\<exists>mw' w'. ChangePrivatePassphraseForWallet D C change mw walletID old new ty = (mw', Some (New ErrSavingWallet)) \<and>
     WalletWithID mw' walletID = Some w' \<and> internal w' = Some i' \<and> EncryptedSeed w' = es \<and> mw_db mw' = mw_db mw"
proof -
  have z: "zeroes new \<noteq> new" using assms(5) by (metis zeroes_def in_set_replicate)
  define w2 where "w2 = w\<lparr>internal := Some i', EncryptedSeed := es, PrivatePassphraseType := ty\<rparr>"
  obtain e1 e2 where "change i' (zeroes new) (zeroes old) = Inl e1" "ws_Save D (mw_db mw) w2 = Inl e2" using assms(4,8) z by blast
  then have "ChangePrivatePassphraseForWallet D C change mw walletID old new ty =
      (mw\<lparr>wallets := (wallets mw)(walletID \<mapsto> w2)\<rparr>, Some (New ErrSavingWallet))"
    using assms(1,2,3,6,7) by (auto simp: ChangePrivatePassphraseForWallet_def changePrivatePassphrase_def Let_def w2_def)
  then show ?thesis by (simp add: WalletWithID_def w2_def)
qed

theorem failed_save_keeps_new_passphrase_witness:
  "\<exists>mw' w'. ChangePrivatePassphraseForWallet (ex_save False) ex_crypt ex_change ex_mw1 1 [7] [8] 1 = (mw', Some (New ErrSavingWallet)) \<and>
     WalletWithID mw' 1 = Some w' \<and> internal w' = Some [8]"
proof -
  let ?w = "the (wallets ex_mw1 1)"
  have "\<exists>mw' w'. ChangePrivatePassphraseForWallet (ex_save False) ex_crypt ex_change ex_mw1 1 [7] [8] 1 = (mw', Some (New ErrSavingWallet)) \<and>
     WalletWithID mw' 1 = Some w' \<and> internal w' = Some [8] \<and> EncryptedSeed w' = Some [8, 65] \<and> mw_db mw' = mw_db ex_mw1"
  proof (rule failed_save_keeps_new_passphrase [where w = ?w and i = "[7]"])
    show "reencrypt ex_crypt (EncryptedSeed ?w) [7] [8] = Inr (Some [8, 65])"
      by (simp add: ex_mw1_def reencrypt_def decryptWalletSeed_def encryptWalletSeed_def ex_box bind_res_def of_char_def bit_0 char_of_def)
  qed (auto simp: ex_mw1_def WalletWithID_def ex_change_def ex_save_def PassphraseTypePass_def PassphraseTypePin_def)
  then show ?thesis by blast
qed

end
