(* ===== verification/Float64.thy ===== *)
theory Float64
  imports Complex_Main "HOL-Library.Log_Nat" Prelude
begin

text \<open>
  Go's \<open>float64\<close>, which the progress reports compute with: IEEE 754 binary64 numbers, each operation
  rounded to the nearest representable number with ties to even, with infinities, a NaN and a
  negative zero.  A finite number is its rational value.  A conversion to an integer type of a value
  that the type cannot hold is implementation-specific in Go, so it is a parameter.  Fused
  multiplication and addition, which Go allows on some processors, is not modelled.
\<close>

datatype float64 = NaN | Inf bool | NegZero | Fin rat

section \<open>Rounding\<close>

text \<open>The exponent of the leading binary digit of a positive number.\<close>

definition elog :: "rat \<Rightarrow> int" where
  "elog x = (case quotient_of x of (a, b) \<Rightarrow>
     let k = bitlen a - bitlen b in if 2 powi k \<le> x then k else k - 1)"

definition half_even :: "rat \<Rightarrow> int" where
  "half_even q = (let r = q - of_int \<lfloor>q\<rfloor> in
     if r < 1 / 2 \<or> r = 1 / 2 \<and> even \<lfloor>q\<rfloor> then \<lfloor>q\<rfloor> else \<lfloor>q\<rfloor> + 1)"

text \<open>The exponent of the last of 53 digits, or of the last digit of a subnormal number.\<close>

definition ulp_exp :: "rat \<Rightarrow> int" where
  "ulp_exp x = max (elog x - 52) (-1074)"

definition fl_mag :: "rat \<Rightarrow> rat" where
  "fl_mag x = of_int (half_even (x / 2 powi ulp_exp x)) * 2 powi ulp_exp x"

definition fl_val :: "rat \<Rightarrow> rat" where
  "fl_val x = (if x = 0 then 0 else sgn x * fl_mag \<bar>x\<bar>)"

definition fl :: "rat \<Rightarrow> float64" where
  "fl x = (let y = fl_val x in
     if \<bar>y\<bar> \<ge> 2 powi 1024 then Inf (y < 0) else if y = 0 \<and> x < 0 then NegZero else Fin y)"

section \<open>Operations\<close>

fun fval :: "float64 \<Rightarrow> rat" where
  "fval (Fin x) = x"
| "fval _ = 0"

fun fneg :: "float64 \<Rightarrow> bool" where
  "fneg NaN = False"
| "fneg (Inf n) = n"
| "fneg NegZero = True"
| "fneg (Fin x) = (x < 0)"

definition fzero :: "bool \<Rightarrow> float64" where
  "fzero n = (if n then NegZero else Fin 0)"

fun f_neg :: "float64 \<Rightarrow> float64" where
  "f_neg NaN = NaN"
| "f_neg (Inf n) = Inf (\<not> n)"
| "f_neg NegZero = Fin 0"
| "f_neg (Fin x) = (if x = 0 then NegZero else Fin (- x))"

fun f_add :: "float64 \<Rightarrow> float64 \<Rightarrow> float64" where
  "f_add NaN y = NaN"
| "f_add x NaN = NaN"
| "f_add (Inf m) (Inf n) = (if m = n then Inf m else NaN)"
| "f_add (Inf m) y = Inf m"
| "f_add x (Inf n) = Inf n"
| "f_add NegZero NegZero = NegZero"
| "f_add x y = fl (fval x + fval y)"

definition f_sub :: "float64 \<Rightarrow> float64 \<Rightarrow> float64" where
  "f_sub x y = f_add x (f_neg y)"

definition f_mul :: "float64 \<Rightarrow> float64 \<Rightarrow> float64" where
  "f_mul x y = (let n = (fneg x \<noteq> fneg y) in
     case (x, y) of
       (NaN, _) \<Rightarrow> NaN
     | (_, NaN) \<Rightarrow> NaN
     | (Inf a, Inf b) \<Rightarrow> Inf n
     | (Inf a, _) \<Rightarrow> if fval y = 0 then NaN else Inf n
     | (_, Inf b) \<Rightarrow> if fval x = 0 then NaN else Inf n
     | _ \<Rightarrow> if fval x = 0 \<or> fval y = 0 then fzero n else fl (fval x * fval y))"

definition f_div :: "float64 \<Rightarrow> float64 \<Rightarrow> float64" where
  "f_div x y = (let n = (fneg x \<noteq> fneg y) in
     case (x, y) of
       (NaN, _) \<Rightarrow> NaN
     | (_, NaN) \<Rightarrow> NaN
     | (Inf a, Inf b) \<Rightarrow> NaN
     | (Inf a, _) \<Rightarrow> Inf n
     | (_, Inf b) \<Rightarrow> fzero n
     | _ \<Rightarrow> if fval y = 0 then (if fval x = 0 then NaN else Inf n)
           else if fval x = 0 then fzero n else fl (fval x / fval y))"

text \<open>Comparisons with NaN are false.\<close>

fun f_lt :: "float64 \<Rightarrow> float64 \<Rightarrow> bool" where
  "f_lt NaN y = False"
| "f_lt x NaN = False"
| "f_lt (Inf m) (Inf n) = (m \<and> \<not> n)"
| "f_lt (Inf m) y = m"
| "f_lt x (Inf n) = (\<not> n)"
| "f_lt x y = (fval x < fval y)"

text \<open>\<open>math.Round\<close> rounds half away from zero, \<open>math.Ceil\<close> up; both keep the sign of a zero.\<close>

fun f_Round :: "float64 \<Rightarrow> float64" where
  "f_Round (Fin x) = (if x < 0 then (if x > - 1 / 2 then NegZero else Fin (- of_int \<lfloor>1 / 2 - x\<rfloor>)) else Fin (of_int \<lfloor>x + 1 / 2\<rfloor>))"
| "f_Round x = x"

fun f_Ceil :: "float64 \<Rightarrow> float64" where
  "f_Ceil (Fin x) = (if x < 0 \<and> x > -1 then NegZero else Fin (of_int \<lceil>x\<rceil>))"
| "f_Ceil x = x"

definition f_int :: "int \<Rightarrow> float64" where
  "f_int n = fl (of_int n)"

text \<open>\<open>int32(x)\<close> and \<open>int64(x)\<close> truncate; \<open>cvt\<close> is what the processor does with the other values.\<close>

definition trunc :: "rat \<Rightarrow> int" where
  "trunc x = (if x < 0 then - \<lfloor>- x\<rfloor> else \<lfloor>x\<rfloor>)"

record go_float =
  cvt32 :: "float64 \<Rightarrow> int"
  cvt64 :: "float64 \<Rightarrow> int"

fun fin_trunc :: "float64 \<Rightarrow> int option" where
  "fin_trunc (Fin x) = Some (trunc x)"
| "fin_trunc NegZero = Some 0"
| "fin_trunc _ = None"

definition int32_f :: "go_float \<Rightarrow> float64 \<Rightarrow> int" where
  "int32_f G x = (case fin_trunc x of Some n \<Rightarrow> if is_int32 n then n else int32_of (cvt32 G x) | None \<Rightarrow> int32_of (cvt32 G x))"

definition int64_f :: "go_float \<Rightarrow> float64 \<Rightarrow> int" where
  "int64_f G x = (case fin_trunc x of Some n \<Rightarrow> if is_int64 n then n else int64_of (cvt64 G x) | None \<Rightarrow> int64_of (cvt64 G x))"

section \<open>Facts about rounding\<close>

lemma powi2_less [simp]: "(2 :: rat) powi m < 2 powi n \<longleftrightarrow> m < n"
proof
  assume "(2 :: rat) powi m < 2 powi n"
  then show "m < n" using power_int_increasing [of n m "2 :: rat"] by (meson leD leI one_le_numeral)
qed (simp add: power_int_strict_increasing)

lemma powi2_le [simp]: "(2 :: rat) powi m \<le> 2 powi n \<longleftrightarrow> m \<le> n"
  by (metis linorder_not_less powi2_less)

lemma elog_bounds:
  assumes "0 < x"
  shows "2 powi elog x \<le> x \<and> x < 2 powi (elog x + 1)"
proof -
  obtain a b where q: "quotient_of x = (a, b)" by fastforce
  have b: "0 < b" using quotient_of_denom_pos [OF q] .
  have x: "x = of_int a / of_int b" using quotient_of_div [OF q] .
  with assms b have a: "0 < a" by (simp add: zero_less_divide_iff)
  define k where "k = bitlen a - bitlen b"
  have pos: "1 \<le> bitlen a" "1 \<le> bitlen b" using a b by (auto simp: bitlen_alt_def)
  have up: "of_int n < (2 :: rat) powi bitlen n" and lo: "(2 :: rat) powi (bitlen n - 1) \<le> of_int n" if "0 < n" for n
  proof -
    from that have n: "1 \<le> bitlen n" by (auto simp: bitlen_alt_def)
    have "(of_int n :: rat) < of_int (2 ^ nat (bitlen n))" "of_int (2 ^ nat (bitlen n - 1)) \<le> (of_int n :: rat)"
      using bitlen_bounds [OF that] by (simp_all only: of_int_less_iff of_int_le_iff)
    with n show "of_int n < (2 :: rat) powi bitlen n" "(2 :: rat) powi (bitlen n - 1) \<le> of_int n"
      by (simp_all add: power_int_def)
  qed
  have bp: "0 < (of_int b :: rat)" using b by simp
  have "x < 2 powi bitlen a / 2 powi (bitlen b - 1)"
    unfolding x using up [OF a] lo [OF b] bp a by (intro frac_less) auto
  also have "\<dots> = 2 powi (k + 1)" by (simp add: k_def power_int_diff [symmetric] algebra_simps)
  finally have u: "x < 2 powi (k + 1)" .
  have "2 powi (k - 1) = (2 :: rat) powi (bitlen a - 1) / 2 powi bitlen b"
    by (simp add: k_def power_int_diff [symmetric] algebra_simps)
  also have "\<dots> \<le> x" unfolding x using up [OF b] lo [OF a] bp a by (intro frac_le) auto
  finally have l: "2 powi (k - 1) \<le> x" .
  have "elog x = (if 2 powi k \<le> x then k else k - 1)" by (simp add: elog_def q k_def)
  with u l show ?thesis by auto
qed

lemma elog_unique:
  assumes "2 powi k \<le> x" and "x < 2 powi (k + 1)"
  shows "elog x = k"
proof -
  have "0 < (2 :: rat) powi k" by simp
  then have "0 < x" using assms(1) by (rule order_less_le_trans)
  from elog_bounds [OF this] have e: "2 powi elog x \<le> x" "x < 2 powi (elog x + 1)" by auto
  show ?thesis using order_le_less_trans [OF assms(1) e(2)] order_le_less_trans [OF e(1) assms(2)] by simp
qed

lemma elog_mono: "0 < x \<Longrightarrow> x \<le> y \<Longrightarrow> elog x \<le> elog y"
proof -
  assume "0 < x" "x \<le> y"
  then have "2 powi elog x \<le> x" "x \<le> y" "y < 2 powi (elog y + 1)" using elog_bounds [of x] elog_bounds [of y] by auto
  then have "(2 :: rat) powi elog x < 2 powi (elog y + 1)" by linarith
  then show ?thesis by simp
qed

lemma half_even_floor: "\<lfloor>q\<rfloor> \<le> half_even q \<and> half_even q \<le> \<lfloor>q\<rfloor> + 1"
  by (auto simp: half_even_def Let_def)

lemma half_even_int [simp]: "half_even (of_int n) = n"
  by (simp add: half_even_def)

lemma half_even_mono:
  assumes "p \<le> q"
  shows "half_even p \<le> half_even q"
proof (cases "\<lfloor>p\<rfloor> = \<lfloor>q\<rfloor>")
  case True
  with assms show ?thesis by (auto simp: half_even_def Let_def)
next
  case False
  with floor_mono [OF assms] have "\<lfloor>p\<rfloor> + 1 \<le> \<lfloor>q\<rfloor>" by linarith
  with half_even_floor [of p] half_even_floor [of q] show ?thesis by linarith
qed

text \<open>Rounding stays between integers, hence between powers of two.\<close>

lemma half_even_le: "q \<le> of_int n \<Longrightarrow> half_even q \<le> n"
  using half_even_mono [of q "of_int n"] by simp

lemma half_even_ge: "of_int n \<le> q \<Longrightarrow> n \<le> half_even q"
  using half_even_mono [of "of_int n" q] by simp

lemma powi2_int: "0 \<le> k \<Longrightarrow> \<exists>n :: int. of_int n = (2 :: rat) powi k"
  by (intro exI [of _ "2 ^ nat k"]) (simp add: power_int_def)

lemma fl_mag_le_pow:
  assumes "0 < x" and "x \<le> 2 powi k" and "ulp_exp x \<le> k"
  shows "fl_mag x \<le> 2 powi k"
proof -
  let ?u = "ulp_exp x"
  obtain n :: int where n: "of_int n = (2 :: rat) powi (k - ?u)" using powi2_int [of "k - ?u"] assms(3) by auto
  have "x / 2 powi ?u \<le> 2 powi k / 2 powi ?u" using assms(2) by (intro divide_right_mono) auto
  also have "\<dots> = of_int n" by (simp add: n power_int_diff)
  finally have "half_even (x / 2 powi ?u) \<le> n" by (rule half_even_le)
  then have "fl_mag x \<le> of_int n * 2 powi ?u" unfolding fl_mag_def by (intro mult_right_mono) auto
  also have "\<dots> = 2 powi k" by (simp add: n power_int_diff)
  finally show ?thesis .
qed

lemma fl_mag_ge_pow:
  assumes "0 < x" and "2 powi k \<le> x" and "ulp_exp x \<le> k"
  shows "2 powi k \<le> fl_mag x"
proof -
  let ?u = "ulp_exp x"
  obtain n :: int where n: "of_int n = (2 :: rat) powi (k - ?u)" using powi2_int [of "k - ?u"] assms(3) by auto
  have "2 powi k = of_int n * (2 :: rat) powi ?u" by (simp add: n power_int_diff)
  moreover have "of_int n = (2 :: rat) powi k / 2 powi ?u" by (simp add: n power_int_diff)
  moreover have "\<dots> \<le> x / 2 powi ?u" using assms(2) by (intro divide_right_mono) auto
  ultimately have "n \<le> half_even (x / 2 powi ?u)" by (intro half_even_ge) simp
  then have "of_int n * 2 powi ?u \<le> fl_mag x" unfolding fl_mag_def by (intro mult_right_mono) auto
  with \<open>2 powi k = of_int n * 2 powi ?u\<close> show ?thesis by simp
qed

lemma fl_mag_nonneg: "0 \<le> x \<Longrightarrow> 0 \<le> fl_mag x"
  unfolding fl_mag_def by (intro mult_nonneg_nonneg) (auto intro!: half_even_ge [of 0, simplified])

text \<open>Rounding is monotone.\<close>

lemma fl_mag_mono:
  assumes "0 < x" and "x \<le> y"
  shows "fl_mag x \<le> fl_mag y"
proof (cases "ulp_exp x = ulp_exp y")
  case True
  have "half_even (x / 2 powi ulp_exp x) \<le> half_even (y / 2 powi ulp_exp x)"
    using assms(2) by (intro half_even_mono divide_right_mono) auto
  then show ?thesis unfolding fl_mag_def True by (intro mult_right_mono) auto
next
  case False
  have e: "elog x \<le> elog y" using elog_mono assms by blast
  with False have k: "elog x + 1 \<le> elog y" "ulp_exp y \<le> elog y" "ulp_exp x \<le> elog y" by (auto simp: ulp_exp_def)
  have "x \<le> 2 powi elog y"
    using elog_bounds [OF assms(1)] k(1) by (meson less_imp_le order_trans powi2_le)
  then have "fl_mag x \<le> 2 powi elog y" using k by (intro fl_mag_le_pow assms)
  also have "\<dots> \<le> fl_mag y" using elog_bounds [of y] assms k by (intro fl_mag_ge_pow) auto
  finally show ?thesis .
qed

lemma fl_val_minus: "fl_val (- x) = - fl_val x"
  by (simp add: fl_val_def)

lemma fl_val_nonneg: "0 \<le> x \<Longrightarrow> 0 \<le> fl_val x"
  by (auto simp: fl_val_def sgn_if fl_mag_nonneg)

lemma fl_val_mono: "x \<le> y \<Longrightarrow> fl_val x \<le> fl_val y"
proof -
  assume le: "x \<le> y"
  consider "0 < x" | "x \<le> 0" "0 \<le> y" | "y < 0" by linarith
  then show ?thesis
  proof cases
    case 1
    then show ?thesis using le fl_mag_mono [of x y] by (simp add: fl_val_def)
  next
    case 2
    then show ?thesis using fl_val_nonneg [of y] fl_val_nonneg [of "- x"] by (simp add: fl_val_minus)
  next
    case 3
    then show ?thesis using le fl_mag_mono [of "- y" "- x"] by (simp add: fl_val_def)
  qed
qed

text \<open>Representable numbers are not changed.\<close>

lemma fl_mag_exact: "x = of_int m * 2 powi ulp_exp x \<Longrightarrow> fl_mag x = x"
proof -
  assume x: "x = of_int m * 2 powi ulp_exp x"
  then have "x / 2 powi ulp_exp x = of_int m" by (simp add: field_simps)
  then show ?thesis using x by (simp add: fl_mag_def)
qed

lemma fl_mag_nat:
  assumes "0 < n" and "n \<le> 2 ^ 53"
  shows "fl_mag (of_int n) = of_int n"
proof (cases "n = 2 ^ 53")
  case True
  have "elog (2 ^ 53) = 53" by (rule elog_unique) (simp_all add: power_int_def)
  then have "ulp_exp (2 ^ 53) = 1" by (simp add: ulp_exp_def)
  then have "fl_mag (2 ^ 53) = 2 ^ 53" by (intro fl_mag_exact [of _ "2 ^ 52"]) (simp add: power_int_def)
  with True show ?thesis by simp
next
  case False
  with assms have n: "(of_int n :: rat) < 2 ^ 53" by (metis of_int_less_iff of_int_numeral of_int_power order_le_neq_trans)
  have "2 powi elog (of_int n) \<le> (of_int n :: rat)" using elog_bounds [of "of_int n"] assms by simp
  also have "\<dots> < 2 powi 53" using n by simp
  finally have "elog (of_int n) < 53" by (simp only: powi2_less)
  then have u: "ulp_exp (of_int n) \<le> 0" by (simp add: ulp_exp_def)
  then obtain m :: int where m: "of_int m = (2 :: rat) powi (- ulp_exp (of_int n))" using powi2_int by (metis neg_0_le_iff_le)
  have "(of_int n :: rat) = of_int (n * m) * 2 powi ulp_exp (of_int n)" by (simp add: m power_int_minus)
  then show ?thesis by (rule fl_mag_exact)
qed

lemma fl_val_int: "\<bar>n\<bar> \<le> 2 ^ 53 \<Longrightarrow> fl_val (of_int n) = of_int n"
  using fl_mag_nat [of n] fl_mag_nat [of "- n"] by (cases n "0 :: int" rule: linorder_cases) (auto simp: fl_val_def)

lemma fl_val_le_int: "x \<le> of_int n \<Longrightarrow> \<bar>n\<bar> \<le> 2 ^ 53 \<Longrightarrow> fl_val x \<le> of_int n"
  using fl_val_mono [of x "of_int n"] by (simp add: fl_val_int)

lemma fl_val_ge_int: "of_int n \<le> x \<Longrightarrow> \<bar>n\<bar> \<le> 2 ^ 53 \<Longrightarrow> of_int n \<le> fl_val x"
  using fl_val_mono [of "of_int n" x] by (simp add: fl_val_int)

lemma fl_small:
  assumes "0 \<le> x" and "x \<le> of_int n" and "n \<le> 2 ^ 53"
  shows "fl x = Fin (fl_val x)"
proof -
  have "0 \<le> n" using assms(1,2) by (metis of_int_0_le_iff order_trans)
  with assms have "0 \<le> fl_val x" "fl_val x \<le> of_int n" using fl_val_nonneg fl_val_le_int by auto
  moreover have "(of_int n :: rat) \<le> 2 ^ 53" using assms(3) by (metis of_int_le_iff of_int_numeral of_int_power)
  moreover have "(2 :: rat) ^ 53 < 2 powi 1024" by (simp add: power_int_def)
  ultimately show ?thesis using assms(1) by (auto simp: fl_def Let_def)
qed

lemma f_int_exact: "0 \<le> n \<Longrightarrow> n \<le> 2 ^ 53 \<Longrightarrow> f_int n = Fin (of_int n)"
  using fl_small [of "of_int n" n] fl_val_int [of n] by (simp add: f_int_def)

section \<open>Bounds\<close>

text \<open>A number that is at least \<open>r\<close>, possibly infinite; and one between 0 and \<open>r\<close>.\<close>

definition at_least :: "rat \<Rightarrow> float64 \<Rightarrow> bool" where
  "at_least r x \<longleftrightarrow> x = Inf False \<or> (\<exists>v. x = Fin v \<and> r \<le> v)"

definition in_range :: "rat \<Rightarrow> float64 \<Rightarrow> bool" where
  "in_range r x \<longleftrightarrow> (\<exists>v. x = Fin v \<and> 0 \<le> v \<and> v \<le> r)"

lemma at_least_weaken: "at_least r x \<Longrightarrow> q \<le> r \<Longrightarrow> at_least q x"
  by (auto simp: at_least_def)

lemma fl_at_least:
  assumes "0 \<le> x" and "of_int n \<le> x" and "0 \<le> n" and "n \<le> 2 ^ 53"
  shows "at_least (of_int n) (fl x)"
  using assms fl_val_ge_int [of n x] fl_val_nonneg [of x] by (auto simp: at_least_def fl_def Let_def)

lemma fl_in_range: "0 \<le> x \<Longrightarrow> x \<le> of_int n \<Longrightarrow> n \<le> 2 ^ 53 \<Longrightarrow> in_range (of_int n) (fl x)"
proof -
  assume a: "0 \<le> x" "x \<le> of_int n" "n \<le> 2 ^ 53"
  then have "0 \<le> n" by (metis of_int_0_le_iff order_trans)
  with a show ?thesis using fl_small [OF a] fl_val_le_int [of x n] fl_val_nonneg [of x] by (auto simp: in_range_def)
qed

lemma f_add_at_least:
  assumes "at_least (of_int n) x" and "at_least 0 y" and "0 \<le> n" and "n \<le> 2 ^ 53"
  shows "at_least (of_int n) (f_add x y)"
proof -
  have n: "(0 :: rat) \<le> of_int n" using assms(3) by simp
  consider "x = Inf False" | "y = Inf False" | v w where "x = Fin v" "y = Fin w" "of_int n \<le> v" "0 \<le> w"
    using assms(1,2) by (auto simp: at_least_def)
  then show ?thesis
  proof cases
    case 3
    then show ?thesis using n assms(3,4) by (simp add: fl_at_least)
  qed (use assms(1,2) in \<open>auto simp: at_least_def\<close>)
qed

lemma f_mul_pos:
  assumes "at_least 0 x" and "0 < c"
  shows "at_least 0 (f_mul x (Fin c))"
  using assms fl_at_least [of "fval x * c" 0] by (auto simp: at_least_def f_mul_def fzero_def)

lemma f_mul_fin:
  assumes "0 \<le> v" and "0 \<le> w"
  shows "at_least 0 (f_mul (Fin v) (Fin w))"
  using assms fl_at_least [of "v * w" 0] by (auto simp: at_least_def f_mul_def fzero_def)

lemma f_mul_in_range:
  assumes "in_range (of_int a) x" and "in_range (of_int b) y" and "a * b \<le> 2 ^ 53"
  shows "in_range (of_int (a * b)) (f_mul x y)"
proof -
  from assms obtain v w where v: "x = Fin v" "0 \<le> v" "v \<le> of_int a" and w: "y = Fin w" "0 \<le> w" "w \<le> of_int b"
    by (auto simp: in_range_def)
  have "v * w \<le> of_int (a * b)" using v w by (simp add: mult_mono)
  moreover have "0 \<le> v * w" using v w by simp
  ultimately have "in_range (of_int (a * b)) (fl (v * w))" "in_range (of_int (a * b)) (Fin 0)"
    using fl_in_range [of "v * w" "a * b"] assms(3) by (simp_all add: in_range_def)
  then show ?thesis using v w by (auto simp: f_mul_def fzero_def)
qed

text \<open>A quotient of a number by a greater one is at most 1.\<close>

lemma f_div_in_range:
  assumes "0 \<le> a" and "at_least a y" and "0 < a \<or> (\<exists>v. y = Fin v \<and> 0 < v) \<or> y = Inf False"
  shows "in_range 1 (f_div (Fin a) y)"
proof (cases "y = Inf False")
  case True
  then show ?thesis using assms(1) by (auto simp: f_div_def fzero_def in_range_def)
next
  case False
  with assms obtain v where v: "y = Fin v" "a \<le> v" "0 < v" by (auto simp: at_least_def)
  have q: "in_range (of_int 1) (fl (a / v))" using assms(1) v by (intro fl_in_range) auto
  then have "in_range 1 (fl (a / v))" by simp
  moreover have "in_range 1 (Fin 0)" by (auto simp: in_range_def)
  ultimately show ?thesis using v assms(1) by (auto simp: f_div_def fzero_def)
qed

lemma int32_round_in_range:
  assumes "in_range (of_int n) x" and "n < 2 ^ 31"
  shows "0 \<le> int32_f G (f_Round x) \<and> int32_f G (f_Round x) \<le> n"
proof -
  from assms(1) obtain v where v: "x = Fin v" "0 \<le> v" "v \<le> of_int n" by (auto simp: in_range_def)
  let ?m = "\<lfloor>v + 1 / 2\<rfloor>"
  have "?m \<le> \<lfloor>(of_int n :: rat) + 1 / 2\<rfloor>" using v(3) by (intro floor_mono) simp
  also have "\<dots> = n" by (simp add: floor_eq_iff)
  finally have m: "0 \<le> ?m" "?m \<le> n" using v(2) by auto
  then have "is_int32 ?m" unfolding is_int32_def using assms(2) by linarith
  with m v show ?thesis by (simp add: int32_f_def trunc_def)
qed

lemma fl_half: "fl (1 / 2) = Fin (1 / 2)"
  by code_simp

lemma fl_pos:
  assumes "2 powi k \<le> x" and "-1000 \<le> k" and "x \<le> of_int n" and "n \<le> 2 ^ 53"
  shows "\<exists>v. fl x = Fin v \<and> 2 powi k \<le> v \<and> v \<le> of_int n"
proof -
  have p: "0 < x" using assms(1) by (metis order_less_le_trans zero_less_numeral zero_less_power_int)
  then have f: "fl x = Fin (fl_val x)" "fl_val x = fl_mag x" using fl_small [of x n] assms by (auto simp: fl_val_def)
  let ?p = "2 powi k :: rat"
  have pp: "0 < ?p" by simp
  have "elog ?p = k" by (rule elog_unique) auto
  then have "ulp_exp ?p \<le> k" using assms(2) by (simp add: ulp_exp_def)
  then have "?p \<le> fl_mag ?p" by (intro fl_mag_ge_pow pp) auto
  also have "\<dots> \<le> fl_mag x" by (intro fl_mag_mono pp assms)
  finally have "?p \<le> fl_val x" using f(2) by simp
  moreover have "fl_val x \<le> of_int n"
  proof (rule fl_val_le_int [OF assms(3)])
    have "(0 :: rat) \<le> of_int n" using p assms(3) by linarith
    then show "\<bar>n\<bar> \<le> 2 ^ 53" using assms(4) by simp
  qed
  ultimately show ?thesis using f(1) by blast
qed

lemma fl_val_pos: "0 < x \<Longrightarrow> fl_val x = fl_mag x"
  by (simp add: fl_val_def)

lemma f_mul_Inf: "0 < c \<Longrightarrow> f_mul (Inf False) (Fin c) = Inf False"
  by (simp add: f_mul_def)

end
