(* ===== verification/Utils.thy ===== *)
theory Utils
  imports Wallets Float64
begin

text \<open>
  The helpers of \<open>utils.go\<close>: peer addresses (\<open>NormalizeAddress\<close> with the two functions of Go's
  \<open>net\<close> package that it calls), base64 text, rounding and durations for the progress messages,
  the rest of the file system helpers.
\<close>

section \<open>Peer addresses\<close>

definition missingPort :: err where "missingPort = New ''missing port in address''"
definition tooManyColons :: err where "tooManyColons = New ''too many colons in address''"

text \<open>Everything before and after the first, or the last, occurrence of a character.\<close>

fun cut_first :: "char \<Rightarrow> string \<Rightarrow> (string \<times> string) option" where
  "cut_first c [] = None"
| "cut_first c (x # xs) =
     (if x = c then Some ([], xs) else case cut_first c xs of None \<Rightarrow> None | Some (a, b) \<Rightarrow> Some (x # a, b))"

definition cut_last :: "char \<Rightarrow> string \<Rightarrow> (string \<times> string) option" where
  "cut_last c s = (case cut_first c (rev s) of None \<Rightarrow> None | Some (a, b) \<Rightarrow> Some (rev b, rev a))"

text \<open>
  \<open>net.SplitHostPort\<close>: the port starts after the last colon; a host in brackets ends at the first
  closing bracket, which is just before that colon; a host without brackets has no colon; there is
  no other bracket.
\<close>

definition SplitHostPort :: "string \<Rightarrow> (string \<times> string) result" where
  "SplitHostPort s =
     (case cut_last CHR '':'' s of
        None \<Rightarrow> Inl missingPort
      | Some (before, port) \<Rightarrow>
          if hd s = CHR ''['' then
            (case cut_first CHR '']'' s of
               None \<Rightarrow> Inl (New (''missing bracket in address''))
             | Some (host, rest) \<Rightarrow>
                 if rest = [] then Inl missingPort
                 else if length host + 1 \<noteq> length before then
                   (if hd rest = CHR '':'' then Inl tooManyColons else Inl missingPort)
                 else if CHR ''['' \<in> set (tl s) then Inl (New ''unexpected bracket in address'')
                 else if CHR '']'' \<in> set rest then Inl (New ''unexpected bracket in address'')
                 else Inr (tl host, port))
          else if CHR '':'' \<in> set before then Inl tooManyColons
          else if CHR ''['' \<in> set s then Inl (New ''unexpected bracket in address'')
          else if CHR '']'' \<in> set s then Inl (New ''unexpected bracket in address'')
          else Inr (before, port))"

definition JoinHostPort :: "string \<Rightarrow> string \<Rightarrow> string" where
  "JoinHostPort host port =
     (if CHR '':'' \<in> set host then ''['' @ host @ '']:'' @ port else host @ '':'' @ port)"

definition NormalizeAddress :: "string \<Rightarrow> string \<Rightarrow> string result" where
  "NormalizeAddress addr defaultPort =
     (case SplitHostPort addr of
        Inr (host, port) \<Rightarrow> Inr (JoinHostPort host port)
      | Inl origErr \<Rightarrow>
          (case SplitHostPort (JoinHostPort addr defaultPort) of
             Inl e \<Rightarrow> Inl origErr
           | Inr hp \<Rightarrow> Inr (JoinHostPort addr defaultPort)))"

subsection \<open>Lemmas\<close>

lemma cut_first_append: "c \<notin> set a \<Longrightarrow> cut_first c (a @ c # b) = Some (a, b)"
  by (induction a) auto

lemma cut_first_Some: "cut_first c s = Some (a, b) \<longleftrightarrow> s = a @ c # b \<and> c \<notin> set a"
proof
  show "s = a @ c # b \<and> c \<notin> set a" if "cut_first c s = Some (a, b)"
    using that by (induction s arbitrary: a) (auto split: option.splits if_splits)
qed (auto intro: cut_first_append)

lemma cut_last_Some: "cut_last c s = Some (a, b) \<longleftrightarrow> s = a @ c # b \<and> c \<notin> set b"
proof -
  have "cut_last c s = Some (a, b) \<longleftrightarrow> cut_first c (rev s) = Some (rev b, rev a)"
    by (auto simp: cut_last_def split: option.splits)
  also have "\<dots> \<longleftrightarrow> s = a @ c # b \<and> c \<notin> set b"
    unfolding cut_first_Some by (metis append.assoc append_Cons append_Nil rev.simps(2) rev_append rev_rev_ident set_rev)
  finally show ?thesis .
qed

text \<open>Hosts and ports that appear in an address.\<close>

definition plain :: "string \<Rightarrow> bool" where
  "plain s \<longleftrightarrow> CHR ''['' \<notin> set s \<and> CHR '']'' \<notin> set s"

lemma SplitHostPort_Join:
  assumes "plain h" and "plain p" and "CHR '':'' \<notin> set p"
  shows "SplitHostPort (JoinHostPort h p) = Inr (h, p)"
proof (cases "CHR '':'' \<in> set h")
  case True
  have "cut_last CHR '':'' (''['' @ h @ '']:'' @ p) = Some (''['' @ h @ '']'', p)"
    using assms(3) by (simp add: cut_last_Some)
  moreover have "cut_first CHR '']'' (''['' @ h @ '']:'' @ p) = Some (''['' @ h, '':'' @ p)"
    using assms(1) unfolding cut_first_Some by (simp add: plain_def)
  ultimately show ?thesis using True assms by (simp add: SplitHostPort_def JoinHostPort_def plain_def)
next
  case False
  have "cut_last CHR '':'' (h @ '':'' @ p) = Some (h, p)" using assms(3) by (simp add: cut_last_Some)
  moreover have "hd (h @ '':'' @ p) \<noteq> CHR ''[''" using assms(1) by (cases h) (auto simp: plain_def)
  ultimately show ?thesis using False assms by (simp add: SplitHostPort_def JoinHostPort_def plain_def)
qed

lemma SplitHostPort_plain:
  assumes "SplitHostPort s = Inr (h, p)"
  shows "plain h \<and> plain p \<and> CHR '':'' \<notin> set p"
proof -
  from assms obtain before where c: "cut_last CHR '':'' s = Some (before, p)"
    by (auto simp: SplitHostPort_def split: option.splits if_splits prod.splits)
  then have s: "s = before @ CHR '':'' # p" "CHR '':'' \<notin> set p" by (auto simp: cut_last_Some)
  show ?thesis
  proof (cases "hd s = CHR ''[''")
    case True
    with assms c obtain host rest where f: "cut_first CHR '']'' s = Some (host, rest)" "h = tl host"
      "length host + 1 = length before" "CHR ''['' \<notin> set (tl s)" "CHR '']'' \<notin> set rest"
      by (auto simp: SplitHostPort_def split: option.splits if_splits)
    then have e: "s = host @ CHR '']'' # rest" "CHR '']'' \<notin> set host" by (auto simp: cut_first_Some)
    with s(1) f(3) have "rest = CHR '':'' # p" by (auto simp: append_eq_append_conv2 Cons_eq_append_conv)
    moreover have "set h \<subseteq> set (tl s)" "set h \<subseteq> set host" using e(1) f(2) True by (cases host; auto)+
    ultimately show ?thesis using f(4,5) e s True by (cases host) (auto simp: plain_def)
  next
    case False
    with assms c s show ?thesis by (auto simp: SplitHostPort_def plain_def split: if_splits)
  qed
qed

section \<open>Base64 text\<close>

text \<open>\<open>base64.StdEncoding\<close>; the decoder skips line breaks and ignores the unused bits before a padding.\<close>

definition b64_alphabet :: string where
  "b64_alphabet = ''ABCDEFGHIJKLMNOPQRSTUVWXYZabcdefghijklmnopqrstuvwxyz0123456789+/''"

definition b64_char :: "nat \<Rightarrow> char" where
  "b64_char n = b64_alphabet ! (n mod 64)"

fun b64_index :: "char \<Rightarrow> string \<Rightarrow> nat option" where
  "b64_index c [] = None"
| "b64_index c (x # xs) = (if x = c then Some 0 else map_option Suc (b64_index c xs))"

definition b64_value :: "char \<Rightarrow> nat option" where
  "b64_value c = b64_index c b64_alphabet"

fun EncodeBase64 :: "bytes \<Rightarrow> string" where
  "EncodeBase64 [] = []"
| "EncodeBase64 [a] = (let n = unat a * 16 in [b64_char (n div 64), b64_char n, CHR ''='', CHR ''=''])"
| "EncodeBase64 [a, b] = (let n = (unat a * 256 + unat b) * 4 in
     [b64_char (n div 4096), b64_char (n div 64), b64_char n, CHR ''=''])"
| "EncodeBase64 (a # b # c # bs) = (let n = (unat a * 256 + unat b) * 256 + unat c in
     [b64_char (n div 262144), b64_char (n div 4096), b64_char (n div 64), b64_char n] @ EncodeBase64 bs)"

definition corruptInput :: err where "corruptInput = New ''illegal base64 data''"

fun b64_values :: "string \<Rightarrow> nat result" where
  "b64_values [] = Inr 0"
| "b64_values (c # cs) =
     (case b64_value c of None \<Rightarrow> Inl corruptInput
      | Some v \<Rightarrow> bind_res (b64_values cs) (\<lambda>n. Inr (v * 64 ^ length cs + n)))"

fun b64_decode :: "string \<Rightarrow> bytes result" where
  "b64_decode [] = Inr []"
| "b64_decode (a # b # c # d # cs) =
     (if d = CHR ''='' then
        (if cs \<noteq> [] then Inl corruptInput
         else if c = CHR ''='' then bind_res (b64_values [a, b]) (\<lambda>n. Inr [of_nat (n div 16)])
         else bind_res (b64_values [a, b, c]) (\<lambda>n. Inr [of_nat (n div 1024), of_nat (n div 4)]))
      else bind_res (b64_values [a, b, c, d]) (\<lambda>n. bind_res (b64_decode cs) (\<lambda>bs.
        Inr (of_nat (n div 65536) # of_nat (n div 256) # of_nat n # bs))))"
| "b64_decode cs = Inl corruptInput"

definition DecodeBase64 :: "string \<Rightarrow> bytes result" where
  "DecodeBase64 base64Text = b64_decode (filter (\<lambda>c. c \<noteq> CHR 0x0A \<and> c \<noteq> CHR 0x0D) base64Text)"

subsection \<open>Lemmas\<close>

lemma b64_table: "list_all (\<lambda>n. b64_value (b64_char n) = Some n \<and> b64_char n \<notin> {CHR ''='', CHR 0x0A, CHR 0x0D}) [0..<64]"
  by code_simp

lemma b64_char_ok [simp]:
  "b64_value (b64_char n) = Some (n mod 64)" "b64_char n \<noteq> CHR ''=''" "b64_char n \<noteq> CHR 0x0A" "b64_char n \<noteq> CHR 0x0D"
proof -
  have "n mod 64 < 64" by simp
  moreover have "b64_char (n mod 64) = b64_char n" by (simp add: b64_char_def)
  ultimately have "b64_value (b64_char n) = Some (n mod 64) \<and> b64_char n \<notin> {CHR ''='', CHR 0x0A, CHR 0x0D}"
    using b64_table unfolding list_all_iff set_upt by (metis atLeastLessThan_iff le0)
  then show "b64_value (b64_char n) = Some (n mod 64)" "b64_char n \<noteq> CHR ''=''" "b64_char n \<noteq> CHR 0x0A" "b64_char n \<noteq> CHR 0x0D"
    by simp_all
qed

lemma EncodeBase64_lines: "filter (\<lambda>c. c \<noteq> CHR 0x0A \<and> c \<noteq> CHR 0x0D) (EncodeBase64 bs) = EncodeBase64 bs"
  by (induction bs rule: EncodeBase64.induct) (simp_all add: Let_def)

lemma digits64: "n div 64 mod 64 * 64 + n mod 64 = n mod (64 * 64)"
  "n div 4096 mod 64 * 4096 + (n div 64 mod 64 * 64 + n mod 64) = n mod (64 * 64 * 64)"
  "n div 262144 mod 64 * 262144 + (n div 4096 mod 64 * 4096 + (n div 64 mod 64 * 64 + n mod 64)) = n mod (64 * 64 * 64 * 64)"
  for n :: nat
proof -
  show a: "n div 64 mod 64 * 64 + n mod 64 = n mod (64 * 64)" for n :: nat by (simp only: mod_mult2_eq mult.commute)
  show b: "n div 4096 mod 64 * 4096 + (n div 64 mod 64 * 64 + n mod 64) = n mod (64 * 64 * 64)" for n :: nat
    unfolding a using mod_mult2_eq [of n "64 * 64" 64] by simp
  show "n div 262144 mod 64 * 262144 + (n div 4096 mod 64 * 4096 + (n div 64 mod 64 * 64 + n mod 64)) = n mod (64 * 64 * 64 * 64)"
    unfolding b using mod_mult2_eq [of n "64 * 64 * 64" 64] by simp
qed

lemma b64_values_encode:
  "b64_values [b64_char (n div 64), b64_char n] = Inr (n mod 4096)"
  "b64_values [b64_char (n div 4096), b64_char (n div 64), b64_char n] = Inr (n mod 262144)"
  "b64_values [b64_char (n div 262144), b64_char (n div 4096), b64_char (n div 64), b64_char n] = Inr (n mod 16777216)"
  using digits64 [of n] by simp_all

lemma unat_byte: "unat (a :: byte) < 256"
  using unsigned_less [of a] by simp

lemma byte_of_nat: "(of_nat (m * 256 + unat a) :: byte) = a"
proof -
  have "(of_nat (m * 256 + unat a) :: byte) = of_nat (unat a)" by (simp only: word_of_nat_eq_iff take_bit_eq_mod) simp
  then show ?thesis by simp
qed

lemma b64_decode_encode: "b64_decode (EncodeBase64 bs) = Inr bs"
proof (induction bs rule: EncodeBase64.induct)
  case (2 a)
  have "unat a * 16 mod 4096 = unat a * 16" using unat_byte [of a] by simp
  then show ?case by (simp only: EncodeBase64.simps Let_def b64_decode.simps b64_values_encode) simp
next
  case (3 a b)
  let ?n = "(unat a * 256 + unat b) * 4"
  have "?n mod 262144 = ?n" "?n div 1024 = unat a" "?n div 4 = unat a * 256 + unat b"
    using unat_byte [of a] unat_byte [of b] by simp_all
  moreover have "(of_nat (unat a * 256 + unat b) :: byte) = b" by (rule byte_of_nat)
  ultimately show ?case by (simp only: EncodeBase64.simps Let_def b64_decode.simps b64_values_encode) (simp add: mult.commute)
next
  case (4 a b c bs)
  let ?n = "(unat a * 256 + unat b) * 256 + unat c"
  have "?n mod 16777216 = ?n" "?n div 65536 = unat a" "?n div 256 = unat a * 256 + unat b"
    using unat_byte [of a] unat_byte [of b] unat_byte [of c] by simp_all
  moreover have "(of_nat (unat a * 256 + unat b) :: byte) = b" "(of_nat ?n :: byte) = c" by (rule byte_of_nat)+
  ultimately show ?case using 4
    by (simp only: EncodeBase64.simps Let_def append_Cons append_Nil b64_decode.simps b64_values_encode b64_char_ok) simp
qed simp

section \<open>Text of the progress messages\<close>

definition fmt_d :: "int \<Rightarrow> string" where
  "fmt_d n = (if n < 0 then CHR ''-'' # itoa (nat (- n)) else itoa (nat n))"

definition CalculateTotalTimeRemaining :: "int \<Rightarrow> string" where
  "CalculateTotalTimeRemaining timeRemainingInSeconds =
     (let minutes = quot timeRemainingInSeconds 60 in
      if minutes > 0 then fmt_d minutes @ '' min'' else fmt_d timeRemainingInSeconds @ '' sec'')"

text \<open>
  \<open>CalculateDaysBehind\<close>: \<open>diff\<close> is \<open>time.Since\<close> in nanoseconds; \<open>Hours\<close> adds the whole hours and the
  rest as floating point numbers.
\<close>

definition Hours :: "int \<Rightarrow> float64" where
  "Hours d = (let h = quot d 3600000000000; nsec = d - h * 3600000000000
     in f_add (f_int h) (f_div (f_int nsec) (f_int 3600000000000)))"

definition CalculateDaysBehind :: "go_float \<Rightarrow> int \<Rightarrow> string" where
  "CalculateDaysBehind G diff =
     (let daysBehind = int64_f G (f_Round (f_div (Hours diff) (f_int 24))) in
      if daysBehind = 0 then ''<1 day'' else if daysBehind = 1 then ''1 day'' else fmt_d daysBehind @ '' days'')"

definition roundUp :: "go_float \<Rightarrow> float64 \<Rightarrow> int" where
  "roundUp G n = int32_f G (f_Round n)"

section \<open>Files, keys and seeds\<close>

definition walletDbName :: string where "walletDbName = ''wallet.db''"

text \<open>An error of the check is logged and reported as absence.\<close>

definition WalletExistsAt :: "'e fs \<Rightarrow> 'e \<Rightarrow> string \<Rightarrow> bool" where
  "WalletExistsAt F e directory = (case fileExists F e (directory @ ''/'' @ walletDbName) of Inr exists \<Rightarrow> exists | Inl er \<Rightarrow> False)"

definition ErrUnusableSeed :: string where "ErrUnusableSeed = ''unusable_seed''"

text \<open>\<open>NewKey\<close> is \<open>hdkeychain.NewKeyFromString\<close>, \<open>invalidChild\<close> its error \<open>ErrInvalidChild\<close>.\<close>

definition ValidateExtPubKey :: "(string \<Rightarrow> 'k result) \<Rightarrow> err \<Rightarrow> string \<Rightarrow> err option" where
  "ValidateExtPubKey NewKey invalidChild extendedPubKey =
     (case NewKey extendedPubKey of
        Inl e \<Rightarrow> if e = invalidChild then Some (New ErrUnusableSeed) else Some (New ErrInvalid)
      | Inr k \<Rightarrow> None)"

definition GenerateSeed :: "bytes result \<Rightarrow> (bytes \<Rightarrow> string) \<Rightarrow> string result" where
  "GenerateSeed random EncodeMnemonic = (case random of Inl e \<Rightarrow> Inl e | Inr seed \<Rightarrow> Inr (EncodeMnemonic seed))"

definition VerifySeed :: "(string \<Rightarrow> bytes result) \<Rightarrow> string \<Rightarrow> bool" where
  "VerifySeed DecodeUserInput seedMnemonic = is_ok (DecodeUserInput seedMnemonic)"

section \<open>Properties\<close>

text \<open>
  \<open>NormalizeAddress\<close> names one endpoint.  An accepted address splits into a host and a port,
  normalizing it again (with any default port) is accepted and gives the canonical form of the same
  host and port, and that form is a fixed point.
\<close>

theorem NormalizeAddress_endpoint:
  assumes "NormalizeAddress addr defaultPort = Inr r"
  shows "\<exists>h p. SplitHostPort r = Inr (h, p) \<and> NormalizeAddress r q = Inr (JoinHostPort h p) \<and>
    SplitHostPort (JoinHostPort h p) = Inr (h, p) \<and> NormalizeAddress (JoinHostPort h p) q = Inr (JoinHostPort h p)"
proof -
  have "\<exists>h p. SplitHostPort r = Inr (h, p)"
  proof (cases "SplitHostPort addr")
    case (Inl e)
    with assms show ?thesis by (auto simp: NormalizeAddress_def split: sum.splits)
  next
    case (Inr hp)
    obtain h p where hp: "hp = (h, p)" by fastforce
    with Inr have "SplitHostPort (JoinHostPort h p) = Inr (h, p)"
      using SplitHostPort_plain SplitHostPort_Join by blast
    with assms Inr hp show ?thesis by (auto simp: NormalizeAddress_def)
  qed
  then obtain h p where s: "SplitHostPort r = Inr (h, p)" by blast
  with SplitHostPort_plain SplitHostPort_Join have j: "SplitHostPort (JoinHostPort h p) = Inr (h, p)" by blast
  from s j show ?thesis by (intro exI [of _ h] exI [of _ p]) (simp add: NormalizeAddress_def)
qed

theorem NormalizeAddress_endpoint_witness:
  "NormalizeAddress ''::1'' ''9108'' = Inr ''[::1]:9108'' \<and>
   (\<exists>h p. SplitHostPort ''[::1]:9108'' = Inr (h, p) \<and> NormalizeAddress (JoinHostPort h p) ''1'' = Inr (JoinHostPort h p))"
proof -
  have r: "NormalizeAddress ''::1'' ''9108'' = Inr ''[::1]:9108''" by code_simp
  with NormalizeAddress_endpoint [OF r, of "''1''"] show ?thesis by blast
qed

text \<open>
  A host in brackets that has a colon and no port, such as \<open>[::1]\<close>, is rejected as an address
  without a port whatever the default port is, although the port is exactly what is missing.
\<close>

theorem bracketed_host_needs_port:
  assumes "CHR '':'' \<in> set h" and "plain h"
  shows "NormalizeAddress (''['' @ h @ '']'') defaultPort = Inl missingPort"
proof -
  let ?a = "''['' @ h @ '']''"
  have one: "cut_last c s \<noteq> None" if c: "c \<in> set s" for c s
  proof -
    obtain x y where "s = x @ c # y" "c \<notin> set y" using split_list_last [OF c] by blast
    then show ?thesis by (metis cut_last_Some option.distinct(1))
  qed
  have f1: "cut_first CHR '']'' ?a = Some (''['' @ h, [])"
    using assms(2) unfolding cut_first_Some by (simp add: plain_def)
  obtain b p where "cut_last CHR '':'' ?a = Some (b, p)" using one [of "CHR '':''" ?a] assms(1) by fastforce
  with f1 have s1: "SplitHostPort ?a = Inl missingPort" by (simp add: SplitHostPort_def)
  let ?j = "''['' @ ?a @ '']:'' @ defaultPort"
  have f2: "cut_first CHR '']'' ?j = Some (''[['' @ h, '']:'' @ defaultPort)"
    using assms(2) unfolding cut_first_Some by (simp add: plain_def)
  obtain b2 p2 where l2: "cut_last CHR '':'' ?j = Some (b2, p2)" using one [of "CHR '':''" ?j] by fastforce
  have "length b2 \<noteq> length h + 3"
  proof
    assume len: "length b2 = length h + 3"
    from l2 have e: "?j = b2 @ CHR '':'' # p2" by (simp only: cut_last_Some)
    then have "?j ! length b2 = CHR '':''" by (metis nth_append_length)
    with len show False by (simp add: nth_Cons nth_append split: nat.splits if_splits)
  qed
  with f2 l2 have "SplitHostPort ?j = Inl missingPort" by (simp add: SplitHostPort_def)
  moreover have "JoinHostPort ?a defaultPort = ?j" using assms(1) by (simp add: JoinHostPort_def)
  ultimately show ?thesis using s1 by (simp add: NormalizeAddress_def)
qed

theorem bracketed_host_needs_port_witness:
  "NormalizeAddress ''[::1]'' ''9108'' = Inl missingPort \<and> NormalizeAddress ''::1'' ''9108'' = Inr ''[::1]:9108''"
proof -
  have "NormalizeAddress (''['' @ ''::1'' @ '']'') ''9108'' = Inl missingPort"
    by (rule bracketed_host_needs_port) (simp_all add: plain_def)
  moreover have "NormalizeAddress ''::1'' ''9108'' = Inr ''[::1]:9108''" by code_simp
  ultimately show ?thesis by simp
qed

text \<open>
  Base64 text decodes to the bytes it encodes, also when line breaks were inserted into it.
\<close>

theorem base64_round_trip:
  "DecodeBase64 (EncodeBase64 bs) = Inr bs \<and>
   DecodeBase64 (concat (map (\<lambda>c. [CHR 0x0D, CHR 0x0A, c]) (EncodeBase64 bs))) = Inr bs"
proof -
  let ?f = "filter (\<lambda>c. c \<noteq> CHR 0x0A \<and> c \<noteq> CHR 0x0D)"
  have "?f (concat (map (\<lambda>c. [CHR 0x0D, CHR 0x0A, c]) xs)) = ?f xs" for xs by (induction xs) simp_all
  then show ?thesis by (simp only: DecodeBase64_def EncodeBase64_lines b64_decode_encode)
qed

end
