(* ===== verification/SyncProgress.thy ===== *)
theory SyncProgress
  imports Utils
begin

text \<open>
  The sync data of a multi-wallet (\<open>sync.go\<close>) and the callbacks that the SPV syncer runs during a
  sync (\<open>syncnotification.go\<close>): stages, progress estimates, listeners.  A callback is one atomic
  step on the state and returns a Go panic as an error; the current time is a parameter.  Wallets
  are a list in the order in which Go happens to iterate over the map.
\<close>

section \<open>Reports (\<open>types.go\<close>)\<close>

record GeneralSyncProgress =
  TotalSyncProgress :: int
  TotalTimeRemainingSeconds :: int

record HeadersFetchProgressReport = GeneralSyncProgress +
  TotalHeadersToFetch :: int
  CurrentHeaderHeight :: int
  CurrentHeaderTimestamp :: int
  HeadersFetchProgress :: int

record AddressDiscoveryProgressReport = GeneralSyncProgress +
  AddressDiscoveryProgress :: int
  adp_WalletID :: nat

record HeadersRescanProgressReport = GeneralSyncProgress +
  TotalHeadersToScan :: int
  CurrentRescanHeight :: int
  RescanProgress :: int
  RescanTimeRemaining :: int
  hrp_WalletID :: nat

record DebugInfo =
  TotalTimeElapsed :: int
  TotalTimeRemaining :: int
  CurrentStageTimeElapsed :: int
  CurrentStageTimeRemaining :: int

record BlockInfo =
  bi_Height :: int
  bi_Timestamp :: int

text \<open>The methods of \<open>SyncProgressListener\<close>, as the calls a listener receives.\<close>

datatype sync_event =
    OnSyncStarted bool
  | OnPeerConnectedOrDisconnected int
  | OnHeadersFetchProgress HeadersFetchProgressReport
  | OnAddressDiscoveryProgress AddressDiscoveryProgressReport
  | OnHeadersRescanProgress HeadersRescanProgressReport
  | OnSyncCompleted
  | OnSyncCanceled bool
  | OnSyncEndedWithError err
  | Debug DebugInfo

section \<open>Sync data (\<open>sync.go\<close>)\<close>

definition InvalidSyncStage :: int where "InvalidSyncStage = -1"
definition HeadersFetchSyncStage :: int where "HeadersFetchSyncStage = 0"
definition AddressDiscoverySyncStage :: int where "AddressDiscoverySyncStage = 1"
definition HeadersRescanSyncStage :: int where "HeadersRescanSyncStage = 2"

lemmas stages = InvalidSyncStage_def HeadersFetchSyncStage_def AddressDiscoverySyncStage_def HeadersRescanSyncStage_def

text \<open>Channels and contexts are numbers.\<close>

record activeSyncData =
  syncStage :: int
  headersFetchProgress :: HeadersFetchProgressReport
  addressDiscoveryProgress :: AddressDiscoveryProgressReport
  headersRescanProgress :: HeadersRescanProgressReport
  beginFetchTimeStamp :: int
  startHeaderHeight :: int
  headersFetchTimeSpent :: int
  addressDiscoveryStartTime :: int
  totalDiscoveryTimeSpent :: int
  addressDiscoveryCompletedOrCanceled :: "nat option"
  rescanStartTime :: int
  totalInactiveSeconds :: int
  totalFetchedHeadersCount :: int

record syncData =
  syncProgressListeners :: "string list"
  showLogs :: bool
  sd_synced :: bool
  sd_syncing :: bool
  cancelSync :: "nat option"
  cancelRescan :: "nat option"
  syncCanceled :: "nat option"
  restartSyncRequested :: bool
  rescanning :: bool
  connectedPeers :: int
  active :: "activeSyncData option"

text \<open>What the sync code uses of a wallet; \<open>opened\<close> says that \<open>internal\<close> is not nil.\<close>

record swallet =
  sw_ID :: nat
  opened :: bool
  locked :: bool
  waiting :: bool
  syncing :: bool
  synced_flag :: bool
  discovered :: bool
  backend :: "nat option"
  tip_height :: int
  tip_time :: "int result"

text \<open>
  The state: the sync data, the wallets, the calls to listeners so far, the closed channels, the next
  unused number, the wallets for which a transaction listener was started, and the notifications
  that wait for the end of indexing (with the argument \<open>synced\<close> they report).
\<close>

record sync_mw =
  sd :: syncData
  ws :: "swallet list"
  events :: "(string \<times> sync_event) list"
  closed :: "nat list"
  next_id :: nat
  listening :: "nat list"
  indexing :: "bool list"

definition publish :: "sync_event \<Rightarrow> sync_mw \<Rightarrow> sync_mw" where
  "publish ev s = s\<lparr>events := events s @ map (\<lambda>k. (k, ev)) (syncProgressListeners (sd s))\<rparr>"

definition upd_sd :: "(syncData \<Rightarrow> syncData) \<Rightarrow> sync_mw \<Rightarrow> sync_mw" where
  "upd_sd f s = s\<lparr>sd := f (sd s)\<rparr>"

text \<open>An access to the embedded \<open>activeSyncData\<close>, a panic when it is nil.\<close>

definition with_active :: "(activeSyncData \<Rightarrow> activeSyncData) \<Rightarrow> sync_mw \<Rightarrow> sync_mw result" where
  "with_active f s = (case active (sd s) of None \<Rightarrow> Inl nil_panic | Some a \<Rightarrow> Inr (upd_sd (\<lambda>d. d\<lparr>active := Some (f a)\<rparr>) s))"

definition find_wallet :: "sync_mw \<Rightarrow> nat \<Rightarrow> swallet option" where
  "find_wallet s i = find (\<lambda>w. sw_ID w = i) (ws s)"

definition upd_wallet :: "nat \<Rightarrow> (swallet \<Rightarrow> swallet) \<Rightarrow> sync_mw \<Rightarrow> sync_mw" where
  "upd_wallet i f s = s\<lparr>ws := map (\<lambda>w. if sw_ID w = i then f w else w) (ws s)\<rparr>"

definition new_active :: activeSyncData where
  "new_active = \<lparr>syncStage = InvalidSyncStage,
     headersFetchProgress = \<lparr>TotalSyncProgress = 0, TotalTimeRemainingSeconds = 0, TotalHeadersToFetch = 0,
       CurrentHeaderHeight = 0, CurrentHeaderTimestamp = 0, HeadersFetchProgress = 0\<rparr>,
     addressDiscoveryProgress = \<lparr>TotalSyncProgress = 0, TotalTimeRemainingSeconds = 0, AddressDiscoveryProgress = 0, adp_WalletID = 0\<rparr>,
     headersRescanProgress = \<lparr>TotalSyncProgress = 0, TotalTimeRemainingSeconds = 0, TotalHeadersToScan = 0,
       CurrentRescanHeight = 0, RescanProgress = 0, RescanTimeRemaining = 0, hrp_WalletID = 0\<rparr>,
     beginFetchTimeStamp = -1, startHeaderHeight = 0, headersFetchTimeSpent = -1, addressDiscoveryStartTime = -1,
     totalDiscoveryTimeSpent = -1, addressDiscoveryCompletedOrCanceled = None, rescanStartTime = 0,
     totalInactiveSeconds = 0, totalFetchedHeadersCount = 0\<rparr>"

definition initActiveSyncData :: "sync_mw \<Rightarrow> sync_mw" where
  "initActiveSyncData s = upd_sd (\<lambda>d. d\<lparr>active := Some new_active\<rparr>) s"

section \<open>Listeners\<close>

definition ErrListenerAlreadyExist :: string where "ErrListenerAlreadyExist = ''listener_already_exist''"

definition IsSyncProgressListenerRegisteredFor :: "sync_mw \<Rightarrow> string \<Rightarrow> bool" where
  "IsSyncProgressListenerRegisteredFor s uniqueIdentifier = (uniqueIdentifier \<in> set (syncProgressListeners (sd s)))"

definition PublishLastSyncProgress :: "sync_mw \<Rightarrow> string \<Rightarrow> sync_mw \<times> err option" where
  "PublishLastSyncProgress s uniqueIdentifier =
     (if uniqueIdentifier \<notin> set (syncProgressListeners (sd s)) then (s, Some (New ErrInvalid))
      else (case (sd_syncing (sd s), active (sd s)) of
          (True, Some a) \<Rightarrow>
            if syncStage a = HeadersFetchSyncStage then s\<lparr>events := events s @ [(uniqueIdentifier, OnHeadersFetchProgress (headersFetchProgress a))]\<rparr>
            else if syncStage a = AddressDiscoverySyncStage then s\<lparr>events := events s @ [(uniqueIdentifier, OnAddressDiscoveryProgress (addressDiscoveryProgress a))]\<rparr>
            else if syncStage a = HeadersRescanSyncStage then s\<lparr>events := events s @ [(uniqueIdentifier, OnHeadersRescanProgress (headersRescanProgress a))]\<rparr>
            else s
        | _ \<Rightarrow> s, None))"

definition AddSyncProgressListener :: "sync_mw \<Rightarrow> string \<Rightarrow> sync_mw \<times> err option" where
  "AddSyncProgressListener s uniqueIdentifier =
     (if IsSyncProgressListenerRegisteredFor s uniqueIdentifier then (s, Some (New ErrListenerAlreadyExist))
      else PublishLastSyncProgress
        (upd_sd (\<lambda>d. d\<lparr>syncProgressListeners := syncProgressListeners d @ [uniqueIdentifier]\<rparr>) s) uniqueIdentifier)"

definition RemoveSyncProgressListener :: "sync_mw \<Rightarrow> string \<Rightarrow> sync_mw" where
  "RemoveSyncProgressListener s uniqueIdentifier =
     upd_sd (\<lambda>d. d\<lparr>syncProgressListeners := filter (\<lambda>k. k \<noteq> uniqueIdentifier) (syncProgressListeners d)\<rparr>) s"

definition EnableSyncLogs :: "sync_mw \<Rightarrow> sync_mw" where
  "EnableSyncLogs s = upd_sd (\<lambda>d. d\<lparr>showLogs := True\<rparr>) s"

definition SyncInactiveForPeriod :: "sync_mw \<Rightarrow> int \<Rightarrow> sync_mw" where
  "SyncInactiveForPeriod s seconds =
     (case active (sd s) of
        None \<Rightarrow> s
      | Some a \<Rightarrow>
          if \<not> sd_syncing (sd s) then s
          else upd_sd (\<lambda>d. d\<lparr>active := Some (a\<lparr>totalInactiveSeconds :=
            int64_of (totalInactiveSeconds a + seconds + (if connectedPeers d = 0 then 60 else 0))\<rparr>)\<rparr>) s)"

section \<open>Queries\<close>

definition mw_IsSyncing :: "sync_mw \<Rightarrow> bool" where "mw_IsSyncing s = sd_syncing (sd s)"
definition mw_IsSynced :: "sync_mw \<Rightarrow> bool" where "mw_IsSynced s = sd_synced (sd s)"
definition w_IsWaiting :: "swallet \<Rightarrow> bool" where "w_IsWaiting w = waiting w"
definition w_IsSynced :: "swallet \<Rightarrow> bool" where "w_IsSynced w = synced_flag w"
definition w_IsSyncing :: "swallet \<Rightarrow> bool" where "w_IsSyncing w = syncing w"
definition IsConnectedToDecredNetwork :: "sync_mw \<Rightarrow> bool" where
  "IsConnectedToDecredNetwork s \<longleftrightarrow> sd_syncing (sd s) \<or> sd_synced (sd s)"
definition ConnectedPeers :: "sync_mw \<Rightarrow> int" where "ConnectedPeers s = connectedPeers (sd s)"

definition CurrentSyncStage :: "sync_mw \<Rightarrow> int result" where
  "CurrentSyncStage s =
     (if sd_syncing (sd s) then (case active (sd s) of None \<Rightarrow> Inl nil_panic | Some a \<Rightarrow> Inr (syncStage a))
      else Inr InvalidSyncStage)"

definition GeneralSyncProgress_of :: "sync_mw \<Rightarrow> GeneralSyncProgress option result" where
  "GeneralSyncProgress_of s =
     (if sd_syncing (sd s) then
        (case active (sd s) of
           None \<Rightarrow> Inl nil_panic
         | Some a \<Rightarrow>
             if syncStage a = HeadersFetchSyncStage then Inr (Some (GeneralSyncProgress.truncate (headersFetchProgress a)))
             else if syncStage a = AddressDiscoverySyncStage then Inr (Some (GeneralSyncProgress.truncate (addressDiscoveryProgress a)))
             else if syncStage a = HeadersRescanSyncStage then Inr (Some (GeneralSyncProgress.truncate (headersRescanProgress a)))
             else Inr None)
      else Inr None)"

definition w_GetBestBlock :: "swallet \<Rightarrow> int" where
  "w_GetBestBlock w = (if opened w then tip_height w else 0)"

definition GetBestBlockTimeStamp :: "swallet \<Rightarrow> int" where
  "GetBestBlockTimeStamp w = (if opened w then case tip_time w of Inl e \<Rightarrow> 0 | Inr t \<Rightarrow> t else 0)"

fun best_block :: "(int \<Rightarrow> int \<Rightarrow> bool) \<Rightarrow> int \<Rightarrow> BlockInfo option \<Rightarrow> swallet list \<Rightarrow> BlockInfo option" where
  "best_block better best info [] = info"
| "best_block better best info (w # rest) =
     (if \<not> opened w then best_block better best info rest
      else if better (w_GetBestBlock w) best \<or> best = -1 then
        best_block better (w_GetBestBlock w) (Some \<lparr>bi_Height = w_GetBestBlock w, bi_Timestamp = GetBestBlockTimeStamp w\<rparr>) rest
      else best_block better best info rest)"

definition GetBestBlock :: "sync_mw \<Rightarrow> BlockInfo option" where
  "GetBestBlock s = best_block (>) (-1) None (ws s)"

definition GetLowestBlock :: "sync_mw \<Rightarrow> BlockInfo option" where
  "GetLowestBlock s = best_block (<) (-1) None (ws s)"

fun lowest_timestamp :: "int \<Rightarrow> swallet list \<Rightarrow> int" where
  "lowest_timestamp t [] = t"
| "lowest_timestamp t (w # rest) =
     lowest_timestamp (if GetBestBlockTimeStamp w < t \<or> t = -1 then GetBestBlockTimeStamp w else t) rest"

definition GetLowestBlockTimestamp :: "sync_mw \<Rightarrow> int" where
  "GetLowestBlockTimestamp s = lowest_timestamp (-1) (ws s)"

definition OpenedWalletIDsRaw :: "sync_mw \<Rightarrow> nat list" where
  "OpenedWalletIDsRaw s = map sw_ID (filter opened (ws s))"

text \<open>\<open>json.Marshal\<close> of a list of numbers, which has no error.\<close>

fun comma_separated :: "string list \<Rightarrow> string" where
  "comma_separated [] = []"
| "comma_separated [t] = t"
| "comma_separated (t # ts) = t @ '','' @ comma_separated ts"

definition OpenedWalletIDs :: "sync_mw \<Rightarrow> string" where
  "OpenedWalletIDs s = ''['' @ comma_separated (map itoa (OpenedWalletIDsRaw s)) @ '']''"

definition OpenedWalletsCount :: "sync_mw \<Rightarrow> int" where
  "OpenedWalletsCount s = int32_of (int (length (OpenedWalletIDsRaw s)))"

definition SyncedWalletsCount :: "sync_mw \<Rightarrow> int" where
  "SyncedWalletsCount s = int32_of (int (length (filter (\<lambda>w. opened w \<and> synced_flag w) (ws s))))"

definition LoadedWalletsCount :: "sync_mw \<Rightarrow> int" where
  "LoadedWalletsCount s = int32_of (int (length (ws s)))"

section \<open>Callbacks (\<open>syncnotification.go\<close>)\<close>

definition handlePeerCountUpdate :: "int \<Rightarrow> sync_mw \<Rightarrow> sync_mw" where
  "handlePeerCountUpdate peerCount s =
     publish (OnPeerConnectedOrDisconnected peerCount) (upd_sd (\<lambda>d. d\<lparr>connectedPeers := peerCount\<rparr>) s)"

subsection \<open>Fetching headers\<close>

definition fetchHeadersStarted :: "int \<Rightarrow> int \<Rightarrow> sync_mw \<Rightarrow> sync_mw result" where
  "fetchHeadersStarted now peerInitialHeight s =
     (if \<not> mw_IsSyncing s then Inr s
      else case active (sd s) of
        None \<Rightarrow> Inl nil_panic
      | Some a \<Rightarrow>
          if beginFetchTimeStamp a \<noteq> -1 then Inr s
          else let s1 = s\<lparr>ws := map (\<lambda>w. w\<lparr>waiting := True\<rparr>) (ws s)\<rparr> in
            case GetLowestBlock s1 of
              None \<Rightarrow> Inl nil_panic
            | Some b \<Rightarrow> with_active (\<lambda>a. a\<lparr>syncStage := HeadersFetchSyncStage, beginFetchTimeStamp := now,
                startHeaderHeight := bi_Height b, totalFetchedHeadersCount := 0\<rparr>) s1)"

definition estimateBlockHeadersCountAfter :: "go_float \<Rightarrow> float64 \<Rightarrow> int \<Rightarrow> int \<Rightarrow> int" where
  "estimateBlockHeadersCountAfter G targetTimePerBlock now lastHeaderTime =
     int32_f G (f_Ceil (f_div (f_int (int64_of (now - lastHeaderTime))) targetTimePerBlock))"

definition DiscoveryPercentage :: float64 where "DiscoveryPercentage = fl (8 / 10)"
definition RescanPercentage :: float64 where "RescanPercentage = fl (1 / 10)"

text \<open>The estimates of \<open>fetchHeadersProgress\<close> from the progress and the seconds taken so far: the
  time to fetch all headers and the time of the whole sync.\<close>

definition headers_estimate :: "float64 \<Rightarrow> int \<Rightarrow> float64 \<times> float64" where
  "headers_estimate progress timeTakenSoFar =
     (let t = f_div (f_int timeTakenSoFar) progress;
          adjustmentFactor = f_mul (fl (1 / 2)) (f_sub (f_int 1) progress);
          fetch = f_add t (f_mul t adjustmentFactor);
          discovery = f_mul fetch DiscoveryPercentage;
          rescan = f_mul fetch RescanPercentage
      in (fetch, f_add (f_add fetch discovery) rescan))"

definition mw_fetchHeadersProgress :: "go_float \<Rightarrow> float64 \<Rightarrow> int \<Rightarrow> int \<Rightarrow> int \<Rightarrow> sync_mw \<Rightarrow> sync_mw result" where
  "mw_fetchHeadersProgress G targetTimePerBlock now lastFetchedHeaderHeight lastFetchedHeaderTime s =
     (if \<not> mw_IsSyncing s then Inr s
      else case active (sd s) of
        None \<Rightarrow> Inl nil_panic
      | Some a \<Rightarrow>
          if headersFetchTimeSpent a \<noteq> -1 then Inr s
          else let
            s1 = s\<lparr>ws := map (\<lambda>w. if waiting w then w\<lparr>waiting := w_GetBestBlock w > lastFetchedHeaderHeight\<rparr> else w) (ws s)\<rparr>;
            fetched = (if lastFetchedHeaderHeight > startHeaderHeight a
              then int32_of (lastFetchedHeaderHeight - startHeaderHeight a) else totalFetchedHeadersCount a);
            headersLeftToFetch = estimateBlockHeadersCountAfter G targetTimePerBlock now lastFetchedHeaderTime;
            totalHeadersToFetch = int32_of (lastFetchedHeaderHeight + headersLeftToFetch);
            progress = f_div (f_int fetched) (f_int totalHeadersToFetch);
            begin = int64_of (beginFetchTimeStamp a + totalInactiveSeconds a);
            timeTakenSoFar = max 1 (int64_of (now - begin));
            (fetchTime, syncTime) = headers_estimate progress timeTakenSoFar;
            totalSyncProgress = f_div (f_int timeTakenSoFar) syncTime;
            remaining = int64_of (int64_f G (f_Round syncTime) - timeTakenSoFar);
            a1 = a\<lparr>totalFetchedHeadersCount := fetched, beginFetchTimeStamp := begin, totalInactiveSeconds := 0,
              headersFetchProgress := (headersFetchProgress a)\<lparr>TotalHeadersToFetch := totalHeadersToFetch,
                CurrentHeaderHeight := lastFetchedHeaderHeight, CurrentHeaderTimestamp := lastFetchedHeaderTime,
                HeadersFetchProgress := roundUp G (f_mul progress (f_int 100)),
                TotalSyncProgress := roundUp G (f_mul totalSyncProgress (f_int 100)),
                TotalTimeRemainingSeconds := remaining\<rparr>\<rparr>;
            s2 = upd_sd (\<lambda>d. d\<lparr>active := Some a1\<rparr>) s1;
            s3 = publish (OnHeadersFetchProgress (headersFetchProgress a1)) s2
          in Inr (publish (Debug \<lparr>TotalTimeElapsed = timeTakenSoFar, TotalTimeRemaining = remaining,
               CurrentStageTimeElapsed = timeTakenSoFar,
               CurrentStageTimeRemaining = int64_f G (f_Round (f_sub fetchTime (f_int timeTakenSoFar)))\<rparr>) s3))"

definition mw_fetchHeadersFinished :: "int \<Rightarrow> sync_mw \<Rightarrow> sync_mw result" where
  "mw_fetchHeadersFinished now s =
     (if \<not> sd_syncing (sd s) then Inr s
      else with_active (\<lambda>a.
        let spent = int64_of (int64_of (now - beginFetchTimeStamp a) - totalInactiveSeconds a)
        in a\<lparr>startHeaderHeight := -1, totalFetchedHeadersCount := 0, totalInactiveSeconds := 0,
            headersFetchTimeSpent := (if spent < 150 then 150 else spent)\<rparr>) s)"

subsection \<open>Address discovery\<close>

text \<open>\<open>discoverAddressesStarted\<close> starts the goroutine \<open>updateAddressDiscoveryProgress\<close> with the
  returned time spent on headers, unless discovery is on.\<close>

definition discoverAddressesStarted :: "int \<Rightarrow> nat \<Rightarrow> sync_mw \<Rightarrow> (sync_mw \<times> float64 option) result" where
  "discoverAddressesStarted now walletID s =
     (if \<not> mw_IsSyncing s then Inr (s, None)
      else case active (sd s) of
        None \<Rightarrow> Inl nil_panic
      | Some a \<Rightarrow>
          if addressDiscoveryStartTime a \<noteq> -1 then Inr (s, None)
          else Inr (upd_sd (\<lambda>d. d\<lparr>active := Some (a\<lparr>syncStage := AddressDiscoverySyncStage, addressDiscoveryStartTime := now,
              addressDiscoveryProgress := (addressDiscoveryProgress a)\<lparr>adp_WalletID := walletID\<rparr>,
              addressDiscoveryCompletedOrCanceled := Some (next_id s)\<rparr>)\<rparr>) (s\<lparr>next_id := Suc (next_id s)\<rparr>),
            Some (f_int (headersFetchTimeSpent a))))"

text \<open>
  \<open>updateAddressDiscoveryProgress\<close> is a loop with two positions: before the test of the loop, and in
  the \<open>select\<close>, with the channel that it read there and the start time.  The field is read again in
  every round; \<open>None\<close> is a nil channel, which is never ready.
\<close>

datatype updater = UBegin | USelect "nat option" int | UStopped

definition updater_begin :: "sync_mw \<Rightarrow> (sync_mw \<times> updater) result" where
  "updater_begin s =
     (if \<not> mw_IsSyncing s then Inr (s, UStopped)
      else case active (sd s) of
        None \<Rightarrow> Inl nil_panic
      | Some a \<Rightarrow>
          let start = int64_of (addressDiscoveryStartTime a + totalInactiveSeconds a);
              a1 = a\<lparr>addressDiscoveryStartTime := start, totalInactiveSeconds := 0\<rparr>
          in Inr (upd_sd (\<lambda>d. d\<lparr>active := Some a1\<rparr>) s, USelect (addressDiscoveryCompletedOrCanceled a) start))"

definition updater_ready :: "sync_mw \<Rightarrow> nat option \<Rightarrow> bool" where
  "updater_ready s ch = (case ch of None \<Rightarrow> False | Some c \<Rightarrow> c \<in> set (closed s))"

text \<open>The estimates of one second of address discovery: its progress and the total progress in
  percent, the total seconds left, elapsed and left of the stage.\<close>

definition discovery_estimate :: "go_float \<Rightarrow> float64 \<Rightarrow> float64 \<Rightarrow> int \<times> int \<times> int \<times> DebugInfo" where
  "discovery_estimate G totalHeadersFetchTime elapsed =
     (let estimatedDiscoveryTime = f_mul totalHeadersFetchTime DiscoveryPercentage;
          estimatedRescanTime = f_mul totalHeadersFetchTime RescanPercentage;
          discoveryProgress = f_mul (f_div elapsed estimatedDiscoveryTime) (f_int 100);
          totalSyncTime = (if f_lt estimatedDiscoveryTime elapsed
            then f_add (f_add totalHeadersFetchTime elapsed) estimatedRescanTime
            else f_add (f_add totalHeadersFetchTime estimatedDiscoveryTime) estimatedRescanTime);
          totalElapsedTime = f_add totalHeadersFetchTime elapsed;
          totalProgress = f_mul (f_div totalElapsedTime totalSyncTime) (f_int 100);
          left = f_Round (f_sub estimatedDiscoveryTime elapsed);
          left = (if f_lt left (f_int 0) then f_int 0 else left);
          totalTimeRemainingSeconds = int64_f G (f_Round (f_add left estimatedRescanTime))
      in (roundUp G discoveryProgress, roundUp G totalProgress, totalTimeRemainingSeconds,
          \<lparr>TotalTimeElapsed = int64_f G (f_Round totalElapsedTime), TotalTimeRemaining = totalTimeRemainingSeconds,
           CurrentStageTimeElapsed = int64_f G (f_Round elapsed), CurrentStageTimeRemaining = int64_f G (f_Round left)\<rparr>))"

definition updater_tick :: "go_float \<Rightarrow> float64 \<Rightarrow> int \<Rightarrow> int \<Rightarrow> sync_mw \<Rightarrow> (sync_mw \<times> updater) result" where
  "updater_tick G totalHeadersFetchTime now start s =
     (let elapsed = f_int (int64_of (now - start)) in
      case discovery_estimate G totalHeadersFetchTime elapsed of
        (discovery, percent, remaining, debugInfo) \<Rightarrow>
          (case active (sd s) of
             None \<Rightarrow> Inl nil_panic
           | Some a \<Rightarrow>
               let a1 = a\<lparr>addressDiscoveryProgress := (addressDiscoveryProgress a)\<lparr>AddressDiscoveryProgress := discovery,
                     TotalSyncProgress := percent, TotalTimeRemainingSeconds := remaining\<rparr>\<rparr>
               in Inr (publish (Debug debugInfo) (publish (OnAddressDiscoveryProgress (addressDiscoveryProgress a1))
                    (upd_sd (\<lambda>d. d\<lparr>active := Some a1\<rparr>) s)), UBegin)))"

definition stopUpdatingAddressDiscoveryProgress :: "int \<Rightarrow> sync_mw \<Rightarrow> sync_mw" where
  "stopUpdatingAddressDiscoveryProgress now s =
     (case active (sd s) of
        None \<Rightarrow> s
      | Some a \<Rightarrow>
          (case addressDiscoveryCompletedOrCanceled a of
             None \<Rightarrow> s
           | Some c \<Rightarrow> upd_sd (\<lambda>d. d\<lparr>active := Some (a\<lparr>addressDiscoveryCompletedOrCanceled := None,
               totalDiscoveryTimeSpent := int64_of (now - addressDiscoveryStartTime a)\<rparr>)\<rparr>) (s\<lparr>closed := c # closed s\<rparr>)))"

definition mw_discoverAddressesFinished :: "int \<Rightarrow> nat \<Rightarrow> sync_mw \<Rightarrow> sync_mw" where
  "mw_discoverAddressesFinished now walletID s =
     (if \<not> mw_IsSyncing s then s else stopUpdatingAddressDiscoveryProgress now s)"

subsection \<open>Rescan\<close>

definition rescanStarted :: "int \<Rightarrow> nat \<Rightarrow> sync_mw \<Rightarrow> sync_mw result" where
  "rescanStarted now walletID s =
     (let s1 = stopUpdatingAddressDiscoveryProgress now s in
      if \<not> sd_syncing (sd s1) then Inr s1
      else with_active (\<lambda>a. a\<lparr>syncStage := HeadersRescanSyncStage, rescanStartTime := now,
        headersRescanProgress := (headersRescanProgress a)\<lparr>
          TotalTimeRemainingSeconds := TotalTimeRemainingSeconds (addressDiscoveryProgress a),
          TotalSyncProgress := TotalSyncProgress (addressDiscoveryProgress a), hrp_WalletID := walletID\<rparr>\<rparr>) s1)"

definition mw_rescanProgress :: "go_float \<Rightarrow> int \<Rightarrow> nat \<Rightarrow> int \<Rightarrow> sync_mw \<Rightarrow> sync_mw result" where
  "mw_rescanProgress G now walletID rescannedThrough s =
     (if \<not> mw_IsSyncing s then Inr s
      else case find_wallet s walletID of
        None \<Rightarrow> Inl nil_panic
      | Some wallet \<Rightarrow>
          (case active (sd s) of
             None \<Rightarrow> Inl nil_panic
           | Some a \<Rightarrow>
               let toScan = w_GetBestBlock wallet;
                   rescanRate = f_div (f_int rescannedThrough) (f_int toScan);
                   start = int64_of (rescanStartTime a + totalInactiveSeconds a);
                   elapsed = int64_of (now - start);
                   estimated = int64_f G (f_Round (f_div (f_int elapsed) rescanRate));
                   remaining = int64_of (estimated - elapsed);
                   spent = int64_of (headersFetchTimeSpent a + totalDiscoveryTimeSpent a);
                   totalElapsed = int64_of (spent + elapsed);
                   r = (headersRescanProgress a)\<lparr>hrp_WalletID := walletID, TotalHeadersToScan := toScan,
                     RescanProgress := int32_f G (f_Round (f_mul rescanRate (f_int 100))),
                     CurrentRescanHeight := rescannedThrough, RescanTimeRemaining := remaining\<rparr>;
                   r = (if elapsed > 0 then r\<lparr>TotalTimeRemainingSeconds := remaining,
                     TotalSyncProgress := int32_f G (f_Round (f_mul (f_div (f_int totalElapsed) (f_int (int64_of (spent + estimated)))) (f_int 100)))\<rparr> else r);
                   s1 = upd_sd (\<lambda>d. d\<lparr>active := Some (a\<lparr>rescanStartTime := start, totalInactiveSeconds := 0, headersRescanProgress := r\<rparr>)\<rparr>) s
               in Inr (publish (Debug \<lparr>TotalTimeElapsed = totalElapsed, TotalTimeRemaining = remaining,
                    CurrentStageTimeElapsed = elapsed, CurrentStageTimeRemaining = remaining\<rparr>)
                    (publish (OnHeadersRescanProgress r) s1))))"

definition mw_rescanFinished :: "nat \<Rightarrow> sync_mw \<Rightarrow> sync_mw result" where
  "mw_rescanFinished walletID s =
     (if \<not> mw_IsSyncing s then Inr s
      else case active (sd s) of
        None \<Rightarrow> Inl nil_panic
      | Some a \<Rightarrow>
          let r = (headersRescanProgress a)\<lparr>hrp_WalletID := walletID, TotalTimeRemainingSeconds := 0, TotalSyncProgress := 100\<rparr>
          in Inr (publish (OnHeadersRescanProgress r) (upd_sd (\<lambda>d. d\<lparr>active := Some (a\<lparr>headersRescanProgress := r,
               addressDiscoveryStartTime := -1, totalDiscoveryTimeSpent := -1\<rparr>)\<rparr>) s)))"

subsection \<open>The end of a sync\<close>

definition notifySyncError :: "err \<Rightarrow> sync_mw \<Rightarrow> sync_mw" where
  "notifySyncError e s = publish (OnSyncEndedWithError e) s"

definition notifySyncCanceled :: "sync_mw \<Rightarrow> sync_mw" where
  "notifySyncCanceled s = publish (OnSyncCanceled (restartSyncRequested (sd s))) s"

text \<open>\<open>LockWallet\<close> of a wallet that is not opened dereferences a nil pointer.\<close>

definition LockWallet :: "swallet \<Rightarrow> swallet result" where
  "LockWallet w = (if \<not> opened w then Inl nil_panic else Inr (w\<lparr>locked := True\<rparr>))"

definition resetSyncData :: "int \<Rightarrow> sync_mw \<Rightarrow> sync_mw result" where
  "resetSyncData now s =
     (let s1 = upd_sd (\<lambda>d. d\<lparr>sd_syncing := False, sd_synced := False, cancelSync := None, syncCanceled := None, active := None\<rparr>)
            (stopUpdatingAddressDiscoveryProgress now s)
      in if list_all opened (ws s1) then Inr (s1\<lparr>ws := map (\<lambda>w. w\<lparr>waiting := True, locked := True\<rparr>) (ws s1)\<rparr>)
         else Inl nil_panic)"

text \<open>
  The callback \<open>synced\<close>.  The error of saving the discovery flag is only logged.  When all opened
  wallets are synced, the transactions are indexed and the listeners are notified afterwards
  (\<open>indexing_done\<close>).
\<close>

definition mw_synced :: "nat \<Rightarrow> bool \<Rightarrow> sync_mw \<Rightarrow> sync_mw result" where
  "mw_synced walletID synced s =
     (if sd_synced (sd s) \<and> synced then Inr s
      else case find_wallet s walletID of
        None \<Rightarrow> Inl nil_panic
      | Some wallet \<Rightarrow>
          if \<not> opened wallet then Inl nil_panic
          else let
            s1 = upd_wallet walletID (\<lambda>w. w\<lparr>synced_flag := synced, syncing := False\<rparr>) (s\<lparr>listening := walletID # listening s\<rparr>);
            s2 = (if \<not> locked wallet then upd_wallet walletID (\<lambda>w. w\<lparr>locked := True, discovered := True\<rparr>) s1 else s1)
          in Inr (if OpenedWalletsCount s2 = SyncedWalletsCount s2
            then (upd_sd (\<lambda>d. d\<lparr>sd_syncing := False, sd_synced := True\<rparr>) s2)\<lparr>indexing := indexing s2 @ [synced]\<rparr> else s2))"

definition indexing_done :: "sync_mw \<Rightarrow> sync_mw" where
  "indexing_done s =
     (case indexing s of
        [] \<Rightarrow> s
      | synced # rest \<Rightarrow> publish (if synced then OnSyncCompleted else OnSyncCanceled False) (s\<lparr>indexing := rest\<rparr>))"

section \<open>Progress in range\<close>

lemma percentages:
  "\<exists>c. DiscoveryPercentage = Fin c \<and> 0 < c" "\<exists>c. RescanPercentage = Fin c \<and> 0 < c"
proof -
  show "\<exists>c. DiscoveryPercentage = Fin c \<and> 0 < c"
    using fl_pos [of "-1" "8 / 10" 1] unfolding DiscoveryPercentage_def by (fastforce simp: power_int_minus)
  show "\<exists>c. RescanPercentage = Fin c \<and> 0 < c"
    using fl_pos [of "-4" "1 / 10" 1] unfolding RescanPercentage_def by (fastforce simp: power_int_minus)
qed

text \<open>The estimated time of the whole sync is at least the time taken so far.\<close>

lemma headers_estimate_at_least:
  assumes "p = Fin v" and "v = 0 \<or> 2 powi (-31) \<le> v \<and> v \<le> 1" and "1 \<le> taken" and "taken \<le> 2 ^ 53"
  shows "at_least (of_int taken) (snd (headers_estimate p taken))"
proof -
  define t where "t = f_div (f_int taken) p"
  define adj where "adj = f_mul (fl (1 / 2)) (f_sub (f_int 1) p)"
  define fetch where "fetch = f_add t (f_mul t adj)"
  have taken: "f_int taken = Fin (of_int taken)" "f_int 1 = Fin 1" using assms(3,4) f_int_exact [of taken] f_int_exact [of 1] by simp_all
  have "at_least (of_int taken) t \<and> at_least 0 (f_mul t adj)"
  proof (cases "v = 0")
    case True
    have "fl 1 = Fin 1" using f_int_exact [of 1] by (simp add: f_int_def)
    then have "adj = Fin (1 / 2)" by (simp add: adj_def taken assms(1) True f_sub_def fl_half f_mul_def)
    moreover have "t = Inf False" using assms(3) by (simp add: t_def taken assms(1) True f_div_def)
    ultimately show ?thesis by (simp add: f_mul_def at_least_def)
  next
    case False
    with assms(2) have v: "2 powi (-31) \<le> v" "v \<le> 1" by auto
    then have v0: "0 < v" by (metis order_less_le_trans zero_less_numeral zero_less_power_int)
    have q: "of_int taken \<le> of_int taken / v" using v v0 assms(3) by (simp add: field_simps)
    have t: "t = fl (of_int taken / v)" using v0 assms(3) by (simp add: t_def taken assms(1) f_div_def)
    have "at_least (of_int taken) t" unfolding t using q assms(3,4) v0 by (intro fl_at_least) auto
    moreover have "\<exists>u. t = Fin u"
    proof -
      have "(of_int taken :: rat) \<le> of_int (2 ^ 53)" using assms(4) by (simp only: of_int_le_iff)
      then have "of_int taken / v \<le> 2 ^ 53 / 2 powi (-31)" using v(1) by (intro frac_le) simp_all
      also have "\<dots> = 2 powi 84" by (simp add: power_int_minus)
      finally have b: "of_int taken / v \<le> 2 powi 84" .
      let ?x = "of_int taken / v"
      have p: "0 < ?x" using v0 assms(3) by simp
      from elog_bounds [OF p] b have "2 powi elog ?x \<le> (2 :: rat) powi 84" by (meson order_trans)
      then have "elog ?x \<le> 84" by (simp only: powi2_le)
      then have "ulp_exp ?x \<le> 84" by (simp add: ulp_exp_def)
      then have "fl_mag ?x \<le> 2 powi 84" by (intro fl_mag_le_pow p b)
      moreover have "fl_val ?x = fl_mag ?x" using p by (rule fl_val_pos)
      moreover have "(2 :: rat) powi 84 < 2 powi 1024" by (simp only: powi2_less)
      ultimately show ?thesis using p fl_val_nonneg [of ?x] unfolding t by (auto simp: fl_def Let_def)
    qed
    moreover have "in_range 1 adj"
    proof -
      have "f_sub (f_int 1) p = fl (1 - v)" using False by (simp add: taken assms(1) f_sub_def)
      moreover have "in_range (of_int 1) (fl (1 - v))" using v(2) v0 by (intro fl_in_range) auto
      ultimately have "in_range (of_int 1) (f_sub (f_int 1) p)" by metis
      moreover have "in_range (of_int 1) (fl (1 / 2))" by (intro fl_in_range) auto
      ultimately show ?thesis using f_mul_in_range [of 1 "fl (1 / 2)" 1] by (simp add: adj_def)
    qed
    ultimately obtain u w where "t = Fin u" "of_int taken \<le> u" "adj = Fin w" "0 \<le> w" by (auto simp: in_range_def at_least_def)
    moreover from this have "0 \<le> u" using assms(3) by (meson of_int_0_le_iff order_trans zero_le_one)
    ultimately show ?thesis using f_mul_fin [of u w] \<open>at_least (of_int taken) t\<close> by simp
  qed
  then have f: "at_least (of_int taken) fetch" unfolding fetch_def using assms(3,4) by (intro f_add_at_least) auto
  then have f0: "at_least 0 fetch" by (rule at_least_weaken) (use assms(3) in simp)
  have "at_least 0 (f_mul fetch DiscoveryPercentage)" "at_least 0 (f_mul fetch RescanPercentage)"
    using percentages f_mul_pos [OF f0] by metis+
  with f assms(3,4) have "at_least (of_int taken) (f_add (f_add fetch (f_mul fetch DiscoveryPercentage)) (f_mul fetch RescanPercentage))"
    by (intro f_add_at_least) auto
  then show ?thesis by (simp add: headers_estimate_def Let_def fetch_def t_def adj_def)
qed

lemma percent_in_range:
  assumes "in_range 1 x"
  shows "0 \<le> roundUp G (f_mul x (f_int 100)) \<and> roundUp G (f_mul x (f_int 100)) \<le> 100"
proof -
  have "in_range (of_int 100) (f_int 100)" using f_int_exact [of 100] by (simp add: in_range_def)
  with assms have "in_range (of_int (1 * 100)) (f_mul x (f_int 100))" by (intro f_mul_in_range) simp_all
  then show ?thesis using int32_round_in_range [of 100] by (simp add: roundUp_def)
qed

lemma progress_value:
  assumes "0 \<le> f" and "f \<le> T" and "0 < T" and "T < 2 ^ 31"
  shows "\<exists>v. f_div (f_int f) (f_int T) = Fin v \<and> (v = 0 \<or> 2 powi (-31) \<le> v \<and> v \<le> 1)"
proof -
  have fi: "f_int f = Fin (of_int f)" "f_int T = Fin (of_int T)" using assms by (auto intro!: f_int_exact)
  show ?thesis
  proof (cases "f = 0")
    case True
    then show ?thesis using assms(3) f_int_exact [of 0] by (simp add: fi f_div_def fzero_def)
  next
    case False
    have "2 powi (-31) = 1 / (2 :: rat) ^ 31" by (simp add: power_int_minus)
    also have "\<dots> \<le> of_int f / of_int T"
    proof (rule frac_le)
      show "(of_int T :: rat) \<le> 2 ^ 31" using assms(4) by (metis less_imp_le of_int_le_iff of_int_numeral of_int_power)
    qed (use False assms in auto)
    finally have "\<exists>v. fl (of_int f / of_int T) = Fin v \<and> 2 powi (-31) \<le> v \<and> v \<le> of_int 1"
      using assms by (intro fl_pos) auto
    then show ?thesis using False assms by (auto simp: fi f_div_def)
  qed
qed

text \<open>The report of \<open>fetchHeadersProgress\<close>, field by field.\<close>

lemma mw_fetchHeadersProgress_report:
  fixes G tpb now h lastTime s a
  defines "fetched \<equiv> if h > startHeaderHeight a then int32_of (h - startHeaderHeight a) else totalFetchedHeadersCount a"
    and "toFetch \<equiv> int32_of (h + estimateBlockHeadersCountAfter G tpb now lastTime)"
    and "taken \<equiv> max 1 (int64_of (now - int64_of (beginFetchTimeStamp a + totalInactiveSeconds a)))"
  assumes "mw_IsSyncing s" and "active (sd s) = Some a" and "headersFetchTimeSpent a = -1"
  shows "\<exists>s' a'. mw_fetchHeadersProgress G tpb now h lastTime s = Inr s' \<and> active (sd s') = Some a' \<and>
    HeadersFetchProgress (headersFetchProgress a') = roundUp G (f_mul (f_div (f_int fetched) (f_int toFetch)) (f_int 100)) \<and>
    TotalSyncProgress (headersFetchProgress a') =
      roundUp G (f_mul (f_div (f_int taken) (snd (headers_estimate (f_div (f_int fetched) (f_int toFetch)) taken))) (f_int 100)) \<and>
    TotalTimeRemainingSeconds (headersFetchProgress a') =
      int64_of (int64_f G (f_Round (snd (headers_estimate (f_div (f_int fetched) (f_int toFetch)) taken))) - taken)"
  using assms(4-6) by (simp add: mw_fetchHeadersProgress_def Let_def publish_def upd_sd_def fetched_def toFetch_def taken_def split: prod.split)

section \<open>Properties\<close>

text \<open>
  C23.  The percentages of \<open>fetchHeadersProgress\<close>, computed with rounded floating point numbers, are
  between 0 and 100: when the heights are sensible (the first height is not negative and not above the
  h fetched one, the estimated total is an \<open>int32\<close>) and less than \<open>2 ^ 53\<close> seconds have passed, the
  callback does not panic and reports both percentages in range, also when no header was fetched.
\<close>

theorem headers_progress_in_range:
  assumes "mw_IsSyncing s" and "active (sd s) = Some a" and "headersFetchTimeSpent a = -1"
    and "0 \<le> startHeaderHeight a" and "startHeaderHeight a \<le> h" and "0 < h"
    and "0 \<le> totalFetchedHeadersCount a" and "totalFetchedHeadersCount a \<le> h"
    and "0 \<le> estimateBlockHeadersCountAfter G tpb now lastTime"
    and "h + estimateBlockHeadersCountAfter G tpb now lastTime < 2 ^ 31"
    and "int64_of (now - int64_of (beginFetchTimeStamp a + totalInactiveSeconds a)) \<le> 2 ^ 53"
  shows "\<exists>s' a'. mw_fetchHeadersProgress G tpb now h lastTime s = Inr s' \<and> active (sd s') = Some a' \<and>
    HeadersFetchProgress (headersFetchProgress a') \<in> {0..100} \<and> TotalSyncProgress (headersFetchProgress a') \<in> {0..100}"
proof -
  let ?left = "estimateBlockHeadersCountAfter G tpb now lastTime"
  define fetched where "fetched = (if h > startHeaderHeight a then int32_of (h - startHeaderHeight a) else totalFetchedHeadersCount a)"
  define toFetch where "toFetch = int32_of (h + ?left)"
  define taken where "taken = max 1 (int64_of (now - int64_of (beginFetchTimeStamp a + totalInactiveSeconds a)))"
  have T: "toFetch = h + ?left" unfolding toFetch_def using assms(6,9,10) by (intro int32_of_id) (simp add: is_int32_def)
  have "int32_of (h - startHeaderHeight a) = h - startHeaderHeight a"
    using assms(4-6,9,10) by (intro int32_of_id) (simp add: is_int32_def)
  then have "0 \<le> fetched" "fetched \<le> toFetch" "0 < toFetch" "toFetch < 2 ^ 31"
    using assms(4-10) unfolding T fetched_def by auto
  then obtain v where v: "f_div (f_int fetched) (f_int toFetch) = Fin v" "v = 0 \<or> 2 powi (-31) \<le> v \<and> v \<le> 1"
    using progress_value by blast
  have taken: "1 \<le> taken" "taken \<le> 2 ^ 53" using assms(11) by (auto simp: taken_def)
  have p: "in_range 1 (f_div (f_int fetched) (f_int toFetch))"
    unfolding v(1) in_range_def using v(2) by (auto intro: order_trans [OF less_imp_le [OF zero_less_power_int]])
  have "in_range 1 (f_div (f_int taken) (snd (headers_estimate (f_div (f_int fetched) (f_int toFetch)) taken)))"
    using headers_estimate_at_least [OF v taken] taken unfolding f_int_exact [of taken, OF order_trans [OF zero_le_one taken(1)] taken(2)]
    by (intro f_div_in_range) auto
  from percent_in_range [OF p, of G] percent_in_range [OF this, of G]
    mw_fetchHeadersProgress_report [OF assms(1-3), of G tpb now h lastTime, folded fetched_def toFetch_def taken_def]
  show ?thesis by auto
qed

text \<open>A sync in the header stage, with a block time of five minutes.\<close>

definition ex_active :: activeSyncData where
  "ex_active = new_active\<lparr>syncStage := HeadersFetchSyncStage, beginFetchTimeStamp := 1000, startHeaderHeight := 10\<rparr>"

definition ex_sync :: sync_mw where
  "ex_sync = \<lparr>sd = \<lparr>syncProgressListeners = [''ui''], showLogs = False, sd_synced = False, sd_syncing = True,
     cancelSync = Some 0, cancelRescan = None, syncCanceled = Some 0, restartSyncRequested = False, rescanning = False,
     connectedPeers = 1, active = Some ex_active\<rparr>,
     ws = [\<lparr>sw_ID = 1, opened = True, locked = False, waiting = True, syncing = True, synced_flag = False, discovered = False,
       backend = Some 0, tip_height = 10, tip_time = Inr 900\<rparr>],
     events = [], closed = [], next_id = 1, listening = [], indexing = []\<rparr>"

definition ex_G :: go_float where
  "ex_G = \<lparr>cvt32 = (\<lambda>x. 0), cvt64 = (\<lambda>x. - (2 ^ 63))\<rparr>"

lemma ex_sync_simps [simp]:
  "mw_IsSyncing ex_sync" "active (sd ex_sync) = Some ex_active" "headersFetchTimeSpent ex_active = -1"
  "startHeaderHeight ex_active = 10" "totalFetchedHeadersCount ex_active = 0" "beginFetchTimeStamp ex_active = 1000"
  "totalInactiveSeconds ex_active = 0"
  by (simp_all add: mw_IsSyncing_def ex_sync_def ex_active_def new_active_def)

lemma ex_estimate: "estimateBlockHeadersCountAfter ex_G (f_int 300) 2000 2000 = 0"
proof -
  have "f_int 0 = Fin 0" "f_int 300 = Fin 300" using f_int_exact [of 0] f_int_exact [of 300] by simp_all
  then show ?thesis
    by (simp add: estimateBlockHeadersCountAfter_def int64_of_def f_div_def fzero_def int32_f_def trunc_def is_int32_def)
qed

theorem headers_progress_in_range_witness:
  "\<exists>s' a'. mw_fetchHeadersProgress ex_G (f_int 300) 2000 40 2000 ex_sync = Inr s' \<and> active (sd s') = Some a' \<and>
    HeadersFetchProgress (headersFetchProgress a') \<in> {0..100} \<and> TotalSyncProgress (headersFetchProgress a') \<in> {0..100}"
  by (rule headers_progress_in_range [of ex_sync ex_active]) (simp_all add: ex_estimate int64_of_id is_int64_def)

text \<open>
  While no header of this sync was fetched the progress is zero, the estimated time of the sync
  is infinite, and the reported number of seconds left is the conversion of infinity to \<open>int64\<close>, which
  Go leaves to the processor, less the seconds taken.
\<close>

theorem no_headers_no_estimate:
  assumes "mw_IsSyncing s" and "active (sd s) = Some a" and "headersFetchTimeSpent a = -1"
    and "h \<le> startHeaderHeight a" and "totalFetchedHeadersCount a = 0"
    and "0 < int32_of (h + estimateBlockHeadersCountAfter G tpb now lastTime)"
    and "int64_of (now - int64_of (beginFetchTimeStamp a + totalInactiveSeconds a)) \<le> 2 ^ 53"
  shows "\<exists>s' a'. mw_fetchHeadersProgress G tpb now h lastTime s = Inr s' \<and> active (sd s') = Some a' \<and>
    TotalTimeRemainingSeconds (headersFetchProgress a') = int64_of (int64_of (cvt64 G (Inf False)) -
      max 1 (int64_of (now - int64_of (beginFetchTimeStamp a + totalInactiveSeconds a))))"
proof -
  define toFetch where "toFetch = int32_of (h + estimateBlockHeadersCountAfter G tpb now lastTime)"
  define taken where "taken = max 1 (int64_of (now - int64_of (beginFetchTimeStamp a + totalInactiveSeconds a)))"
  have T: "0 < toFetch" "toFetch < 2 ^ 31" using assms(6) is_int32_int32_of unfolding toFetch_def is_int32_def by auto
  have taken: "1 \<le> taken" "taken \<le> 2 ^ 53" using assms(7) by (auto simp: taken_def)
  have z: "f_div (f_int 0) (f_int toFetch) = Fin 0"
    using T f_int_exact [of 0] f_int_exact [of toFetch] by (simp add: f_div_def fzero_def)
  have one: "fl 1 = Fin 1" "f_int 1 = Fin 1" using f_int_exact [of 1] by (simp_all add: f_int_def)
  have "f_div (f_int taken) (Fin 0) = Inf False" using taken f_int_exact [of taken] by (simp add: f_div_def)
  moreover have "f_mul (fl (1 / 2)) (f_sub (f_int 1) (Fin 0)) = Fin (1 / 2)" by (simp add: one f_sub_def fl_half f_mul_def)
  moreover have "f_mul (Inf False) DiscoveryPercentage = Inf False" "f_mul (Inf False) RescanPercentage = Inf False"
    using percentages f_mul_Inf by metis+
  ultimately have "snd (headers_estimate (Fin 0) taken) = Inf False" by (simp add: headers_estimate_def Let_def f_mul_Inf)
  then have "int64_f G (f_Round (snd (headers_estimate (Fin 0) taken))) = int64_of (cvt64 G (Inf False))"
    by (simp add: int64_f_def)
  with mw_fetchHeadersProgress_report [OF assms(1-3), of G tpb now h lastTime, folded toFetch_def taken_def] assms(4,5) z
  show ?thesis by (auto simp: taken_def [symmetric])
qed

theorem no_headers_no_estimate_witness:
  "\<exists>s' a'. mw_fetchHeadersProgress ex_G (f_int 300) 2000 10 2000 ex_sync = Inr s' \<and> active (sd s') = Some a' \<and>
    TotalTimeRemainingSeconds (headersFetchProgress a') = 9223372036854774808"
proof -
  have "0 < int32_of (10 + estimateBlockHeadersCountAfter ex_G (f_int 300) 2000 2000)"
    unfolding ex_estimate by (simp add: int32_of_id is_int32_def)
  from no_headers_no_estimate [of ex_sync ex_active 10, OF _ _ _ _ _ this]
  show ?thesis by (simp add: int64_of_id is_int64_def ex_G_def) (simp add: int64_of_def)
qed

section \<open>Counting wallets\<close>

lemma filter_length_eq:
  "length (filter P xs) = length (filter (\<lambda>x. P x \<and> Q x) xs) \<longleftrightarrow> (\<forall>x \<in> set xs. P x \<longrightarrow> Q x)"
proof (induction xs)
  case (Cons x xs)
  have "length (filter (\<lambda>x. P x \<and> Q x) xs) \<le> length (filter P xs)" by (induction xs) auto
  with Cons show ?case by auto
qed simp

lemma int32_of_length: "length xs < 2 ^ 31 \<Longrightarrow> int32_of (int (length (filter P xs))) = int (length (filter P xs))"
  using order_le_less_trans [OF length_filter_le] by (intro int32_of_id) (auto simp: is_int32_def)

lemma counts_agree:
  assumes "length (ws s) < 2 ^ 31"
  shows "OpenedWalletsCount s = SyncedWalletsCount s \<longleftrightarrow> (\<forall>w \<in> set (ws s). opened w \<longrightarrow> synced_flag w)"
  using assms by (simp add: OpenedWalletsCount_def SyncedWalletsCount_def OpenedWalletIDsRaw_def int32_of_length filter_length_eq)

section \<open>Properties of the synced callback\<close>

text \<open>The report of a wallet, recorded.\<close>

definition recorded :: "nat \<Rightarrow> bool \<Rightarrow> bool \<Rightarrow> swallet \<Rightarrow> swallet" where
  "recorded i b was_locked v = (if sw_ID v = i then if was_locked then v\<lparr>synced_flag := b, syncing := False\<rparr>
    else v\<lparr>synced_flag := b, syncing := False, locked := True, discovered := True\<rparr> else v)"

lemma recorded_simps [simp]:
  "sw_ID (recorded i b l v) = sw_ID v" "opened (recorded i b l v) = opened v"
  "synced_flag (recorded i b l v) = (if sw_ID v = i then b else synced_flag v)"
  "syncing (recorded i b l v) = (sw_ID v \<noteq> i \<and> syncing v)"
  "locked (recorded i b l v) = (locked v \<or> sw_ID v = i \<and> \<not> l)"
  by (auto simp: recorded_def)

lemma mw_synced_records:
  assumes "find_wallet s i = Some w" and "opened w" and "\<not> (sd_synced (sd s) \<and> b)"
  shows "mw_synced i b s = (let s2 = s\<lparr>listening := i # listening s, ws := map (recorded i b (locked w)) (ws s)\<rparr> in
    Inr (if OpenedWalletsCount s2 = SyncedWalletsCount s2
      then (upd_sd (\<lambda>d. d\<lparr>sd_syncing := False, sd_synced := True\<rparr>) s2)\<lparr>indexing := indexing s2 @ [b]\<rparr> else s2))"
proof -
  let ?s2 = "let s1 = upd_wallet i (\<lambda>w. w\<lparr>synced_flag := b, syncing := False\<rparr>) (s\<lparr>listening := i # listening s\<rparr>)
    in if \<not> locked w then upd_wallet i (\<lambda>w. w\<lparr>locked := True, discovered := True\<rparr>) s1 else s1"
  have e: "?s2 = s\<lparr>listening := i # listening s, ws := map (recorded i b (locked w)) (ws s)\<rparr>"
    by (auto simp: upd_wallet_def recorded_def Let_def)
  have "mw_synced i b s = (let s2 = ?s2 in Inr (if OpenedWalletsCount s2 = SyncedWalletsCount s2
      then (upd_sd (\<lambda>d. d\<lparr>sd_syncing := False, sd_synced := True\<rparr>) s2)\<lparr>indexing := indexing s2 @ [b]\<rparr> else s2))"
    unfolding mw_synced_def Let_def using assms by (simp only: if_False option.case simp_thms)
  then show ?thesis unfolding e .
qed



text \<open>
  A wallet that loses its sync stays unsynced.  When the sync is complete and an opened wallet
  reports that it is no longer synced, its flag is cleared while the multi-wallet remains synced; the
  next report that the wallet is synced again is ignored, so the flag is not set any more.
\<close>

theorem lost_sync_is_not_regained:
  assumes "sd_synced (sd s)" and "find_wallet s i = Some w" and "opened w"
  shows "\<exists>s'. mw_synced i False s = Inr s' \<and> sd_synced (sd s') \<and> mw_synced i True s' = Inr s' \<and>
    (\<forall>v \<in> set (ws s'). sw_ID v = i \<longrightarrow> \<not> synced_flag v)"
proof -
  let ?s2 = "s\<lparr>listening := i # listening s, ws := map (recorded i False (locked w)) (ws s)\<rparr>"
  have "\<forall>v \<in> set (ws ?s2). sw_ID v = i \<longrightarrow> \<not> synced_flag v" by simp
  moreover have "sd_synced (sd t) \<Longrightarrow> mw_synced i True t = Inr t" for t by (simp add: mw_synced_def)
  ultimately show ?thesis using mw_synced_records [OF assms(2,3), of False] assms(1) by (simp add: Let_def upd_sd_def)
qed

theorem lost_sync_is_not_regained_witness:
  "let s = upd_sd (\<lambda>d. d\<lparr>sd_syncing := False, sd_synced := True\<rparr>) ex_sync in
   \<exists>s'. mw_synced 1 False s = Inr s' \<and> sd_synced (sd s') \<and> mw_synced 1 True s' = Inr s' \<and>
    (\<forall>v \<in> set (ws s'). sw_ID v = 1 \<longrightarrow> \<not> synced_flag v)"
  unfolding Let_def by (rule lost_sync_is_not_regained [of _ _ "hd (ws ex_sync)"]) (simp_all add: upd_sd_def ex_sync_def find_wallet_def)

section \<open>The lowest and the best block\<close>

definition block_of :: "swallet \<Rightarrow> BlockInfo" where
  "block_of w = \<lparr>bi_Height = w_GetBestBlock w, bi_Timestamp = GetBestBlockTimeStamp w\<rparr>"

lemma best_block_spec:
  assumes "\<forall>w \<in> set wsl. opened w \<longrightarrow> 0 \<le> tip_height w" and trans: "\<forall>x y z. better x y \<longrightarrow> better y z \<longrightarrow> better x z"
    and "\<forall>x y. better x y \<or> x = y \<or> better y x"
    and "case info of None \<Rightarrow> best = -1 | Some b \<Rightarrow> bi_Height b = best \<and> 0 \<le> best"
  shows "case best_block better best info wsl of
      None \<Rightarrow> info = None \<and> (\<forall>w \<in> set wsl. \<not> opened w)
    | Some b \<Rightarrow> (Some b = info \<or> (\<exists>w \<in> set wsl. opened w \<and> b = block_of w)) \<and>
        (\<forall>w \<in> set wsl. opened w \<longrightarrow> bi_Height b = tip_height w \<or> better (bi_Height b) (tip_height w)) \<and>
        (\<forall>i. info = Some i \<longrightarrow> bi_Height b = bi_Height i \<or> better (bi_Height b) (bi_Height i))"
  using assms(1,4)
proof (induction wsl arbitrary: best info)
  case Nil
  then show ?case by (simp split: option.split)
next
  case (Cons w wsl)
  show ?case
  proof (cases "opened w \<and> (better (tip_height w) best \<or> best = -1)")
    case True
    let ?info = "Some (block_of w)"
    have hb: "bi_Height (block_of w) = tip_height w" using True by (simp add: block_of_def w_GetBestBlock_def)
    have IH: "case best_block better (tip_height w) ?info wsl of None \<Rightarrow> False
      | Some b \<Rightarrow> (Some b = ?info \<or> (\<exists>w \<in> set wsl. opened w \<and> b = block_of w)) \<and>
        (\<forall>w \<in> set wsl. opened w \<longrightarrow> bi_Height b = tip_height w \<or> better (bi_Height b) (tip_height w)) \<and>
        (bi_Height b = tip_height w \<or> better (bi_Height b) (tip_height w))"
      using Cons.IH [of "tip_height w" ?info] Cons.prems(1) True hb by (auto split: option.splits)
    have e: "best_block better best info (w # wsl) = best_block better (tip_height w) ?info wsl"
      using True by (simp add: w_GetBestBlock_def block_of_def)
    from IH obtain b where b: "best_block better (tip_height w) ?info wsl = Some b" by (auto split: option.splits)
    have old: "bi_Height b = bi_Height i \<or> better (bi_Height b) (bi_Height i)" if "info = Some i" for i
      using that IH b True Cons.prems(2) assms(2) by (auto split: option.splits)
    show ?thesis unfolding e b using IH b old True by auto
  next
    case False
    then have e: "best_block better best info (w # wsl) = best_block better best info wsl"
      by (auto simp: w_GetBestBlock_def)
    have IH: "case best_block better best info wsl of
      None \<Rightarrow> info = None \<and> (\<forall>w \<in> set wsl. \<not> opened w)
    | Some b \<Rightarrow> (Some b = info \<or> (\<exists>w \<in> set wsl. opened w \<and> b = block_of w)) \<and>
        (\<forall>w \<in> set wsl. opened w \<longrightarrow> bi_Height b = tip_height w \<or> better (bi_Height b) (tip_height w)) \<and>
        (\<forall>i. info = Some i \<longrightarrow> bi_Height b = bi_Height i \<or> better (bi_Height b) (bi_Height i))"
      using Cons.prems by (intro Cons.IH) auto
    have w: "opened w \<longrightarrow> (\<exists>i. info = Some i \<and> (bi_Height i = tip_height w \<or> better (bi_Height i) (tip_height w)))"
      using False Cons.prems(2) assms(3) by (auto split: option.splits)
    show ?thesis
    proof (cases "best_block better best info wsl")
      case None
      with IH w show ?thesis unfolding e None by auto
    next
      case (Some b)
      with IH have b: "Some b = info \<or> (\<exists>w \<in> set wsl. opened w \<and> b = block_of w)"
        "\<forall>w \<in> set wsl. opened w \<longrightarrow> bi_Height b = tip_height w \<or> better (bi_Height b) (tip_height w)"
        "\<forall>i. info = Some i \<longrightarrow> bi_Height b = bi_Height i \<or> better (bi_Height b) (bi_Height i)" by simp_all
      have "bi_Height b = tip_height w \<or> better (bi_Height b) (tip_height w)" if "opened w"
        using w b(3) that assms(2) by metis
      with b show ?thesis unfolding e Some by auto
    qed
  qed
qed

text \<open>
  The lowest and the best block.  When the opened wallets have heights, \<open>GetLowestBlock\<close> is nil
  exactly when no wallet is opened, and otherwise it is the tip of an opened wallet that no other one is
  below; \<open>GetBestBlock\<close> likewise above.
\<close>

theorem lowest_and_best_block:
  assumes "\<forall>w \<in> set (ws s). opened w \<longrightarrow> 0 \<le> tip_height w"
  shows "(case GetLowestBlock s of None \<Rightarrow> \<forall>w \<in> set (ws s). \<not> opened w
      | Some b \<Rightarrow> (\<exists>w \<in> set (ws s). opened w \<and> b = block_of w) \<and> (\<forall>w \<in> set (ws s). opened w \<longrightarrow> bi_Height b \<le> tip_height w)) \<and>
    (case GetBestBlock s of None \<Rightarrow> \<forall>w \<in> set (ws s). \<not> opened w
      | Some b \<Rightarrow> (\<exists>w \<in> set (ws s). opened w \<and> b = block_of w) \<and> (\<forall>w \<in> set (ws s). opened w \<longrightarrow> tip_height w \<le> bi_Height b))"
proof -
  have "\<forall>x y z :: int. x < y \<longrightarrow> y < z \<longrightarrow> x < z" "\<forall>x y z :: int. x > y \<longrightarrow> y > z \<longrightarrow> x > z"
    "\<forall>x y :: int. x < y \<or> x = y \<or> y < x" "\<forall>x y :: int. x > y \<or> x = y \<or> y > x" by auto
  from best_block_spec [OF assms this(1,3), where info = None and best = "-1"] best_block_spec [OF assms this(2,4), where info = None and best = "-1"]
  show ?thesis by (auto simp: GetLowestBlock_def GetBestBlock_def split: option.splits)
qed

theorem lowest_and_best_block_witness:
  "case GetLowestBlock ex_sync of None \<Rightarrow> False | Some b \<Rightarrow> bi_Height b = 10"
proof -
  have "\<forall>w \<in> set (ws ex_sync). opened w \<longrightarrow> 0 \<le> tip_height w" "\<exists>w \<in> set (ws ex_sync). opened w"
    "\<forall>w \<in> set (ws ex_sync). opened w \<and> tip_height w = 10" by (simp_all add: ex_sync_def)
  with lowest_and_best_block [of ex_sync] show ?thesis by (auto simp: block_of_def w_GetBestBlock_def split: option.splits)
qed

end
