(* ===== verification/SyncControl.thy ===== *)
theory SyncControl
  imports SyncProgress
begin

text \<open>
  Starting, cancelling and restarting a sync (\<open>sync.go\<close>) as a transition system: the API calls, the
  goroutine that runs the syncer and then resets the sync data, and the callbacks of the syncer
  interleave in any order.  Each callback and each critical section is one step, and so is \<open>SpvSync\<close>.
  A context and the channel that reports its cancellation have the same number.
\<close>

section \<open>Operations\<close>

definition ErrInvalidPeers :: string where "ErrInvalidPeers = ''invalid_peers''"

text \<open>\<open>strings.Split\<close> with a separator of one character.\<close>

fun split_on :: "char \<Rightarrow> string \<Rightarrow> string list" where
  "split_on c [] = [[]]"
| "split_on c (x # xs) =
     (if x = c then [] # split_on c xs
      else case split_on c xs of [] \<Rightarrow> [[x]] | p # ps \<Rightarrow> (x # p) # ps)"

fun valid_peers :: "string \<Rightarrow> string list \<Rightarrow> string list" where
  "valid_peers defaultPort [] = []"
| "valid_peers defaultPort (a # as) =
     (case NormalizeAddress a defaultPort of
        Inl e \<Rightarrow> valid_peers defaultPort as
      | Inr p \<Rightarrow> p # valid_peers defaultPort as)"

definition setNetworkBackend :: "nat \<Rightarrow> sync_mw \<Rightarrow> sync_mw" where
  "setNetworkBackend syncer s = s\<lparr>ws := map (\<lambda>w. if opened w then w\<lparr>backend := Some syncer\<rparr> else w) (ws s)\<rparr>"

text \<open>\<open>SpvSync\<close>: the new state, or an error and the old one.  The run has the next number.\<close>

definition SpvSync :: "string \<Rightarrow> string \<Rightarrow> sync_mw \<Rightarrow> sync_mw result" where
  "SpvSync defaultPort peerAddresses s =
     (if mw_IsSyncing s \<or> mw_IsSynced s then Inl (New ErrSyncAlreadyInProgress)
      else if peerAddresses \<noteq> [] \<and> valid_peers defaultPort (split_on CHR '';'' peerAddresses) = [] then Inl (New ErrInvalidPeers)
      else let
        s1 = initActiveSyncData s;
        s2 = s1\<lparr>ws := map (\<lambda>w. w\<lparr>waiting := True, syncing := True\<rparr>) (ws s1)\<rparr>;
        s3 = setNetworkBackend (next_id s) s2;
        restart = restartSyncRequested (sd s3);
        s4 = upd_sd (\<lambda>d. d\<lparr>restartSyncRequested := False, sd_syncing := True, cancelSync := Some (next_id s),
          syncCanceled := Some (next_id s)\<rparr>) (s3\<lparr>next_id := Suc (next_id s)\<rparr>)
      in Inr (publish (OnSyncStarted restart) s4))"

text \<open>How \<open>syncer.Run\<close> ends.\<close>

datatype run_error = DeadlineExceeded | Canceled | OtherError err

definition run_ended :: "run_error option \<Rightarrow> sync_mw \<Rightarrow> sync_mw result" where
  "run_ended e s =
     (case e of
        None \<Rightarrow> Inr s
      | Some DeadlineExceeded \<Rightarrow> Inr (notifySyncError (New ''SPV synchronization deadline exceeded'') s)
      | Some Canceled \<Rightarrow>
          (case syncCanceled (sd s) of
             None \<Rightarrow> Inl (Panic ''close of nil channel'')
           | Some c \<Rightarrow> if c \<in> set (closed s) then Inl (Panic ''close of closed channel'')
               else Inr (notifySyncCanceled (s\<lparr>closed := c # closed s\<rparr>)))
      | Some (OtherError er) \<Rightarrow> Inr (notifySyncError er s))"

text \<open>The last part of \<open>CancelSync\<close>; a wallet that is opened has a loaded wallet.\<close>

definition clear_backends :: "sync_mw \<Rightarrow> sync_mw" where
  "clear_backends s = s\<lparr>ws := map (\<lambda>w. if opened w then w\<lparr>backend := None\<rparr> else w) (ws s)\<rparr>"

text \<open>\<open>spvSyncNotificationCallbacks\<close>; the callbacks for missing filters do nothing.\<close>

datatype callback =
    PeerCount int
  | HeadersStarted int
  | HeadersProgress int int
  | HeadersFinished
  | DiscoveryStarted nat
  | DiscoveryFinished nat
  | RescanStart nat
  | RescanProg nat int
  | RescanFinish nat
  | Synced nat bool

fun run_callback :: "go_float \<Rightarrow> float64 \<Rightarrow> int \<Rightarrow> callback \<Rightarrow> sync_mw \<Rightarrow> sync_mw result" where
  "run_callback G tpb now (PeerCount n) s = Inr (handlePeerCountUpdate n s)"
| "run_callback G tpb now (HeadersStarted h) s = fetchHeadersStarted now h s"
| "run_callback G tpb now (HeadersProgress h t) s = mw_fetchHeadersProgress G tpb now h t s"
| "run_callback G tpb now HeadersFinished s = mw_fetchHeadersFinished now s"
| "run_callback G tpb now (DiscoveryStarted i) s = bind_res (discoverAddressesStarted now i s) (\<lambda>(s', t). Inr s')"
| "run_callback G tpb now (DiscoveryFinished i) s = Inr (mw_discoverAddressesFinished now i s)"
| "run_callback G tpb now (RescanStart i) s = rescanStarted now i s"
| "run_callback G tpb now (RescanProg i h) s = mw_rescanProgress G now i h s"
| "run_callback G tpb now (RescanFinish i) s = mw_rescanFinished i s"
| "run_callback G tpb now (Synced i b) s = mw_synced i b s"

section \<open>The transition system\<close>

text \<open>A run of the syncer, from its start to the reset of the sync data.\<close>

datatype phase = Running | Closing | Ended

text \<open>The position of the API caller: \<open>Cancelling\<close> has called the cancel function, \<open>Waiting\<close> waits on a
  channel, \<open>Finishing\<close> is after the wait; the flag says that it restarts the sync afterwards.\<close>

datatype caller = Idle | Cancelling bool | Waiting "nat option" bool | Finishing bool

record sync_sys =
  mws :: sync_mw
  runs :: "(nat \<times> phase) list"
  canceled :: "nat list"
  caller :: caller

definition set_phase :: "nat \<Rightarrow> phase \<Rightarrow> (nat \<times> phase) list \<Rightarrow> (nat \<times> phase) list" where
  "set_phase n ph rs = map (\<lambda>(m, p). (m, if m = n then ph else p)) rs"

inductive sync_step :: "go_float \<Rightarrow> float64 \<Rightarrow> string \<Rightarrow> sync_sys \<Rightarrow> sync_sys \<Rightarrow> bool" for G tpb port where
  start: "caller x = Idle \<Longrightarrow> SpvSync port peers (mws x) = Inr s \<Longrightarrow>
    sync_step G tpb port x (x\<lparr>mws := s, runs := runs x @ [(next_id (mws x), Running)]\<rparr>)"
| callback: "(n, Running) \<in> set (runs x) \<Longrightarrow> run_callback G tpb now cb (mws x) = Inr s \<Longrightarrow>
    sync_step G tpb port x (x\<lparr>mws := s\<rparr>)"
| indexed: "sync_step G tpb port x (x\<lparr>mws := indexing_done (mws x)\<rparr>)"
| run_end: "(n, Running) \<in> set (runs x) \<Longrightarrow> e = Some Canceled \<longrightarrow> n \<in> set (canceled x) \<Longrightarrow> run_ended e (mws x) = Inr s \<Longrightarrow>
    sync_step G tpb port x (x\<lparr>mws := s, runs := set_phase n Closing (runs x)\<rparr>)"
| run_reset: "(n, Closing) \<in> set (runs x) \<Longrightarrow> resetSyncData now (mws x) = Inr s \<Longrightarrow>
    sync_step G tpb port x (x\<lparr>mws := s, runs := set_phase n Ended (runs x)\<rparr>)"
| cancel: "caller x = Idle \<Longrightarrow>
    s = (if restart then upd_sd (\<lambda>d. d\<lparr>restartSyncRequested := True\<rparr>) (mws x) else mws x) \<Longrightarrow>
    sync_step G tpb port x (case cancelSync (sd s) of
        None \<Rightarrow> x\<lparr>mws := s, caller := Finishing restart\<rparr>
      | Some c \<Rightarrow> x\<lparr>mws := s, canceled := c # canceled x, caller := Cancelling restart\<rparr>)"
| cancel_wait: "caller x = Cancelling restart \<Longrightarrow>
    sync_step G tpb port x (x\<lparr>caller := Waiting (syncCanceled (sd (mws x))) restart\<rparr>)"
| cancel_wake: "caller x = Waiting (Some c) restart \<Longrightarrow> c \<in> set (closed (mws x)) \<Longrightarrow>
    sync_step G tpb port x (x\<lparr>caller := Finishing restart\<rparr>)"
| cancel_done: "caller x = Finishing False \<Longrightarrow>
    sync_step G tpb port x (x\<lparr>mws := clear_backends (mws x), caller := Idle\<rparr>)"
| restart: "caller x = Finishing True \<Longrightarrow> SpvSync port peers (clear_backends (mws x)) = Inr s \<Longrightarrow>
    sync_step G tpb port x (x\<lparr>mws := s, runs := runs x @ [(next_id (mws x), Running)], caller := Idle\<rparr>)"
| restart_fails: "caller x = Finishing True \<Longrightarrow> SpvSync port peers (clear_backends (mws x)) = Inl e \<Longrightarrow>
    sync_step G tpb port x (x\<lparr>mws := clear_backends (mws x), caller := Idle\<rparr>)"

definition new_mw :: "swallet list \<Rightarrow> sync_mw" where
  "new_mw wl = \<lparr>sd = \<lparr>syncProgressListeners = [], showLogs = False, sd_synced = False, sd_syncing = False,
     cancelSync = None, cancelRescan = None, syncCanceled = None, restartSyncRequested = False, rescanning = False,
     connectedPeers = 0, active = None\<rparr>,
     ws = wl, events = [], closed = [], next_id = 0, listening = [], indexing = []\<rparr>"

inductive sync_reach :: "go_float \<Rightarrow> float64 \<Rightarrow> string \<Rightarrow> sync_sys \<Rightarrow> bool" for G tpb port where
  init: "sync_reach G tpb port \<lparr>mws = (new_mw wl)\<lparr>sd := (sd (new_mw wl))\<lparr>syncProgressListeners := ls\<rparr>\<rparr>, runs = [], canceled = [], caller = Idle\<rparr>"
| step: "sync_reach G tpb port x \<Longrightarrow> sync_step G tpb port x y \<Longrightarrow> sync_reach G tpb port y"

section \<open>What the callbacks keep\<close>

definition adc :: "sync_mw \<Rightarrow> nat option" where
  "adc s = (case active (sd s) of None \<Rightarrow> None | Some a \<Rightarrow> addressDiscoveryCompletedOrCanceled a)"

definition ids :: "sync_mw \<Rightarrow> (nat \<times> bool) list" where
  "ids s = map (\<lambda>w. (sw_ID w, opened w)) (ws s)"

text \<open>
  A callback leaves the cancel function and channel, whether there is active sync data, and which
  wallets are opened; it closes no channel but the one of address discovery.
\<close>

definition keeps :: "sync_mw \<Rightarrow> sync_mw \<Rightarrow> bool" where
  "keeps s s' \<longleftrightarrow> cancelSync (sd s') = cancelSync (sd s) \<and> syncCanceled (sd s') = syncCanceled (sd s) \<and>
     (active (sd s') = None) = (active (sd s) = None) \<and>
     (sd_syncing (sd s) \<noteq> sd_synced (sd s) \<longrightarrow> sd_syncing (sd s') \<noteq> sd_synced (sd s')) \<and>
     set (closed s) \<subseteq> set (closed s') \<and> set (closed s') \<subseteq> set (closed s) \<union> {c. adc s = Some c} \<and> next_id s \<le> next_id s' \<and>
     (adc s' = adc s \<or> adc s' = None \<or> adc s' = Some (next_id s) \<and> next_id s < next_id s') \<and> ids s' = ids s"

lemma keeps_refl [simp]: "keeps s s"
  by (simp add: keeps_def)

lemma keeps_publish [simp]: "keeps s (publish ev s') = keeps s s'"
  by (simp add: keeps_def publish_def adc_def ids_def)

lemma keeps_active:
  assumes "active (sd s) = Some a" and "addressDiscoveryCompletedOrCanceled a' = addressDiscoveryCompletedOrCanceled a"
  shows "keeps s (upd_sd (\<lambda>d. d\<lparr>active := Some a'\<rparr>) s)"
  using assms by (simp add: keeps_def upd_sd_def adc_def ids_def)

lemma keeps_with_active:
  assumes "with_active f s = Inr s'" and "\<And>a. addressDiscoveryCompletedOrCanceled (f a) = addressDiscoveryCompletedOrCanceled a"
  shows "keeps s s'"
  using assms keeps_active by (auto simp: with_active_def split: option.splits)

lemma keeps_ws:
  assumes "\<And>w. sw_ID (f w) = sw_ID w \<and> opened (f w) = opened w"
  shows "keeps (s\<lparr>ws := map f (ws s)\<rparr>) s' = keeps s s'"
  using assms by (simp add: keeps_def adc_def ids_def comp_def)

lemma stop_keeps: "keeps s (stopUpdatingAddressDiscoveryProgress now s)"
  by (auto simp: stopUpdatingAddressDiscoveryProgress_def keeps_def adc_def ids_def upd_sd_def split: option.splits)

lemma callback_keeps:
  assumes "run_callback G tpb now cb s = Inr s'"
  shows "keeps s s'"
proof (cases cb)
  case (PeerCount n)
  with assms show ?thesis by (auto simp: handlePeerCountUpdate_def keeps_def publish_def upd_sd_def adc_def ids_def)
next
  case (HeadersStarted h)
  with assms show ?thesis
    by (auto simp: fetchHeadersStarted_def Let_def keeps_ws split: if_splits option.splits
        dest!: keeps_with_active)
next
  case (HeadersProgress h t)
  with assms show ?thesis
    by (auto simp: mw_fetchHeadersProgress_def Let_def keeps_def publish_def upd_sd_def adc_def ids_def comp_def
        split: if_splits option.splits prod.splits)
next
  case HeadersFinished
  with assms show ?thesis
    by (auto simp: mw_fetchHeadersFinished_def Let_def split: if_splits dest!: keeps_with_active)
next
  case (DiscoveryStarted i)
  with assms show ?thesis
    by (auto simp: discoverAddressesStarted_def keeps_def upd_sd_def adc_def ids_def split: if_splits option.splits)
next
  case (DiscoveryFinished i)
  with assms show ?thesis by (auto simp: mw_discoverAddressesFinished_def stop_keeps)
next
  case (RescanStart i)
  let ?s1 = "stopUpdatingAddressDiscoveryProgress now s"
  have none: "adc ?s1 = None" by (auto simp: stopUpdatingAddressDiscoveryProgress_def adc_def upd_sd_def split: option.splits)
  from assms RescanStart have "s' = ?s1 \<or> keeps ?s1 s' \<and> adc s' = adc ?s1 \<and> closed s' = closed ?s1 \<and> next_id s' = next_id ?s1"
    by (auto simp: rescanStarted_def Let_def with_active_def upd_sd_def adc_def keeps_def ids_def split: if_splits option.splits)
  then show ?thesis using none stop_keeps [of s now] by (auto simp: keeps_def)
next
  case (RescanProg i h)
  with assms show ?thesis
    by (auto simp: mw_rescanProgress_def Let_def keeps_def publish_def upd_sd_def adc_def ids_def split: if_splits option.splits)
next
  case (RescanFinish i)
  with assms show ?thesis
    by (auto simp: mw_rescanFinished_def Let_def keeps_def publish_def upd_sd_def adc_def ids_def split: if_splits option.splits)
next
  case (Synced i b)
  with assms consider "s' = s" | w where "\<not> (sd_synced (sd s) \<and> b)" "find_wallet s i = Some w" "opened w"
    by (auto simp: mw_synced_def split: if_splits option.splits)
  then show ?thesis
  proof cases
    case 2
    then have "keeps s s'" if "mw_synced i b s = Inr s'"
      using that mw_synced_records [OF 2(2,3,1)] by (auto simp: Let_def keeps_def adc_def ids_def upd_sd_def comp_def split: if_splits)
    with assms Synced show ?thesis by simp
  qed simp
qed


section \<open>The invariant\<close>

definition quiet :: "sync_mw \<Rightarrow> bool" where
  "quiet s \<longleftrightarrow> \<not> sd_syncing (sd s) \<and> \<not> sd_synced (sd s) \<and> cancelSync (sd s) = None \<and> syncCanceled (sd s) = None \<and> active (sd s) = None"

definition busy :: "nat \<Rightarrow> sync_mw \<Rightarrow> bool" where
  "busy n s \<longleftrightarrow> sd_syncing (sd s) \<noteq> sd_synced (sd s) \<and> cancelSync (sd s) = Some n \<and> syncCanceled (sd s) = Some n \<and> active (sd s) \<noteq> None"

definition live :: "(nat \<times> phase) list \<Rightarrow> (nat \<times> phase) list" where
  "live rs = filter (\<lambda>(n, p). p \<noteq> Ended) rs"

definition sync_inv :: "sync_sys \<Rightarrow> bool" where
  "sync_inv x \<longleftrightarrow> distinct (map fst (runs x)) \<and> (\<forall>n \<in> fst ` set (runs x). n < next_id (mws x)) \<and>
     (\<forall>c \<in> set (closed (mws x)). c < next_id (mws x)) \<and>
     (\<forall>c. adc (mws x) = Some c \<longrightarrow> c < next_id (mws x) \<and> c \<notin> fst ` set (runs x)) \<and>
     (live (runs x) = [] \<and> quiet (mws x) \<or>
      (\<exists>n p. live (runs x) = [(n, p)] \<and> busy n (mws x) \<and> (p = Running \<longrightarrow> n \<notin> set (closed (mws x)))))"

lemma live_member: "sync_inv x \<Longrightarrow> (n, p) \<in> set (runs x) \<Longrightarrow> p \<noteq> Ended \<Longrightarrow> live (runs x) = [(n, p)]"
proof -
  assume inv: "sync_inv x" and m: "(n, p) \<in> set (runs x)" "p \<noteq> Ended"
  then have "(n, p) \<in> set (live (runs x))" by (simp add: live_def)
  with inv show ?thesis by (auto simp: sync_inv_def)
qed

lemma live_set_phase:
  assumes "distinct (map fst rs)" and "live rs = [(n, p)]"
  shows "live (set_phase n q rs) = (if q = Ended then [] else [(n, q)])"
proof -
  have keep: "live (set_phase n q xs) = []" if "\<forall>(m, r) \<in> set xs. r = Ended \<and> m \<noteq> n" for xs
    using that by (auto simp: live_def set_phase_def filter_empty_conv)
  from assms(2) obtain as bs where rs: "rs = as @ (n, p) # bs" and e: "\<forall>u \<in> set as. snd u = Ended" "live bs = []"
  proof -
    obtain us vs where "rs = us @ (n, p) # vs" "\<forall>u \<in> set us. \<not> (case u of (n, p) \<Rightarrow> p \<noteq> Ended)" "[] = filter (\<lambda>(n, p). p \<noteq> Ended) vs"
      using assms(2) unfolding live_def filter_eq_Cons_iff by blast
    then show thesis by (intro that [of us vs]) (auto simp: live_def)
  qed
  from e(2) have "\<forall>u \<in> set bs. snd u = Ended" by (auto simp: live_def filter_empty_conv)
  moreover have "n \<notin> fst ` set as" "n \<notin> fst ` set bs" using assms(1) rs by auto
  ultimately have "live (set_phase n q as) = []" "live (set_phase n q bs) = []" using e(1)
    by (auto intro!: keep simp: image_iff)
  then show ?thesis by (auto simp: rs live_def set_phase_def)
qed

lemma set_phase_fst [simp]: "map fst (set_phase n q rs) = map fst rs" "fst ` set (set_phase n q rs) = fst ` set rs"
proof -
  show "map fst (set_phase n q rs) = map fst rs" by (auto simp: set_phase_def)
  then show "fst ` set (set_phase n q rs) = fst ` set rs" by (metis list.set_map)
qed

text \<open>A change of the state that keeps the sync keeps the invariant.\<close>

lemma keeps_inv:
  assumes "sync_inv x" and "keeps (mws x) s" and "live (runs x) \<noteq> []"
  shows "sync_inv (x\<lparr>mws := s\<rparr>)"
proof -
  from assms(1,3) obtain n p where l: "live (runs x) = [(n, p)]" "busy n (mws x)" "p = Running \<longrightarrow> n \<notin> set (closed (mws x))"
    by (auto simp: sync_inv_def)
  have "n \<in> fst ` set (runs x)" using l(1) by (auto simp: live_def filter_eq_Cons_iff)
  moreover have "adc (mws x) = Some c \<longrightarrow> c < next_id (mws x) \<and> c \<notin> fst ` set (runs x)" for c
    using assms(1) by (auto simp: sync_inv_def)
  ultimately have "p = Running \<longrightarrow> n \<notin> set (closed s)" using l(3) assms(2) by (auto simp: keeps_def)
  moreover have "busy n s" using l(2) assms(2) by (auto simp: busy_def keeps_def)
  moreover have "c < next_id s" if "c \<in> set (closed s)" for c
  proof -
    from that assms(2) have "c \<in> set (closed (mws x)) \<or> adc (mws x) = Some c" "next_id (mws x) \<le> next_id s" by (auto simp: keeps_def)
    moreover from this(1) assms(1) have "c < next_id (mws x)" by (auto simp: sync_inv_def)
    ultimately show ?thesis by linarith
  qed
  moreover have runs: "m < next_id (mws x)" "m < next_id s" if "m \<in> fst ` set (runs x)" for m
    using that assms(1,2) by (auto simp: sync_inv_def keeps_def intro: order_less_le_trans)
  moreover have "c < next_id s \<and> c \<notin> fst ` set (runs x)" if "adc s = Some c" for c
  proof -
    from that assms(2) have "adc (mws x) = Some c \<and> next_id (mws x) \<le> next_id s \<or> c = next_id (mws x) \<and> c < next_id s"
      by (auto simp: keeps_def)
    then show ?thesis
    proof
      assume "adc (mws x) = Some c \<and> next_id (mws x) \<le> next_id s"
      with assms(1) show ?thesis by (auto simp: sync_inv_def intro: order_less_le_trans)
    qed (use runs(1) [of c] in auto)
  qed
  ultimately show ?thesis using assms(1) l(1) by (simp add: sync_inv_def)
qed

lemma SpvSync_starts:
  assumes "SpvSync port peers s = Inr s'"
  shows "\<not> sd_syncing (sd s) \<and> \<not> sd_synced (sd s) \<and> busy (next_id s) s' \<and> next_id s' = Suc (next_id s) \<and> closed s' = closed s \<and>
    adc s' = None \<and> ids s' = ids s"
  using assms by (auto simp: SpvSync_def Let_def mw_IsSyncing_def mw_IsSynced_def initActiveSyncData_def setNetworkBackend_def busy_def
      publish_def upd_sd_def adc_def ids_def new_active_def comp_def split: if_splits)

lemma sync_inv_caller: "sync_inv (x\<lparr>caller := c\<rparr>) = sync_inv x"
  by (simp add: sync_inv_def)

lemma inv_start:
  assumes "sync_inv x" and "SpvSync port peers s = Inr s'" and "sd s = sd (mws x)" "closed s = closed (mws x)" "next_id s = next_id (mws x)"
  shows "sync_inv (x\<lparr>mws := s', runs := runs x @ [(next_id (mws x), Running)]\<rparr>)"
proof -
  note st = SpvSync_starts [OF assms(2), unfolded assms(3-5)]
  then have l: "live (runs x) = []" using assms(1) by (auto simp: sync_inv_def busy_def)
  have fresh: "next_id (mws x) \<notin> fst ` set (runs x)" "next_id (mws x) \<notin> set (closed (mws x))" using assms(1) by (auto simp: sync_inv_def)
  from l have "live (runs x @ [(next_id (mws x), Running)]) = [(next_id (mws x), Running)]" by (simp add: live_def)
  with st fresh assms(1) show ?thesis by (auto simp: sync_inv_def less_Suc_eq)
qed

lemma quiet_inv_irrelevant:
  assumes "sync_inv x" and "active (sd s) = active (sd (mws x))" "cancelSync (sd s) = cancelSync (sd (mws x))" "syncCanceled (sd s) = syncCanceled (sd (mws x))"
    "sd_syncing (sd s) = sd_syncing (sd (mws x))" "sd_synced (sd s) = sd_synced (sd (mws x))" "closed s = closed (mws x)" "next_id s = next_id (mws x)"
  shows "sync_inv (x\<lparr>mws := s, canceled := cs, caller := c\<rparr>)"
  using assms by (simp add: sync_inv_def adc_def quiet_def busy_def)

lemma step_inv:
  assumes "sync_step G tpb port x y" and "sync_inv x"
  shows "sync_inv y"
  using assms
proof (cases rule: sync_step.cases)
  case (start peers s)
  from inv_start [OF assms(2) start(3) refl refl refl] start show ?thesis by simp
next
  case (callback n now cb s)
  from live_member [OF assms(2) callback(2)] have "live (runs x) \<noteq> []" by simp
  from keeps_inv [OF assms(2) callback_keeps [OF callback(3)] this] callback show ?thesis by simp
next
  case indexed
  have "sync_inv (x\<lparr>mws := indexing_done (mws x), canceled := canceled x, caller := caller x\<rparr>)"
    by (rule quiet_inv_irrelevant [OF assms(2)]) (simp_all add: indexing_done_def publish_def split: list.split)
  with indexed show ?thesis by simp
next
  case (run_end n e s)
  note l = live_member [OF assms(2) run_end(2)]
  from l assms(2) have b: "busy n (mws x)" "n \<notin> set (closed (mws x))" "n < next_id (mws x)" using run_end(2) by (force simp: sync_inv_def)+
  from run_end(4) have f: "sd s = sd (mws x)" "next_id s = next_id (mws x)" "set (closed s) \<subseteq> insert n (set (closed (mws x)))"
    using b by (auto simp: run_ended_def notifySyncError_def notifySyncCanceled_def publish_def busy_def split: option.splits run_error.splits if_splits)
  have "live (set_phase n Closing (runs x)) = [(n, Closing)]" using live_set_phase l assms(2) by (auto simp: sync_inv_def)
  with run_end f b assms(2) show ?thesis by (auto simp: sync_inv_def busy_def adc_def)
next
  case (run_reset n now s)
  note l = live_member [OF assms(2) run_reset(2)]
  let ?s1 = "stopUpdatingAddressDiscoveryProgress now (mws x)"
  from run_reset(3) have f: "quiet s" "next_id s = next_id ?s1" "closed s = closed ?s1" "adc s = None"
    by (auto simp: resetSyncData_def Let_def quiet_def upd_sd_def adc_def split: if_splits)
  have k: "\<forall>c \<in> set (closed ?s1). c < next_id ?s1" "next_id ?s1 = next_id (mws x)"
    using keeps_inv [OF assms(2) stop_keeps] l
    by (auto simp: sync_inv_def stopUpdatingAddressDiscoveryProgress_def upd_sd_def split: option.splits)
  have "live (set_phase n Ended (runs x)) = []" using live_set_phase l assms(2) by (auto simp: sync_inv_def)
  with run_reset f k assms(2) show ?thesis by (auto simp: sync_inv_def)
next
  case (cancel s restart)
  have "sync_inv (x\<lparr>mws := s, canceled := cs, caller := c\<rparr>)" for cs c
    by (rule quiet_inv_irrelevant [OF assms(2)]) (auto simp: cancel(3) upd_sd_def)
  from this [where cs = "canceled x"] this show ?thesis by (auto simp: cancel(1) split: option.splits)
next
  case (cancel_wait restart)
  with sync_inv_caller [THEN iffD2, OF assms(2)] show ?thesis by simp
next
  case (cancel_wake c restart)
  with sync_inv_caller [THEN iffD2, OF assms(2)] show ?thesis by simp
next
  case cancel_done
  have "sync_inv (x\<lparr>mws := clear_backends (mws x), canceled := canceled x, caller := Idle\<rparr>)"
    by (rule quiet_inv_irrelevant [OF assms(2)]) (simp_all add: clear_backends_def)
  with cancel_done show ?thesis by simp
next
  case (restart peers s)
  have "sync_inv (x\<lparr>mws := s, runs := runs x @ [(next_id (mws x), Running)]\<rparr>)"
    by (rule inv_start [OF assms(2) restart(3)]) (simp_all add: clear_backends_def)
  from sync_inv_caller [THEN iffD2, OF this, of Idle] restart show ?thesis by simp
next
  case (restart_fails peers e)
  have "sync_inv (x\<lparr>mws := clear_backends (mws x), canceled := canceled x, caller := Idle\<rparr>)"
    by (rule quiet_inv_irrelevant [OF assms(2)]) (simp_all add: clear_backends_def)
  with restart_fails show ?thesis by simp
qed

lemma sync_reach_inv: "sync_reach G tpb port x \<Longrightarrow> sync_inv x"
proof (induction rule: sync_reach.induct)
  case (init wl ls)
  show ?case by (simp add: sync_inv_def live_def quiet_def new_mw_def adc_def)
qed (rule step_inv)

section \<open>A reference execution\<close>

definition ex_wallet1 :: swallet where
  "ex_wallet1 = \<lparr>sw_ID = 1, opened = True, locked = True, waiting = False, syncing = False, synced_flag = False, discovered = True,
     backend = None, tip_height = 5, tip_time = Inr 100\<rparr>"

lemma SpvSync_no_peers: "\<not> sd_syncing (sd s) \<Longrightarrow> \<not> sd_synced (sd s) \<Longrightarrow> \<exists>s'. SpvSync port [] s = Inr s'"
  by (simp add: SpvSync_def mw_IsSyncing_def mw_IsSynced_def Let_def)

text \<open>A sync is started and then cancelled, with or without a restart to follow; the run ends with
  \<open>e\<close> before the caller waits.\<close>

lemma ex_started:
  "\<exists>x. sync_reach G tpb port x \<and> caller x = Idle \<and> runs x = [(0, Running)] \<and> closed (mws x) = [] \<and> ids (mws x) = [(1, True)]"
proof -
  let ?x0 = "\<lparr>mws = (new_mw [ex_wallet1])\<lparr>sd := (sd (new_mw [ex_wallet1]))\<lparr>syncProgressListeners := []\<rparr>\<rparr>, runs = [], canceled = [], caller = Idle\<rparr>"
  have r0: "sync_reach G tpb port ?x0" by (rule sync_reach.init)
  obtain s where s: "SpvSync port [] (mws ?x0) = Inr s" using SpvSync_no_peers [of "mws ?x0"] by (auto simp: new_mw_def)
  from sync_reach.step [OF r0 sync_step.start [OF _ s]] SpvSync_starts [OF s]
  show ?thesis by (auto simp: new_mw_def ids_def ex_wallet1_def)
qed

lemma ex_cancelling:
  "\<exists>x. sync_reach G tpb port x \<and> caller x = Cancelling r \<and> runs x = [(0, Running)] \<and> closed (mws x) = [] \<and> 0 \<in> set (canceled x)"
proof -
  from ex_started [of G tpb port] obtain x where x: "sync_reach G tpb port x" "caller x = Idle" "runs x = [(0, Running)]" "closed (mws x) = []" by blast
  then have "cancelSync (sd (mws x)) = Some 0" using sync_reach_inv [OF x(1)] by (auto simp: sync_inv_def live_def busy_def)
  with x(2,3,4) sync_reach.step [OF x(1) sync_step.cancel [OF x(2) refl, where restart = r]]
  show ?thesis by (force simp: upd_sd_def split: if_splits)
qed

lemma ex_run_ends:
  "\<exists>x. sync_reach G tpb port x \<and> caller x = Waiting (Some 0) r \<and> runs x = [(0, Closing)] \<and>
     closed (mws x) = (if e = Some Canceled then [0] else [])"
proof -
  from ex_cancelling [of G tpb port r] obtain x where x: "sync_reach G tpb port x" "caller x = Cancelling r" "runs x = [(0, Running)]"
    "closed (mws x) = []" "0 \<in> set (canceled x)" by blast
  then have "syncCanceled (sd (mws x)) = Some 0" using sync_reach_inv [OF x(1)] by (auto simp: sync_inv_def live_def busy_def)
  then have "\<exists>s. run_ended e (mws x) = Inr s \<and> closed s = (if e = Some Canceled then [0] else []) \<and> syncCanceled (sd s) = Some 0"
    using x(4) by (auto simp: run_ended_def notifySyncError_def notifySyncCanceled_def publish_def split: option.split run_error.split)
  then obtain s where s: "run_ended e (mws x) = Inr s" "closed s = (if e = Some Canceled then [0] else [])" "syncCanceled (sd s) = Some 0"
    by blast
  have "sync_step G tpb port x (x\<lparr>mws := s, runs := set_phase 0 Closing (runs x)\<rparr>)"
    using x(3,5) s(1) by (intro sync_step.run_end) auto
  from sync_reach.step [OF x(1) this] have r: "sync_reach G tpb port (x\<lparr>mws := s, runs := set_phase 0 Closing (runs x)\<rparr>)" .
  from sync_reach.step [OF r sync_step.cancel_wait [of _ r]] x(2,3) s(2,3) show ?thesis
    by (force simp: set_phase_def)
qed

section \<open>Properties\<close>



fun names_opened :: "sync_mw \<Rightarrow> callback \<Rightarrow> bool" where
  "names_opened s (RescanProg i h) = ((i, True) \<in> set (ids s))"
| "names_opened s (Synced i b) = (\<exists>w. find_wallet s i = Some w \<and> opened w)"
| "names_opened s _ = True"

lemma GetLowestBlock_opened: "\<exists>w \<in> set (ws s). opened w \<Longrightarrow> GetLowestBlock s \<noteq> None"
proof -
  have "best_block f b None wl \<noteq> None" if "\<exists>w \<in> set wl. opened w" "b = -1" for f b wl
  proof -
    have "best_block f b (Some i) vl \<noteq> None" for f b i vl by (induction vl arbitrary: b i) auto
    with that show ?thesis by (induction wl) auto
  qed
  moreover assume "\<exists>w \<in> set (ws s). opened w"
  ultimately show ?thesis by (simp add: GetLowestBlock_def)
qed

lemma callback_total:
  assumes "active (sd s) \<noteq> None" and "\<exists>w \<in> set (ws s). opened w" and "names_opened s cb"
  shows "\<exists>s'. run_callback G tpb now cb s = Inr s'"
proof -
  from assms(1) obtain a where a: "active (sd s) = Some a" by blast
  show ?thesis
  proof (cases cb)
    case (HeadersStarted h)
    let ?s1 = "s\<lparr>ws := map (\<lambda>w. w\<lparr>waiting := True\<rparr>) (ws s)\<rparr>"
    have "GetLowestBlock ?s1 \<noteq> None" using assms(2) by (intro GetLowestBlock_opened) auto
    then show ?thesis using a HeadersStarted by (auto simp: fetchHeadersStarted_def Let_def with_active_def)
  next
    case (RescanStart i)
    have "active (sd (stopUpdatingAddressDiscoveryProgress now s)) \<noteq> None"
      using a by (auto simp: stopUpdatingAddressDiscoveryProgress_def upd_sd_def split: option.splits)
    then show ?thesis using RescanStart by (auto simp: rescanStarted_def Let_def with_active_def)
  next
    case (RescanProg i h)
    with assms(3) have "find_wallet s i \<noteq> None" unfolding find_wallet_def find_None_iff by (auto simp: ids_def)
    then obtain w where "find_wallet s i = Some w" by blast
    then show ?thesis using a RescanProg by (simp add: mw_rescanProgress_def Let_def)
  next
    case (Synced i b)
    then show ?thesis using assms(3) by (auto simp: mw_synced_def Let_def)
  qed (use a in \<open>auto simp: mw_fetchHeadersProgress_def mw_fetchHeadersFinished_def discoverAddressesStarted_def mw_rescanFinished_def
        with_active_def Let_def split: prod.split\<close>)
qed



definition never_closed :: "nat option \<Rightarrow> sync_sys \<Rightarrow> bool" where
  "never_closed ch x \<longleftrightarrow> (\<forall>n. ch = Some n \<longrightarrow> n \<in> fst ` set (runs x) \<and> (n, Running) \<notin> set (runs x) \<and> n \<notin> set (closed (mws x)))"

lemma set_phase_running: "(m, Running) \<in> set (set_phase n p rs) \<Longrightarrow> p \<noteq> Running \<Longrightarrow> (m, Running) \<in> set rs"
  by (auto simp: set_phase_def split: if_splits)

lemma never_closed_step:
  assumes "sync_step G tpb port x y" and "sync_inv x" and "never_closed ch x" and "caller x = Waiting ch r"
  shows "never_closed ch y \<and> caller y = Waiting ch r"
  using assms(1)
proof (cases rule: sync_step.cases)
  case (callback n now cb s)
  from callback_keeps [OF callback(3)] have "set (closed s) \<subseteq> set (closed (mws x)) \<union> {c. adc (mws x) = Some c}" by (simp add: keeps_def)
  with callback assms(2-4) show ?thesis by (auto simp: never_closed_def sync_inv_def)
next
  case indexed
  with assms(3,4) show ?thesis by (simp add: never_closed_def indexing_done_def publish_def split: list.split)
next
  case (run_end n e s)
  from live_member [OF assms(2) run_end(2)] assms(2) have "syncCanceled (sd (mws x)) = Some n" by (auto simp: sync_inv_def busy_def)
  with run_end(4) have "set (closed s) \<subseteq> insert n (set (closed (mws x)))"
    by (auto simp: run_ended_def notifySyncError_def notifySyncCanceled_def publish_def split: option.splits run_error.splits if_splits)
  with run_end assms(3,4) show ?thesis by (auto simp: never_closed_def dest: set_phase_running)
next
  case (run_reset n now s)
  let ?s1 = "stopUpdatingAddressDiscoveryProgress now (mws x)"
  from run_reset(3) have "closed s = closed ?s1" by (auto simp: resetSyncData_def Let_def upd_sd_def split: if_splits)
  then have "set (closed s) \<subseteq> set (closed (mws x)) \<union> {c. adc (mws x) = Some c}" using stop_keeps [of "mws x" now] by (auto simp: keeps_def)
  with run_reset assms(2-4) show ?thesis by (auto simp: never_closed_def sync_inv_def dest: set_phase_running)
qed (use assms in \<open>auto simp: never_closed_def\<close>)

text \<open>
  C36.  \<open>CancelSync\<close> can wait for ever.  A caller that waits on the channel of a run that ended with
  another error than the cancellation, or on the nil channel that it finds after the reset, stays
  there in every continuation, since nothing closes that channel any more.
\<close>

theorem CancelSync_waits_forever:
  assumes "sync_reach G tpb port x" and "caller x = Waiting ch r" and "never_closed ch x" and "(sync_step G tpb port)\<^sup>*\<^sup>* x y"
  shows "caller y = Waiting ch r"
proof -
  from assms(4) have "sync_reach G tpb port y \<and> never_closed ch y \<and> caller y = Waiting ch r"
  proof (induction rule: rtranclp_induct)
    case (step y z)
    then show ?case using never_closed_step sync_reach_inv sync_reach.step by blast
  qed (use assms in blast)
  then show ?thesis by blast
qed

theorem CancelSync_waits_forever_witness:
  "\<exists>x. sync_reach ex_G (f_int 300) ''9108'' x \<and> caller x = Waiting (Some 0) False \<and>
     (\<forall>y. (sync_step ex_G (f_int 300) ''9108'')\<^sup>*\<^sup>* x y \<longrightarrow> caller y = Waiting (Some 0) False)"
proof -
  from ex_run_ends [of ex_G "f_int 300" "''9108''" False "Some DeadlineExceeded"] obtain x where
    x: "sync_reach ex_G (f_int 300) ''9108'' x" "caller x = Waiting (Some 0) False" "runs x = [(0, Closing)]" "closed (mws x) = []"
    by auto
  then have "never_closed (Some 0) x" by (simp add: never_closed_def)
  with CancelSync_waits_forever [OF x(1,2)] x show ?thesis by blast
qed

text \<open>
  \<open>RestartSpvSync\<close> can fail with "sync already in progress".  Its wait ends when the channel is
  closed, but the sync data are reset later; as long as the run has not been reset, the call of
  \<open>SpvSync\<close> that follows is refused, and nothing starts the sync afterwards.
\<close>

theorem restart_before_reset_fails:
  assumes "sync_reach G tpb port x" and "(n, Closing) \<in> set (runs x)"
  shows "SpvSync port peers (clear_backends (mws x)) = Inl (New ErrSyncAlreadyInProgress)"
  using live_member [OF sync_reach_inv [OF assms(1)] assms(2)] sync_reach_inv [OF assms(1)]
  by (auto simp: sync_inv_def busy_def SpvSync_def mw_IsSyncing_def mw_IsSynced_def clear_backends_def)

theorem restart_before_reset_fails_witness:
  "\<exists>x. sync_reach ex_G (f_int 300) ''9108'' x \<and> caller x = Finishing True \<and>
     SpvSync ''9108'' [] (clear_backends (mws x)) = Inl (New ErrSyncAlreadyInProgress)"
proof -
  from ex_run_ends [of ex_G "f_int 300" "''9108''" True "Some Canceled"] obtain x where
    x: "sync_reach ex_G (f_int 300) ''9108'' x" "caller x = Waiting (Some 0) True" "runs x = [(0, Closing)]" "closed (mws x) = [0]"
    by auto
  have "sync_step ex_G (f_int 300) ''9108'' x (x\<lparr>caller := Finishing True\<rparr>)" using x(2,4) by (intro sync_step.cancel_wake) auto
  from sync_reach.step [OF x(1) this] have r: "sync_reach ex_G (f_int 300) ''9108'' (x\<lparr>caller := Finishing True\<rparr>)" .
  have "(0, Closing) \<in> set (runs (x\<lparr>caller := Finishing True\<rparr>))" using x(3) by simp
  from restart_before_reset_fails [OF r this, of "[]"] r show ?thesis by (intro exI [of _ "x\<lparr>caller := Finishing True\<rparr>"]) simp
qed

text \<open>
  The end of address discovery reaches the goroutine that publishes its progress only while it is
  blocked in its \<open>select\<close>: the channel it waits on there is closed, but the field is cleared at the same
  time, so a goroutine that is between two rounds, for example publishing, then waits on a nil
  channel, which is never ready, and goes on publishing while the sync is on.
\<close>

theorem stop_reaches_only_a_blocked_updater:
  assumes "adc s = Some c" and "mw_IsSyncing s"
  shows "updater_ready (stopUpdatingAddressDiscoveryProgress now s) (Some c) \<and>
    (\<exists>s' start. updater_begin (stopUpdatingAddressDiscoveryProgress now s) = Inr (s', USelect None start)) \<and>
    (\<forall>t. \<not> updater_ready t None)"
  using assms by (auto simp: adc_def mw_IsSyncing_def updater_ready_def stopUpdatingAddressDiscoveryProgress_def updater_begin_def
      upd_sd_def Let_def split: option.splits)

theorem stop_reaches_only_a_blocked_updater_witness:
  "\<exists>s' start. updater_begin (stopUpdatingAddressDiscoveryProgress 9
     (upd_sd (\<lambda>d. d\<lparr>active := Some (ex_active\<lparr>addressDiscoveryCompletedOrCanceled := Some 4\<rparr>)\<rparr>) ex_sync)) = Inr (s', USelect None start)"
proof -
  let ?s = "upd_sd (\<lambda>d. d\<lparr>active := Some (ex_active\<lparr>addressDiscoveryCompletedOrCanceled := Some 4\<rparr>)\<rparr>) ex_sync"
  have "adc ?s = Some 4" "mw_IsSyncing ?s" by (simp_all add: adc_def upd_sd_def mw_IsSyncing_def ex_sync_def)
  from stop_reaches_only_a_blocked_updater [OF this, of 9] show ?thesis by blast
qed

end
