(* ===== verification/RescanControl.thy ===== *)
theory RescanControl
  imports SyncControl
begin

text \<open>
  Rescanning the blocks of a wallet on request, \<open>rescan.go\<close>, as a transition system: the calls of
  \<open>RescanBlocks\<close> and \<open>CancelRescan\<close> interleave with the goroutines that \<open>RescanBlocks\<close> starts.  The
  goroutines are numbered in the order in which they were started, and the number of a goroutine
  is also that of its context.
\<close>

section \<open>State\<close>

datatype rescan_event =
    OnBlocksRescanStarted nat
  | OnBlocksRescanProgress HeadersRescanProgressReport
  | OnBlocksRescanEnded nat "err option"

text \<open>
  A goroutine: started but not yet run; scanning, with its start time; about to run its deferred
  function; ended.
\<close>

datatype job = Spawned | Scanning int | Ending | Finished

record rescan_sys =
  rs_mw :: sync_mw
  rs_listener :: bool
  rs_events :: "rescan_event list"
  rs_canceled :: "nat list"
  jobs :: "(nat \<times> job) list"

section \<open>Operations\<close>

definition ErrNotConnected :: string where "ErrNotConnected = ''not_connected''"

definition IsRescanning :: "sync_mw \<Rightarrow> bool" where
  "IsRescanning s = rescanning (sd s)"

text \<open>The checks of \<open>RescanBlocks\<close>, before it starts its goroutine.\<close>

definition RescanBlocks :: "nat \<Rightarrow> sync_mw \<Rightarrow> err option" where
  "RescanBlocks walletID s =
     (case find_wallet s walletID of
        None \<Rightarrow> Some (New ErrNotExist)
      | Some w \<Rightarrow>
          if \<not> opened w then Some nil_panic
          else if backend w = None then Some (New ErrNotConnected)
          else if IsRescanning s \<or> \<not> mw_IsSynced s then Some (New ErrInvalid)
          else None)"

definition SetBlocksRescanProgressListener :: "bool \<Rightarrow> rescan_sys \<Rightarrow> rescan_sys" where
  "SetBlocksRescanProgressListener listener x = x\<lparr>rs_listener := listener\<rparr>"

definition notify_rescan :: "rescan_event \<Rightarrow> rescan_sys \<Rightarrow> rescan_sys" where
  "notify_rescan ev x = (if rs_listener x then x\<lparr>rs_events := rs_events x @ [ev]\<rparr> else x)"

definition set_job :: "nat \<Rightarrow> nat \<Rightarrow> job \<Rightarrow> rescan_sys \<Rightarrow> rescan_sys" where
  "set_job n walletID j x = x\<lparr>jobs := (jobs x)[n := (walletID, j)]\<rparr>"

definition rescan_begin :: "int \<Rightarrow> nat \<Rightarrow> nat \<Rightarrow> rescan_sys \<Rightarrow> rescan_sys" where
  "rescan_begin now n walletID x =
     set_job n walletID (Scanning now) (notify_rescan (OnBlocksRescanStarted walletID)
       (x\<lparr>rs_mw := upd_sd (\<lambda>d. d\<lparr>rescanning := True, cancelRescan := Some n\<rparr>) (rs_mw x)\<rparr>))"

definition rescan_report :: "go_float \<Rightarrow> int \<Rightarrow> int \<Rightarrow> nat \<Rightarrow> int \<Rightarrow> int \<Rightarrow> HeadersRescanProgressReport" where
  "rescan_report G now start walletID scannedThrough best =
     (let elapsed = int64_of (now - start);
          rescanRate = f_div (f_int scannedThrough) (f_int best);
          progress = int32_f G (f_Round (f_mul rescanRate (f_int 100)));
          estimated = int64_f G (f_Round (f_div (f_int elapsed) rescanRate));
          remaining = int64_of (estimated - elapsed)
      in \<lparr>TotalSyncProgress = progress, TotalTimeRemainingSeconds = remaining, TotalHeadersToScan = best,
          CurrentRescanHeight = scannedThrough, RescanProgress = progress, RescanTimeRemaining = remaining, hrp_WalletID = walletID\<rparr>)"

text \<open>One value of the progress channel: an error, or a report and then the check of the context.\<close>

definition rescan_failed :: "nat \<Rightarrow> nat \<Rightarrow> err \<Rightarrow> rescan_sys \<Rightarrow> rescan_sys" where
  "rescan_failed n walletID er x = set_job n walletID Ending (notify_rescan (OnBlocksRescanEnded walletID (Some er)) x)"

definition rescan_progress :: "go_float \<Rightarrow> int \<Rightarrow> int \<Rightarrow> nat \<Rightarrow> nat \<Rightarrow> int \<Rightarrow> int \<Rightarrow> rescan_sys \<Rightarrow> rescan_sys" where
  "rescan_progress G now start n walletID scannedThrough best x =
     (let x1 = notify_rescan (OnBlocksRescanProgress (rescan_report G now start walletID scannedThrough best)) x in
      if n \<in> set (rs_canceled x1) then set_job n walletID Ending (notify_rescan (OnBlocksRescanEnded walletID None) x1) else x1)"

text \<open>The channel is closed: \<open>er\<close> is the result of \<open>reindexTransactions\<close>.\<close>

definition rescan_completed :: "nat \<Rightarrow> nat \<Rightarrow> err option \<Rightarrow> rescan_sys \<Rightarrow> rescan_sys" where
  "rescan_completed n walletID er x = set_job n walletID Ending (notify_rescan (OnBlocksRescanEnded walletID er) x)"

definition rescan_reset :: "nat \<Rightarrow> nat \<Rightarrow> rescan_sys \<Rightarrow> rescan_sys" where
  "rescan_reset n walletID x =
     set_job n walletID Finished (x\<lparr>rs_mw := upd_sd (\<lambda>d. d\<lparr>rescanning := False, cancelRescan := None\<rparr>) (rs_mw x)\<rparr>)"

definition CancelRescan :: "rescan_sys \<Rightarrow> rescan_sys" where
  "CancelRescan x =
     (case cancelRescan (sd (rs_mw x)) of
        None \<Rightarrow> x
      | Some n \<Rightarrow> x\<lparr>rs_canceled := n # rs_canceled x, rs_mw := upd_sd (\<lambda>d. d\<lparr>cancelRescan := None\<rparr>) (rs_mw x)\<rparr>)"

section \<open>The transition system\<close>

text \<open>
  With \<open>serial\<close>, \<open>RescanBlocks\<close> is not called between the start of a goroutine and its first critical
  section.  \<open>elsewhere\<close> is every change of the state that leaves the two fields of \<open>rescan.go\<close> alone.
\<close>

inductive rescan_step :: "bool \<Rightarrow> go_float \<Rightarrow> rescan_sys \<Rightarrow> rescan_sys \<Rightarrow> bool" for serial G where
  called: "serial \<longrightarrow> (\<forall>(i, j) \<in> set (jobs x). j \<noteq> Spawned) \<Longrightarrow> RescanBlocks walletID (rs_mw x) = None \<Longrightarrow>
    rescan_step serial G x (x\<lparr>jobs := jobs x @ [(walletID, Spawned)]\<rparr>)"
| begun: "n < length (jobs x) \<Longrightarrow> jobs x ! n = (i, Spawned) \<Longrightarrow> rescan_step serial G x (rescan_begin now n i x)"
| progress: "n < length (jobs x) \<Longrightarrow> jobs x ! n = (i, Scanning start) \<Longrightarrow> find_wallet (rs_mw x) i = Some w \<Longrightarrow>
    rescan_step serial G x (rescan_progress G now start n i h (w_GetBestBlock w) x)"
| failed: "n < length (jobs x) \<Longrightarrow> jobs x ! n = (i, Scanning start) \<Longrightarrow> rescan_step serial G x (rescan_failed n i er x)"
| completed: "n < length (jobs x) \<Longrightarrow> jobs x ! n = (i, Scanning start) \<Longrightarrow> rescan_step serial G x (rescan_completed n i r x)"
| reset: "n < length (jobs x) \<Longrightarrow> jobs x ! n = (i, Ending) \<Longrightarrow> rescan_step serial G x (rescan_reset n i x)"
| cancelled: "rescan_step serial G x (CancelRescan x)"
| listener: "rescan_step serial G x (SetBlocksRescanProgressListener b x)"
| elsewhere: "rescanning (sd s) = rescanning (sd (rs_mw x)) \<Longrightarrow> cancelRescan (sd s) = cancelRescan (sd (rs_mw x)) \<Longrightarrow>
    rescan_step serial G x (x\<lparr>rs_mw := s\<rparr>)"

inductive rescan_reach :: "bool \<Rightarrow> go_float \<Rightarrow> rescan_sys \<Rightarrow> bool" for serial G where
  init: "\<not> rescanning (sd s) \<Longrightarrow> cancelRescan (sd s) = None \<Longrightarrow>
    rescan_reach serial G \<lparr>rs_mw = s, rs_listener = False, rs_events = [], rs_canceled = [], jobs = []\<rparr>"
| step: "rescan_reach serial G x \<Longrightarrow> rescan_step serial G x y \<Longrightarrow> rescan_reach serial G y"

section \<open>The invariant of serial calls\<close>

definition alive :: "rescan_sys \<Rightarrow> nat \<Rightarrow> bool" where
  "alive x n \<longleftrightarrow> n < length (jobs x) \<and> snd (jobs x ! n) \<noteq> Finished"

definition job_inv :: "rescan_sys \<Rightarrow> nat \<Rightarrow> bool" where
  "job_inv x n \<longleftrightarrow>
     (let r = rescanning (sd (rs_mw x)); c = cancelRescan (sd (rs_mw x)) in
      case snd (jobs x ! n) of
        Spawned \<Rightarrow> \<not> r \<and> c = None
      | Scanning t \<Rightarrow> r \<and> (c = Some n \<or> c = None \<and> n \<in> set (rs_canceled x))
      | Ending \<Rightarrow> r \<and> (c = Some n \<or> c = None)
      | Finished \<Rightarrow> True)"

definition rescan_inv :: "rescan_sys \<Rightarrow> bool" where
  "rescan_inv x \<longleftrightarrow> (\<forall>m n. alive x m \<and> alive x n \<longrightarrow> m = n) \<and> (\<forall>n. alive x n \<longrightarrow> job_inv x n) \<and>
     ((\<forall>n. \<not> alive x n) \<longrightarrow> \<not> rescanning (sd (rs_mw x)) \<and> cancelRescan (sd (rs_mw x)) = None)"

lemma notify_rescan_simps [simp]:
  "rs_mw (notify_rescan ev x) = rs_mw x" "jobs (notify_rescan ev x) = jobs x" "rs_canceled (notify_rescan ev x) = rs_canceled x"
  by (simp_all add: notify_rescan_def)

lemma set_job_simps [simp]:
  "rs_mw (set_job n i j x) = rs_mw x" "jobs (set_job n i j x) = (jobs x)[n := (i, j)]" "rs_canceled (set_job n i j x) = rs_canceled x"
  by (simp_all add: set_job_def)

lemma rescan_inv_cong:
  assumes "jobs y = jobs x" and "rs_canceled y = rs_canceled x"
    and "rescanning (sd (rs_mw y)) = rescanning (sd (rs_mw x))" and "cancelRescan (sd (rs_mw y)) = cancelRescan (sd (rs_mw x))"
  shows "rescan_inv y = rescan_inv x"
  unfolding rescan_inv_def alive_def job_inv_def assms ..

text \<open>A step of the only live goroutine.\<close>

lemma rescan_inv_job:
  assumes "rescan_inv x" and "alive x n" and "jobs y = (jobs x)[n := (i, j)]"
    and "j \<noteq> Finished \<Longrightarrow> job_inv y n" and "j = Finished \<Longrightarrow> \<not> rescanning (sd (rs_mw y)) \<and> cancelRescan (sd (rs_mw y)) = None"
  shows "rescan_inv y"
proof -
  have only: "alive x m \<longleftrightarrow> m = n" for m using assms(1,2) by (auto simp: rescan_inv_def)
  have "n < length (jobs x)" using assms(2) by (simp add: alive_def)
  then have "alive y m \<longleftrightarrow> m = n \<and> j \<noteq> Finished" for m
    using only [of m] assms(3) by (cases "m = n") (auto simp: alive_def)
  then show ?thesis using assms(4,5) by (auto simp: rescan_inv_def)
qed

lemma scanning_job:
  assumes "rescan_inv x" and "n < length (jobs x)" and "jobs x ! n = (i, Scanning start)"
  shows "alive x n \<and> rescanning (sd (rs_mw x)) \<and> (cancelRescan (sd (rs_mw x)) = Some n \<or> cancelRescan (sd (rs_mw x)) = None \<and> n \<in> set (rs_canceled x))"
proof -
  have "alive x n" using assms(2,3) by (simp add: alive_def)
  moreover from this assms(1) have "job_inv x n" by (simp add: rescan_inv_def)
  ultimately show ?thesis using assms(3) by (simp add: job_inv_def Let_def)
qed

lemma scanning_ends:
  assumes "rescan_inv x" and "n < length (jobs x)" and "jobs x ! n = (i, Scanning start)" and "jobs y = (jobs x)[n := (i, Ending)]" and "rs_mw y = rs_mw x"
  shows "rescan_inv y"
  by (rule rescan_inv_job [OF assms(1) _ assms(4)]) (use scanning_job [OF assms(1-3)] assms(2,4,5) in \<open>auto simp: job_inv_def Let_def\<close>)

lemma rescan_step_inv:
  assumes "rescan_step True G x y" and "rescan_inv x"
  shows "rescan_inv y"
  using assms(1)
proof cases
  case (called walletID)
  from called(3) have quiet: "\<not> rescanning (sd (rs_mw x))" by (auto simp: RescanBlocks_def IsRescanning_def split: option.splits if_splits)
  have none: "\<not> alive x n" for n
  proof
    assume a: "alive x n"
    with assms(2) have "job_inv x n" by (auto simp: rescan_inv_def)
    moreover from a called(2) have "snd (jobs x ! n) \<noteq> Spawned" "snd (jobs x ! n) \<noteq> Finished" by (auto simp: alive_def case_prod_beta)
    ultimately show False using quiet by (auto simp: job_inv_def Let_def split: job.splits)
  qed
  with assms(2) have "cancelRescan (sd (rs_mw x)) = None" by (auto simp: rescan_inv_def)
  moreover have "alive y n \<longleftrightarrow> n = length (jobs x)" for n
    using none [of n] called(1) by (auto simp: alive_def nth_append split: if_splits)
  ultimately show ?thesis using quiet called(1) by (auto simp: rescan_inv_def job_inv_def)
next
  case (begun n i now)
  then have "alive x n" by (simp add: alive_def)
  with assms(2) show ?thesis
    by (rule rescan_inv_job [where i = i and j = "Scanning now"]) (use begun in \<open>auto simp: rescan_begin_def job_inv_def upd_sd_def\<close>)
next
  case (progress n i start w now h)
  show ?thesis
  proof (cases "n \<in> set (rs_canceled x)")
    case True
    with progress show ?thesis by (intro scanning_ends [OF assms(2) progress(2,3)]) (simp_all add: rescan_progress_def Let_def)
  next
    case False
    with progress have "rescan_inv y = rescan_inv x" by (intro rescan_inv_cong) (simp_all add: rescan_progress_def Let_def)
    with assms(2) show ?thesis by simp
  qed
next
  case (failed n i start er)
  then show ?thesis by (intro scanning_ends [OF assms(2) failed(2,3)]) (simp_all add: rescan_failed_def)
next
  case (completed n i start r)
  then show ?thesis by (intro scanning_ends [OF assms(2) completed(2,3)]) (simp_all add: rescan_completed_def)
next
  case (reset n i)
  then have a: "alive x n" by (auto simp: alive_def)
  with reset show ?thesis
    by (intro rescan_inv_job [OF assms(2) a, where i = i and j = Finished]) (auto simp: rescan_reset_def upd_sd_def)
next
  case cancelled
  with assms(2) show ?thesis
    by (auto simp: CancelRescan_def rescan_inv_def alive_def job_inv_def upd_sd_def Let_def split: option.splits job.splits)
next
  case (listener b)
  then have "rescan_inv y = rescan_inv x" by (intro rescan_inv_cong) (simp_all add: SetBlocksRescanProgressListener_def)
  with assms(2) show ?thesis by simp
next
  case (elsewhere s)
  then have "rescan_inv y = rescan_inv x" by (intro rescan_inv_cong) simp_all
  with assms(2) show ?thesis by simp
qed

lemma rescan_reach_inv: "rescan_reach True G x \<Longrightarrow> rescan_inv x"
proof (induction rule: rescan_reach.induct)
  case (step x y)
  then show ?case using rescan_step_inv by blast
qed (simp add: rescan_inv_def alive_def)

section \<open>Properties\<close>

text \<open>
  C27.  As long as \<open>RescanBlocks\<close> is not called again before its goroutine has recorded itself, at most
  one rescan runs, \<open>IsRescanning\<close> holds exactly from the first critical section of its goroutine to
  the last, and \<open>CancelRescan\<close> ends it: the next progress report is the last one, followed by the
  end of the rescan.
\<close>

theorem serial_rescans_are_exclusive:
  assumes "rescan_reach True G x"
  shows "(\<forall>m n. alive x m \<and> alive x n \<longrightarrow> m = n) \<and>
    (IsRescanning (rs_mw x) \<longleftrightarrow> (\<exists>n. alive x n \<and> snd (jobs x ! n) \<noteq> Spawned)) \<and>
    (\<forall>n i start now h best. alive x n \<and> jobs x ! n = (i, Scanning start) \<longrightarrow>
       jobs (rescan_progress G now start n i h best (CancelRescan x)) ! n = (i, Ending))"
proof -
  note inv = rescan_reach_inv [OF assms]
  have "IsRescanning (rs_mw x) \<longleftrightarrow> (\<exists>n. alive x n \<and> snd (jobs x ! n) \<noteq> Spawned)"
  proof (cases "\<exists>n. alive x n")
    case True
    then obtain n where n: "alive x n" "snd (jobs x ! n) \<noteq> Finished" by (auto simp: alive_def)
    with inv have only: "alive x m \<longleftrightarrow> m = n" for m by (auto simp: rescan_inv_def)
    from n inv have "job_inv x n" by (simp add: rescan_inv_def)
    then show ?thesis unfolding only using n(2) by (auto simp: job_inv_def IsRescanning_def Let_def split: job.splits)
  next
    case False
    with inv show ?thesis by (auto simp: rescan_inv_def IsRescanning_def)
  qed
  moreover have "jobs (rescan_progress G now start n i h best (CancelRescan x)) ! n = (i, Ending)"
    if "alive x n" "jobs x ! n = (i, Scanning start)" for n i start now h best
  proof -
    have "cancelRescan (sd (rs_mw x)) = Some n \<or> n \<in> set (rs_canceled x)"
      using scanning_job [OF inv _ that(2)] that(1) by (auto simp: alive_def)
    then have "n \<in> set (rs_canceled (CancelRescan x)) \<and> jobs (CancelRescan x) = jobs x"
      by (auto simp: CancelRescan_def split: option.splits)
    then show ?thesis using that(1) by (simp add: rescan_progress_def alive_def Let_def)
  qed
  ultimately show ?thesis using inv by (auto simp: rescan_inv_def)
qed

text \<open>A multi-wallet that is synced, with one opened wallet.\<close>

definition ex_synced :: sync_mw where
  "ex_synced = (let s = new_mw [\<lparr>sw_ID = 3, opened = True, locked = True, waiting = False, syncing = False, synced_flag = True,
       discovered = True, backend = Some 0, tip_height = 100, tip_time = Inr 0\<rparr>]
     in s\<lparr>sd := (sd s)\<lparr>sd_synced := True\<rparr>\<rparr>)"

abbreviation rescan_init :: "sync_mw \<Rightarrow> rescan_sys" where
  "rescan_init s \<equiv> \<lparr>rs_mw = s, rs_listener = False, rs_events = [], rs_canceled = [], jobs = []\<rparr>"

lemma ex_synced_calls: "RescanBlocks 3 ex_synced = None" and ex_synced_init: "rescan_reach b G (rescan_init ex_synced)"
  by (simp add: RescanBlocks_def ex_synced_def new_mw_def find_wallet_def IsRescanning_def mw_IsSynced_def Let_def)
    (rule rescan_reach.init; simp add: ex_synced_def new_mw_def Let_def)

lemma ex_called: "rescan_reach b G ((rescan_init ex_synced)\<lparr>jobs := [(3, Spawned)]\<rparr>)"
  using rescan_reach.step [OF ex_synced_init rescan_step.called [where x = "rescan_init ex_synced" and walletID = 3 and serial = b and G = G]] ex_synced_calls
  by simp

theorem serial_rescans_are_exclusive_witness:
  "\<exists>x. rescan_reach True ex_G x \<and> IsRescanning (rs_mw x) \<and> jobs x = [(3, Scanning 5)] \<and>
     jobs (rescan_progress ex_G 6 5 0 3 50 100 (CancelRescan x)) ! 0 = (3, Ending)"
proof -
  let ?x = "(rescan_init ex_synced)\<lparr>jobs := [(3, Spawned)]\<rparr>"
  have r: "rescan_reach True ex_G (rescan_begin 5 0 3 ?x)"
    using rescan_reach.step [OF ex_called rescan_step.begun [of 0 ?x 3]] by simp
  have j: "jobs (rescan_begin 5 0 3 ?x) = [(3, Scanning 5)]" by (simp add: rescan_begin_def)
  have "alive (rescan_begin 5 0 3 ?x) 0" unfolding alive_def j by simp
  with serial_rescans_are_exclusive [OF r] j r show ?thesis by (intro exI [of _ "rescan_begin 5 0 3 ?x"]) auto
qed

text \<open>
  C38.  Two calls in a row start two rescans, because the flag that the second call reads is set by the
  goroutine of the first.  When the first goroutine ends, the second one still scans, but the
  multi-wallet does not count as rescanning any more and \<open>CancelRescan\<close> does nothing.
\<close>

theorem two_rescans_at_once:
  "\<exists>x. rescan_reach False G x \<and> jobs x = [(3, Finished), (3, Scanning 6)] \<and> \<not> IsRescanning (rs_mw x) \<and> CancelRescan x = x"
proof -
  define x1 where "x1 = (rescan_init ex_synced)\<lparr>jobs := [(3, Spawned), (3, Spawned)]\<rparr>"
  define x2 where "x2 = rescan_begin 6 1 3 (rescan_begin 5 0 3 x1)"
  define x3 where "x3 = rescan_completed 0 3 None x2"
  define x4 where "x4 = rescan_reset 0 3 x3"
  have r1: "rescan_reach False G x1"
    using rescan_reach.step [OF ex_called rescan_step.called [where x = "(rescan_init ex_synced)\<lparr>jobs := [(3, Spawned)]\<rparr>" and walletID = 3 and serial = False and G = G]]
      ex_synced_calls by (simp add: x1_def)
  have j1: "jobs (rescan_begin 5 0 3 x1) = [(3, Scanning 5), (3, Spawned)]" by (simp add: rescan_begin_def x1_def)
  have r2: "rescan_reach False G (rescan_begin 5 0 3 x1)"
    by (rule rescan_reach.step [OF r1 rescan_step.begun]) (simp_all add: x1_def)
  have "rescan_reach False G x2" unfolding x2_def by (rule rescan_reach.step [OF r2 rescan_step.begun]) (simp_all add: j1)
  moreover have j2: "jobs x2 = [(3, Scanning 5), (3, Scanning 6)]" by (simp add: x2_def rescan_begin_def x1_def)
  ultimately have r3: "rescan_reach False G x3" unfolding x3_def
    by (intro rescan_reach.step [OF _ rescan_step.completed [where start = 5]]) simp_all
  have j3: "jobs x3 = [(3, Ending), (3, Scanning 6)]" by (simp add: x3_def rescan_completed_def j2)
  have "rescan_reach False G x4" unfolding x4_def by (rule rescan_reach.step [OF r3 rescan_step.reset]) (simp_all add: j3)
  moreover have "jobs x4 = [(3, Finished), (3, Scanning 6)]" by (simp add: x4_def rescan_reset_def j3)
  moreover have "\<not> IsRescanning (rs_mw x4)" "cancelRescan (sd (rs_mw x4)) = None"
    by (simp_all add: x4_def rescan_reset_def IsRescanning_def upd_sd_def)
  ultimately show ?thesis by (intro exI [of _ x4]) (simp add: CancelRescan_def)
qed

text \<open>
  While the rescan is inside the chain the reported progress is a percentage, computed in floating
  point as in the code; the general report repeats it and the remaining time.
\<close>

theorem rescan_progress_in_range:
  assumes "0 \<le> h" and "h \<le> best" and "0 < best" and "best < 2 ^ 31"
  shows "let r = rescan_report G now start i h best in
    0 \<le> RescanProgress r \<and> RescanProgress r \<le> 100 \<and> TotalSyncProgress r = RescanProgress r \<and>
    TotalTimeRemainingSeconds r = RescanTimeRemaining r \<and> TotalHeadersToScan r = best \<and> CurrentRescanHeight r = h"
proof -
  have "f_int h = Fin (of_int h)" "f_int best = Fin (of_int best)" "f_int 100 = Fin 100"
    using assms f_int_exact [of h] f_int_exact [of best] f_int_exact [of 100] by simp_all
  moreover have "in_range 1 (f_div (Fin (of_int h)) (Fin (of_int best)))"
    using assms by (intro f_div_in_range) (auto simp: at_least_def)
  moreover have "in_range (of_int 100) (Fin 100)" by (simp add: in_range_def)
  ultimately have "in_range (of_int (1 * 100)) (f_mul (f_div (f_int h) (f_int best)) (f_int 100))"
    by (intro f_mul_in_range) simp_all
  from int32_round_in_range [OF this, of G] show ?thesis by (simp add: rescan_report_def Let_def)
qed

theorem rescan_progress_in_range_witness:
  "0 \<le> RescanProgress (rescan_report ex_G 6 5 3 50 100) \<and> RescanProgress (rescan_report ex_G 6 5 3 50 100) \<le> 100"
  using rescan_progress_in_range [of 50 100 ex_G 6 5 3] by (simp add: Let_def)

end
