(* ===== verification/Badger.thy ===== *)
theory Badger
  imports Prelude "HOL-Library.Sublist" "HOL-Library.List_Lexorder"
begin

text \<open>
  The bucket layer of \<open>badgerdb\<close> (\<open>bucket.go\<close> and the transactions of \<open>db.go\<close>): nested
  key/value buckets on top of the flat, ordered key space of the Badger store.  A bucket is a key
  prefix; an entry of the bucket is stored under \<open>prefix @ key\<close>, its first value byte being the
  length of the prefix (one byte, so modulo 256) and its user meta byte telling nested buckets
  from values.  The store itself is third-party and a parameter.
\<close>

section \<open>The store\<close>

datatype badger_err = ErrKeyNotFound | ErrEmptyKey | ErrTxnTooBig | ErrReadOnlyTxn | ErrDiscardedTxn
  | ErrValueLogSize | ErrValueThreshold | ErrThresholdZero | ErrRejected | ErrInvalidRequest
  | ErrManagedTxn | ErrInvalidDump | ErrZeroBandwidth | ErrInvalidLoadingMode
  | ErrWindowsNotSupported | ErrReplayNeeded | ErrTruncateNeeded | ErrConflict | ErrRetry
  | ErrNoRewrite | ErrOther string

text \<open>A \<open>badger.Item\<close>: \<open>item.Value()\<close> may fail.\<close>

record item =
  it_Key :: bytes
  it_Value :: "badger_err + bytes"
  UserMeta :: nat

text \<open>
  The operations of \<open>badger.Txn\<close> and \<open>badger.DB\<close> that the package calls, over the states \<open>'t\<close> of
  a transaction and \<open>'d\<close> of the database.  \<open>Txn_Items\<close> is the sequence of items a forward
  iterator opened on the transaction visits after \<open>Rewind\<close>.
\<close>

record ('t, 'd) badger =
  Txn_Get :: "'t \<Rightarrow> bytes \<Rightarrow> badger_err + item"
  Txn_SetWithMeta :: "'t \<Rightarrow> bytes \<Rightarrow> bytes \<Rightarrow> nat \<Rightarrow> badger_err + 't"
  Txn_Delete :: "'t \<Rightarrow> bytes \<Rightarrow> badger_err + 't"
  Txn_Items :: "'t \<Rightarrow> item list"
  NewTransaction :: "'d \<Rightarrow> bool \<Rightarrow> 't"
  Txn_Commit :: "'d \<Rightarrow> 't \<Rightarrow> badger_err + 'd"
  DB_Close :: "'d \<Rightarrow> badger_err option"

section \<open>Errors (\<open>convertErr\<close>)\<close>

text \<open>An error of this package: with a kind and a message, or with a kind and a wrapped error.\<close>

datatype db_err = DbErr kind string | DbWrapBadger kind badger_err | DbWrap kind db_err
  | BadgerErr badger_err | DbPanic string

type_synonym 'a db_result = "db_err + 'a"

fun badger_kind :: "badger_err \<Rightarrow> kind" where
  "badger_kind ErrKeyNotFound = NotExist"
| "badger_kind ErrConflict = IO"
| "badger_kind ErrRetry = IO"
| "badger_kind ErrNoRewrite = IO"
| "badger_kind (ErrOther s) = OtherKind"
| "badger_kind e = Invalid"

fun convertErr :: "db_err \<Rightarrow> db_err" where
  "convertErr (BadgerErr e) = DbWrapBadger (badger_kind e) e"
| "convertErr (DbPanic m) = DbPanic m"
| "convertErr e = DbWrap OtherKind e"

definition convert_result :: "'a db_result \<Rightarrow> 'a db_result" where
  "convert_result r = (case r of Inl e \<Rightarrow> Inl (convertErr e) | Inr x \<Rightarrow> Inr x)"

section \<open>Keys and values\<close>

definition maxKeySize :: nat where "maxKeySize = 65378"
definition metaBucket :: nat where "metaBucket = 5"

text \<open>\<open>byte(length)\<close> truncates to eight bits.\<close>

definition insertPrefixLength :: "bytes \<Rightarrow> nat \<Rightarrow> bytes" where
  "insertPrefixLength val len = word_of_nat len # val"

definition addPrefix :: "bytes \<Rightarrow> bytes \<Rightarrow> bytes db_result" where
  "addPrefix pre key = (if maxKeySize < length key then Inl (DbErr Invalid ''key too long'') else Inr (pre @ key))"

text \<open>
  \<open>bytes.Equal(item.Key()[:int(val[0])], prefix)\<close>: a panic on an empty value, or on a length
  past the key.
\<close>

definition stored_under :: "bytes \<Rightarrow> bytes \<Rightarrow> bytes \<Rightarrow> bool db_result" where
  "stored_under val key pre =
     (case val of
        [] \<Rightarrow> Inl (DbPanic ''index out of range'')
      | n # _ \<Rightarrow> if length key < unat n then Inl (DbPanic ''slice bounds out of range'')
                else Inr (take (unat n) key = pre))"

text \<open>The items of \<open>it.Seek(p); it.ValidForPrefix(p); it.Next()\<close>.\<close>

definition seek_items :: "bytes \<Rightarrow> item list \<Rightarrow> item list" where
  "seek_items p items = takeWhile (\<lambda>it. prefix p (it_Key it)) (dropWhile (\<lambda>it. it_Key it < p) items)"

definition delete_ignoring :: "('t, 'd) badger \<Rightarrow> 't \<Rightarrow> bytes \<Rightarrow> 't" where
  "delete_ignoring B t k = (case Txn_Delete B t k of Inl e \<Rightarrow> t | Inr t' \<Rightarrow> t')"

section \<open>Buckets (\<open>bucket.go\<close>)\<close>

text \<open>A bucket handle: its prefix and the prefixes of the handles created through it.\<close>

record Bucket =
  b_prefix :: bytes
  b_buckets :: "bytes list"

text \<open>
  \<open>newBucket\<close>: the error for a key that is not a bucket is constructed and dropped, so the
  handle is returned for it too.
\<close>

definition newBucket :: "('t, 'd) badger \<Rightarrow> 't \<Rightarrow> bytes \<Rightarrow> (Bucket \<times> 't) db_result" where
  "newBucket B t badgerKey =
     (let b = \<lparr>b_prefix = badgerKey, b_buckets = []\<rparr> in
      case Txn_Get B t badgerKey of
        Inl e \<Rightarrow>
          if e = ErrKeyNotFound
          then (case Txn_SetWithMeta B t badgerKey (insertPrefixLength [] (length badgerKey)) metaBucket of
                  Inl e' \<Rightarrow> Inl (convertErr (BadgerErr e'))
                | Inr t' \<Rightarrow> Inr (b, t'))
          else Inl (convertErr (BadgerErr e))
      | Inr it \<Rightarrow> Inr (b, t))"

text \<open>\<open>bucket\<close>: any error of \<open>Get\<close> is taken for a missing key.  Returns the child and the updated parent.\<close>

definition bucket :: "('t, 'd) badger \<Rightarrow> 't \<Rightarrow> Bucket \<Rightarrow> bytes \<Rightarrow> bool \<Rightarrow> (Bucket \<times> Bucket \<times> 't) db_result" where
  "bucket B t b key errorIfExists =
     (if key = [] then Inl (DbErr Invalid ''key is empty'')
      else case addPrefix (b_prefix b) key of
        Inl e \<Rightarrow> Inl e
      | Inr copiedKey \<Rightarrow>
          let child = \<lparr>b_prefix = copiedKey, b_buckets = []\<rparr>;
              parent = b\<lparr>b_buckets := b_buckets b @ [copiedKey]\<rparr> in
          case Txn_Get B t copiedKey of
            Inl e \<Rightarrow>
              (case Txn_SetWithMeta B t copiedKey (insertPrefixLength [] (length (b_prefix b))) metaBucket of
                 Inl e' \<Rightarrow> Inl (convertErr (BadgerErr e'))
               | Inr t' \<Rightarrow> Inr (child, parent, t'))
          | Inr it \<Rightarrow>
              if UserMeta it = metaBucket
              then if errorIfExists then Inl (DbErr Exist ''bucket already exists'')
                   else Inr (child, parent, t)
              else Inl (DbErr Invalid ''key is not associated with a bucket''))"

text \<open>The deletion loops: entries whose value cannot be read are skipped, errors of \<open>Delete\<close> are dropped.\<close>

fun drop_loop :: "('t, 'd) badger \<Rightarrow> bytes \<Rightarrow> 't \<Rightarrow> item list \<Rightarrow> 't db_result" where
  "drop_loop B pre t [] = Inr t"
| "drop_loop B pre t (it # its) =
     (case it_Value it of
        Inl e \<Rightarrow> drop_loop B pre t its
      | Inr val \<Rightarrow>
          (case stored_under val (it_Key it) pre of
             Inl e \<Rightarrow> Inl e
           | Inr own \<Rightarrow> drop_loop B pre (if own then delete_ignoring B t (it_Key it) else t) its))"

text \<open>\<open>dropBucket\<close>; the loop reads a new read-only transaction, that is, the committed state \<open>rd\<close>.\<close>

definition dropBucket :: "('t, 'd) badger \<Rightarrow> bool \<Rightarrow> 't \<Rightarrow> 't \<Rightarrow> Bucket \<Rightarrow> bytes \<Rightarrow> 't db_result" where
  "dropBucket B writable rd t b key =
     (if \<not> writable then Inl (DbErr Invalid ''cannot delete nested bucket in a read-only transaction'')
      else case addPrefix (b_prefix b) key of
        Inl e \<Rightarrow> Inl e
      | Inr pre \<Rightarrow>
          (case Txn_Get B t pre of
             Inl e \<Rightarrow> Inl (convertErr (BadgerErr e))
           | Inr it \<Rightarrow>
               if UserMeta it \<noteq> metaBucket then Inl (DbErr Invalid ''key is not associated with a bucket'')
               else drop_loop B (b_prefix b) (delete_ignoring B t (it_Key it)) (seek_items pre (Txn_Items B rd))))"

text \<open>\<open>get\<close>: \<open>None\<close> is nil.\<close>

definition get :: "('t, 'd) badger \<Rightarrow> 't \<Rightarrow> Bucket \<Rightarrow> bytes \<Rightarrow> bytes option db_result" where
  "get B t b key =
     (if key = [] then Inr None
      else case addPrefix (b_prefix b) key of
        Inl e \<Rightarrow> Inr None
      | Inr k \<Rightarrow>
          (case Txn_Get B t k of
             Inl e \<Rightarrow> Inr None
           | Inr it \<Rightarrow>
               (case it_Value it of
                  Inl e \<Rightarrow> Inr None
                | Inr [] \<Rightarrow> Inl (DbPanic ''slice bounds out of range'')
                | Inr (_ # v) \<Rightarrow> Inr (Some v))))"

definition put :: "('t, 'd) badger \<Rightarrow> 't \<Rightarrow> Bucket \<Rightarrow> bytes \<Rightarrow> bytes \<Rightarrow> 't db_result" where
  "put B t b key val =
     (if key = [] then Inl (DbErr Invalid ''key is empty'')
      else if maxKeySize < length key then Inl (DbErr Invalid ''key is too large'')
      else case addPrefix (b_prefix b) key of
        Inl e \<Rightarrow> Inl e
      | Inr k \<Rightarrow>
          (case Txn_SetWithMeta B t k (insertPrefixLength val (length (b_prefix b))) 0 of
             Inl e \<Rightarrow> Inl (BadgerErr e)
           | Inr t' \<Rightarrow> Inr t'))"

definition delete :: "('t, 'd) badger \<Rightarrow> 't \<Rightarrow> Bucket \<Rightarrow> bytes \<Rightarrow> 't db_result" where
  "delete B t b key =
     (if key = [] then Inr t
      else case addPrefix (b_prefix b) key of
        Inl e \<Rightarrow> Inl e
      | Inr k \<Rightarrow>
          (case Txn_Delete B t k of
             Inl e \<Rightarrow> if e = ErrKeyNotFound then Inr t else Inl (BadgerErr e)
           | Inr t' \<Rightarrow> Inr t'))"

text \<open>
  \<open>forEach\<close>, with the callback as a function on a state of its own; a nil value marks a nested
  bucket.  The callback's error stops the loop.
\<close>

fun forEach_loop ::
  "bytes \<Rightarrow> ('s \<Rightarrow> bytes \<Rightarrow> bytes option \<Rightarrow> 's db_result) \<Rightarrow> 's \<Rightarrow> item list \<Rightarrow> 's db_result" where
  "forEach_loop pre fn s [] = Inr s"
| "forEach_loop pre fn s (it # its) =
     (if it_Key it = pre then forEach_loop pre fn s its
      else case it_Value it of
        Inl e \<Rightarrow> Inl (convertErr (BadgerErr e))
      | Inr v \<Rightarrow>
          (case stored_under v (it_Key it) pre of
             Inl e \<Rightarrow> Inl e
           | Inr False \<Rightarrow> forEach_loop pre fn s its
           | Inr True \<Rightarrow>
               (case fn s (drop (unat (hd v)) (it_Key it)) (if UserMeta it = metaBucket then None else Some (tl v)) of
                  Inl e \<Rightarrow> Inl e
                | Inr s' \<Rightarrow> forEach_loop pre fn s' its)))"

definition forEach ::
  "('t, 'd) badger \<Rightarrow> 't \<Rightarrow> Bucket \<Rightarrow> ('s \<Rightarrow> bytes \<Rightarrow> bytes option \<Rightarrow> 's db_result) \<Rightarrow> 's \<Rightarrow> 's db_result" where
  "forEach B t b fn s = forEach_loop (b_prefix b) fn s (seek_items (b_prefix b) (Txn_Items B t))"

section \<open>Transactions (\<open>db.go\<close>)\<close>

record 'd db =
  store :: 'd
  closed :: bool

record 't transaction =
  badgerTx :: 't
  tx_buckets :: "bytes list"
  writable :: bool
  isDiscarded :: bool

text \<open>\<open>errors.E(errors.Invalid)\<close>.\<close>

abbreviation invalid :: db_err where "invalid \<equiv> DbErr Invalid []"

definition beginTx :: "('t, 'd) badger \<Rightarrow> 'd db \<Rightarrow> bool \<Rightarrow> 't transaction db_result" where
  "beginTx B d w =
     (if closed d then Inl invalid
      else Inr \<lparr>badgerTx = NewTransaction B (store d) w, tx_buckets = [], writable = w, isDiscarded = False\<rparr>)"

definition BeginReadTx :: "('t, 'd) badger \<Rightarrow> 'd db \<Rightarrow> 't transaction db_result" where
  "BeginReadTx B d = beginTx B d False"

definition BeginReadWriteTx :: "('t, 'd) badger \<Rightarrow> 'd db \<Rightarrow> 't transaction db_result" where
  "BeginReadWriteTx B d = beginTx B d True"

text \<open>A nil bucket is \<open>None\<close>; the handle is recorded in the transaction.\<close>

definition ReadWriteBucket ::
  "('t, 'd) badger \<Rightarrow> 'd db \<Rightarrow> 't transaction \<Rightarrow> bytes \<Rightarrow> Bucket option \<times> 't transaction" where
  "ReadWriteBucket B d tx key =
     (if closed d then (None, tx)
      else case Txn_Get B (badgerTx tx) key of
        Inl e \<Rightarrow> (None, tx)
      | Inr it \<Rightarrow>
          if UserMeta it \<noteq> metaBucket then (None, tx)
          else (Some \<lparr>b_prefix = key, b_buckets = []\<rparr>, tx\<lparr>tx_buckets := tx_buckets tx @ [key]\<rparr>))"

definition ReadBucket ::
  "('t, 'd) badger \<Rightarrow> 'd db \<Rightarrow> 't transaction \<Rightarrow> bytes \<Rightarrow> Bucket option \<times> 't transaction" where
  "ReadBucket B d tx key = (if closed d then (None, tx) else ReadWriteBucket B d tx key)"

definition CreateTopLevelBucket ::
  "('t, 'd) badger \<Rightarrow> 'd db \<Rightarrow> 't transaction \<Rightarrow> bytes \<Rightarrow> (Bucket \<times> 't transaction) db_result" where
  "CreateTopLevelBucket B d tx key =
     (if closed d then Inl invalid
      else case newBucket B (badgerTx tx) key of
        Inl e \<Rightarrow> Inl e
      | Inr (b, t) \<Rightarrow> Inr (b, tx\<lparr>badgerTx := t, tx_buckets := tx_buckets tx @ [b_prefix b]\<rparr>))"

text \<open>\<open>DeleteTopLevelBucket\<close> iterates its own transaction and forgets the first handle of the bucket.\<close>

definition DeleteTopLevelBucket ::
  "('t, 'd) badger \<Rightarrow> 'd db \<Rightarrow> 't transaction \<Rightarrow> bytes \<Rightarrow> 't transaction db_result" where
  "DeleteTopLevelBucket B d tx key =
     (if closed d then Inl invalid
      else case Txn_Get B (badgerTx tx) key of
        Inl e \<Rightarrow> Inl (convertErr (BadgerErr e))
      | Inr it \<Rightarrow>
          if UserMeta it \<noteq> metaBucket then Inl invalid
          else let t = delete_ignoring B (badgerTx tx) (it_Key it) in
               case drop_loop B key t (seek_items key (Txn_Items B t)) of
                 Inl e \<Rightarrow> Inl e
               | Inr t' \<Rightarrow> Inr (tx\<lparr>badgerTx := t', tx_buckets := remove1 key (tx_buckets tx)\<rparr>))"

definition Commit :: "('t, 'd) badger \<Rightarrow> 'd db \<Rightarrow> 't transaction \<Rightarrow> 'd db db_result" where
  "Commit B d tx =
     (if closed d then Inl invalid
      else case Txn_Commit B (store d) (badgerTx tx) of
        Inl e \<Rightarrow> Inl (convertErr (BadgerErr e))
      | Inr st \<Rightarrow> Inr (d\<lparr>store := st\<rparr>))"

definition Rollback :: "'d db \<Rightarrow> 't transaction \<Rightarrow> 't transaction db_result" where
  "Rollback d tx =
     (if closed d \<or> isDiscarded tx then Inl invalid else Inr (tx\<lparr>isDiscarded := True\<rparr>))"

section \<open>The exported bucket operations (\<open>db.go\<close>)\<close>

definition NestedReadWriteBucket ::
  "('t, 'd) badger \<Rightarrow> 'd db \<Rightarrow> 't transaction \<Rightarrow> Bucket \<Rightarrow> bytes \<Rightarrow> Bucket option \<times> 't transaction" where
  "NestedReadWriteBucket B d tx b key =
     (if closed d then (None, tx)
      else case addPrefix (b_prefix b) key of
        Inl e \<Rightarrow> (None, tx)
      | Inr k \<Rightarrow>
          (case Txn_Get B (badgerTx tx) k of
             Inl e \<Rightarrow> (None, tx)
           | Inr it \<Rightarrow>
               if UserMeta it \<noteq> metaBucket then (None, tx)
               else (Some \<lparr>b_prefix = k, b_buckets = []\<rparr>, tx\<lparr>tx_buckets := tx_buckets tx @ [k]\<rparr>)))"

definition NestedReadBucket ::
  "('t, 'd) badger \<Rightarrow> 'd db \<Rightarrow> 't transaction \<Rightarrow> Bucket \<Rightarrow> bytes \<Rightarrow> Bucket option \<times> 't transaction" where
  "NestedReadBucket B d tx b key = (if closed d then (None, tx) else NestedReadWriteBucket B d tx b key)"

definition CreateBucket ::
  "('t, 'd) badger \<Rightarrow> 'd db \<Rightarrow> 't transaction \<Rightarrow> Bucket \<Rightarrow> bytes \<Rightarrow> (Bucket \<times> Bucket \<times> 't transaction) db_result" where
  "CreateBucket B d tx b key =
     (if closed d then Inl invalid
      else case bucket B (badgerTx tx) b key True of
        Inl e \<Rightarrow> Inl e
      | Inr (child, parent, t) \<Rightarrow> Inr (child, parent, tx\<lparr>badgerTx := t\<rparr>))"

definition CreateBucketIfNotExists ::
  "('t, 'd) badger \<Rightarrow> 'd db \<Rightarrow> 't transaction \<Rightarrow> Bucket \<Rightarrow> bytes \<Rightarrow> (Bucket \<times> Bucket \<times> 't transaction) db_result" where
  "CreateBucketIfNotExists B d tx b key =
     (if closed d then Inl invalid
      else case bucket B (badgerTx tx) b key False of
        Inl e \<Rightarrow> Inl e
      | Inr (child, parent, t) \<Rightarrow> Inr (child, parent, tx\<lparr>badgerTx := t\<rparr>))"

text \<open>A nil key is \<open>None\<close>.\<close>

definition DeleteNestedBucket ::
  "('t, 'd) badger \<Rightarrow> 'd db \<Rightarrow> 't transaction \<Rightarrow> Bucket \<Rightarrow> bytes option \<Rightarrow> 't transaction db_result" where
  "DeleteNestedBucket B d tx b key =
     (case key of
        None \<Rightarrow> Inl invalid
      | Some k \<Rightarrow>
          if closed d then Inl invalid
          else case dropBucket B (writable tx) (NewTransaction B (store d) False) (badgerTx tx) b k of
            Inl e \<Rightarrow> Inl e
          | Inr t \<Rightarrow> Inr (tx\<lparr>badgerTx := t\<rparr>))"

definition ForEach ::
  "('t, 'd) badger \<Rightarrow> 'd db \<Rightarrow> 't transaction \<Rightarrow> Bucket \<Rightarrow>
   ('s \<Rightarrow> bytes \<Rightarrow> bytes option \<Rightarrow> 's db_result) \<Rightarrow> 's \<Rightarrow> 's db_result" where
  "ForEach B d tx b fn s =
     (if closed d then Inl invalid else convert_result (forEach B (badgerTx tx) b fn s))"

definition Put :: "('t, 'd) badger \<Rightarrow> 'd db \<Rightarrow> 't transaction \<Rightarrow> Bucket \<Rightarrow> bytes \<Rightarrow> bytes \<Rightarrow> 't transaction db_result" where
  "Put B d tx b key val =
     (if closed d then Inl invalid
      else case convert_result (put B (badgerTx tx) b key val) of
        Inl e \<Rightarrow> Inl e
      | Inr t \<Rightarrow> Inr (tx\<lparr>badgerTx := t\<rparr>))"

definition Get :: "('t, 'd) badger \<Rightarrow> 'd db \<Rightarrow> 't transaction \<Rightarrow> Bucket \<Rightarrow> bytes \<Rightarrow> bytes option db_result" where
  "Get B d tx b key = (if closed d then Inr None else get B (badgerTx tx) b key)"

definition Delete :: "('t, 'd) badger \<Rightarrow> 'd db \<Rightarrow> 't transaction \<Rightarrow> Bucket \<Rightarrow> bytes \<Rightarrow> 't transaction db_result" where
  "Delete B d tx b key =
     (if closed d then Inl invalid
      else case convert_result (delete B (badgerTx tx) b key) of
        Inl e \<Rightarrow> Inl e
      | Inr t \<Rightarrow> Inr (tx\<lparr>badgerTx := t\<rparr>))"

section \<open>The database (\<open>db.go\<close>)\<close>

text \<open>The error of the store's own \<open>Close\<close> is returned with the database marked closed.\<close>

definition Close :: "('t, 'd) badger \<Rightarrow> 'd db \<Rightarrow> db_err option \<times> 'd db" where
  "Close B d =
     (if closed d then (Some (DbErr Invalid ''database is already closed''), d)
      else (map_option (convertErr \<circ> BadgerErr) (DB_Close B (store d)), d\<lparr>closed := True\<rparr>))"

definition Copy :: "db_err option" where
  "Copy = Some (DbErr Invalid ''method not implemented'')"

section \<open>Specification\<close>

text \<open>
  An item is well formed when its value starts with the length of a prefix of its key; it is an
  entry of the bucket with that prefix.
\<close>

definition wf_item :: "item \<Rightarrow> bool" where
  "wf_item it \<longleftrightarrow> (\<exists>n v. it_Value it = Inr (n # v) \<and> unat n \<le> length (it_Key it))"

definition owned :: "bytes \<Rightarrow> item \<Rightarrow> bool" where
  "owned p it \<longleftrightarrow> (\<exists>n v. it_Value it = Inr (n # v) \<and> unat n \<le> length (it_Key it) \<and> take (unat n) (it_Key it) = p)"

definition item_data :: "item \<Rightarrow> bytes option" where
  "item_data it = (if UserMeta it = metaBucket then None else case it_Value it of Inl e \<Rightarrow> None | Inr v \<Rightarrow> Some (tl v))"

definition listing :: "bytes \<Rightarrow> item list \<Rightarrow> (bytes \<times> bytes option) list" where
  "listing p its = map (\<lambda>it. (drop (length p) (it_Key it), item_data it))
     (filter (\<lambda>it. owned p it \<and> it_Key it \<noteq> p) its)"

lemma owned_prefix: "owned p it \<Longrightarrow> prefix p (it_Key it)"
  by (auto simp: owned_def take_is_prefix)

lemma byte_less: "unat (n :: byte) < 256"
  using unsigned_less [of n, where ?'a = nat] by simp

lemma owned_length: "owned p it \<Longrightarrow> length p < 256"
  using byte_less by (fastforce simp: owned_def)

lemma owned_unique: "owned p it \<Longrightarrow> owned q it \<Longrightarrow> p = q"
  by (auto simp: owned_def)

lemma stored_under_wf:
  assumes "wf_item it" and "it_Value it = Inr val"
  shows "stored_under val (it_Key it) p = Inr (owned p it)"
  using assms by (auto simp: wf_item_def owned_def stored_under_def)

lemma prefix_ge: "prefix p (k :: bytes) \<Longrightarrow> \<not> k < p"
proof (induction p arbitrary: k)
  case (Cons x p)
  then show ?case by (cases k) auto
qed simp

lemma prefix_interval:
  fixes p a b :: bytes
  assumes "p \<le> a" and "a < b" and "prefix p b"
  shows "prefix p a"
  using assms
proof (induction p arbitrary: a b)
  case (Cons x p)
  obtain y a' where a: "a = y # a'" using Cons.prems(1) by (cases a) auto
  from Cons.prems(3) obtain b' where b: "b = x # b'" "prefix p b'" by (cases b) auto
  from Cons.prems a b(1) have "x = y" by auto
  with Cons.prems a b Cons.IH [of a' b'] show ?case by auto
qed simp

text \<open>In key order, the items with a prefix are contiguous: the iterator loop visits exactly them.\<close>

lemma seek_items_filter:
  assumes "sorted_wrt (\<lambda>a b. it_Key a < it_Key b) its"
  shows "seek_items p its = filter (\<lambda>it. prefix p (it_Key it)) its"
proof -
  have take: "takeWhile (\<lambda>it. prefix p (it_Key it)) its = filter (\<lambda>it. prefix p (it_Key it)) its"
    if "sorted_wrt (\<lambda>a b. it_Key a < it_Key b) its" and "\<forall>it \<in> set its. p \<le> it_Key it" for its
    using that
  proof (induction its)
    case (Cons it its)
    then have "prefix p (it_Key it)" if "i \<in> set its" "prefix p (it_Key i)" for i
      using that prefix_interval [of p "it_Key it" "it_Key i"] by simp
    then have "filter (\<lambda>it. prefix p (it_Key it)) its = []" if "\<not> prefix p (it_Key it)"
      using that by (auto simp: filter_empty_conv)
    with Cons show ?case by simp
  qed simp
  show ?thesis using assms
  proof (induction its)
    case (Cons it its)
    show ?case
    proof (cases "it_Key it < p")
      case True
      with Cons prefix_ge show ?thesis by (auto simp: seek_items_def)
    next
      case False
      then have "p \<le> it_Key it" by simp
      with Cons.prems have "\<forall>i \<in> set (it # its). p \<le> it_Key i" by (auto intro: order.trans less_imp_le)
      from take [OF Cons.prems this] False show ?thesis by (simp add: seek_items_def)
    qed
  qed (simp add: seek_items_def)
qed

lemma forEach_loop_listing:
  assumes "\<forall>it \<in> set its. wf_item it"
  shows "forEach_loop p fn s its = traverse (\<lambda>s (k, v). fn s k v) s (listing p its)"
  using assms
proof (induction its arbitrary: s)
  case (Cons it its)
  then obtain n v where v: "it_Value it = Inr (n # v)" "unat n \<le> length (it_Key it)" by (auto simp: wf_item_def)
  have su: "stored_under (n # v) (it_Key it) p = Inr (owned p it)"
    using stored_under_wf v(1) Cons.prems by simp
  have "unat n = length p" if "owned p it" using that v by (auto simp: owned_def)
  with Cons v su show ?case
    by (auto simp: listing_def item_data_def split: sum.splits)
qed (simp add: listing_def)

lemma listing_filter_prefix: "listing p (filter (\<lambda>it. prefix p (it_Key it)) its) = listing p its"
  unfolding listing_def filter_filter
  by (rule arg_cong [where f = "map _"], rule filter_cong) (auto dest: owned_prefix)

section \<open>The store's laws\<close>

text \<open>
  The documented behaviour of the store: a transaction reads what it wrote, writes and deletions
  touch one key, a forward iterator visits the readable items in strictly increasing key order,
  and a commit adds nothing but what the transaction read or wrote.
\<close>

locale badger_store =
  fixes B :: "('t, 'd) badger"
  assumes get_key: "Txn_Get B t k = Inr it \<Longrightarrow> it_Key it = k"
    and get_set: "Txn_SetWithMeta B t k v m = Inr t' \<Longrightarrow>
      Txn_Get B t' k' = (if k' = k then Inr \<lparr>it_Key = k, it_Value = Inr v, UserMeta = m\<rparr> else Txn_Get B t k')"
    and get_delete: "Txn_Delete B t k = Inr t' \<Longrightarrow>
      Txn_Get B t' k' = (if k' = k then Inl ErrKeyNotFound else Txn_Get B t k')"
    and items_get: "set (Txn_Items B t) = {it. Txn_Get B t (it_Key it) = Inr it}"
    and items_sorted: "sorted_wrt (\<lambda>a b. it_Key a < it_Key b) (Txn_Items B t)"
    and get_commit: "Txn_Commit B d t = Inr d' \<Longrightarrow> Txn_Get B (NewTransaction B d' w) k = Inr it \<Longrightarrow>
      Txn_Get B t k = Inr it \<or> Txn_Get B (NewTransaction B d w') k = Inr it"
begin

definition wf_txn :: "'t \<Rightarrow> bool" where
  "wf_txn t \<longleftrightarrow> (\<forall>k it. Txn_Get B t k = Inr it \<longrightarrow> wf_item it)"

lemma wf_items: "wf_txn t \<Longrightarrow> \<forall>it \<in> set (Txn_Items B t). wf_item it"
  by (auto simp: wf_txn_def items_get)

lemma forEach_listing:
  assumes "wf_txn t"
  shows "forEach B t b fn s = traverse (\<lambda>s (k, v). fn s k v) s (listing (b_prefix b) (Txn_Items B t))"
  using wf_items [OF assms]
  by (simp add: forEach_def seek_items_filter [OF items_sorted] forEach_loop_listing listing_filter_prefix)

lemma listing_mem:
  "(k, v) \<in> set (listing p (Txn_Items B t)) \<longleftrightarrow>
     k \<noteq> [] \<and> (\<exists>it. Txn_Get B t (p @ k) = Inr it \<and> owned p it \<and> v = item_data it)"
proof
  assume "(k, v) \<in> set (listing p (Txn_Items B t))"
  then obtain it where it: "it \<in> set (Txn_Items B t)" "owned p it" "it_Key it \<noteq> p"
    "k = drop (length p) (it_Key it)" "v = item_data it" by (auto simp: listing_def)
  from owned_prefix [OF it(2)] it(4) have key: "it_Key it = p @ k" by (auto simp: prefix_def)
  then have "k \<noteq> []" using it(3) by auto
  moreover have "Txn_Get B t (p @ k) = Inr it" using it(1) key by (simp add: items_get)
  ultimately show "k \<noteq> [] \<and> (\<exists>it. Txn_Get B t (p @ k) = Inr it \<and> owned p it \<and> v = item_data it)"
    using it(2,5) by blast
next
  assume "k \<noteq> [] \<and> (\<exists>it. Txn_Get B t (p @ k) = Inr it \<and> owned p it \<and> v = item_data it)"
  then obtain it where "k \<noteq> []" "Txn_Get B t (p @ k) = Inr it" "owned p it" "v = item_data it" by blast
  moreover from this(2) have key: "it_Key it = p @ k" by (rule get_key)
  ultimately have "it \<in> set (filter (\<lambda>it. owned p it \<and> it_Key it \<noteq> p) (Txn_Items B t))"
    by (simp add: items_get)
  then have "(drop (length p) (it_Key it), item_data it) \<in> set (listing p (Txn_Items B t))"
    unfolding listing_def by (simp only: set_map) (rule imageI)
  with key \<open>v = item_data it\<close> show "(k, v) \<in> set (listing p (Txn_Items B t))" by simp
qed

lemma listing_sorted: "sorted_wrt (<) (map fst (listing p (Txn_Items B t)))"
proof -
  have "sorted_wrt (\<lambda>a b. drop (length p) (it_Key a) < drop (length p) (it_Key b))
      (filter (\<lambda>it. owned p it \<and> it_Key it \<noteq> p) (Txn_Items B t))"
  proof (rule sorted_wrt_mono_rel [OF _ sorted_wrt_filter [OF items_sorted]])
    fix a b assume "a \<in> set (filter (\<lambda>it. owned p it \<and> it_Key it \<noteq> p) (Txn_Items B t))"
      and "b \<in> set (filter (\<lambda>it. owned p it \<and> it_Key it \<noteq> p) (Txn_Items B t))" and lt: "it_Key a < it_Key b"
    then have "prefix p (it_Key a)" "prefix p (it_Key b)" by (auto dest: owned_prefix)
    then obtain ka kb where "it_Key a = p @ ka" "it_Key b = p @ kb" by (auto simp: prefix_def)
    with lt show "drop (length p) (it_Key a) < drop (length p) (it_Key b)"
      by (simp add: list_less_def lexord_same_pref_iff)
  qed
  then show ?thesis by (simp add: listing_def sorted_wrt_map comp_def)
qed

text \<open>What a write of the package leaves is well formed.\<close>

lemma wf_set:
  assumes "wf_txn t" and "Txn_SetWithMeta B t (p @ key) (insertPrefixLength val (length p)) m = Inr t'"
  shows "wf_txn t'"
proof -
  have "unat (word_of_nat (length p) :: byte) \<le> length p" by (simp add: unat_of_nat take_bit_nat_eq_self_iff)
  then have "wf_item \<lparr>it_Key = p @ key, it_Value = Inr (insertPrefixLength val (length p)), UserMeta = m\<rparr>"
    by (simp add: wf_item_def insertPrefixLength_def)
  with assms(1) show ?thesis unfolding wf_txn_def get_set [OF assms(2)] by auto
qed

lemma wf_delete: "wf_txn t \<Longrightarrow> Txn_Delete B t k = Inr t' \<Longrightarrow> wf_txn t'"
  unfolding wf_txn_def by (auto simp: get_delete split: if_splits)

lemma wf_delete_ignoring: "wf_txn t \<Longrightarrow> wf_txn (delete_ignoring B t k)"
  by (auto simp: delete_ignoring_def wf_delete split: sum.splits)

lemma wf_put: "wf_txn t \<Longrightarrow> put B t b key val = Inr t' \<Longrightarrow> wf_txn t'"
  by (auto simp: put_def addPrefix_def split: if_splits sum.splits dest: wf_set)

lemma wf_delete_op: "wf_txn t \<Longrightarrow> delete B t b key = Inr t' \<Longrightarrow> wf_txn t'"
  by (auto simp: delete_def split: if_splits sum.splits dest: wf_delete)

lemma wf_bucket: "wf_txn t \<Longrightarrow> bucket B t b key e = Inr (c, b', t') \<Longrightarrow> wf_txn t'"
  by (auto simp: bucket_def addPrefix_def Let_def split: if_splits sum.splits dest: wf_set)

lemma wf_newBucket: "wf_txn t \<Longrightarrow> newBucket B t key = Inr (b, t') \<Longrightarrow> wf_txn t'"
  using wf_set [of t key "[]"] by (auto simp: newBucket_def Let_def split: if_splits sum.splits)

lemma wf_drop_loop: "wf_txn t \<Longrightarrow> drop_loop B p t its = Inr t' \<Longrightarrow> wf_txn t'"
  by (induction its arbitrary: t) (auto split: sum.splits if_splits intro: wf_delete_ignoring)

lemma wf_dropBucket: "wf_txn t \<Longrightarrow> dropBucket B w rd t b key = Inr t' \<Longrightarrow> wf_txn t'"
  by (auto simp: dropBucket_def wf_delete_ignoring split: sum.splits if_splits dest: wf_drop_loop [rotated])

lemma drop_loop_wf_total:
  "\<forall>it \<in> set its. wf_item it \<Longrightarrow> \<exists>t'. drop_loop B p t its = Inr t'"
proof (induction its arbitrary: t)
  case (Cons it its)
  then obtain val where "it_Value it = Inr val" by (auto simp: wf_item_def)
  with stored_under_wf [of it val] Cons show ?case by simp
qed simp

text \<open>The deletion loop removes exactly the listed entries of the bucket, when deletions are accepted.\<close>

lemma drop_loop_get:
  assumes "\<forall>it \<in> set its. wf_item it" and "\<And>t k. k \<noteq> [] \<Longrightarrow> \<exists>t'. Txn_Delete B t k = Inr t'"
    and "\<forall>it \<in> set its. it_Key it \<noteq> []" and "drop_loop B p t its = Inr t'"
  shows "Txn_Get B t' k = (if \<exists>it \<in> set its. owned p it \<and> it_Key it = k then Inl ErrKeyNotFound else Txn_Get B t k)"
  using assms(1,3,4)
proof (induction its arbitrary: t)
  case (Cons it its)
  then obtain val where val: "it_Value it = Inr val" by (auto simp: wf_item_def)
  have "it_Key it \<noteq> []" using Cons.prems(2) by simp
  then obtain t1 where t1: "Txn_Delete B t (it_Key it) = Inr t1" using assms(2) by blast
  from stored_under_wf [OF _ val] Cons.prems
  have d: "drop_loop B p (if owned p it then t1 else t) its = Inr t'"
    by (auto simp: val delete_ignoring_def t1)
  have "\<forall>it \<in> set its. wf_item it" "\<forall>it \<in> set its. it_Key it \<noteq> []" using Cons.prems by simp_all
  from Cons.IH [OF this d] show ?case by (auto simp: get_delete [OF t1])
qed simp

lemma listed_iff:
  "(\<exists>i \<in> set (filter (\<lambda>i. prefix q (it_Key i)) (Txn_Items B t)). owned p i \<and> it_Key i = k) \<longleftrightarrow>
     (\<exists>i. Txn_Get B t k = Inr i \<and> prefix q k \<and> owned p i)" (is "?l \<longleftrightarrow> ?r")
proof
  assume ?r
  then obtain i where "Txn_Get B t k = Inr i" "prefix q k" "owned p i" by blast
  moreover from this(1) have "it_Key i = k" by (rule get_key)
  ultimately show ?l by (intro bexI [of _ i]) (simp_all add: items_get)
qed (auto simp: items_get)

lemma drop_seek:
  assumes "wf_txn rd" and "\<And>t k. k \<noteq> [] \<Longrightarrow> \<exists>t'. Txn_Delete B t k = Inr t'" and "q \<noteq> []"
  shows "\<exists>t'. drop_loop B p t (seek_items q (Txn_Items B rd)) = Inr t' \<and> (\<forall>k. Txn_Get B t' k =
    (if \<exists>i. Txn_Get B rd k = Inr i \<and> prefix q k \<and> owned p i then Inl ErrKeyNotFound else Txn_Get B t k))"
proof -
  let ?its = "filter (\<lambda>i. prefix q (it_Key i)) (Txn_Items B rd)"
  have wf: "\<forall>i \<in> set ?its. wf_item i" using wf_items [OF assms(1)] by simp
  have ne: "\<forall>i \<in> set ?its. it_Key i \<noteq> []" using assms(3) by (auto simp: prefix_def)
  obtain t' where t': "drop_loop B p t ?its = Inr t'" using drop_loop_wf_total [OF wf] by blast
  from drop_loop_get [OF wf assms(2) ne t'] t' show ?thesis
    unfolding listed_iff seek_items_filter [OF items_sorted] by blast
qed

lemma if_disj: "(if D then a else if c then a else b) = (if c \<or> D then a else b)"
  by simp

lemma dropBucket_effect:
  assumes "wf_txn rd" and "\<And>t k. k \<noteq> [] \<Longrightarrow> \<exists>t'. Txn_Delete B t k = Inr t'" and "b_prefix b \<noteq> []"
    and "length key \<le> maxKeySize" and "Txn_Get B t (b_prefix b @ key) = Inr it" and "UserMeta it = metaBucket"
  shows "\<exists>t'. dropBucket B True rd t b key = Inr t' \<and> (\<forall>k. Txn_Get B t' k =
    (if k = b_prefix b @ key \<or> (\<exists>i. Txn_Get B rd k = Inr i \<and> prefix (b_prefix b @ key) k \<and> owned (b_prefix b) i)
     then Inl ErrKeyNotFound else Txn_Get B t k))"
proof -
  have ne: "b_prefix b @ key \<noteq> []" using assms(3) by simp
  then obtain t1 where t1: "Txn_Delete B t (b_prefix b @ key) = Inr t1" using assms(2) by blast
  obtain t' where t': "drop_loop B (b_prefix b) t1 (seek_items (b_prefix b @ key) (Txn_Items B rd)) = Inr t'"
    and g: "\<And>k. Txn_Get B t' k = (if \<exists>i. Txn_Get B rd k = Inr i \<and> prefix (b_prefix b @ key) k \<and> owned (b_prefix b) i
      then Inl ErrKeyNotFound else Txn_Get B t1 k)"
    using drop_seek [OF assms(1,2) ne, of "b_prefix b" t1] by blast
  from t' have "dropBucket B True rd t b key = Inr t'"
    using assms(4-6) get_key [OF assms(5)] by (simp add: dropBucket_def addPrefix_def delete_ignoring_def t1)
  then show ?thesis
    by (intro exI [of _ t'] conjI allI) (simp_all only: g get_delete [OF t1] if_disj)
qed

lemma DeleteTopLevelBucket_effect:
  assumes "wf_txn (badgerTx tx)" and "\<And>t k. k \<noteq> [] \<Longrightarrow> \<exists>t'. Txn_Delete B t k = Inr t'" and "key \<noteq> []"
    and "\<not> closed d" and "Txn_Get B (badgerTx tx) key = Inr it" and "UserMeta it = metaBucket"
  shows "\<exists>tx'. DeleteTopLevelBucket B d tx key = Inr tx' \<and> tx_buckets tx' = remove1 key (tx_buckets tx) \<and>
    (\<forall>k. Txn_Get B (badgerTx tx') k =
      (if k = key \<or> (\<exists>i. Txn_Get B (badgerTx tx) k = Inr i \<and> owned key i)
       then Inl ErrKeyNotFound else Txn_Get B (badgerTx tx) k))"
proof -
  obtain t1 where t1: "Txn_Delete B (badgerTx tx) key = Inr t1" using assms(2,3) by blast
  obtain t' where t': "drop_loop B key t1 (seek_items key (Txn_Items B t1)) = Inr t'"
    and g: "\<And>k. Txn_Get B t' k = (if \<exists>i. Txn_Get B t1 k = Inr i \<and> prefix key k \<and> owned key i
      then Inl ErrKeyNotFound else Txn_Get B t1 k)"
    using drop_seek [OF wf_delete [OF assms(1) t1] assms(2,3), of key t1] by blast
  from t' have e: "DeleteTopLevelBucket B d tx key =
      Inr (tx\<lparr>badgerTx := t', tx_buckets := remove1 key (tx_buckets tx)\<rparr>)"
    using assms(4-6) get_key [OF assms(5)] by (simp add: DeleteTopLevelBucket_def delete_ignoring_def t1)
  have "prefix key k" if "Txn_Get B (badgerTx tx) k = Inr i" "owned key i" for k i
    using owned_prefix [OF that(2)] get_key [OF that(1)] by simp
  then have "Txn_Get B t' k = (if k = key \<or> (\<exists>i. Txn_Get B (badgerTx tx) k = Inr i \<and> owned key i)
       then Inl ErrKeyNotFound else Txn_Get B (badgerTx tx) k)" for k
    unfolding g get_delete [OF t1] by auto
  with e show ?thesis by simp
qed

text \<open>Round trips of \<open>put\<close>, \<open>get\<close> and \<open>delete\<close>, through any two handles.\<close>

lemma get_put:
  assumes "put B t b key val = Inr t'"
  shows "get B t' b' key' = (if key' \<noteq> [] \<and> length key' \<le> maxKeySize \<and> b_prefix b' @ key' = b_prefix b @ key
    then Inr (Some val) else get B t b' key')"
  using assms by (auto simp: put_def get_def addPrefix_def insertPrefixLength_def get_set split: if_splits sum.splits)

lemma get_delete_op:
  assumes "delete B t b key = Inr t'" and "key \<noteq> []" and "Txn_Delete B t (b_prefix b @ key) \<noteq> Inl ErrKeyNotFound"
  shows "get B t' b' key' = (if b_prefix b' @ key' = b_prefix b @ key then Inr None else get B t b' key')"
  using assms by (auto simp: delete_def get_def addPrefix_def get_delete split: if_splits sum.splits)

lemma get_total: "wf_txn t \<Longrightarrow> \<exists>v. get B t b key = Inr v"
  by (fastforce simp: get_def wf_txn_def wf_item_def split: sum.splits list.splits)

end

lemma convertErr_panic: "convertErr e = DbPanic m \<Longrightarrow> e = DbPanic m"
  by (cases e) auto

section \<open>Reachable transactions\<close>

text \<open>
  The transactions of a database that started empty: any sequence of the exported operations,
  interleaved with commits of other transactions and with \<open>Close\<close>.
\<close>

inductive db_reach :: "('t, 'd) badger \<Rightarrow> 'd db \<Rightarrow> 't transaction \<Rightarrow> bool" for B where
  r_fresh: "(\<And>w k. \<exists>e. Txn_Get B (NewTransaction B (store d) w) k = Inl e) \<Longrightarrow> beginTx B d w = Inr tx \<Longrightarrow> db_reach B d tx"
| r_begin: "db_reach B d tx \<Longrightarrow> beginTx B d w = Inr tx' \<Longrightarrow> db_reach B d tx'"
| r_put: "db_reach B d tx \<Longrightarrow> Put B d tx b key val = Inr tx' \<Longrightarrow> db_reach B d tx'"
| r_delete: "db_reach B d tx \<Longrightarrow> Delete B d tx b key = Inr tx' \<Longrightarrow> db_reach B d tx'"
| r_top: "db_reach B d tx \<Longrightarrow> CreateTopLevelBucket B d tx key = Inr (b, tx') \<Longrightarrow> db_reach B d tx'"
| r_create: "db_reach B d tx \<Longrightarrow> CreateBucket B d tx b key = Inr (c, b', tx') \<Longrightarrow> db_reach B d tx'"
| r_create_if: "db_reach B d tx \<Longrightarrow> CreateBucketIfNotExists B d tx b key = Inr (c, b', tx') \<Longrightarrow> db_reach B d tx'"
| r_drop: "db_reach B d tx \<Longrightarrow> DeleteNestedBucket B d tx b k = Inr tx' \<Longrightarrow> db_reach B d tx'"
| r_drop_top: "db_reach B d tx \<Longrightarrow> DeleteTopLevelBucket B d tx key = Inr tx' \<Longrightarrow> db_reach B d tx'"
| r_commit: "db_reach B d tx \<Longrightarrow> db_reach B d tx1 \<Longrightarrow> Commit B d tx1 = Inr d' \<Longrightarrow> db_reach B d' tx"
| r_close: "db_reach B d tx \<Longrightarrow> Close B d = (e, d') \<Longrightarrow> db_reach B d' tx"

context badger_store
begin

definition wf_db :: "'d db \<Rightarrow> bool" where
  "wf_db d \<longleftrightarrow> (\<forall>w. wf_txn (NewTransaction B (store d) w))"

lemma wf_begin: "wf_db d \<Longrightarrow> beginTx B d w = Inr tx \<Longrightarrow> wf_txn (badgerTx tx)"
  by (auto simp: beginTx_def wf_db_def split: if_splits)

lemma drop_total: "wf_txn rd \<Longrightarrow> drop_loop B p t (seek_items q (Txn_Items B rd)) \<noteq> Inl e"
  using drop_loop_wf_total [of "filter (\<lambda>i. prefix q (it_Key i)) (Txn_Items B rd)" p t] wf_items [of rd]
  by (auto simp: seek_items_filter [OF items_sorted])

lemma wf_drop_top: "wf_txn (badgerTx tx) \<Longrightarrow> DeleteTopLevelBucket B d tx key = Inr tx' \<Longrightarrow> wf_txn (badgerTx tx')"
  by (auto simp: DeleteTopLevelBucket_def Let_def wf_delete_ignoring split: sum.splits if_splits dest: wf_drop_loop [rotated])

lemma wf_commit: "wf_db d \<Longrightarrow> wf_txn (badgerTx tx) \<Longrightarrow> Commit B d tx = Inr d' \<Longrightarrow> wf_db d'"
  by (auto simp: Commit_def wf_db_def wf_txn_def split: sum.splits if_splits dest!: get_commit)

lemma db_reach_wf: "db_reach B d tx \<Longrightarrow> wf_db d \<and> wf_txn (badgerTx tx)"
proof (induction rule: db_reach.induct)
  case (r_fresh d w tx)
  have "Txn_Get B (NewTransaction B (store d) w) k \<noteq> Inr it" for w k it
    using r_fresh(1) [of w k] by auto
  then have "wf_db d" by (simp add: wf_db_def wf_txn_def)
  with r_fresh wf_begin show ?case by blast
next
  case (r_put d tx b key val tx')
  then show ?case by (auto simp: Put_def convert_result_def split: sum.splits if_splits dest: wf_put)
next
  case (r_delete d tx b key tx')
  then show ?case by (auto simp: Delete_def convert_result_def split: sum.splits if_splits dest: wf_delete_op)
next
  case (r_top d tx key b tx')
  then show ?case by (auto simp: CreateTopLevelBucket_def split: sum.splits if_splits dest: wf_newBucket)
next
  case (r_create d tx b key c b' tx')
  then show ?case by (auto simp: CreateBucket_def split: sum.splits if_splits dest: wf_bucket)
next
  case (r_create_if d tx b key c b' tx')
  then show ?case by (auto simp: CreateBucketIfNotExists_def split: sum.splits if_splits dest: wf_bucket)
next
  case (r_drop d tx b k tx')
  then show ?case by (auto simp: DeleteNestedBucket_def split: sum.splits if_splits option.splits dest: wf_dropBucket)
next
  case (r_close d tx e d')
  then show ?case by (auto simp: Close_def wf_db_def split: if_splits)
qed (auto dest: wf_begin wf_drop_top wf_commit)

end

section \<open>A reference store\<close>

text \<open>A transaction is an association list, newest entry first; a commit replaces the database.\<close>

type_synonym alist_txn = "(bytes \<times> bytes \<times> nat) list"

definition alist_item :: "alist_txn \<Rightarrow> bytes \<Rightarrow> item" where
  "alist_item t k = (case map_of t k of
     Some (v, m) \<Rightarrow> \<lparr>it_Key = k, it_Value = Inr v, UserMeta = m\<rparr>
   | None \<Rightarrow> \<lparr>it_Key = k, it_Value = Inl ErrKeyNotFound, UserMeta = 0\<rparr>)"

definition ref_badger :: "(alist_txn, alist_txn) badger" where
  "ref_badger = \<lparr>Txn_Get = (\<lambda>t k. if map_of t k = None then Inl ErrKeyNotFound else Inr (alist_item t k)),
     Txn_SetWithMeta = (\<lambda>t k v m. if k = [] then Inl ErrEmptyKey else Inr ((k, v, m) # t)),
     Txn_Delete = (\<lambda>t k. if k = [] then Inl ErrEmptyKey else Inr (filter (\<lambda>(k', _). k' \<noteq> k) t)),
     Txn_Items = (\<lambda>t. map (alist_item t) (sort (remdups (map fst t)))),
     NewTransaction = (\<lambda>d w. d), Txn_Commit = (\<lambda>d t. Inr t), DB_Close = (\<lambda>d. None)\<rparr>"

lemma alist_item_key [simp]: "it_Key (alist_item t k) = k"
  by (simp add: alist_item_def split: option.splits)

lemma map_of_filter_neq: "map_of (filter (\<lambda>(k', _). k' \<noteq> k) t) k' = (if k' = k then None else map_of t k')"
  by (induction t) auto

interpretation ref_store: badger_store ref_badger
proof
  fix t :: alist_txn
  have "sorted_wrt (<) (sort (remdups (map fst t)))" by (simp add: strict_sorted_iff)
  then show "sorted_wrt (\<lambda>a b. it_Key a < it_Key b) (Txn_Items ref_badger t)"
    by (simp add: ref_badger_def sorted_wrt_map)
  show "set (Txn_Items ref_badger t) = {it. Txn_Get ref_badger t (it_Key it) = Inr it}"
  proof -
    have "set (Txn_Items ref_badger t) = alist_item t ` dom (map_of t)"
      by (simp add: ref_badger_def dom_map_of_conv_image_fst)
    also have "\<dots> = {it. it_Key it \<in> dom (map_of t) \<and> it = alist_item t (it_Key it)}"
      by (auto simp: image_iff)
    also have "\<dots> = {it. Txn_Get ref_badger t (it_Key it) = Inr it}"
      by (auto simp: ref_badger_def split: if_splits)
    finally show ?thesis .
  qed
qed (auto simp: ref_badger_def alist_item_def map_of_filter_neq split: if_splits option.splits)

section \<open>Example data\<close>

definition ex_db :: "alist_txn \<Rightarrow> alist_txn db" where
  "ex_db st = \<lparr>store = st, closed = False\<rparr>"

definition ex_txn :: "alist_txn \<Rightarrow> bytes list \<Rightarrow> alist_txn transaction" where
  "ex_txn t bs = \<lparr>badgerTx = t, tx_buckets = bs, writable = True, isDiscarded = False\<rparr>"

definition handle :: "bytes \<Rightarrow> Bucket" where
  "handle p = \<lparr>b_prefix = p, b_buckets = []\<rparr>"

text \<open>The top-level bucket \<open>1\<close> with the value \<open>7\<close> under \<open>2\<close> and a nested bucket \<open>3\<close> with \<open>8\<close> under \<open>4\<close>.\<close>

abbreviation ex_data :: alist_txn where
  "ex_data \<equiv> [([1, 3, 4], [2, 8], 0), ([1, 3], [1], 5), ([1, 2], [1, 7], 0), ([1], [1], 5)]"

lemmas ex_badger_defs = ex_db_def ex_txn_def handle_def ref_badger_def insertPrefixLength_def addPrefix_def
  maxKeySize_def metaBucket_def alist_item_def convert_result_def

lemma ex_reach: "db_reach ref_badger (ex_db []) (ex_txn ex_data [[1]])"
proof -
  have "db_reach ref_badger (ex_db []) (ex_txn [] [])"
    by (rule r_fresh [where w = True]) (simp_all add: beginTx_def ex_badger_defs)
  then have "db_reach ref_badger (ex_db []) (ex_txn [([1], [1], 5)] [[1]])"
    by (rule r_top [where key = "[1]" and b = "handle [1]"])
      (simp add: CreateTopLevelBucket_def newBucket_def ex_badger_defs)
  then have "db_reach ref_badger (ex_db []) (ex_txn [([1, 2], [1, 7], 0), ([1], [1], 5)] [[1]])"
    by (rule r_put [where b = "handle [1]" and key = "[2]" and val = "[7]"])
      (simp add: Put_def put_def ex_badger_defs)
  then have "db_reach ref_badger (ex_db []) (ex_txn [([1, 3], [1], 5), ([1, 2], [1, 7], 0), ([1], [1], 5)] [[1]])"
    by (rule r_create [where b = "handle [1]" and key = "[3]" and c = "handle [1, 3]" and
          b' = "\<lparr>b_prefix = [1], b_buckets = [[1, 3]]\<rparr>"])
      (simp add: CreateBucket_def bucket_def ex_badger_defs)
  then show ?thesis
    by (rule r_put [where b = "handle [1, 3]" and key = "[4]" and val = "[8]"])
      (simp add: Put_def put_def ex_badger_defs)
qed

text \<open>The same data committed, in a new transaction.\<close>

lemma ex_reach_committed: "db_reach ref_badger (ex_db ex_data) (ex_txn ex_data [])"
proof -
  have "db_reach ref_badger (ex_db ex_data) (ex_txn ex_data [[1]])"
    by (rule r_commit [OF ex_reach ex_reach]) (simp add: Commit_def ex_badger_defs)
  then show ?thesis by (rule r_begin [where w = True]) (simp add: beginTx_def ex_badger_defs)
qed

lemma ref_deletes: "k \<noteq> [] \<Longrightarrow> \<exists>t'. Txn_Delete ref_badger t k = Inr t'"
  by (simp add: ref_badger_def)

section \<open>Properties\<close>



text \<open>
  C24.  No operation on a reachable transaction panics: the length byte of every stored value is
  there and within its key, so reading, listing and both ways of deleting a bucket return.
\<close>

theorem reachable_operations_never_panic:
  assumes "badger_store B" and "db_reach B d tx" and "\<And>s k v m. fn s k v \<noteq> Inl (DbPanic m)"
  shows "Get B d tx b key \<noteq> Inl (DbPanic m) \<and> ForEach B d tx b fn s \<noteq> Inl (DbPanic m) \<and>
    DeleteNestedBucket B d tx b (Some key) \<noteq> Inl (DbPanic m) \<and> DeleteTopLevelBucket B d tx key \<noteq> Inl (DbPanic m)"
proof -
  have wf: "badger_store.wf_txn B (badgerTx tx)" "badger_store.wf_txn B (NewTransaction B (store d) False)"
    using badger_store.db_reach_wf [OF assms(1,2)] badger_store.wf_db_def [OF assms(1)] by blast+
  note tot = badger_store.drop_total [OF assms(1)]
  from badger_store.get_total [OF assms(1) wf(1)] have "Get B d tx b key \<noteq> Inl (DbPanic m)"
    by (metis Get_def sum.distinct(1))
  moreover have "ForEach B d tx b fn s \<noteq> Inl (DbPanic m)"
    using assms(3) by (auto simp: ForEach_def badger_store.forEach_listing [OF assms(1) wf(1)] convert_result_def
        split: sum.splits dest!: traverse_Inl convertErr_panic)
  moreover have "DeleteNestedBucket B d tx b (Some key) \<noteq> Inl (DbPanic m)"
    using tot [OF wf(2)] by (auto simp: DeleteNestedBucket_def dropBucket_def addPrefix_def split: sum.splits if_splits
        dest!: convertErr_panic)
  moreover have "DeleteTopLevelBucket B d tx key \<noteq> Inl (DbPanic m)"
    using tot [OF badger_store.wf_delete_ignoring [OF assms(1) wf(1)]]
    by (auto simp: DeleteTopLevelBucket_def Let_def split: sum.splits if_splits dest!: convertErr_panic)
  ultimately show ?thesis by simp
qed

theorem reachable_operations_never_panic_witness:
  "Get ref_badger (ex_db []) (ex_txn ex_data [[1]]) (handle [1]) [3] \<noteq> Inl (DbPanic ''index out of range'') \<and>
   ForEach ref_badger (ex_db []) (ex_txn ex_data [[1]]) (handle [1]) (\<lambda>n k v. Inr (Suc n)) 0 \<noteq>
     Inl (DbPanic ''index out of range'')"
  using reachable_operations_never_panic [OF ref_store.badger_store_axioms ex_reach,
      of "\<lambda>n k v. Inr (Suc n)" "handle [1]" "[3]" "''index out of range''" 0] by simp



text \<open>
  \<open>DeleteNestedBucket\<close>, exactly.  It removes the marker of the nested bucket and those
  committed entries of the \<^emph>\<open>parent\<close> bucket whose key extends the nested bucket's key; every
  other key keeps its item.
\<close>

theorem DeleteNestedBucket_effect:
  assumes "badger_store B" and "db_reach B d tx" and "\<not> closed d" and "writable tx"
    and "\<And>t k. k \<noteq> [] \<Longrightarrow> \<exists>t'. Txn_Delete B t k = Inr t'" and "b_prefix b \<noteq> []" and "length key \<le> maxKeySize"
    and "Txn_Get B (badgerTx tx) (b_prefix b @ key) = Inr it" and "UserMeta it = metaBucket"
  shows "\<exists>tx'. DeleteNestedBucket B d tx b (Some key) = Inr tx' \<and> (\<forall>k. Txn_Get B (badgerTx tx') k =
    (if k = b_prefix b @ key \<or> (\<exists>i. Txn_Get B (NewTransaction B (store d) False) k = Inr i \<and>
          prefix (b_prefix b @ key) k \<and> owned (b_prefix b) i)
     then Inl ErrKeyNotFound else Txn_Get B (badgerTx tx) k))"
proof -
  have "badger_store.wf_txn B (NewTransaction B (store d) False)"
    using badger_store.db_reach_wf [OF assms(1,2)] badger_store.wf_db_def [OF assms(1)] by blast
  from badger_store.dropBucket_effect [OF assms(1) this assms(5-9)] obtain t' where
    t': "dropBucket B True (NewTransaction B (store d) False) (badgerTx tx) b key = Inr t'"
    "\<forall>k. Txn_Get B t' k = (if k = b_prefix b @ key \<or> (\<exists>i. Txn_Get B (NewTransaction B (store d) False) k = Inr i \<and>
          prefix (b_prefix b @ key) k \<and> owned (b_prefix b) i)
     then Inl ErrKeyNotFound else Txn_Get B (badgerTx tx) k)" by blast
  with assms(3,4) show ?thesis
    by (intro exI [of _ "tx\<lparr>badgerTx := t'\<rparr>"]) (simp add: DeleteNestedBucket_def)
qed

theorem DeleteNestedBucket_effect_witness:
  "\<exists>tx'. DeleteNestedBucket ref_badger (ex_db ex_data) (ex_txn ex_data []) (handle [1]) (Some [3]) = Inr tx' \<and>
     Txn_Get ref_badger (badgerTx tx') [1, 3] = Inl ErrKeyNotFound \<and>
     Txn_Get ref_badger (badgerTx tx') [1, 2] = Txn_Get ref_badger ex_data [1, 2]"
proof -
  have "\<exists>tx'. DeleteNestedBucket ref_badger (ex_db ex_data) (ex_txn ex_data []) (handle [1]) (Some [3]) = Inr tx' \<and>
    (\<forall>k. Txn_Get ref_badger (badgerTx tx') k =
      (if k = b_prefix (handle [1]) @ [3] \<or> (\<exists>i. Txn_Get ref_badger (NewTransaction ref_badger (store (ex_db ex_data)) False) k = Inr i \<and>
          prefix (b_prefix (handle [1]) @ [3]) k \<and> owned (b_prefix (handle [1])) i)
     then Inl ErrKeyNotFound else Txn_Get ref_badger (badgerTx (ex_txn ex_data [])) k))"
    by (rule DeleteNestedBucket_effect [OF ref_store.badger_store_axioms ex_reach_committed _ _ ref_deletes,
          where it = "\<lparr>it_Key = [1, 3], it_Value = Inr [1], UserMeta = 5\<rparr>"])
      (simp_all add: ex_badger_defs)
  then show ?thesis by (rule ex_forward) (simp add: handle_def ex_txn_def)
qed

text \<open>
  \<open>DeleteNestedBucket\<close> does not delete the bucket's data: every committed entry of the nested
  bucket survives in the transaction, although the documentation of \<open>dropBucket\<close> says the bucket
  and all its data are deleted.
\<close>

theorem DeleteNestedBucket_keeps_nested_entries:
  assumes "badger_store B" and "db_reach B d tx" and "\<not> closed d" and "writable tx"
    and "\<And>t k. k \<noteq> [] \<Longrightarrow> \<exists>t'. Txn_Delete B t k = Inr t'" and "b_prefix b \<noteq> []" and "length key \<le> maxKeySize"
    and "Txn_Get B (badgerTx tx) (b_prefix b @ key) = Inr it" and "UserMeta it = metaBucket"
    and "key \<noteq> []" and "k \<noteq> []" and "Txn_Get B (badgerTx tx) (b_prefix b @ key @ k) = Inr i"
    and "Txn_Get B (NewTransaction B (store d) False) (b_prefix b @ key @ k) = Inr i"
    and "owned (b_prefix b @ key) i"
  shows "\<exists>tx'. DeleteNestedBucket B d tx b (Some key) = Inr tx' \<and>
    Txn_Get B (badgerTx tx') (b_prefix b @ key @ k) = Inr i"
proof -
  have wf: "badger_store.wf_txn B (NewTransaction B (store d) False)"
    using badger_store.db_reach_wf [OF assms(1,2)] badger_store.wf_db_def [OF assms(1)] by blast
  have "\<not> owned (b_prefix b) i"
    using assms(10,14) owned_unique [of "b_prefix b" i "b_prefix b @ key"] by auto
  with badger_store.dropBucket_effect [OF assms(1) wf assms(5-9)] assms(11-13) obtain t' where
    "dropBucket B True (NewTransaction B (store d) False) (badgerTx tx) b key = Inr t'"
    "Txn_Get B t' (b_prefix b @ key @ k) = Inr i" by auto
  with assms(3,4) show ?thesis
    by (intro exI [of _ "tx\<lparr>badgerTx := t'\<rparr>"]) (simp add: DeleteNestedBucket_def)
qed

theorem DeleteNestedBucket_keeps_nested_entries_witness:
  "\<exists>tx'. DeleteNestedBucket ref_badger (ex_db ex_data) (ex_txn ex_data []) (handle [1]) (Some [3]) = Inr tx' \<and>
     Txn_Get ref_badger (badgerTx tx') [1, 3, 4] = Inr \<lparr>it_Key = [1, 3, 4], it_Value = Inr [2, 8], UserMeta = 0\<rparr>"
proof -
  have "\<exists>tx'. DeleteNestedBucket ref_badger (ex_db ex_data) (ex_txn ex_data []) (handle [1]) (Some [3]) = Inr tx' \<and>
      Txn_Get ref_badger (badgerTx tx') (b_prefix (handle [1]) @ [3] @ [4]) =
        Inr \<lparr>it_Key = [1, 3, 4], it_Value = Inr [2, 8], UserMeta = 0\<rparr>"
    by (rule DeleteNestedBucket_keeps_nested_entries [OF ref_store.badger_store_axioms ex_reach_committed _ _ ref_deletes,
          where it = "\<lparr>it_Key = [1, 3], it_Value = Inr [1], UserMeta = 5\<rparr>"])
      (simp_all add: ex_badger_defs owned_def)
  then show ?thesis by (simp add: handle_def)
qed

text \<open>
  A bucket whose prefix is longer than 255 bytes accepts and returns values, but none of its
  entries is ever listed: the length byte wraps around.
\<close>

theorem long_prefix_entries_are_not_listed:
  assumes "badger_store B" and "db_reach B d tx" and "Put B d tx b key val = Inr tx'" and "256 \<le> length (b_prefix b)"
  shows "Get B d tx' b key = Inr (Some val) \<and> ForEach B d tx' b fn s = Inr s"
proof -
  from assms(3) obtain t' where t': "put B (badgerTx tx) b key val = Inr t'" "\<not> closed d" "tx' = tx\<lparr>badgerTx := t'\<rparr>"
    by (auto simp: Put_def convert_result_def split: sum.splits if_splits)
  then have "key \<noteq> []" "length key \<le> maxKeySize" by (auto simp: put_def split: if_splits)
  with t' badger_store.get_put [OF assms(1) t'(1)] have "Get B d tx' b key = Inr (Some val)" by (simp add: Get_def)
  moreover have "badger_store.wf_txn B (badgerTx tx')"
    using badger_store.db_reach_wf [OF assms(1) r_put [OF assms(2,3)]] by simp
  moreover have "listing (b_prefix b) its = []" for its
    using owned_length [of "b_prefix b"] assms(4) by (auto simp: listing_def filter_empty_conv)
  ultimately show ?thesis using t'(2)
    by (simp add: ForEach_def badger_store.forEach_listing [OF assms(1)] convert_result_def)
qed

theorem long_prefix_entries_are_not_listed_witness:
  "\<exists>tx'. Put ref_badger (ex_db []) (ex_txn ex_data [[1]]) (handle (replicate 256 1)) [4] [8] = Inr tx' \<and>
     Get ref_badger (ex_db []) tx' (handle (replicate 256 1)) [4] = Inr (Some [8]) \<and>
     ForEach ref_badger (ex_db []) tx' (handle (replicate 256 1)) (\<lambda>n k v. Inr (Suc n)) 0 = Inr 0"
proof -
  obtain tx' where p: "Put ref_badger (ex_db []) (ex_txn ex_data [[1]]) (handle (replicate 256 1)) [4] [8] = Inr tx'"
    by (simp add: Put_def put_def ex_badger_defs)
  from long_prefix_entries_are_not_listed [OF ref_store.badger_store_axioms ex_reach p] p
  show ?thesis by (simp add: handle_def)
qed

end
