(* ===== verification/BadgerCursor.thy ===== *)
theory BadgerCursor
  imports Badger
begin

text \<open>
  Cursors over a bucket (\<open>db.go\<close>): a forward iterator and, for \<open>Prev\<close>, a reverse iterator over
  the committed state.  An iterator is the list of the items it still has to visit, the current
  one first.  Asking an exhausted iterator for its item or its successor is outside its
  documented use and is a panic here.
\<close>

section \<open>State\<close>

record Cursor =
  c_prefix :: bytes
  c_items :: "item list"
  iterator :: "item list"
  c_ritems :: "item list"
  reverseIterator :: "item list"
  ck :: "bytes option"

type_synonym pair = "(bytes \<times> bytes option) option"

definition open_cursor :: "bytes \<Rightarrow> item list \<Rightarrow> item list \<Rightarrow> Cursor" where
  "open_cursor p items committed =
     \<lparr>c_prefix = p, c_items = items, iterator = [], c_ritems = rev committed, reverseIterator = [], ck = None\<rparr>"

definition badgerCursor :: "('t, 'd) badger \<Rightarrow> 'd db \<Rightarrow> 't transaction \<Rightarrow> Bucket \<Rightarrow> Cursor" where
  "badgerCursor B d tx b =
     open_cursor (b_prefix b) (Txn_Items B (badgerTx tx)) (Txn_Items B (NewTransaction B (store d) False))"

definition ReadWriteCursor :: "('t, 'd) badger \<Rightarrow> 'd db \<Rightarrow> 't transaction \<Rightarrow> Bucket \<Rightarrow> Cursor option" where
  "ReadWriteCursor B d tx b = (if closed d then None else Some (badgerCursor B d tx b))"

text \<open>The cursor of a read-only transaction reads new transactions, not its own.\<close>

definition ReadCursor :: "('t, 'd) badger \<Rightarrow> 'd db \<Rightarrow> 't transaction \<Rightarrow> Bucket \<Rightarrow> Cursor option" where
  "ReadCursor B d tx b =
     (if closed d then None
      else if \<not> writable tx
      then Some (open_cursor (b_prefix b) (Txn_Items B (NewTransaction B (store d) False))
             (Txn_Items B (NewTransaction B (store d) False)))
      else ReadWriteCursor B d tx b)"

section \<open>Operations\<close>

definition iter_Item :: "item list \<Rightarrow> item db_result" where
  "iter_Item its = (case its of [] \<Rightarrow> Inl (DbPanic ''nil item'') | it # _ \<Rightarrow> Inr it)"

definition iter_Next :: "item list \<Rightarrow> item list db_result" where
  "iter_Next its = (case its of [] \<Rightarrow> Inl (DbPanic ''exhausted iterator'') | _ # rest \<Rightarrow> Inr rest)"

definition seek_forward :: "bytes \<Rightarrow> item list \<Rightarrow> item list" where
  "seek_forward k its = dropWhile (\<lambda>it. it_Key it < k) its"

definition seek_reverse :: "bytes \<Rightarrow> item list \<Rightarrow> item list" where
  "seek_reverse k its = dropWhile (\<lambda>it. k < it_Key it) its"

definition found_pair :: "item \<Rightarrow> bytes \<Rightarrow> pair" where
  "found_pair it val = Some (drop (unat (hd val)) (it_Key it), if UserMeta it = metaBucket then None else Some (tl val))"

text \<open>
  The common tail of \<open>First\<close>, \<open>Next\<close> and \<open>Seek\<close>: return the entry under the iterator when it
  belongs to the bucket, otherwise move on (the recursive call of \<open>Next\<close>, whose \<open>ck\<close> is set).
\<close>

fun settle :: "bytes \<Rightarrow> item list \<Rightarrow> bytes option \<Rightarrow> (pair \<times> item list \<times> bytes option) db_result" where
  "settle p [] c = Inr (None, [], c)"
| "settle p (it # its) c =
     (if \<not> prefix p (it_Key it) then Inr (None, it # its, c)
      else case it_Value it of
        Inl e \<Rightarrow> Inr (None, it # its, Some (it_Key it))
      | Inr val \<Rightarrow>
          (case stored_under val (it_Key it) p of
             Inl e \<Rightarrow> Inl e
           | Inr True \<Rightarrow> Inr (found_pair it val, it # its, Some (it_Key it))
           | Inr False \<Rightarrow> settle p its (Some (it_Key it))))"

definition settle_cursor :: "Cursor \<Rightarrow> item list \<Rightarrow> (pair \<times> Cursor) db_result" where
  "settle_cursor c its =
     (case settle (c_prefix c) its (ck c) of
        Inl e \<Rightarrow> Inl e
      | Inr (r, its', k) \<Rightarrow> Inr (r, c\<lparr>iterator := its', ck := k\<rparr>))"

text \<open>Seek to the bucket's prefix and step over its marker.\<close>

definition seek_start :: "Cursor \<Rightarrow> item list db_result" where
  "seek_start c =
     (let its = seek_forward (c_prefix c) (c_items c) in
      case iter_Item its of
        Inl e \<Rightarrow> Inl e
      | Inr it \<Rightarrow> if c_prefix c = it_Key it then iter_Next its else Inr its)"

definition First :: "'d db \<Rightarrow> Cursor \<Rightarrow> (pair \<times> Cursor) db_result" where
  "First d c = (if closed d then Inr (None, c) else bind_res (seek_start c) (settle_cursor c))"

definition Next :: "'d db \<Rightarrow> Cursor \<Rightarrow> (pair \<times> Cursor) db_result" where
  "Next d c =
     (if closed d then Inr (None, c)
      else bind_res (if ck c = None then seek_start c else iter_Next (iterator c)) (settle_cursor c))"

text \<open>A nil seek key is \<open>None\<close>.\<close>

definition Seek :: "'d db \<Rightarrow> Cursor \<Rightarrow> bytes option \<Rightarrow> (pair \<times> Cursor) db_result" where
  "Seek d c seek =
     (if closed d then Inr (None, c)
      else case seek of
        None \<Rightarrow> First d c
      | Some k \<Rightarrow>
          (case addPrefix (c_prefix c) k of
             Inl e \<Rightarrow> Inr (None, c)
           | Inr seekKey \<Rightarrow> settle_cursor c (seek_forward seekKey (c_items c))))"

text \<open>\<open>c.ck[:n]\<close>, where a nil \<open>ck\<close> has capacity 0.\<close>

definition ck_slice :: "bytes option \<Rightarrow> nat \<Rightarrow> bytes db_result" where
  "ck_slice c n = (let k = (case c of None \<Rightarrow> [] | Some k \<Rightarrow> k) in
     if n \<le> length k then Inr (take n k) else Inl (DbPanic ''slice bounds out of range''))"

text \<open>\<open>Last\<close>: the loop compares the cursor's current key, not the item's.\<close>

fun last_loop :: "bytes \<Rightarrow> bytes option \<Rightarrow> item list \<Rightarrow> item option \<Rightarrow> (item option \<times> item list \<times> bool) db_result" where
  "last_loop p c [] lastValid = Inr (lastValid, [], True)"
| "last_loop p c (it # its) lastValid =
     (if \<not> prefix p (it_Key it) then Inr (lastValid, it # its, True)
      else if p = it_Key it then last_loop p c its lastValid
      else case it_Value it of
        Inl e \<Rightarrow> Inr (None, it # its, False)
      | Inr [] \<Rightarrow> Inl (DbPanic ''index out of range'')
      | Inr (n # v) \<Rightarrow>
          (case ck_slice c (unat n) of
             Inl e \<Rightarrow> Inl e
           | Inr k \<Rightarrow> last_loop p c its (if k = p then Some it else lastValid)))"

definition Last :: "'d db \<Rightarrow> Cursor \<Rightarrow> (pair \<times> Cursor) db_result" where
  "Last d c =
     (if closed d then Inr (None, c)
      else case last_loop (c_prefix c) (ck c) (seek_forward (c_prefix c) (c_items c)) None of
        Inl e \<Rightarrow> Inl e
      | Inr (None, its, ok) \<Rightarrow> Inr (None, c\<lparr>iterator := its\<rparr>)
      | Inr (Some it, its, ok) \<Rightarrow>
          if \<not> ok then Inr (None, c\<lparr>iterator := its\<rparr>)
          else (case it_Value it of
             Inl e \<Rightarrow> Inr (None, c\<lparr>iterator := its\<rparr>)
           | Inr val \<Rightarrow> Inr (found_pair it val, c\<lparr>iterator := its, ck := Some (it_Key it)\<rparr>)))"

text \<open>\<open>Prev\<close> moves the reverse iterator, and the forward iterator along with it.\<close>

definition Prev :: "'d db \<Rightarrow> Cursor \<Rightarrow> (pair \<times> Cursor) db_result" where
  "Prev d c =
     (if closed d then Inr (None, c)
      else
        let start = (case ck c of
              None \<Rightarrow> (let its = seek_reverse (c_prefix c) (c_ritems c) in
                 case iter_Item its of
                   Inl e \<Rightarrow> Inl e
                 | Inr it \<Rightarrow> if c_prefix c = it_Key it then iter_Next its else Inr its)
            | Some k \<Rightarrow> iter_Next (seek_reverse k (c_ritems c)))
        in case start of
          Inl e \<Rightarrow> Inl e
        | Inr rits \<Rightarrow>
            let c1 = c\<lparr>reverseIterator := rits,
                  iterator := (case rits of [] \<Rightarrow> iterator c | it # _ \<Rightarrow> seek_forward (it_Key it) (c_items c))\<rparr>
            in case rits of
              [] \<Rightarrow> Inr (None, c1)
            | it # _ \<Rightarrow>
                if \<not> prefix (c_prefix c) (it_Key it) then Inr (None, c1)
                else (case it_Value it of
                   Inl e \<Rightarrow> Inr (None, c1)
                 | Inr val \<Rightarrow>
                     (case stored_under val (it_Key it) (c_prefix c) of
                        Inl e \<Rightarrow> Inl e
                      | Inr True \<Rightarrow> Inr (found_pair it val, c1\<lparr>ck := Some (it_Key it)\<rparr>)
                      | Inr False \<Rightarrow> Inr (None, c1))))"

text \<open>\<open>Delete\<close> of the entry under the forward iterator, on the cursor's transaction \<open>t\<close>.\<close>

definition cursor_Delete :: "('t, 'd) badger \<Rightarrow> 'd db \<Rightarrow> Cursor \<Rightarrow> 't \<Rightarrow> 't db_result" where
  "cursor_Delete B d c t =
     (if closed d then Inl invalid
      else case iterator c of
        [] \<Rightarrow> Inr t
      | it # _ \<Rightarrow>
          if \<not> prefix (c_prefix c) (it_Key it) then Inr t
          else if UserMeta it \<noteq> metaBucket
          then (case Txn_Delete B t (it_Key it) of Inl e \<Rightarrow> Inl (BadgerErr e) | Inr t' \<Rightarrow> Inr t')
          else Inl (DbErr Invalid ''cursor points to a nested bucket''))"

text \<open>A client's loop: \<open>First\<close>, then \<open>Next\<close> until it returns nil, at most \<open>n\<close> times.\<close>

fun walk :: "nat \<Rightarrow> 'd db \<Rightarrow> (pair \<times> Cursor) db_result \<Rightarrow> (bytes \<times> bytes option) list db_result" where
  "walk n d (Inl e) = Inl e"
| "walk n d (Inr (None, c)) = Inr []"
| "walk 0 d (Inr (Some kv, c)) = Inr [kv]"
| "walk (Suc n) d (Inr (Some kv, c)) = bind_res (walk n d (Next d c)) (\<lambda>kvs. Inr (kv # kvs))"

section \<open>Lemmas\<close>

lemma found_pair_owned:
  assumes "owned p it" and "it_Value it = Inr val"
  shows "found_pair it val = Some (drop (length p) (it_Key it), item_data it)"
  using assms by (auto simp: found_pair_def owned_def item_data_def)

text \<open>From items behind the marker, \<open>settle\<close> stops at the first entry of the bucket, or there is none.\<close>

lemma settle_cases:
  assumes "sorted_wrt (\<lambda>a b. it_Key a < it_Key b) its" and "\<forall>it \<in> set its. p < it_Key it \<and> wf_item it"
  obtains (found) it post where "settle p its c = Inr (Some (drop (length p) (it_Key it), item_data it), it # post, Some (it_Key it))"
      "listing p its = (drop (length p) (it_Key it), item_data it) # listing p post" "suffix (it # post) its"
  | (none) its' c' where "settle p its c = Inr (None, its', c')" "listing p its = []"
  using assms
proof (induction its arbitrary: c thesis)
  case Nil
  then show ?case by (simp add: listing_def)
next
  case (Cons it its)
  obtain val where val: "it_Value it = Inr val" using Cons.prems(4) by (auto simp: wf_item_def)
  have su: "stored_under val (it_Key it) p = Inr (owned p it)"
    using stored_under_wf [OF _ val] Cons.prems(4) by simp
  show ?case
  proof (cases "prefix p (it_Key it)")
    case False
    have "\<not> owned p i" if "i \<in> set (it # its)" for i
    proof
      assume "owned p i"
      from owned_prefix [OF this] False have "i \<noteq> it" "prefix p (it_Key i)" by auto
      moreover have "p \<le> it_Key it" "i \<in> set its \<Longrightarrow> it_Key it < it_Key i"
        using Cons.prems(3,4) by (simp_all add: less_imp_le)
      ultimately show False using that False prefix_interval [of p "it_Key it" "it_Key i"] by auto
    qed
    then have "listing p (it # its) = []" by (auto simp: listing_def)
    with False Cons.prems(2) show ?thesis by simp
  next
    case True
    show ?thesis
    proof (cases "owned p it")
      case own: True
      have "it_Key it \<noteq> p" using Cons.prems(4) by auto
      with own True val su Cons.prems(1) [of it its] found_pair_owned [OF own val] show ?thesis
        by (simp add: listing_def)
    next
      case own: False
      have s: "settle p (it # its) c = settle p its (Some (it_Key it))" using True val su own by simp
      have l: "listing p (it # its) = listing p its" using own by (simp add: listing_def)
      have "sorted_wrt (\<lambda>a b. it_Key a < it_Key b) its" "\<forall>it \<in> set its. p < it_Key it \<and> wf_item it"
        using Cons.prems(3,4) by simp_all
      then show ?thesis
      proof (rule Cons.IH [rotated 2])
        fix i post assume "settle p its (Some (it_Key it)) = Inr (Some (drop (length p) (it_Key i), item_data i), i # post, Some (it_Key i))"
          "listing p its = (drop (length p) (it_Key i), item_data i) # listing p post" "suffix (i # post) its"
        with Cons.prems(1) [of i post] s l show ?thesis by (simp add: suffix_ConsI)
      next
        fix its' c' assume "settle p its (Some (it_Key it)) = Inr (None, its', c')" "listing p its = []"
        with Cons.prems(2) s l show ?thesis by simp
      qed
    qed
  qed
qed

lemma suffix_sorted: "suffix ys xs \<Longrightarrow> sorted_wrt P xs \<Longrightarrow> sorted_wrt P ys"
  by (auto simp: suffix_def sorted_wrt_append)

lemma walk_settle:
  assumes "\<not> closed d" and "sorted_wrt (\<lambda>a b. it_Key a < it_Key b) its"
    and "\<forall>it \<in> set its. c_prefix c < it_Key it \<and> wf_item it" and "length its \<le> n"
  shows "walk n d (settle_cursor c its) = Inr (listing (c_prefix c) its)"
  using assms(2-4)
proof (induction n arbitrary: c its)
  case 0
  then show ?case by (simp add: settle_cursor_def listing_def)
next
  case (Suc n)
  from Suc.prems(1,2) show ?case
  proof (cases rule: settle_cases [where c = "ck c"])
    case (found it post)
    let ?c = "c\<lparr>iterator := it # post, ck := Some (it_Key it)\<rparr>"
    have post: "sorted_wrt (\<lambda>a b. it_Key a < it_Key b) post" "\<forall>it \<in> set post. c_prefix ?c < it_Key it \<and> wf_item it"
      "length post \<le> n"
      using suffix_sorted [OF found(3) Suc.prems(1)] found(3) Suc.prems(2,3) suffix_length_le [OF found(3)]
      by (auto simp: suffix_def)
    have "Next d ?c = settle_cursor ?c post" using assms(1) by (simp add: Next_def iter_Next_def)
    with Suc.IH [OF post] found show ?thesis by (simp add: settle_cursor_def [of c])
  next
    case (none its' c')
    then show ?thesis by (simp add: settle_cursor_def)
  qed
qed

text \<open>With the bucket's marker in place, the walk starts right behind it.\<close>

lemma seek_marker:
  assumes "sorted_wrt (\<lambda>a b. it_Key a < it_Key b) items" and "m \<in> set items" and "it_Key m = p"
  obtains R where "seek_forward p items = m # R" "\<forall>it \<in> set R. p < it_Key it" "suffix (m # R) items"
    "listing p items = listing p R"
proof -
  from assms(2) obtain pre R where items: "items = pre @ m # R" by (auto simp: in_set_conv_decomp)
  have lt: "\<forall>it \<in> set pre. it_Key it < p" and gt: "\<forall>it \<in> set R. p < it_Key it"
    using assms(1,3) by (auto simp: items sorted_wrt_append)
  have "seek_forward p items = m # R"
    using lt assms(3) by (simp add: seek_forward_def items)
  moreover have "listing p items = listing p R"
  proof -
    have "\<not> owned p it" if "it \<in> set pre" for it
      using that lt owned_prefix [of p it] prefix_ge [of p "it_Key it"] by blast
    with assms(3) show ?thesis by (auto simp: listing_def items filter_empty_conv)
  qed
  ultimately show thesis using that gt by (simp add: items suffix_def)
qed

lemma First_walk:
  assumes "\<not> closed d" and "sorted_wrt (\<lambda>a b. it_Key a < it_Key b) (c_items c)"
    and "\<forall>it \<in> set (c_items c). wf_item it" and "m \<in> set (c_items c)" and "it_Key m = c_prefix c"
    and "length (c_items c) \<le> n"
  shows "walk n d (First d c) = Inr (listing (c_prefix c) (c_items c))"
proof -
  from seek_marker [OF assms(2,4,5)] obtain R where R: "seek_forward (c_prefix c) (c_items c) = m # R"
    "\<forall>it \<in> set R. c_prefix c < it_Key it" "suffix (m # R) (c_items c)"
    "listing (c_prefix c) (c_items c) = listing (c_prefix c) R" by blast
  have "First d c = settle_cursor c R"
    using assms(1,5) R(1) by (simp add: First_def seek_start_def iter_Item_def iter_Next_def)
  moreover have "sorted_wrt (\<lambda>a b. it_Key a < it_Key b) R" using suffix_sorted [OF R(3) assms(2)] by simp
  moreover have "\<forall>it \<in> set R. c_prefix c < it_Key it \<and> wf_item it" "length R \<le> n"
    using R(2,3) assms(3,6) by (auto simp: suffix_def)
  ultimately show ?thesis using walk_settle [OF assms(1)] R(4) by simp
qed

lemma last_loop_fresh:
  assumes "\<forall>it \<in> set its. wf_item it" and "sorted_wrt (\<lambda>a b. it_Key a < it_Key b) its"
    and "\<forall>it \<in> set its. p \<le> it_Key it" and "it \<in> set its" and "owned p it" and "it_Key it \<noteq> p" and "p \<noteq> []"
  shows "last_loop p None its lv = Inl (DbPanic ''slice bounds out of range'')"
  using assms
proof (induction its arbitrary: lv)
  case (Cons i its)
  obtain n v where v: "it_Value i = Inr (n # v)" using Cons.prems(1) by (auto simp: wf_item_def)
  have "prefix p (it_Key i)"
  proof (cases "it = i")
    case False
    with Cons.prems(2,4) have "it_Key i < it_Key it" by auto
    with prefix_interval [of p "it_Key i" "it_Key it"] owned_prefix [OF Cons.prems(5)] Cons.prems(3)
    show ?thesis by simp
  qed (use owned_prefix [OF Cons.prems(5)] in simp)
  moreover have "unat n \<noteq> 0" if "it = i" using that Cons.prems(5,7) v by (auto simp: owned_def)
  ultimately show ?case using Cons v by (auto simp: ck_slice_def)
qed simp

lemma seek_forward_ge:
  assumes "sorted_wrt (\<lambda>a b. it_Key a < it_Key b) its" and "it \<in> set (seek_forward k its)"
  shows "k \<le> it_Key it"
  using assms by (induction its) (auto simp: seek_forward_def split: if_splits)

section \<open>Properties\<close>

text \<open>
  C25.  A cursor and \<open>ForEach\<close> agree: on a reachable transaction, for a bucket that exists, \<open>First\<close>
  followed by \<open>Next\<close> until nil returns exactly the list of entries \<open>ForEach\<close> calls its callback
  on, in the same order, with no panic on the way.
\<close>

theorem cursor_walk_equals_ForEach:
  assumes "badger_store B" and "db_reach B d tx" and "\<not> closed d"
    and "Txn_Get B (badgerTx tx) (b_prefix b) = Inr m"
  shows "\<exists>kvs. walk (length (Txn_Items B (badgerTx tx))) d (First d (badgerCursor B d tx b)) = Inr kvs \<and>
    (\<forall>(fn :: 's \<Rightarrow> bytes \<Rightarrow> bytes option \<Rightarrow> 's db_result) s.
       ForEach B d tx b fn s = convert_result (traverse (\<lambda>s (k, v). fn s k v) s kvs))"
proof -
  let ?its = "Txn_Items B (badgerTx tx)"
  have wf: "badger_store.wf_txn B (badgerTx tx)" using badger_store.db_reach_wf [OF assms(1,2)] by simp
  have key: "it_Key m = b_prefix b" using badger_store.get_key [OF assms(1,4)] .
  then have "m \<in> set ?its" using assms(4) by (simp add: badger_store.items_get [OF assms(1)])
  with key First_walk [OF assms(3), of "badgerCursor B d tx b" m "length ?its"]
    badger_store.items_sorted [OF assms(1)] badger_store.wf_items [OF assms(1) wf]
  have "walk (length ?its) d (First d (badgerCursor B d tx b)) = Inr (listing (b_prefix b) ?its)"
    by (simp add: badgerCursor_def open_cursor_def)
  with assms(3) show ?thesis by (simp add: ForEach_def badger_store.forEach_listing [OF assms(1) wf])
qed

theorem cursor_walk_equals_ForEach_witness:
  "\<exists>kvs. walk (length (Txn_Items ref_badger ex_data)) (ex_db [])
      (First (ex_db []) (badgerCursor ref_badger (ex_db []) (ex_txn ex_data [[1]]) (handle [1]))) = Inr kvs \<and>
    ForEach ref_badger (ex_db []) (ex_txn ex_data [[1]]) (handle [1]) (\<lambda>n k v. Inr (Suc n)) 0 =
      convert_result (traverse (\<lambda>s (k, v). Inr (Suc s)) 0 kvs)"
proof -
  have o: "\<not> closed (ex_db [])" and
    g: "Txn_Get ref_badger (badgerTx (ex_txn ex_data [[1]])) (b_prefix (handle [1])) =
      Inr \<lparr>it_Key = [1], it_Value = Inr [1], UserMeta = 5\<rparr>" by (simp_all add: ex_badger_defs)
  from cursor_walk_equals_ForEach [OF ref_store.badger_store_axioms ex_reach o g, where 's = nat]
  show ?thesis unfolding ex_txn_def by (rule ex_forward) simp
qed

text \<open>
  \<open>Last\<close> on a new cursor panics as soon as the bucket has an entry: its loop slices the
  cursor's current key, which is nil until another operation has set it.
\<close>

theorem Last_panics_on_new_cursor:
  assumes "badger_store B" and "db_reach B d tx" and "\<not> closed d" and "b_prefix b \<noteq> []" and "k \<noteq> []"
    and "Txn_Get B (badgerTx tx) (b_prefix b @ k) = Inr it" and "owned (b_prefix b) it"
  shows "Last d (badgerCursor B d tx b) = Inl (DbPanic ''slice bounds out of range'')"
proof -
  let ?p = "b_prefix b" and ?its = "Txn_Items B (badgerTx tx)"
  have wf: "\<forall>i \<in> set ?its. wf_item i"
    using badger_store.db_reach_wf [OF assms(1,2)] badger_store.wf_items [OF assms(1)] by blast
  have key: "it_Key it = ?p @ k" using badger_store.get_key [OF assms(1,6)] .
  then have "it \<in> set ?its" using assms(6) by (simp add: badger_store.items_get [OF assms(1)])
  moreover have ge: "\<not> it_Key it < ?p" using prefix_ge [of ?p "it_Key it"] key by simp
  ultimately have it: "it \<in> set (seek_forward ?p ?its)"
    unfolding seek_forward_def using takeWhile_dropWhile_id [of "\<lambda>i. it_Key i < ?p" ?its]
    by (metis (no_types, lifting) Un_iff set_append set_takeWhileD)
  have suf: "suffix (seek_forward ?p ?its) ?its" by (simp add: seek_forward_def suffix_dropWhile)
  have sorted: "sorted_wrt (\<lambda>a b. it_Key a < it_Key b) (seek_forward ?p ?its)"
    using suffix_sorted [OF suf badger_store.items_sorted [OF assms(1)]] .
  have "\<forall>i \<in> set (seek_forward ?p ?its). ?p \<le> it_Key i"
    using seek_forward_ge badger_store.items_sorted [OF assms(1)] by blast
  moreover have "\<forall>i \<in> set (seek_forward ?p ?its). wf_item i" using wf set_mono_suffix [OF suf] by blast
  moreover have "it_Key it \<noteq> ?p" using key assms(5) by simp
  ultimately have "last_loop ?p None (seek_forward ?p ?its) None = Inl (DbPanic ''slice bounds out of range'')"
    using last_loop_fresh [OF _ sorted _ it assms(7) _ assms(4)] by blast
  with assms(3) show ?thesis by (simp add: Last_def badgerCursor_def open_cursor_def)
qed

theorem Last_panics_on_new_cursor_witness:
  "Last (ex_db []) (badgerCursor ref_badger (ex_db []) (ex_txn ex_data [[1]]) (handle [1])) =
     Inl (DbPanic ''slice bounds out of range'')"
  by (rule Last_panics_on_new_cursor [OF ref_store.badger_store_axioms ex_reach, where k = "[2]" and
        it = "\<lparr>it_Key = [1, 2], it_Value = Inr [1, 7], UserMeta = 0\<rparr>"])
    (simp_all add: ex_badger_defs owned_def)

end
