(* ===== verification/BadgerSlices.thy ===== *)
theory BadgerSlices
  imports Badger
begin

text \<open>
  The same writes of \<open>bucket.go\<close> at the level of Go slices.  \<open>addPrefix\<close> appends the key to the
  bucket's prefix slice; when that slice has spare capacity the append writes into its backing
  array, and the store's documented contract is that a transaction keeps a reference to the key it
  was given.  The definitions of the theory Badger describe the code for prefixes without spare
  capacity; this theory says what else can happen.
\<close>

section \<open>Slices\<close>

text \<open>Arrays by address, their length being the capacity; a slice starts at its array's first byte.\<close>

type_synonym heap = "bytes list"

record slice =
  sl_array :: nat
  sl_len :: nat

definition cap :: "heap \<Rightarrow> slice \<Rightarrow> nat" where
  "cap h s = length (h ! sl_array s)"

definition contents :: "heap \<Rightarrow> slice \<Rightarrow> bytes" where
  "contents h s = take (sl_len s) (h ! sl_array s)"

definition valid_slice :: "heap \<Rightarrow> slice \<Rightarrow> bool" where
  "valid_slice h s \<longleftrightarrow> sl_array s < length h \<and> sl_len s \<le> cap h s"

text \<open>
  \<open>append(s, data...)\<close>: in place when the capacity suffices, otherwise in a new array whose
  capacity \<open>grow\<close> is chosen by the run time (at least what is needed).
\<close>

definition append_slice :: "(nat \<Rightarrow> nat) \<Rightarrow> heap \<Rightarrow> slice \<Rightarrow> bytes \<Rightarrow> slice \<times> heap" where
  "append_slice grow h s data =
     (let n = sl_len s + length data; old = h ! sl_array s in
      if n \<le> length old
      then (s\<lparr>sl_len := n\<rparr>, h[sl_array s := take (sl_len s) old @ data @ drop n old])
      else (\<lparr>sl_array = length h, sl_len = n\<rparr>,
            h @ [take (sl_len s) old @ data @ replicate (grow n - n) 0]))"

text \<open>\<open>make([]byte, len(src))\<close> and \<open>copy\<close>: a new array without spare capacity.\<close>

definition copy_slice :: "heap \<Rightarrow> bytes \<Rightarrow> slice \<times> heap" where
  "copy_slice h data = (\<lparr>sl_array = length h, sl_len = length data\<rparr>, h @ [data])"

section \<open>\<open>addPrefix\<close> and \<open>put\<close> on slices\<close>

definition addPrefix_slice :: "(nat \<Rightarrow> nat) \<Rightarrow> heap \<Rightarrow> slice \<Rightarrow> bytes \<Rightarrow> (slice \<times> heap) db_result" where
  "addPrefix_slice grow h pre key =
     (if maxKeySize < length key then Inl (DbErr Invalid ''key too long'') else Inr (append_slice grow h pre key))"

text \<open>The writes a transaction holds until it commits: a reference to each key, and the value.\<close>

type_synonym pending = "(slice \<times> bytes) list"

definition put_slice ::
  "(nat \<Rightarrow> nat) \<Rightarrow> heap \<Rightarrow> pending \<Rightarrow> slice \<Rightarrow> bytes \<Rightarrow> bytes \<Rightarrow> (pending \<times> heap) db_result" where
  "put_slice grow h ws pre key val =
     (if key = [] then Inl (DbErr Invalid ''key is empty'')
      else if maxKeySize < length key then Inl (DbErr Invalid ''key is too large'')
      else let (copiedKey, h1) = copy_slice h key in
           case addPrefix_slice grow h1 pre (contents h1 copiedKey) of
             Inl e \<Rightarrow> Inl e
           | Inr (k, h2) \<Rightarrow> Inr (ws @ [(k, insertPrefixLength val (sl_len pre))], h2))"

text \<open>What the commit writes.\<close>

definition committed :: "heap \<Rightarrow> pending \<Rightarrow> (bytes \<times> bytes) list" where
  "committed h ws = map (\<lambda>(k, v). (contents h k, v)) ws"

section \<open>Lemmas\<close>

lemma put_slice_in_place:
  assumes "valid_slice h pre" and "key \<noteq> []" and "length key \<le> maxKeySize" and "sl_len pre + length key \<le> cap h pre"
  shows "put_slice grow h ws pre key val =
    Inr (ws @ [(pre\<lparr>sl_len := sl_len pre + length key\<rparr>, insertPrefixLength val (sl_len pre))],
         (h @ [key])[sl_array pre := contents h pre @ key @ drop (sl_len pre + length key) (h ! sl_array pre)])"
  using assms by (simp add: put_slice_def copy_slice_def addPrefix_slice_def append_slice_def contents_def
      valid_slice_def cap_def nth_append Let_def)

lemma put_slice_copies:
  assumes "valid_slice h pre" and "key \<noteq> []" and "length key \<le> maxKeySize" and "cap h pre < sl_len pre + length key"
  shows "\<exists>a. put_slice grow h ws pre key val =
    Inr (ws @ [(\<lparr>sl_array = Suc (length h), sl_len = sl_len pre + length key\<rparr>, insertPrefixLength val (sl_len pre))],
         h @ [key, contents h pre @ key @ a])"
  using assms by (auto simp: put_slice_def copy_slice_def addPrefix_slice_def append_slice_def contents_def
      valid_slice_def cap_def nth_append Let_def)

lemma committed_append: "committed h (ws @ ws') = committed h ws @ committed h ws'"
  by (simp add: committed_def)

lemma contents_grow: "valid_slice h s \<Longrightarrow> contents (h @ h') s = contents h s"
  by (simp add: contents_def valid_slice_def nth_append)

text \<open>The writes of two keys of one length through a handle, one after the other, and their commit.\<close>

definition put_twice :: "(nat \<Rightarrow> nat) \<Rightarrow> heap \<Rightarrow> slice \<Rightarrow> bytes \<Rightarrow> bytes \<Rightarrow> bytes \<Rightarrow> bytes \<Rightarrow> (bytes \<times> bytes) list db_result" where
  "put_twice grow h pre k1 v1 k2 v2 =
     bind_res (put_slice grow h [] pre k1 v1) (\<lambda>(ws1, h1).
     bind_res (put_slice grow h1 ws1 pre k2 v2) (\<lambda>(ws2, h2). Inr (committed h2 ws2)))"

lemma put_twice_in_place:
  assumes "valid_slice h pre" and "k1 \<noteq> []" and "length k1 \<le> maxKeySize" and "length k2 = length k1"
    and "sl_len pre + length k1 \<le> cap h pre"
  shows "put_twice grow h pre k1 v1 k2 v2 =
    Inr [(contents h pre @ k2, insertPrefixLength v1 (sl_len pre)), (contents h pre @ k2, insertPrefixLength v2 (sl_len pre))]"
proof -
  let ?tl = "drop (sl_len pre + length k1) (h ! sl_array pre)"
  let ?h1 = "(h @ [k1])[sl_array pre := contents h pre @ k1 @ ?tl]"
  let ?h2 = "(?h1 @ [k2])[sl_array pre := contents h pre @ k2 @ ?tl]"
  have a: "sl_array pre < length h" and l: "length (contents h pre) = sl_len pre"
    using assms(1) by (auto simp: valid_slice_def contents_def cap_def)
  have at: "?h1 ! sl_array pre = contents h pre @ k1 @ ?tl" "?h2 ! sl_array pre = contents h pre @ k2 @ ?tl"
    using a by simp_all
  have v: "valid_slice ?h1 pre" and r: "sl_len pre + length k2 \<le> cap ?h1 pre" and c: "contents ?h1 pre = contents h pre"
    and d: "drop (sl_len pre + length k2) (?h1 ! sl_array pre) = ?tl"
    using a l at(1) assms(4,5) by (auto simp: valid_slice_def cap_def contents_def)
  have k2: "k2 \<noteq> []" "length k2 \<le> maxKeySize" using assms(2-4) by auto
  have "contents ?h2 (pre\<lparr>sl_len := sl_len pre + length k1\<rparr>) = contents h pre @ k2"
    using at(2) l assms(4) by (simp add: contents_def [of ?h2])
  then show ?thesis
    using put_slice_in_place [OF assms(1-3,5), of grow "[]" v1] put_slice_in_place [OF v k2 r, of grow] assms(4)
    unfolding c d by (simp add: put_twice_def committed_def)
qed

lemma put_twice_copies:
  assumes "valid_slice h pre" and "k1 \<noteq> []" and "length k1 \<le> maxKeySize" and "length k2 = length k1"
    and "cap h pre < sl_len pre + length k1"
  shows "put_twice grow h pre k1 v1 k2 v2 =
    Inr [(contents h pre @ k1, insertPrefixLength v1 (sl_len pre)), (contents h pre @ k2, insertPrefixLength v2 (sl_len pre))]"
proof -
  obtain a1 where p1: "put_slice grow h [] pre k1 v1 =
      Inr ([] @ [(\<lparr>sl_array = Suc (length h), sl_len = sl_len pre + length k1\<rparr>, insertPrefixLength v1 (sl_len pre))],
           h @ [k1, contents h pre @ k1 @ a1])"
    using put_slice_copies [OF assms(1-3,5)] by blast
  let ?h1 = "h @ [k1, contents h pre @ k1 @ a1]"
  have v: "valid_slice ?h1 pre" "cap ?h1 pre < sl_len pre + length k2" and c: "contents ?h1 pre = contents h pre"
    using assms(1,4,5) contents_grow [OF assms(1)] by (simp_all add: valid_slice_def cap_def nth_append)
  have l: "length (contents h pre) = sl_len pre"
    using assms(1) by (auto simp: valid_slice_def contents_def cap_def)
  have k2: "k2 \<noteq> []" "length k2 \<le> maxKeySize" using assms(2-4) by auto
  obtain a2 where "put_slice grow ?h1 [(\<lparr>sl_array = Suc (length h), sl_len = sl_len pre + length k1\<rparr>, insertPrefixLength v1 (sl_len pre))] pre k2 v2 =
      Inr ([(\<lparr>sl_array = Suc (length h), sl_len = sl_len pre + length k1\<rparr>, insertPrefixLength v1 (sl_len pre))] @
           [(\<lparr>sl_array = Suc (length ?h1), sl_len = sl_len pre + length k2\<rparr>, insertPrefixLength v2 (sl_len pre))],
           ?h1 @ [k2, contents h pre @ k2 @ a2])"
    using put_slice_copies [OF v(1) k2 v(2)] unfolding c by blast
  with p1 l show ?thesis by (simp add: put_twice_def committed_def contents_def nth_append)
qed

section \<open>Properties\<close>

text \<open>
  Two writes through one bucket handle whose prefix slice has spare capacity for both keys
  (as a handle from \<open>NestedReadWriteBucket\<close> can have, whose prefix is itself the result of an
  append): the second write overwrites the key of the first, so that the transaction commits both
  values under the second key.  Without the capacity for the key each value is committed
  under its own key.
\<close>

theorem puts_share_the_prefix_array:
  assumes "valid_slice h pre" and "k1 \<noteq> []" and "length k1 \<le> maxKeySize" and "length k2 = length k1"
  shows "put_twice grow h pre k1 v1 k2 v2 =
      Inr [(contents h pre @ (if sl_len pre + length k1 \<le> cap h pre then k2 else k1), insertPrefixLength v1 (sl_len pre)),
           (contents h pre @ k2, insertPrefixLength v2 (sl_len pre))]"
  using put_twice_in_place [OF assms] put_twice_copies [OF assms] by (simp add: not_le)

theorem puts_share_the_prefix_array_witness:
  "put_twice (\<lambda>n. n) [[1, 2, 0, 0]] \<lparr>sl_array = 0, sl_len = 2\<rparr> [5] [7] [6] [8] =
     Inr [([1, 2, 6], [2, 7]), ([1, 2, 6], [2, 8])] \<and>
   put_twice (\<lambda>n. n) [[1, 2]] \<lparr>sl_array = 0, sl_len = 2\<rparr> [5] [7] [6] [8] =
     Inr [([1, 2, 5], [2, 7]), ([1, 2, 6], [2, 8])]"
  using puts_share_the_prefix_array [of "[[1, 2, 0, 0]]" "\<lparr>sl_array = 0, sl_len = 2\<rparr>" "[5]" "[6]" "\<lambda>n. n" "[7]" "[8]"]
    puts_share_the_prefix_array [of "[[1, 2]]" "\<lparr>sl_array = 0, sl_len = 2\<rparr>" "[5]" "[6]" "\<lambda>n. n" "[7]" "[8]"]
  by (simp add: valid_slice_def cap_def maxKeySize_def contents_def insertPrefixLength_def)

end
