(* ===== verification/BadgerDriver.thy ===== *)
theory BadgerDriver
  imports Badger
begin

text \<open>
  The driver that \<open>badgerdb\<close> registers with the wallet library, \<open>badgerdb/driver.go\<close>, and the opening of a
  database, \<open>openDB\<close> and \<open>fileExists\<close> of \<open>db.go\<close>.  The file system and the opening of the store are
  parameters on a state \<open>'e\<close>; the options of the store are constants of the code that nothing
  else reads, and its garbage collection every 20 seconds changes no contents.
\<close>

datatype stat_result = StatOk | StatMissing | StatError string

definition db_fileExists :: "('e \<Rightarrow> string \<Rightarrow> stat_result) \<Rightarrow> 'e \<Rightarrow> string \<Rightarrow> bool" where
  "db_fileExists stat e name \<longleftrightarrow> stat e name \<noteq> StatMissing"

text \<open>\<open>openDB\<close> returns the record of the database also when the store does not open: without a store.\<close>

definition openDB ::
  "('e \<Rightarrow> string \<Rightarrow> stat_result) \<Rightarrow> ('e \<Rightarrow> string \<Rightarrow> (badger_err + 'd) \<times> 'e) \<Rightarrow> 'e \<Rightarrow> string \<Rightarrow> bool \<Rightarrow>
   ('d option db) option \<times> db_err option \<times> 'e" where
  "openDB stat bopen e dbPath create =
     (if \<not> create \<and> \<not> db_fileExists stat e dbPath then (None, Some (DbErr NotExist ''missing database file''), e)
      else case bopen e dbPath of
        (Inl er, e') \<Rightarrow> (Some \<lparr>store = None, closed = False\<rparr>, Some (convertErr (BadgerErr er)), e')
      | (Inr d, e') \<Rightarrow> (Some \<lparr>store = Some d, closed = False\<rparr>, None, e'))"

text \<open>An argument of the driver's functions: an interface value, a string or something else.\<close>

datatype driver_arg = StringArg string | OtherArg

definition parseArgs :: "string \<Rightarrow> driver_arg list \<Rightarrow> string db_result" where
  "parseArgs funcName args =
     (case args of
        [StringArg dbPath] \<Rightarrow> Inr dbPath
      | [OtherArg] \<Rightarrow> Inl (DbErr OtherKind (''first argument to badgerdb.'' @ funcName @ '' is invalid -- expected database path string''))
      | _ \<Rightarrow> Inl (DbErr OtherKind (''invalid arguments to badgerdb.'' @ funcName @ '' -- expected database path'')))"

definition openDBDriver ::
  "('e \<Rightarrow> string \<Rightarrow> stat_result) \<Rightarrow> ('e \<Rightarrow> string \<Rightarrow> (badger_err + 'd) \<times> 'e) \<Rightarrow> 'e \<Rightarrow> driver_arg list \<Rightarrow> ('d option db) option \<times> db_err option \<times> 'e" where
  "openDBDriver stat bopen e args = (case parseArgs ''Open'' args of Inl er \<Rightarrow> (None, Some er, e) | Inr dbPath \<Rightarrow> openDB stat bopen e dbPath False)"

definition createDBDriver ::
  "('e \<Rightarrow> string \<Rightarrow> stat_result) \<Rightarrow> ('e \<Rightarrow> string \<Rightarrow> (badger_err + 'd) \<times> 'e) \<Rightarrow> 'e \<Rightarrow> driver_arg list \<Rightarrow> ('d option db) option \<times> db_err option \<times> 'e" where
  "createDBDriver stat bopen e args = (case parseArgs ''Create'' args of Inl er \<Rightarrow> (None, Some er, e) | Inr dbPath \<Rightarrow> openDB stat bopen e dbPath True)"

text \<open>
  Without an error the caller has an open database with its store, at the path it gave; opening,
  unlike creating, leaves the file system alone when there is no file.
\<close>

theorem drivers_open_the_path:
  assumes "openDBDriver stat bopen e args = (r, None, e') \<or> createDBDriver stat bopen e args = (r, None, e')"
  shows "\<exists>p d. args = [StringArg p] \<and> bopen e p = (Inr d, e') \<and> r = Some \<lparr>store = Some d, closed = False\<rparr>"
  using assms
  by (auto simp: openDBDriver_def createDBDriver_def parseArgs_def openDB_def split: list.splits driver_arg.splits sum.splits prod.splits if_splits)

theorem open_needs_a_file:
  assumes "stat e p = StatMissing"
  shows "openDBDriver stat bopen e [StringArg p] = (None, Some (DbErr NotExist ''missing database file''), e)"
  using assms by (simp add: openDBDriver_def parseArgs_def openDB_def db_fileExists_def)

end
