(* ===== verification/Transactions.thy ===== *)
theory Transactions
  imports TxHelper
begin

text \<open>
  Decoding of wallet transactions: the records of \<open>types.go\<close> that describe transactions,
  \<open>decodetx.go\<close> (from the raw transaction and the wallet's own inputs and outputs to a
  \<open>Transaction\<close>) and \<open>txparser.go\<close> (from a transaction summary of the wallet, with the vote
  reward of a spent ticket).
\<close>

section \<open>Data (\<open>types.go\<close>)\<close>

record TxInput =
  PreviousTransactionHash :: string
  PreviousTransactionIndex :: int
  PreviousOutpoint_str :: string
  in_Amount :: int
  in_AccountName :: string
  in_AccountNumber :: int

record TxOutput =
  out_Index :: int
  out_Amount :: int
  out_Version :: int
  ScriptType :: string
  out_Address :: string
  out_Internal :: bool
  out_AccountName :: string
  out_AccountNumber :: int

record Transaction =
  t_WalletID :: int
  t_Hash :: string
  t_Type :: string
  t_Hex :: string
  t_Timestamp :: int
  t_BlockHeight :: int
  t_Version :: int
  t_LockTime :: int
  t_Expiry :: int
  t_Fee :: int
  t_FeeRate :: int
  t_Size :: int
  t_Direction :: int
  t_Amount :: int
  t_Inputs :: "TxInput list"
  t_Outputs :: "TxOutput list"
  t_VoteVersion :: int
  t_LastBlockValid :: bool
  t_VoteBits :: string
  t_VoteReward :: int
  t_TicketSpentHash :: string
  t_DaysToVoteOrRevoke :: int

record WalletAccount =
  wa_AccountNumber :: int
  wa_AccountName :: string

record WalletInput =
  wi_Index :: int
  AmountIn :: int
  wi_Account :: WalletAccount

record WalletOutput =
  wo_Index :: int
  AmountOut :: int
  wo_Internal :: bool
  wo_Address :: string
  wo_Account :: WalletAccount

record TxInfoFromWallet =
  wt_WalletID :: int
  wt_Hex :: string
  wt_Timestamp :: int
  wt_BlockHeight :: int
  wt_Inputs :: "WalletInput list"
  wt_Outputs :: "WalletOutput list"

section \<open>Parameters\<close>

text \<open>
  The functions of \<open>wire\<close>, \<open>stake\<close>, \<open>txscript\<close>, \<open>txhelpers\<close> and \<open>wallet\<close> the decoding calls.
  \<open>PkScriptClass\<close> gives the name of the script class and the addresses of a script (none when
  it does not parse).
\<close>

record decode_lib =
  MsgTxFromHex :: "string \<Rightarrow> string + MsgTx"
  SerializeSize :: "MsgTx \<Rightarrow> int"
  TxFeeRate :: "MsgTx \<Rightarrow> int \<times> int"
  TxTransactionType :: "MsgTx \<Rightarrow> TransactionType"
  tx_hash :: "MsgTx \<Rightarrow> hash"
  HashString :: "hash \<Rightarrow> string"
  OutPointString :: "OutPoint \<Rightarrow> string"
  stake_type :: "MsgTx \<Rightarrow> stake_TxType"
  IsStakeSubmissionTxOut :: "nat \<Rightarrow> bool"
  AddrFromSStxPkScrCommitment :: "bytes \<Rightarrow> string + string"
  StakeSubmissionTy :: string
  PkScriptClass :: "nat \<Rightarrow> bytes \<Rightarrow> string \<times> string list"
  IsSSGen :: "MsgTx \<Rightarrow> bool"
  IsSSRtx :: "MsgTx \<Rightarrow> bool"
  SSGenVersion :: "MsgTx \<Rightarrow> nat"
  SSGenVoteBits :: "MsgTx \<Rightarrow> nat"

section \<open>Hexadecimal formatting\<close>

definition hex_digit :: "nat \<Rightarrow> char" where
  "hex_digit n = ''0123456789abcdef'' ! (n mod 16)"

text \<open>\<open>fmt.Sprintf("%#04x", bits)\<close> of a 16-bit value: the flag \<open>0\<close> asks for four digits after \<open>0x\<close>.\<close>

definition format_vote_bits :: "nat \<Rightarrow> string" where
  "format_vote_bits n =
     ''0x'' @ [hex_digit (n div 4096), hex_digit (n div 256), hex_digit (n div 16), hex_digit n]"

text \<open>\<open>fmt.Sprintf("%x", data)\<close>.\<close>

definition format_bytes :: "bytes \<Rightarrow> string" where
  "format_bytes data = concat (map (\<lambda>b. [hex_digit (unat b div 16), hex_digit (unat b)]) data)"

section \<open>\<open>decodetx.go\<close>\<close>

definition BlockValid :: nat where "BlockValid = 1"

text \<open>\<open>MsgTxFeeSizeRate\<close> of \<open>txhelper\<close>.\<close>

definition MsgTxFeeSizeRate :: "decode_lib \<Rightarrow> string \<Rightarrow> (MsgTx \<times> int \<times> int \<times> int) result" where
  "MsgTxFeeSizeRate L hex =
     (case MsgTxFromHex L hex of
        Inl e \<Rightarrow> Inl (New e)
      | Inr tx \<Rightarrow> let (fee, feeRate) = TxFeeRate L tx in Inr (tx, fee, SerializeSize L tx, feeRate))"

definition decodeTxInput :: "decode_lib \<Rightarrow> WalletInput list \<Rightarrow> nat \<Rightarrow> wire_TxIn \<Rightarrow> TxInput" where
  "decodeTxInput L walletInputs i txIn =
     (let acc = (case find (\<lambda>wi. wi_Index wi = int32_of (int i)) walletInputs of
                   None \<Rightarrow> (''external'', -1)
                 | Some wi \<Rightarrow> (wa_AccountName (wi_Account wi), wa_AccountNumber (wi_Account wi)))
      in \<lparr>PreviousTransactionHash = HashString L (op_Hash (PreviousOutPoint txIn)),
          PreviousTransactionIndex = int32_of (int (op_Index (PreviousOutPoint txIn))),
          PreviousOutpoint_str = OutPointString L (PreviousOutPoint txIn),
          in_Amount = ValueIn txIn, in_AccountName = fst acc, in_AccountNumber = snd acc\<rparr>)"

definition decodeTxInputs :: "decode_lib \<Rightarrow> MsgTx \<Rightarrow> WalletInput list \<Rightarrow> TxInput list" where
  "decodeTxInputs L mtx walletInputs =
     map (\<lambda>(i, txIn). decodeTxInput L walletInputs i txIn) (enumerate 0 (TxIn mtx))"

definition output_address_type :: "decode_lib \<Rightarrow> stake_TxType \<Rightarrow> nat \<Rightarrow> wire_TxOut \<Rightarrow> string \<times> string" where
  "output_address_type L txType i txOut =
     (if txType = TxTypeSStx \<and> IsStakeSubmissionTxOut L i
      then (case AddrFromSStxPkScrCommitment L (PkScript_of txOut) of Inl e \<Rightarrow> [] | Inr a \<Rightarrow> a, StakeSubmissionTy L)
      else let (scriptClass, addrs) = PkScriptClass L (OutVersion txOut) (PkScript_of txOut)
           in (case addrs of [] \<Rightarrow> [] | a # _ \<Rightarrow> a, scriptClass))"

definition decodeTxOutput :: "decode_lib \<Rightarrow> stake_TxType \<Rightarrow> WalletOutput list \<Rightarrow> nat \<Rightarrow> wire_TxOut \<Rightarrow> TxOutput" where
  "decodeTxOutput L txType walletOutputs i txOut =
     (let (address, scriptType) = output_address_type L txType i txOut;
          output = \<lparr>out_Index = int32_of (int i), out_Amount = Value txOut, out_Version = int32_of (int (OutVersion txOut)),
            ScriptType = scriptType, out_Address = address, out_Internal = False,
            out_AccountName = ''external'', out_AccountNumber = -1\<rparr>
      in case find (\<lambda>wo. wo_Index wo = out_Index output) walletOutputs of
           None \<Rightarrow> output
         | Some wo \<Rightarrow> output\<lparr>out_Internal := wo_Internal wo, out_Address := wo_Address wo,
             out_AccountName := wa_AccountName (wo_Account wo), out_AccountNumber := wa_AccountNumber (wo_Account wo)\<rparr>)"

definition decodeTxOutputs :: "decode_lib \<Rightarrow> MsgTx \<Rightarrow> WalletOutput list \<Rightarrow> TxOutput list" where
  "decodeTxOutputs L mtx walletOutputs =
     map (\<lambda>(i, txOut). decodeTxOutput L (stake_type L mtx) walletOutputs i txOut) (enumerate 0 (TxOut mtx))"

definition voteInfo :: "decode_lib \<Rightarrow> MsgTx \<Rightarrow> (nat \<times> bool \<times> string \<times> string) result" where
  "voteInfo L tx =
     (if IsSSGen L tx
      then (case index_at (TxIn tx) 1 of
              Inl e \<Rightarrow> Inl e
            | Inr txIn \<Rightarrow>
                let bits = SSGenVoteBits L tx in
                Inr (SSGenVersion L tx, bits mod 2 \<noteq> 0, format_vote_bits bits, HashString L (op_Hash (PreviousOutPoint txIn))))
      else Inr (0, False, [], []))"

text \<open>The sums of the wallet's amounts wrap around at 64 bits.\<close>

definition total64 :: "int list \<Rightarrow> int" where
  "total64 xs = foldl (\<lambda>t x. int64_of (t + x)) 0 xs"

definition DecodeTransaction :: "decode_lib \<Rightarrow> TxInfoFromWallet \<Rightarrow> Transaction result" where
  "DecodeTransaction L walletTx =
     bind_res (MsgTxFeeSizeRate L (wt_Hex walletTx)) (\<lambda>(msgTx, txFee, txSize, txFeeRate).
     let totalWalletInput = total64 (map AmountIn (wt_Inputs walletTx));
         totalWalletOutput = total64 (map AmountOut (wt_Outputs walletTx));
         amountAndDirection = TransactionAmountAndDirection totalWalletInput totalWalletOutput txFee
     in bind_res (voteInfo L msgTx) (\<lambda>(ssGenVersion, lastBlockValid, voteBits, voteTicket).
     bind_res (if IsSSRtx L msgTx
               then bind_res (index_at (TxIn msgTx) 0) (\<lambda>txIn. Inr (HashString L (op_Hash (PreviousOutPoint txIn))))
               else Inr voteTicket) (\<lambda>ticketSpentHash.
     Inr \<lparr>t_WalletID = wt_WalletID walletTx, t_Hash = HashString L (tx_hash L msgTx),
          t_Type = FormatTransactionType (TxTransactionType L msgTx), t_Hex = wt_Hex walletTx,
          t_Timestamp = wt_Timestamp walletTx, t_BlockHeight = wt_BlockHeight walletTx,
          t_Version = int32_of (int (tx_Version msgTx)), t_LockTime = int32_of (int (LockTime msgTx)),
          t_Expiry = int32_of (int (Expiry msgTx)), t_Fee = txFee, t_FeeRate = txFeeRate, t_Size = txSize,
          t_Direction = snd amountAndDirection, t_Amount = fst amountAndDirection,
          t_Inputs = decodeTxInputs L msgTx (wt_Inputs walletTx),
          t_Outputs = decodeTxOutputs L msgTx (wt_Outputs walletTx),
          t_VoteVersion = int32_of (int ssGenVersion), t_LastBlockValid = lastBlockValid, t_VoteBits = voteBits,
          t_VoteReward = 0, t_TicketSpentHash = ticketSpentHash, t_DaysToVoteOrRevoke = 0\<rparr>)))"

section \<open>\<open>txparser.go\<close>\<close>

definition BlockHeightInvalid :: int where "BlockHeightInvalid = -1"

record summary_input =
  si_Index :: nat
  PreviousAccount :: nat
  PreviousAmount :: int

record summary_output =
  so_Index :: nat
  so_Account :: nat
  so_Internal :: bool
  so_Address :: string
  so_Amount :: int

record TransactionSummary =
  ts_Hash :: string
  ts_Transaction :: bytes
  MyInputs :: "summary_input list"
  MyOutputs :: "summary_output list"
  ts_Timestamp :: int

text \<open>What the decoding asks the wallet (\<open>wallet.internal\<close>) and \<open>chainhash\<close> for.\<close>

record wallet_lib =
  BlockInfoHeight :: "hash \<Rightarrow> int result"
  internal_AccountName :: "nat \<Rightarrow> string result"
  internal_TransactionSummary :: "hash \<Rightarrow> (TransactionSummary \<times> hash option) result"
  NewHashFromStr :: "string \<Rightarrow> hash result"
  NewHash :: "bytes \<Rightarrow> hash result"

text \<open>\<open>AccountName\<close> of \<open>accounts.go\<close>.\<close>

definition AccountName :: "wallet_lib \<Rightarrow> int \<Rightarrow> string" where
  "AccountName W accountNumber =
     (case internal_AccountName W (uint32_of accountNumber) of Inl e \<Rightarrow> ''Account not found'' | Inr name \<Rightarrow> name)"

definition wallet_account :: "wallet_lib \<Rightarrow> nat \<Rightarrow> WalletAccount" where
  "wallet_account W account =
     (let accountNumber = int32_of (int account)
      in \<lparr>wa_AccountNumber = accountNumber, wa_AccountName = AccountName W accountNumber\<rparr>)"

definition summary_wallet_tx :: "wallet_lib \<Rightarrow> int \<Rightarrow> TransactionSummary \<Rightarrow> hash option \<Rightarrow> TxInfoFromWallet" where
  "summary_wallet_tx W walletID s blockHash =
     \<lparr>wt_WalletID = walletID, wt_Hex = format_bytes (ts_Transaction s), wt_Timestamp = ts_Timestamp s,
      wt_BlockHeight = (case blockHash of
         None \<Rightarrow> BlockHeightInvalid
       | Some h \<Rightarrow> (case BlockInfoHeight W h of Inl e \<Rightarrow> BlockHeightInvalid | Inr height \<Rightarrow> height)),
      wt_Inputs = map (\<lambda>i. \<lparr>wi_Index = int32_of (int (si_Index i)), AmountIn = PreviousAmount i,
          wi_Account = wallet_account W (PreviousAccount i)\<rparr>) (MyInputs s),
      wt_Outputs = map (\<lambda>out. \<lparr>wo_Index = int32_of (int (so_Index out)), AmountOut = so_Amount out,
          wo_Internal = so_Internal out, wo_Address = so_Address out,
          wo_Account = wallet_account W (so_Account out)\<rparr>) (MyOutputs s)\<rparr>"

text \<open>The days and the reward of a vote or revocation, from the transaction that bought its ticket.\<close>

definition with_ticket :: "TxInfoFromWallet \<Rightarrow> Transaction \<Rightarrow> Transaction \<Rightarrow> Transaction" where
  "with_ticket walletTx decodedTx ticketPurchaseTx =
     (let timeDifferenceInSeconds = int64_of (t_Timestamp decodedTx - t_Timestamp ticketPurchaseTx);
          ticketInvestment = total64 (map in_Amount (filter (\<lambda>i. in_AccountNumber i > -1) (t_Inputs ticketPurchaseTx)));
          ticketOutput = total64 (map AmountOut (filter (\<lambda>out. wa_AccountNumber (wo_Account out) > -1) (wt_Outputs walletTx)))
      in decodedTx\<lparr>t_DaysToVoteOrRevoke := int32_of (quot timeDifferenceInSeconds 86400),
                   t_VoteReward := int64_of (ticketOutput - ticketInvestment)\<rparr>)"

text \<open>
  \<open>decodeTransactionWithTxSummary\<close> and \<open>GetTransactionRaw\<close> call each other, once per ticket that
  is spent; \<open>None\<close> is a recursion deeper than the fuel.
\<close>

fun decodeTransactionWithTxSummary ::
  "nat \<Rightarrow> decode_lib \<Rightarrow> wallet_lib \<Rightarrow> int \<Rightarrow> TransactionSummary \<Rightarrow> hash option \<Rightarrow> Transaction result option" where
  "decodeTransactionWithTxSummary 0 L W walletID s blockHash = None"
| "decodeTransactionWithTxSummary (Suc fuel) L W walletID s blockHash =
     (let walletTx = summary_wallet_tx W walletID s blockHash in
      case DecodeTransaction L walletTx of
        Inl e \<Rightarrow> Some (Inl e)
      | Inr decodedTx \<Rightarrow>
          if t_TicketSpentHash decodedTx = [] then Some (Inr decodedTx)
          else case NewHashFromStr W (t_TicketSpentHash decodedTx) of
            Inl e \<Rightarrow> Some (Inl e)
          | Inr h \<Rightarrow>
              (case bind_res (NewHash W h) (internal_TransactionSummary W) of
                 Inl e \<Rightarrow> Some (Inl e)
               | Inr (summary, bh) \<Rightarrow>
                   (case decodeTransactionWithTxSummary fuel L W walletID summary bh of
                      None \<Rightarrow> None
                    | Some (Inl e) \<Rightarrow> Some (Inl e)
                    | Some (Inr ticketPurchaseTx) \<Rightarrow> Some (Inr (with_ticket walletTx decodedTx ticketPurchaseTx)))))"

definition GetTransactionRaw :: "nat \<Rightarrow> decode_lib \<Rightarrow> wallet_lib \<Rightarrow> int \<Rightarrow> bytes \<Rightarrow> Transaction result option" where
  "GetTransactionRaw fuel L W walletID txHash =
     (case bind_res (NewHash W txHash) (internal_TransactionSummary W) of
        Inl e \<Rightarrow> Some (Inl e)
      | Inr (summary, bh) \<Rightarrow> decodeTransactionWithTxSummary fuel L W walletID summary bh)"

section \<open>Lemmas\<close>

lemma total64_eq: "total64 xs = int64_of (sum_list xs)"
proof -
  have "foldl (\<lambda>t x. int64_of (t + x)) (int64_of a) xs = int64_of (a + sum_list xs)" for a
  proof (induction xs arbitrary: a)
    case (Cons x xs)
    have "foldl (\<lambda>t x. int64_of (t + x)) (int64_of a) (x # xs) = foldl (\<lambda>t x. int64_of (t + x)) (int64_of (a + x)) xs"
      by (simp add: int64_of_add_left)
    also have "\<dots> = int64_of (a + x + sum_list xs)" by (rule Cons.IH)
    finally show ?case by (simp add: add.assoc)
  qed simp
  from this [of 0] show ?thesis by (simp add: total64_def int64_of_id is_int64_def)
qed

lemma decode_Inr:
  assumes "DecodeTransaction L wt = Inr t" and "MsgTxFromHex L (wt_Hex wt) = Inr tx"
  shows "t_Inputs t = decodeTxInputs L tx (wt_Inputs wt) \<and> t_Outputs t = decodeTxOutputs L tx (wt_Outputs wt) \<and>
    (t_Amount t, t_Direction t) = TransactionAmountAndDirection (total64 (map AmountIn (wt_Inputs wt)))
      (total64 (map AmountOut (wt_Outputs wt))) (t_Fee t)"
  using assms by (auto simp: DecodeTransaction_def MsgTxFeeSizeRate_def Let_def bind_res_Inr split: prod.splits if_splits)

lemma decode_timestamp: "DecodeTransaction L wt = Inr t \<Longrightarrow> t_Timestamp t = wt_Timestamp wt"
  by (auto simp: DecodeTransaction_def Let_def bind_res_Inr split: prod.splits if_splits)

lemma find_index_unique:
  assumes "distinct (map f xs)" and "x \<in> set xs"
  shows "find (\<lambda>y. f y = f x) xs = Some x"
  using assms by (induction xs) auto

text \<open>With one wallet input or output per index, an entry's account is the one the wallet named, or external.\<close>

lemma decodeTxInputs_account:
  assumes "i < length (TxIn tx)" and "length (TxIn tx) \<le> 2 ^ 31"
  shows "in_AccountNumber (decodeTxInputs L tx wis ! i) =
    (case find (\<lambda>wi. wi_Index wi = int i) wis of None \<Rightarrow> -1 | Some wi \<Rightarrow> wa_AccountNumber (wi_Account wi))"
proof -
  have "int32_of (int i) = int i" using assms by (intro int32_of_id) (simp add: is_int32_def)
  with assms(1) show ?thesis
    by (simp add: decodeTxInputs_def decodeTxInput_def nth_enumerate_eq Let_def split: option.splits)
qed

lemma decodeTxOutputs_account:
  assumes "i < length (TxOut tx)" and "length (TxOut tx) \<le> 2 ^ 31"
  shows "out_AccountNumber (decodeTxOutputs L tx wos ! i) =
    (case find (\<lambda>wo. wo_Index wo = int i) wos of None \<Rightarrow> -1 | Some wo \<Rightarrow> wa_AccountNumber (wo_Account wo))"
proof -
  have "int32_of (int i) = int i" using assms by (intro int32_of_id) (simp add: is_int32_def)
  with assms(1) show ?thesis
    by (simp add: decodeTxOutputs_def decodeTxOutput_def nth_enumerate_eq Let_def split: option.splits prod.splits)
qed

lemma account_of_find:
  assumes "distinct (map idx ws)"
  shows "(case find (\<lambda>w. idx w = j) ws of None \<Rightarrow> -1 | Some w \<Rightarrow> acc w) = a \<longleftrightarrow>
    (\<exists>w \<in> set ws. idx w = j \<and> acc w = a) \<or> a = -1 \<and> j \<notin> idx ` set ws"
proof (cases "j \<in> idx ` set ws")
  case True
  then obtain w where w: "w \<in> set ws" "idx w = j" by auto
  with find_index_unique [OF assms w(1)] have "find (\<lambda>w. idx w = j) ws = Some w" by simp
  moreover have "(\<exists>w' \<in> set ws. idx w' = j \<and> acc w' = a) \<longleftrightarrow> acc w = a"
    using w assms by (metis distinct_map inj_onD)
  ultimately show ?thesis using True by simp
next
  case False
  then have "find (\<lambda>w. idx w = j) ws = None" by (auto simp: find_None_iff)
  with False show ?thesis by auto
qed

lemma with_ticket_reward:
  "t_VoteReward (with_ticket wt d p) = int64_of
     (sum_list (map AmountOut (filter (\<lambda>out. wa_AccountNumber (wo_Account out) > -1) (wt_Outputs wt))) -
      sum_list (map in_Amount (filter (\<lambda>i. in_AccountNumber i > -1) (t_Inputs p))))"
  "t_DaysToVoteOrRevoke (with_ticket wt d p) = int32_of (quot (int64_of (t_Timestamp d - t_Timestamp p)) 86400)"
  by (simp_all add: with_ticket_def Let_def total64_eq int64_of_diff)

section \<open>Example data\<close>

text \<open>A ticket purchase with one input of the wallet, and a vote that spends the ticket.\<close>

definition ex_ticket_tx :: MsgTx where
  "ex_ticket_tx = \<lparr>tx_Version = 1, TxIn = [\<lparr>PreviousOutPoint = \<lparr>op_Hash = [3], op_Index = 0, op_Tree = 0\<rparr>, ValueIn = 100\<rparr>],
     TxOut = [\<lparr>Value = 99, OutVersion = 0, PkScript_of = [8]\<rparr>], LockTime = 0, Expiry = 0\<rparr>"

definition ex_vote_tx :: MsgTx where
  "ex_vote_tx = \<lparr>tx_Version = 1,
     TxIn = [\<lparr>PreviousOutPoint = \<lparr>op_Hash = [0], op_Index = 0, op_Tree = 0\<rparr>, ValueIn = 5\<rparr>,
             \<lparr>PreviousOutPoint = \<lparr>op_Hash = [1], op_Index = 0, op_Tree = 1\<rparr>, ValueIn = 99\<rparr>],
     TxOut = [\<lparr>Value = 104, OutVersion = 0, PkScript_of = [8]\<rparr>], LockTime = 9, Expiry = 0\<rparr>"

definition ex_decode_lib :: decode_lib where
  "ex_decode_lib = \<lparr>MsgTxFromHex = (\<lambda>h. if h = ''01'' then Inr ex_ticket_tx else Inr ex_vote_tx),
     SerializeSize = (\<lambda>tx. 200), TxFeeRate = (\<lambda>tx. (1, 5)),
     TxTransactionType = (\<lambda>tx. if LockTime tx = 9 then TransactionTypeVote else TransactionTypeTicketPurchase),
     tx_hash = (\<lambda>tx. if LockTime tx = 9 then [2] else [1]), HashString = format_bytes, OutPointString = (\<lambda>p. ''out''),
     stake_type = (\<lambda>tx. StakeTxTypeRegular), IsStakeSubmissionTxOut = (\<lambda>i. False),
     AddrFromSStxPkScrCommitment = (\<lambda>s. Inl ''no address''), StakeSubmissionTy = ''stakesubmission'',
     PkScriptClass = (\<lambda>v s. (''pubkeyhash'', [''D''])), IsSSGen = (\<lambda>tx. LockTime tx = 9), IsSSRtx = (\<lambda>tx. False),
     SSGenVersion = (\<lambda>tx. 7), SSGenVoteBits = (\<lambda>tx. 5)\<rparr>"

definition ex_summary :: "byte \<Rightarrow> TransactionSummary" where
  "ex_summary b = \<lparr>ts_Hash = [], ts_Transaction = [b],
     MyInputs = (if b = 1 then [\<lparr>si_Index = 0, PreviousAccount = 0, PreviousAmount = 100\<rparr>] else []),
     MyOutputs = (if b = 1 then [] else [\<lparr>so_Index = 0, so_Account = 0, so_Internal = False, so_Address = ''D'', so_Amount = 104\<rparr>]),
     ts_Timestamp = (if b = 1 then 1000 else 1000 + 2 * 86400)\<rparr>"

definition ex_wallet_lib :: wallet_lib where
  "ex_wallet_lib = \<lparr>BlockInfoHeight = (\<lambda>h. Inr 10), internal_AccountName = (\<lambda>n. Inr ''default''),
     internal_TransactionSummary = (\<lambda>h. Inr (ex_summary 1, Some [7])), NewHashFromStr = (\<lambda>s. Inr [1]), NewHash = Inr\<rparr>"

lemmas ex_decode_defs = ex_ticket_tx_def ex_vote_tx_def ex_decode_lib_def ex_summary_def ex_wallet_lib_def
  DecodeTransaction_def MsgTxFeeSizeRate_def voteInfo_def index_at_def summary_wallet_tx_def format_bytes_def hex_digit_def

section \<open>Properties\<close>



text \<open>
  Decoding a vote or a revocation returns: two levels of recursion are enough when the ticket's
  own transaction spends no ticket, and the result carries the whole days between the two
  transactions and the reward, the wallet's outputs of the vote minus the wallet's inputs of the
  ticket purchase.
\<close>

theorem vote_reward:
  assumes "DecodeTransaction L (summary_wallet_tx W w s bh) = Inr vote" and "t_TicketSpentHash vote \<noteq> []"
    and "NewHashFromStr W (t_TicketSpentHash vote) = Inr h" and "NewHash W h = Inr h'"
    and "internal_TransactionSummary W h' = Inr (s', bh')"
    and "DecodeTransaction L (summary_wallet_tx W w s' bh') = Inr ticket" and "t_TicketSpentHash ticket = []"
  shows "\<exists>t. decodeTransactionWithTxSummary (Suc (Suc n)) L W w s bh = Some (Inr t) \<and> t_Hash t = t_Hash vote \<and>
    t_DaysToVoteOrRevoke t = int32_of (quot (int64_of (ts_Timestamp s - ts_Timestamp s')) 86400) \<and>
    t_VoteReward t = int64_of
      (sum_list (map AmountOut (filter (\<lambda>out. wa_AccountNumber (wo_Account out) > -1) (wt_Outputs (summary_wallet_tx W w s bh)))) -
       sum_list (map in_Amount (filter (\<lambda>i. in_AccountNumber i > -1) (t_Inputs ticket))))"
proof -
  have "t_Timestamp vote = ts_Timestamp s" "t_Timestamp ticket = ts_Timestamp s'"
    using decode_timestamp [OF assms(1)] decode_timestamp [OF assms(6)] by (simp_all add: summary_wallet_tx_def)
  moreover have "decodeTransactionWithTxSummary (Suc (Suc n)) L W w s bh =
      Some (Inr (with_ticket (summary_wallet_tx W w s bh) vote ticket))"
    using assms by simp
  ultimately show ?thesis by (simp add: with_ticket_reward) (simp add: with_ticket_def Let_def)
qed

theorem vote_reward_witness:
  "\<exists>t. decodeTransactionWithTxSummary 2 ex_decode_lib ex_wallet_lib 1 (ex_summary 2) None = Some (Inr t) \<and>
     t_DaysToVoteOrRevoke t = 2 \<and> t_VoteReward t = 4"
proof -
  obtain vote where v: "DecodeTransaction ex_decode_lib (summary_wallet_tx ex_wallet_lib 1 (ex_summary 2) None) = Inr vote"
    "t_TicketSpentHash vote = ''01''"
    by (simp add: ex_decode_defs Let_def split: prod.splits)
  obtain ticket where t: "DecodeTransaction ex_decode_lib (summary_wallet_tx ex_wallet_lib 1 (ex_summary 1) (Some [7])) = Inr ticket"
    "t_TicketSpentHash ticket = []"
    by (simp add: ex_decode_defs Let_def split: prod.splits)
  have tx: "MsgTxFromHex ex_decode_lib (wt_Hex (summary_wallet_tx ex_wallet_lib 1 (ex_summary 1) (Some [7]))) = Inr ex_ticket_tx"
    by (simp add: ex_decode_defs)
  have i: "t_Inputs ticket = decodeTxInputs ex_decode_lib ex_ticket_tx (wt_Inputs (summary_wallet_tx ex_wallet_lib 1 (ex_summary 1) (Some [7])))"
    using decode_Inr [OF t(1) tx] by simp
  have e: "NewHashFromStr ex_wallet_lib (t_TicketSpentHash vote) = Inr [1]" "NewHash ex_wallet_lib [1] = Inr [1]"
    "internal_TransactionSummary ex_wallet_lib [1] = Inr (ex_summary 1, Some [7])" "t_TicketSpentHash vote \<noteq> []"
    by (simp_all add: ex_wallet_lib_def v(2))
  have ins: "map in_Amount (filter (\<lambda>i. in_AccountNumber i > -1) (t_Inputs ticket)) = [100]"
    unfolding i by (simp add: ex_decode_defs decodeTxInputs_def decodeTxInput_def wallet_account_def AccountName_def int32_of_def)
  have outs: "map AmountOut (filter (\<lambda>out. wa_AccountNumber (wo_Account out) > -1)
      (wt_Outputs (summary_wallet_tx ex_wallet_lib 1 (ex_summary 2) None))) = [104]"
    by (simp add: ex_summary_def ex_wallet_lib_def summary_wallet_tx_def wallet_account_def int32_of_def)
  have days: "ts_Timestamp (ex_summary 2) - ts_Timestamp (ex_summary 1) = 172800" by (simp add: ex_summary_def)
  have two: "Suc (Suc 0) = 2" by simp
  from vote_reward [OF v(1) e(4,1,2,3) t, of 0] show ?thesis
    unfolding ins outs days two by (rule ex_forward) (simp add: int64_of_def int32_of_def quot_def)
qed

end
