(* ===== verification/TxIndex.thy ===== *)
theory TxIndex
  imports Transactions "HOL-Library.Multiset"
begin

text \<open>
  The transaction index: \<open>txindex/filter.go\<close>, \<open>read.go\<close> and \<open>save.go\<close> (queries, indexing points,
  saving), \<open>txindex.go\<close> (indexing the wallet's blocks) and \<open>GetTransactions\<close> of
  \<open>transactions.go\<close>, which merges the pages of several wallets.  The storm database is third-party
  and a parameter.
\<close>

section \<open>Filters (\<open>txindex/filter.go\<close>)\<close>

definition TxFilterAll :: int where "TxFilterAll = 0"
definition TxFilterSent :: int where "TxFilterSent = 1"
definition TxFilterReceived :: int where "TxFilterReceived = 2"
definition TxFilterTransferred :: int where "TxFilterTransferred = 3"
definition TxFilterStaking :: int where "TxFilterStaking = 4"
definition TxFilterCoinBase :: int where "TxFilterCoinBase = 5"
definition TxFilterRegular :: int where "TxFilterRegular = 6"

lemmas TxFilter_defs = TxFilterAll_def TxFilterSent_def TxFilterReceived_def TxFilterTransferred_def
  TxFilterStaking_def TxFilterCoinBase_def TxFilterRegular_def

definition TxMatchesFilter :: "string \<Rightarrow> int \<Rightarrow> int \<Rightarrow> bool" where
  "TxMatchesFilter txType txDirection txFilter =
     (if txFilter = TxFilterSent then txType = TxTypeRegular \<and> txDirection = TxDirectionSent
      else if txFilter = TxFilterReceived then txType = TxTypeRegular \<and> txDirection = TxDirectionReceived
      else if txFilter = TxFilterTransferred then txType = TxTypeRegular \<and> txDirection = TxDirectionTransferred
      else if txFilter = TxFilterStaking then txType \<noteq> TxTypeRegular \<and> txType \<noteq> TxTypeCoinBase
      else if txFilter = TxFilterCoinBase then txType = TxTypeCoinBase
      else if txFilter = TxFilterRegular then txType = TxTypeRegular
      else if txFilter = TxFilterAll then True
      else False)"

text \<open>Storm's queries: the matchers of \<open>q\<close>, and the clauses of a query.\<close>

datatype field_value = VStr string | VInt int
datatype matcher = QEq string field_value | QNot "matcher list" | QTrue

record query =
  Select :: "matcher list"
  Skip :: int
  Limit :: "int option"
  OrderBy :: "string option"
  Reverse :: bool

definition select :: "matcher list \<Rightarrow> query" where
  "select ms = \<lparr>Select = ms, Skip = 0, Limit = None, OrderBy = None, Reverse = False\<rparr>"

definition prepareTxQuery :: "int \<Rightarrow> query" where
  "prepareTxQuery txFilter =
     (if txFilter = TxFilterSent
      then select [QEq ''Type'' (VStr TxTypeRegular), QEq ''Direction'' (VInt TxDirectionSent)]
      else if txFilter = TxFilterReceived
      then select [QEq ''Type'' (VStr TxTypeRegular), QEq ''Direction'' (VInt TxDirectionReceived)]
      else if txFilter = TxFilterTransferred
      then select [QEq ''Type'' (VStr TxTypeRegular), QEq ''Direction'' (VInt TxDirectionTransferred)]
      else if txFilter = TxFilterStaking
      then select [QNot [QEq ''Type'' (VStr TxTypeRegular), QEq ''Type'' (VStr TxTypeCoinBase)]]
      else if txFilter = TxFilterCoinBase then select [QEq ''Type'' (VStr TxTypeCoinBase)]
      else if txFilter = TxFilterRegular then select [QEq ''Type'' (VStr TxTypeRegular)]
      else select [QTrue])"

section \<open>The database\<close>

datatype storm_err = ErrNotFound | StormErr string

record 's storm =
  Find :: "'s \<Rightarrow> query \<Rightarrow> storm_err + Transaction list"
  st_Count :: "'s \<Rightarrow> query \<Rightarrow> storm_err + int"
  One :: "'s \<Rightarrow> string \<Rightarrow> string \<Rightarrow> storm_err + Transaction"
  DeleteStruct :: "'s \<Rightarrow> Transaction \<Rightarrow> storm_err + 's"
  Save :: "'s \<Rightarrow> Transaction \<Rightarrow> storm_err + 's"
  Drop :: "'s \<Rightarrow> storm_err + 's"
  st_Get :: "'s \<Rightarrow> string \<Rightarrow> string \<Rightarrow> storm_err + int"
  st_Set :: "'s \<Rightarrow> string \<Rightarrow> string \<Rightarrow> int \<Rightarrow> storm_err + 's"

definition TxBucketName :: string where "TxBucketName = ''TxIndexInfo''"
definition KeyEndBlock :: string where "KeyEndBlock = ''EndBlock''"
definition MaxReOrgBlocks :: int where "MaxReOrgBlocks = 6"

fun storm_error :: "storm_err \<Rightarrow> err" where
  "storm_error ErrNotFound = New ''not found''"
| "storm_error (StormErr m) = New m"

section \<open>Reading (\<open>txindex/read.go\<close>)\<close>

definition ReadIndexingStartBlock :: "'s storm \<Rightarrow> 's \<Rightarrow> int result" where
  "ReadIndexingStartBlock S st =
     (case st_Get S st TxBucketName KeyEndBlock of
        Inl (StormErr m) \<Rightarrow> Inl (New m)
      | r \<Rightarrow>
          let startBlockHeight = int32_of ((case r of Inl e \<Rightarrow> 0 | Inr h \<Rightarrow> h) - MaxReOrgBlocks)
          in Inr (if startBlockHeight < 0 then 0 else startBlockHeight))"

definition read_query :: "int \<Rightarrow> int \<Rightarrow> int \<Rightarrow> bool \<Rightarrow> query" where
  "read_query off lim txFilter newestFirst =
     (let q0 = prepareTxQuery txFilter;
          q1 = (if off > 0 then q0\<lparr>Skip := off\<rparr> else q0);
          q2 = (if lim > 0 then q1\<lparr>Limit := Some lim\<rparr> else q1)
      in if newestFirst then q2\<lparr>OrderBy := Some ''Timestamp'', Reverse := True\<rparr>
         else q2\<lparr>OrderBy := Some ''Timestamp''\<rparr>)"

definition Read :: "'s storm \<Rightarrow> 's \<Rightarrow> int \<Rightarrow> int \<Rightarrow> int \<Rightarrow> bool \<Rightarrow> Transaction list result" where
  "Read S st off lim txFilter newestFirst =
     (case Find S st (read_query off lim txFilter newestFirst) of
        Inl ErrNotFound \<Rightarrow> Inr []
      | Inl (StormErr m) \<Rightarrow> Inl (New m)
      | Inr txs \<Rightarrow> Inr txs)"

definition Count :: "'s storm \<Rightarrow> 's \<Rightarrow> int \<Rightarrow> int \<times> err option" where
  "Count S st txFilter =
     (case st_Count S st (prepareTxQuery txFilter) of
        Inl e \<Rightarrow> (-1, Some (storm_error e))
      | Inr n \<Rightarrow> (n, None))"

definition FindOne :: "'s storm \<Rightarrow> 's \<Rightarrow> string \<Rightarrow> string \<Rightarrow> storm_err + Transaction" where
  "FindOne S st fieldName v = One S st fieldName v"

section \<open>Saving (\<open>txindex/save.go\<close>)\<close>

text \<open>The timestamp of \<open>emptyTxPointer\<close> after the lookup: 0 when nothing was found.\<close>

definition SaveOrUpdate :: "'s storm \<Rightarrow> 's \<Rightarrow> Transaction \<Rightarrow> 's \<times> (bool \<times> err option)" where
  "SaveOrUpdate S st tx =
     (case One S st ''Hash'' (t_Hash tx) of
        Inl (StormErr m) \<Rightarrow> (st, (False, Some (New (''error checking if tx was already indexed: '' @ m))))
      | r \<Rightarrow>
          let overwritten = (case r of Inl e \<Rightarrow> False | Inr old \<Rightarrow> t_Timestamp old > 0);
              st1 = (case r of
                 Inl e \<Rightarrow> st
               | Inr old \<Rightarrow> if overwritten
                   then (case DeleteStruct S st old of Inl e \<Rightarrow> st | Inr st' \<Rightarrow> st') else st)
          in (case Save S st1 tx of
                Inl e \<Rightarrow> (st1, (overwritten, Some (storm_error e)))
              | Inr st2 \<Rightarrow> (st2, (overwritten, None))))"

definition SaveLastIndexPoint :: "'s storm \<Rightarrow> 's \<Rightarrow> int \<Rightarrow> 's \<times> err option" where
  "SaveLastIndexPoint S st endBlockHeight =
     (case st_Set S st TxBucketName KeyEndBlock endBlockHeight of
        Inl e \<Rightarrow> (st, Some (New ''error setting block height for last indexed tx: ''))
      | Inr st' \<Rightarrow> (st', None))"

definition ClearSavedTransactions :: "'s storm \<Rightarrow> 's \<Rightarrow> 's \<times> err option" where
  "ClearSavedTransactions S st =
     (case Drop S st of Inl e \<Rightarrow> (st, Some (storm_error e)) | Inr st' \<Rightarrow> SaveLastIndexPoint S st' 0)"

section \<open>Indexing (\<open>txindex.go\<close>)\<close>

text \<open>A block of the wallet: its hash and height (no header for the unmined transactions), and its transactions.\<close>

record Block =
  bl_Header :: "(hash \<times> nat) option"
  bl_Transactions :: "TransactionSummary list"

text \<open>The wallet that is indexed: the libraries its decoding uses, the recursion bound and its id.\<close>

record wallet_ctx =
  wc_decode :: decode_lib
  wc_wallet :: wallet_lib
  wc_fuel :: nat
  wc_ID :: int

definition decode_in :: "wallet_ctx \<Rightarrow> TransactionSummary \<Rightarrow> hash option \<Rightarrow> Transaction result option" where
  "decode_in C s bh = decodeTransactionWithTxSummary (wc_fuel C) (wc_decode C) (wc_wallet C) (wc_ID C) s bh"

fun index_txs :: "'s storm \<Rightarrow> wallet_ctx \<Rightarrow> hash option \<Rightarrow> TransactionSummary list \<Rightarrow> 's \<Rightarrow> ('s \<times> err option) option" where
  "index_txs S C bh [] st = Some (st, None)"
| "index_txs S C bh (s # ss) st =
     (case decode_in C s bh of
        None \<Rightarrow> None
      | Some (Inl e) \<Rightarrow> Some (st, Some e)
      | Some (Inr tx) \<Rightarrow>
          (case SaveOrUpdate S st tx of
             (st', (_, Some e)) \<Rightarrow> Some (st', Some e)
           | (st', (_, None)) \<Rightarrow> index_txs S C bh ss st'))"

text \<open>\<open>rangeFn\<close>; \<open>cancelled\<close> is the context's error if it is done when the block is finished.\<close>

definition rangeFn :: "'s storm \<Rightarrow> wallet_ctx \<Rightarrow> err option \<Rightarrow> Block \<Rightarrow> 's \<Rightarrow> ('s \<times> bool \<times> err option) option" where
  "rangeFn S C cancelled block st =
     (case index_txs S C (map_option fst (bl_Header block)) (bl_Transactions block) st of
        None \<Rightarrow> None
      | Some (st1, Some e) \<Rightarrow> Some (st1, False, Some e)
      | Some (st1, None) \<Rightarrow>
          (case (case bl_Header block of
                   None \<Rightarrow> (st1, None)
                 | Some (h, height) \<Rightarrow> SaveLastIndexPoint S st1 (int32_of (int height))) of
             (st2, Some e) \<Rightarrow> Some (st2, False, Some e)
           | (st2, None) \<Rightarrow>
               (case cancelled of
                  Some e \<Rightarrow> Some (st2, True, Some e)
                | None \<Rightarrow> Some (st2, False, None))))"

text \<open>The blocks the wallet passes to \<open>rangeFn\<close>, in order, until it stops or fails.\<close>

fun index_blocks :: "'s storm \<Rightarrow> wallet_ctx \<Rightarrow> (nat \<Rightarrow> err option) \<Rightarrow> nat \<Rightarrow> Block list \<Rightarrow> 's \<Rightarrow> ('s \<times> err option) option" where
  "index_blocks S C cancelled i [] st = Some (st, None)"
| "index_blocks S C cancelled i (b # bs) st =
     (case rangeFn S C (cancelled i) b st of
        None \<Rightarrow> None
      | Some (st', True, e) \<Rightarrow> Some (st', e)
      | Some (st', False, Some e) \<Rightarrow> Some (st', Some e)
      | Some (st', False, None) \<Rightarrow> index_blocks S C cancelled (Suc i) bs st')"

definition IndexTransactions ::
  "'s storm \<Rightarrow> wallet_ctx \<Rightarrow> (nat \<Rightarrow> err option) \<Rightarrow> (int \<Rightarrow> int \<Rightarrow> Block list result) \<Rightarrow> int \<Rightarrow> 's \<Rightarrow> ('s \<times> err option) option" where
  "IndexTransactions S C cancelled blocks bestBlock st =
     (case ReadIndexingStartBlock S st of
        Inl e \<Rightarrow> Some (st, Some e)
      | Inr beginHeight \<Rightarrow>
          (case blocks beginHeight bestBlock of
             Inl e \<Rightarrow> Some (st, Some e)
           | Inr bs \<Rightarrow> index_blocks S C cancelled 0 bs st))"

definition reindexTransactions ::
  "'s storm \<Rightarrow> wallet_ctx \<Rightarrow> (nat \<Rightarrow> err option) \<Rightarrow> (int \<Rightarrow> int \<Rightarrow> Block list result) \<Rightarrow> int \<Rightarrow> 's \<Rightarrow> ('s \<times> err option) option" where
  "reindexTransactions S C cancelled blocks bestBlock st =
     (case ClearSavedTransactions S st of
        (st', Some e) \<Rightarrow> Some (st', Some e)
      | (st', None) \<Rightarrow> IndexTransactions S C cancelled blocks bestBlock st')"

section \<open>Queries of the wallets (\<open>transactions.go\<close>)\<close>

definition GetTransactionsRaw :: "'s storm \<Rightarrow> 's \<Rightarrow> int \<Rightarrow> int \<Rightarrow> int \<Rightarrow> bool \<Rightarrow> Transaction list result" where
  "GetTransactionsRaw S st off lim txFilter newestFirst = Read S st off lim txFilter newestFirst"

fun collect_pages :: "'s storm \<Rightarrow> 's list \<Rightarrow> int \<Rightarrow> int \<Rightarrow> int \<Rightarrow> bool \<Rightarrow> Transaction list option" where
  "collect_pages S [] off lim txFilter newestFirst = Some []"
| "collect_pages S (st # sts) off lim txFilter newestFirst =
     (case GetTransactionsRaw S st off lim txFilter newestFirst of
        Inl e \<Rightarrow> None
      | Inr txs \<Rightarrow> map_option ((@) txs) (collect_pages S sts off lim txFilter newestFirst))"

text \<open>
  \<open>MultiWallet.GetTransactions\<close>, up to the JSON encoding; \<open>None\<close> is the empty string that is
  returned, with a nil error, when a wallet cannot be read.  \<open>sorter\<close> is \<open>sort.Slice\<close> with the
  timestamp comparison (descending when the newest come first), which leaves the order of equal
  timestamps open; the wallets come in the iteration order of the map.
\<close>

definition GetTransactions ::
  "'s storm \<Rightarrow> (bool \<Rightarrow> Transaction list \<Rightarrow> Transaction list) \<Rightarrow> 's list \<Rightarrow> int \<Rightarrow> int \<Rightarrow> int \<Rightarrow> bool \<Rightarrow> Transaction list option" where
  "GetTransactions S sorter wallets off lim txFilter newestFirst =
     map_option (\<lambda>transactions.
       let sorted' = sorter newestFirst transactions
       in if int (length sorted') > lim \<and> lim > 0 then take (nat lim) sorted' else sorted')
     (collect_pages S wallets off lim txFilter newestFirst)"

definition CountTransactions :: "'s storm \<Rightarrow> 's \<Rightarrow> int \<Rightarrow> int \<times> err option" where
  "CountTransactions S st txFilter = Count S st txFilter"

definition TicketHasVotedOrRevoked :: "'s storm \<Rightarrow> 's \<Rightarrow> string \<Rightarrow> bool result" where
  "TicketHasVotedOrRevoked S st ticketHash =
     (case FindOne S st ''TicketSpentHash'' ticketHash of
        Inl ErrNotFound \<Rightarrow> Inr False
      | Inl (StormErr m) \<Rightarrow> Inl (New m)
      | Inr tx \<Rightarrow> Inr True)"

section \<open>The first elements of a merge\<close>

lemma sort_mset_eq: "mset xs = mset ys \<Longrightarrow> sort xs = sort (ys :: 'a :: linorder list)"
  by (rule properties_for_sort) simp_all

lemma sorted_keys: "mset ys = mset xs \<Longrightarrow> sorted (map f ys) \<Longrightarrow> map f ys = sort (map f xs)"
  by (rule properties_for_sort [symmetric]) (metis mset_map, assumption)

lemma take_le_replicate:
  fixes r :: "'a :: linorder"
  assumes "sorted ys" and "\<forall>y \<in> set ys. r \<le> y" and "k \<le> length (filter (\<lambda>y. y \<le> r) ys)"
  shows "take k ys = replicate k r"
  using assms
proof (induction ys arbitrary: k)
  case (Cons y ys)
  show ?case
  proof (cases "y \<le> r")
    case True
    with Cons show ?thesis by (cases k) auto
  next
    case False
    then have "filter (\<lambda>y. y \<le> r) (y # ys) = []" using Cons.prems(1) by (auto simp: filter_empty_conv)
    with Cons.prems(3) show ?thesis by simp
  qed
qed simp

lemma take_insort:
  fixes r :: "'a :: linorder"
  assumes "sorted zs" and "k \<le> length (filter (\<lambda>z. z \<le> r) zs)"
  shows "take k (insort r zs) = take k zs"
  using assms
proof (induction zs arbitrary: k)
  case (Cons z zs)
  show ?case
  proof (cases "r \<le> z")
    case True
    then have all: "\<forall>y \<in> set (z # zs). r \<le> y" using Cons.prems(1) by auto
    have "take j (z # zs) = replicate j r" if "j \<le> k" for j
      using take_le_replicate [OF Cons.prems(1) all] Cons.prems(2) that by simp
    from this [of k] this [of "k - 1"] True show ?thesis by (cases k) simp_all
  next
    case False
    then have "z \<le> r" by simp
    with False Cons show ?thesis by (cases k) auto
  qed
qed simp

lemma take_sort_drop_large:
  fixes A R ys :: "'a :: linorder list"
  assumes "\<forall>r \<in> set R. \<forall>a \<in> set A. a \<le> r" and "R \<noteq> [] \<longrightarrow> k \<le> length A"
  shows "take k (sort (A @ R @ ys)) = take k (sort (A @ ys))"
  using assms
proof (induction R)
  case (Cons r R)
  have "sort (A @ (r # R) @ ys) = sort (r # A @ R @ ys)" by (rule sort_mset_eq) simp
  also have "\<dots> = insort r (sort (A @ R @ ys))" by simp
  finally have eq: "sort (A @ (r # R) @ ys) = insort r (sort (A @ R @ ys))" .
  have "size (filter_mset (\<lambda>z. z \<le> r) (mset (A @ R @ ys))) \<ge> size (filter_mset (\<lambda>z. z \<le> r) (mset A))" by simp
  moreover have "filter_mset (\<lambda>z. z \<le> r) (mset A) = mset A"
    using Cons.prems(1) by (simp add: filter_mset_eq_conv)
  ultimately have "k \<le> size (filter_mset (\<lambda>z. z \<le> r) (mset (sort (A @ R @ ys))))"
    using Cons.prems(2) by simp
  then have "k \<le> length (filter (\<lambda>z. z \<le> r) (sort (A @ R @ ys)))"
    by (metis mset_filter size_mset)
  from take_insort [OF _ this] Cons eq show ?case by simp
qed simp

text \<open>Taking the \<open>k\<close> smallest of one part first does not change the \<open>k\<close> smallest of the whole.\<close>

lemma take_sort_take:
  fixes xs ys :: "'a :: linorder list"
  shows "take k (sort (take k (sort xs) @ ys)) = take k (sort (xs @ ys))"
proof -
  let ?A = "take k (sort xs)" and ?R = "drop k (sort xs)"
  have "sorted (?A @ ?R)" by simp
  then have "\<forall>r \<in> set ?R. \<forall>a \<in> set ?A. a \<le> r" unfolding sorted_append by blast
  moreover have "?R \<noteq> [] \<longrightarrow> k \<le> length ?A" by auto
  ultimately have "take k (sort (?A @ ?R @ ys)) = take k (sort (?A @ ys))" by (rule take_sort_drop_large)
  moreover have "mset (?A @ ?R @ ys) = mset (xs @ ys)"
    by (metis append.assoc append_take_drop_id mset_append mset_sort)
  then have "sort (?A @ ?R @ ys) = sort (xs @ ys)" by (rule sort_mset_eq)
  ultimately show ?thesis by simp
qed

definition keep :: "int \<Rightarrow> 'a list \<Rightarrow> 'a list" where
  "keep lim xs = (if lim > 0 then take (nat lim) xs else xs)"

lemma keep_map: "map f (keep lim xs) = keep lim (map f xs)"
  by (simp add: keep_def take_map)

lemma keep_sort_pages:
  fixes xss :: "'a :: linorder list list"
  shows "keep lim (sort (ys @ concat (map (\<lambda>xs. keep lim (sort xs)) xss))) = keep lim (sort (ys @ concat xss))"
proof (induction xss arbitrary: ys)
  case (Cons xs xss)
  let ?f = "\<lambda>xs. keep lim (sort xs)"
  have "sort (ys @ ?f xs @ concat (map ?f xss)) = sort ((?f xs @ ys) @ concat (map ?f xss))"
    by (rule sort_mset_eq) simp
  then have "keep lim (sort (ys @ concat (map ?f (xs # xss)))) = keep lim (sort ((?f xs @ ys) @ concat xss))"
    using Cons.IH [of "?f xs @ ys"] by simp
  also have "\<dots> = keep lim (sort (xs @ ys @ concat xss))"
    using take_sort_take [of "nat lim" xs "ys @ concat xss"] by (auto simp: keep_def intro: sort_mset_eq)
  also have "sort (xs @ ys @ concat xss) = sort (ys @ concat (xs # xss))" by (rule sort_mset_eq) simp
  finally show ?case .
qed simp

section \<open>Laws of the database\<close>

text \<open>The key by which a page is ordered: the timestamp, negated when the newest come first.\<close>

definition order_key :: "bool \<Rightarrow> Transaction \<Rightarrow> int" where
  "order_key newestFirst t = (if newestFirst then - t_Timestamp t else t_Timestamp t)"

text \<open>The index as a map from hashes to transactions.\<close>

definition by_hash :: "Transaction list \<Rightarrow> string \<rightharpoonup> Transaction" where
  "by_hash ts = map_of (map (\<lambda>t. (t_Hash t, t)) ts)"

text \<open>The transactions of a list of blocks, decoded, in order.\<close>

definition decoded :: "wallet_ctx \<Rightarrow> Block list \<Rightarrow> Transaction list" where
  "decoded C bs = concat (map (\<lambda>b. map (\<lambda>s. projr (the (decode_in C s (map_option fst (bl_Header b))))) (bl_Transactions b)) bs)"

definition put_all :: "Transaction list \<Rightarrow> (string \<rightharpoonup> Transaction) \<Rightarrow> string \<rightharpoonup> Transaction" where
  "put_all ts m = fold (\<lambda>t m. m(t_Hash t \<mapsto> t)) ts m"

text \<open>The height of the last block with a header.\<close>

definition end_point :: "Block list \<Rightarrow> int option" where
  "end_point bs = (case filter (\<lambda>b. bl_Header b \<noteq> None) bs of
     [] \<Rightarrow> None | hs \<Rightarrow> Some (int32_of (int (snd (the (bl_Header (last hs)))))))"

text \<open>
  The documented behaviour of storm: matchers (\<open>Not\<close> holds when none of its matchers does),
  queries (an ordered query returns the matching records sorted, then skipped and limited, and
  reports an empty result as \<open>ErrNotFound\<close>), and the record with a given id.
\<close>

locale storm_db =
  fixes S :: "'s storm" and records :: "'s \<Rightarrow> Transaction list" and Match :: "matcher \<Rightarrow> Transaction \<Rightarrow> bool"
  assumes match_type: "Match (QEq ''Type'' (VStr v)) t \<longleftrightarrow> t_Type t = v"
    and match_direction: "Match (QEq ''Direction'' (VInt i)) t \<longleftrightarrow> t_Direction t = i"
    and match_not: "Match (QNot ms) t \<longleftrightarrow> (\<forall>m \<in> set ms. \<not> Match m t)"
    and match_true: "Match QTrue t"
    and find_timestamp: "OrderBy qu = Some ''Timestamp'' \<Longrightarrow> Find S st qu = Inr ts \<or> Find S st qu = Inl ErrNotFound \<and> ts = [] \<Longrightarrow>
      \<exists>ys. mset ys = mset (filter (\<lambda>t. \<forall>m \<in> set (Select qu). Match m t) (records st)) \<and>
        sorted (map (order_key (Reverse qu)) ys) \<and>
        ts = (case Limit qu of None \<Rightarrow> drop (nat (Skip qu)) ys | Some l \<Rightarrow> take (nat l) (drop (nat (Skip qu)) ys))"
    and count_records: "st_Count S st qu = Inr n \<Longrightarrow>
      n = int (length (filter (\<lambda>t. \<forall>m \<in> set (Select qu). Match m t) (records st)))"
    and one_found: "One S st ''Hash'' h = Inr t \<Longrightarrow> t \<in> set (records st) \<and> t_Hash t = h"
    and one_missing: "One S st ''Hash'' h = Inl ErrNotFound \<Longrightarrow> h \<notin> t_Hash ` set (records st)"
    and unique_ids: "distinct (map t_Hash (records st))"
    and save_record: "Save S st t = Inr st' \<Longrightarrow> set (records st') = insert t {u \<in> set (records st). t_Hash u \<noteq> t_Hash t}"
    and delete_record: "DeleteStruct S st t = Inr st' \<Longrightarrow> set (records st') = {u \<in> set (records st). t_Hash u \<noteq> t_Hash t}"
    and drop_records: "Drop S st = Inr st' \<Longrightarrow> records st' = []"
    and set_records: "st_Set S st b k x = Inr st' \<Longrightarrow> records st' = records st"
    and get_set: "st_Set S st b k x = Inr st' \<Longrightarrow> st_Get S st' b k = Inr x"
    and get_save: "Save S st t = Inr st' \<Longrightarrow> st_Get S st' b k = st_Get S st b k"
    and get_deleted: "DeleteStruct S st t = Inr st' \<Longrightarrow> st_Get S st' b k = st_Get S st b k"
begin

abbreviation index_map :: "'s \<Rightarrow> string \<rightharpoonup> Transaction" where
  "index_map st \<equiv> by_hash (records st)"

lemma query_matches:
  assumes "0 \<le> txFilter" and "txFilter \<le> 6"
  shows "(\<forall>m \<in> set (Select (prepareTxQuery txFilter)). Match m t) \<longleftrightarrow> TxMatchesFilter (t_Type t) (t_Direction t) txFilter"
proof -
  from assms have "txFilter \<in> {0, 1, 2, 3, 4, 5, 6}" by auto
  then show ?thesis
    by (auto simp: prepareTxQuery_def TxMatchesFilter_def TxFilter_defs select_def match_type match_direction match_not match_true)
qed

lemma unknown_filter_query: "txFilter \<notin> {1..6} \<Longrightarrow> \<forall>m \<in> set (Select (prepareTxQuery txFilter)). Match m t"
  by (auto simp: prepareTxQuery_def TxFilter_defs select_def match_true)

lemma by_hash_Some: "index_map st h = Some t \<longleftrightarrow> t \<in> set (records st) \<and> t_Hash t = h"
  using unique_ids [of st] by (force simp: by_hash_def map_of_eq_Some_iff comp_def)

lemma by_hash_update:
  assumes "set (records st') = insert t {u \<in> set (records st). t_Hash u \<noteq> t_Hash t}"
  shows "index_map st' = (index_map st)(t_Hash t \<mapsto> t)"
proof
  fix h
  show "index_map st' h = ((index_map st)(t_Hash t \<mapsto> t)) h"
  proof (cases "h = t_Hash t")
    case True
    then show ?thesis using by_hash_Some [of st' h t] assms by simp
  next
    case False
    have "index_map st' h = Some u \<longleftrightarrow> index_map st h = Some u" for u
      using False assms by (auto simp: by_hash_Some)
    then have "index_map st' h = index_map st h" by (metis not_None_eq)
    with False show ?thesis by simp
  qed
qed

text \<open>\<open>SaveOrUpdate\<close> is an update of the map, whether or not the hash was indexed.\<close>

lemma SaveOrUpdate_updates:
  assumes "SaveOrUpdate S st tx = (st', ow, None)"
  shows "index_map st' = (index_map st)(t_Hash tx \<mapsto> tx) \<and> st_Get S st' b k = st_Get S st b k"
proof -
  have saved: "index_map st2 = (index_map st1)(t_Hash tx \<mapsto> tx) \<and> st_Get S st2 b k = st_Get S st1 b k"
    if "Save S st1 tx = Inr st2" for st1 st2
    using by_hash_update [OF save_record [OF that]] get_save [OF that] by simp
  show ?thesis
  proof (cases "One S st ''Hash'' (t_Hash tx)")
    case (Inl e)
    with assms saved [of st st'] show ?thesis by (cases e) (auto simp: SaveOrUpdate_def Let_def split: sum.splits)
  next
    case (Inr old)
    let ?st1 = "if t_Timestamp old > 0 then (case DeleteStruct S st old of Inl e \<Rightarrow> st | Inr st' \<Rightarrow> st') else st"
    have "Save S ?st1 tx = Inr st'"
      using assms Inr by (auto simp: SaveOrUpdate_def Let_def split: sum.splits if_splits)
    note s = saved [OF this]
    have "?st1 = st \<or> DeleteStruct S st old = Inr ?st1" by (auto split: sum.splits)
    then show ?thesis
    proof
      assume "?st1 = st"
      with s show ?thesis by simp
    next
      assume d: "DeleteStruct S st old = Inr ?st1"
      have h: "t_Hash old = t_Hash tx" using one_found [OF Inr] by simp
      have "set (records st') = insert tx {u \<in> set (records st). t_Hash u \<noteq> t_Hash tx}"
        using save_record [OF \<open>Save S ?st1 tx = Inr st'\<close>] delete_record [OF d] h by auto
      from by_hash_update [OF this] s get_deleted [OF d] show ?thesis by simp
    qed
  qed
qed

lemma put_all_simps:
  "put_all [] m = m"
  "put_all (t # ts) m = put_all ts (m(t_Hash t \<mapsto> t))"
  "put_all (xs @ ys) m = put_all ys (put_all xs m)"
  by (simp_all add: put_all_def)

lemma index_txs_updates:
  assumes "index_txs S C bh ss st = Some (st', None)"
  shows "index_map st' = put_all (map (\<lambda>s. projr (the (decode_in C s bh))) ss) (index_map st) \<and>
    st_Get S st' b k = st_Get S st b k"
  using assms
proof (induction ss arbitrary: st)
  case (Cons s ss)
  from Cons.prems obtain tx st1 ow where tx: "decode_in C s bh = Some (Inr tx)" "SaveOrUpdate S st tx = (st1, ow, None)"
    "index_txs S C bh ss st1 = Some (st', None)"
    by (auto split: option.splits sum.splits prod.splits)
  have "index_map st1 = (index_map st)(t_Hash tx \<mapsto> tx)" and "st_Get S st1 b k = st_Get S st b k"
    using SaveOrUpdate_updates [OF tx(2)] by blast+
  with Cons.IH [OF tx(3)] tx(1) show ?case by (simp only: put_all_simps list.map option.sel sum.sel)
qed (simp add: put_all_simps)

text \<open>A finished run updates the index by every decoded transaction and ends at the last header's height.\<close>

lemma end_point_Cons:
  "end_point (b # bs) = (case end_point bs of Some x \<Rightarrow> Some x | None \<Rightarrow> map_option (\<lambda>h. int32_of (int (snd h))) (bl_Header b))"
  by (cases "bl_Header b") (auto simp: end_point_def split: list.splits)

lemma rangeFn_stop: "rangeFn S C c block st = Some (st', True, e) \<Longrightarrow> e \<noteq> None"
  by (auto simp: rangeFn_def split: option.splits prod.splits)

lemma rangeFn_updates:
  assumes "rangeFn S C c block st = Some (st', False, None)"
  shows "index_map st' = put_all (decoded C [block]) (index_map st) \<and>
    (case bl_Header block of None \<Rightarrow> st_Get S st' TxBucketName KeyEndBlock = st_Get S st TxBucketName KeyEndBlock
     | Some h \<Rightarrow> st_Get S st' TxBucketName KeyEndBlock = Inr (int32_of (int (snd h))))"
proof -
  from assms obtain st1 where i: "index_txs S C (map_option fst (bl_Header block)) (bl_Transactions block) st = Some (st1, None)"
    and s: "(case bl_Header block of None \<Rightarrow> st' = st1
       | Some (h, height) \<Rightarrow> st_Set S st1 TxBucketName KeyEndBlock (int32_of (int height)) = Inr st')"
    by (auto simp: rangeFn_def SaveLastIndexPoint_def split: option.splits sum.splits prod.splits)
  from index_txs_updates [OF i, of TxBucketName KeyEndBlock] s show ?thesis
    by (auto simp: decoded_def set_records get_set split: option.splits prod.splits)
qed

lemma index_blocks_updates:
  assumes "index_blocks S C cancelled i bs st = Some (st', None)"
  shows "index_map st' = put_all (decoded C bs) (index_map st) \<and>
    st_Get S st' TxBucketName KeyEndBlock = (case end_point bs of None \<Rightarrow> st_Get S st TxBucketName KeyEndBlock | Some x \<Rightarrow> Inr x)"
  using assms
proof (induction bs arbitrary: i st)
  case (Cons blk bs)
  from Cons.prems obtain st1 where r: "rangeFn S C (cancelled i) blk st = Some (st1, False, None)"
    and rest: "index_blocks S C cancelled (Suc i) bs st1 = Some (st', None)"
    using rangeFn_stop by (fastforce split: option.splits prod.splits bool.splits)
  have "decoded C (blk # bs) = decoded C [blk] @ decoded C bs" by (simp add: decoded_def)
  with Cons.IH [OF rest] rangeFn_updates [OF r] show ?case
    by (auto simp: end_point_Cons put_all_simps split: option.splits)
qed (simp add: decoded_def put_all_simps end_point_def)

lemma Read_page:
  assumes "Read S st 0 lim txFilter nf = Inr ts" and "0 \<le> txFilter" and "txFilter \<le> 6"
  shows "map (order_key nf) ts = keep lim (sort (map (order_key nf)
    (filter (\<lambda>t. TxMatchesFilter (t_Type t) (t_Direction t) txFilter) (records st))))"
proof -
  let ?q = "read_query 0 lim txFilter nf"
  have q: "OrderBy ?q = Some ''Timestamp''" "Reverse ?q = nf" "Skip ?q = 0" "Limit ?q = (if lim > 0 then Some lim else None)"
    "Select ?q = Select (prepareTxQuery txFilter)"
    by (auto simp: read_query_def prepareTxQuery_def select_def Let_def)
  have "Find S st ?q = Inr ts \<or> Find S st ?q = Inl ErrNotFound \<and> ts = []"
    using assms(1) by (auto simp: Read_def split: sum.splits storm_err.splits)
  from find_timestamp [OF q(1) this] obtain ys where
    ys: "mset ys = mset (filter (\<lambda>t. TxMatchesFilter (t_Type t) (t_Direction t) txFilter) (records st))"
      "sorted (map (order_key nf) ys)" and ts: "ts = keep lim ys"
    unfolding q query_matches [OF assms(2,3)] by (auto simp: keep_def split: if_splits)
  have "map (order_key nf) ys = sort (map (order_key nf)
      (filter (\<lambda>t. TxMatchesFilter (t_Type t) (t_Direction t) txFilter) (records st)))"
    using ys by (rule sorted_keys)
  with ts show ?thesis by (simp add: keep_map)
qed

lemma collect_pages_keys:
  assumes "collect_pages S sts 0 lim txFilter nf = Some ts" and "0 \<le> txFilter" and "txFilter \<le> 6"
  shows "map (order_key nf) ts = concat (map (\<lambda>xs. keep lim (sort xs)) (map (\<lambda>st. map (order_key nf)
    (filter (\<lambda>t. TxMatchesFilter (t_Type t) (t_Direction t) txFilter) (records st))) sts))"
  using assms(1)
proof (induction sts arbitrary: ts)
  case (Cons st sts)
  from Cons.prems obtain t1 t2 where "Read S st 0 lim txFilter nf = Inr t1" "collect_pages S sts 0 lim txFilter nf = Some t2" "ts = t1 @ t2"
    by (auto simp: GetTransactionsRaw_def split: sum.splits)
  with Read_page [OF _ assms(2,3)] Cons.IH show ?case by simp
qed simp

end

text \<open>\<open>sort.Slice\<close>: a permutation that is sorted.\<close>

locale slice_sort =
  fixes sorter :: "bool \<Rightarrow> Transaction list \<Rightarrow> Transaction list"
  assumes sorter_perm: "mset (sorter nf ts) = mset ts"
    and sorter_sorted: "sorted (map (order_key nf) (sorter nf ts))"
begin

lemma sorter_keys: "map (order_key nf) (sorter nf ts) = sort (map (order_key nf) ts)"
  by (rule sorted_keys [OF sorter_perm sorter_sorted])

end

interpretation ref_sort: slice_sort "\<lambda>nf. sort_key (order_key nf)"
  by unfold_locales simp_all

section \<open>A reference database\<close>

fun first_by_hash :: "Transaction list \<Rightarrow> Transaction list" where
  "first_by_hash [] = []"
| "first_by_hash (t # ts) = t # filter (\<lambda>u. t_Hash u \<noteq> t_Hash t) (first_by_hash ts)"

lemma distinct_map_filter': "distinct (map f xs) \<Longrightarrow> distinct (map f (filter P xs))"
  by (induction xs) auto

lemma first_by_hash_distinct: "distinct (map t_Hash (first_by_hash ts))"
  by (induction ts) (auto intro: distinct_map_filter')

lemma first_by_hash_filter: "first_by_hash (filter (\<lambda>u. t_Hash u \<noteq> h) ts) = filter (\<lambda>u. t_Hash u \<noteq> h) (first_by_hash ts)"
  by (induction ts) (auto simp: filter_filter conj_commute intro: filter_cong)

type_synonym ref_state = "Transaction list \<times> ((string \<times> string) \<times> int) list"

definition ref_records :: "ref_state \<Rightarrow> Transaction list" where
  "ref_records st = first_by_hash (fst st)"

fun ref_match :: "matcher \<Rightarrow> Transaction \<Rightarrow> bool" where
  "ref_match (QEq f v) t = (case v of VStr x \<Rightarrow> f = ''Type'' \<and> t_Type t = x | VInt i \<Rightarrow> f = ''Direction'' \<and> t_Direction t = i)"
| "ref_match (QNot ms) t = (\<forall>m \<in> set ms. \<not> ref_match m t)"
| "ref_match QTrue t = True"

definition ref_find :: "ref_state \<Rightarrow> query \<Rightarrow> Transaction list" where
  "ref_find st qu =
     (let ys = sort_key (order_key (Reverse qu)) (filter (\<lambda>t. \<forall>m \<in> set (Select qu). ref_match m t) (ref_records st))
      in case Limit qu of None \<Rightarrow> drop (nat (Skip qu)) ys | Some l \<Rightarrow> take (nat l) (drop (nat (Skip qu)) ys))"

definition ref_storm :: "ref_state storm" where
  "ref_storm = \<lparr>Find = (\<lambda>st qu. if ref_find st qu = [] then Inl ErrNotFound else Inr (ref_find st qu)),
     st_Count = (\<lambda>st qu. Inr (int (length (filter (\<lambda>t. \<forall>m \<in> set (Select qu). ref_match m t) (ref_records st))))),
     One = (\<lambda>st f h. case find (\<lambda>t. t_Hash t = h) (ref_records st) of None \<Rightarrow> Inl ErrNotFound | Some t \<Rightarrow> Inr t),
     DeleteStruct = (\<lambda>st t. Inr (filter (\<lambda>u. t_Hash u \<noteq> t_Hash t) (fst st), snd st)),
     Save = (\<lambda>st t. Inr (t # fst st, snd st)), Drop = (\<lambda>st. Inr ([], snd st)),
     st_Get = (\<lambda>st b k. case map_of (snd st) (b, k) of None \<Rightarrow> Inl ErrNotFound | Some x \<Rightarrow> Inr x),
     st_Set = (\<lambda>st b k x. Inr (fst st, ((b, k), x) # snd st))\<rparr>"

interpretation ref_db: storm_db ref_storm ref_records ref_match
proof
  fix st qu ts assume "OrderBy qu = Some ''Timestamp''"
    "Find ref_storm st qu = Inr ts \<or> Find ref_storm st qu = Inl ErrNotFound \<and> ts = []"
  then have ts: "ts = ref_find st qu" by (auto simp: ref_storm_def split: if_splits)
  show "\<exists>ys. mset ys = mset (filter (\<lambda>t. \<forall>m \<in> set (Select qu). ref_match m t) (ref_records st)) \<and>
      sorted (map (order_key (Reverse qu)) ys) \<and>
      ts = (case Limit qu of None \<Rightarrow> drop (nat (Skip qu)) ys | Some l \<Rightarrow> take (nat l) (drop (nat (Skip qu)) ys))"
    by (rule exI [of _ "sort_key (order_key (Reverse qu)) (filter (\<lambda>t. \<forall>m \<in> set (Select qu). ref_match m t) (ref_records st))"])
      (simp add: ts ref_find_def Let_def)
next
  fix st h t assume "One ref_storm st ''Hash'' h = Inr t"
  then show "t \<in> set (ref_records st) \<and> t_Hash t = h"
    by (auto simp: ref_storm_def find_Some_iff split: option.splits)
next
  fix st h assume "One ref_storm st ''Hash'' h = Inl ErrNotFound"
  then show "h \<notin> t_Hash ` set (ref_records st)"
    by (auto simp: ref_storm_def find_None_iff split: option.splits)
qed (auto simp: ref_storm_def ref_records_def first_by_hash_distinct first_by_hash_filter)

lemma ref_Read: "Read ref_storm st off lim txFilter nf = Inr (ref_find st (read_query off lim txFilter nf))"
  by (simp add: Read_def ref_storm_def)

section \<open>Properties\<close>

text \<open>
  The query built for a filter and \<open>TxMatchesFilter\<close> select the same transactions for each of the
  seven filters, so a count is the number of matching transactions.  For any other number they
  differ: the query selects everything, while \<open>TxMatchesFilter\<close> matches nothing.
\<close>

theorem Count_agrees_with_TxMatchesFilter:
  assumes "storm_db S records Match" and "st_Count S st (prepareTxQuery txFilter) = Inr n"
  shows "Count S st txFilter =
    (int (length (filter (\<lambda>t. TxMatchesFilter (t_Type t) (t_Direction t) txFilter \<or> txFilter \<notin> {0..6}) (records st))), None) \<and>
    (txFilter \<notin> {0..6} \<longrightarrow> \<not> TxMatchesFilter ty dir txFilter)"
proof (cases "txFilter \<in> {0..6}")
  case True
  then show ?thesis
    using assms(2) storm_db.count_records [OF assms] storm_db.query_matches [OF assms(1)] by (simp add: Count_def)
next
  case False
  then have "txFilter \<notin> {1..6}" by auto
  then have "filter (\<lambda>t. \<forall>m \<in> set (Select (prepareTxQuery txFilter)). Match m t) (records st) = records st"
    using storm_db.unknown_filter_query [OF assms(1)] by (intro filter_True) blast
  with False show ?thesis
    using assms(2) storm_db.count_records [OF assms] by (auto simp: Count_def TxMatchesFilter_def TxFilter_defs)
qed

definition ex_indexed :: "string \<Rightarrow> int \<Rightarrow> Transaction" where
  "ex_indexed h ts = \<lparr>t_WalletID = 1, t_Hash = h, t_Type = TxTypeRegular, t_Hex = [], t_Timestamp = ts, t_BlockHeight = 1,
     t_Version = 1, t_LockTime = 0, t_Expiry = 0, t_Fee = 1, t_FeeRate = 1, t_Size = 1, t_Direction = TxDirectionSent,
     t_Amount = 1, t_Inputs = [], t_Outputs = [], t_VoteVersion = 0, t_LastBlockValid = False, t_VoteBits = [],
     t_VoteReward = 0, t_TicketSpentHash = [], t_DaysToVoteOrRevoke = 0\<rparr>"

theorem Count_agrees_with_TxMatchesFilter_witness:
  "Count ref_storm ([ex_indexed ''a'' 5], []) TxFilterReceived = (0, None) \<and>
   Count ref_storm ([ex_indexed ''a'' 5], []) 9 = (1, None) \<and> \<not> TxMatchesFilter TxTypeRegular TxDirectionSent 9"
  using Count_agrees_with_TxMatchesFilter [OF ref_db.storm_db_axioms, of "([ex_indexed ''a'' 5], [])" TxFilterReceived]
    Count_agrees_with_TxMatchesFilter [OF ref_db.storm_db_axioms, of "([ex_indexed ''a'' 5], [])" 9 _ TxTypeRegular TxDirectionSent]
  by (simp add: ref_storm_def ref_records_def ex_indexed_def TxMatchesFilter_def TxFilter_defs TxDirectionSent_def
      TxDirectionReceived_def)

text \<open>
  The first page over all wallets is right: with offset 0, the timestamps of the result are the
  first \<open>limit\<close> timestamps (all of them without a limit), in the requested order, of all
  transactions of all wallets that match the filter, although each wallet contributes only its
  own first page.
\<close>

theorem GetTransactions_first_page:
  assumes "storm_db S records Match" and "slice_sort sorter" and "0 \<le> txFilter" and "txFilter \<le> 6"
    and "GetTransactions S sorter wallets 0 lim txFilter newestFirst = Some ts"
  shows "map (order_key newestFirst) ts = keep lim (sort (map (order_key newestFirst)
    (filter (\<lambda>t. TxMatchesFilter (t_Type t) (t_Direction t) txFilter) (concat (map records wallets)))))"
proof -
  from assms(5) obtain all where all: "collect_pages S wallets 0 lim txFilter newestFirst = Some all"
    and ts: "ts = keep lim (sorter newestFirst all)"
    by (auto simp: GetTransactions_def keep_def Let_def)
  have "map (order_key newestFirst) ts = keep lim (sort (map (order_key newestFirst) all))"
    using ts slice_sort.sorter_keys [OF assms(2), of newestFirst all] by (simp add: keep_map)
  also have "\<dots> = keep lim (sort (concat (map (\<lambda>st. map (order_key newestFirst)
      (filter (\<lambda>t. TxMatchesFilter (t_Type t) (t_Direction t) txFilter) (records st))) wallets)))"
    unfolding storm_db.collect_pages_keys [OF assms(1) all assms(3,4)]
    using keep_sort_pages [of lim "[]"] by (simp only: append_Nil)
  finally show ?thesis by (simp add: map_concat filter_concat comp_def)
qed

theorem GetTransactions_first_page_witness:
  "\<exists>ts. GetTransactions ref_storm (\<lambda>nf. sort_key (order_key nf)) [([ex_indexed ''a'' 5, ex_indexed ''b'' 9], []), ([ex_indexed ''c'' 7], [])]
      0 2 TxFilterAll True = Some ts \<and> map t_Timestamp ts = [9, 7]"
proof -
  let ?g = "GetTransactions ref_storm (\<lambda>nf. sort_key (order_key nf)) [([ex_indexed ''a'' 5, ex_indexed ''b'' 9], []), ([ex_indexed ''c'' 7], [])]
      0 2 TxFilterAll True"
  obtain ts where ts: "?g = Some ts"
    by (simp add: GetTransactions_def GetTransactionsRaw_def ref_Read)
  from GetTransactions_first_page [OF ref_db.storm_db_axioms ref_sort.slice_sort_axioms _ _ ts]
  have "map (order_key True) ts = [-9, -7]"
    by (simp add: ref_records_def TxMatchesFilter_def TxFilter_defs order_key_def ex_indexed_def keep_def)
  then have "map (\<lambda>x. - x) (map (order_key True) ts) = [9, 7]" by simp
  then show ?thesis using ts by (simp add: order_key_def comp_def del: map_eq_Cons_conv)
qed

text \<open>
  C9.  An indexing run that ends without an error leaves in the index, for every transaction of the
  blocks it was given, the transaction as it was last decoded, keeps every other entry, never
  holds two entries for a hash, and records the height of the last block with a header.
\<close>

theorem IndexTransactions_updates_index:
  assumes "storm_db S records Match" and "ReadIndexingStartBlock S st = Inr start" and "blocks start best = Inr bs"
    and "IndexTransactions S C cancelled blocks best st = Some (st', None)"
  shows "by_hash (records st') = put_all (decoded C bs) (by_hash (records st)) \<and> distinct (map t_Hash (records st')) \<and>
    st_Get S st' TxBucketName KeyEndBlock =
      (case end_point bs of None \<Rightarrow> st_Get S st TxBucketName KeyEndBlock | Some x \<Rightarrow> Inr x)"
proof -
  have "index_blocks S C cancelled 0 bs st = Some (st', None)" using assms(2-4) by (simp add: IndexTransactions_def)
  from storm_db.index_blocks_updates [OF assms(1) this] storm_db.unique_ids [OF assms(1)] show ?thesis by blast
qed

theorem IndexTransactions_updates_index_witness:
  "\<exists>st' t. IndexTransactions ref_storm \<lparr>wc_decode = ex_decode_lib, wc_wallet = ex_wallet_lib, wc_fuel = 2, wc_ID = 1\<rparr> (\<lambda>i. None)
      (\<lambda>a b. Inr [\<lparr>bl_Header = Some ([7], 12), bl_Transactions = [ex_summary 1]\<rparr>]) 20 ([], []) = Some (st', None) \<and>
    by_hash (ref_records st') (t_Hash t) = Some t \<and> t_Timestamp t = 1000 \<and>
    st_Get ref_storm st' TxBucketName KeyEndBlock = Inr 12"
proof -
  let ?C = "\<lparr>wc_decode = ex_decode_lib, wc_wallet = ex_wallet_lib, wc_fuel = 2, wc_ID = 1\<rparr>"
  let ?bs = "[\<lparr>bl_Header = Some ([7], 12), bl_Transactions = [ex_summary 1]\<rparr>]"
  obtain t where d: "DecodeTransaction ex_decode_lib (summary_wallet_tx ex_wallet_lib 1 (ex_summary 1) (Some [7])) = Inr t"
    and t: "t_TicketSpentHash t = []" "t_Timestamp t = 1000"
    by (simp add: ex_decode_defs Let_def)
  have dec: "decode_in ?C (ex_summary 1) (Some [7]) = Some (Inr t)"
    using d t by (simp add: decode_in_def eval_nat_numeral Let_def)
  have start: "ReadIndexingStartBlock ref_storm ([], []) = Inr 0"
    by (simp add: ReadIndexingStartBlock_def ref_storm_def MaxReOrgBlocks_def int32_of_def)
  obtain st' where run: "IndexTransactions ref_storm ?C (\<lambda>i. None) (\<lambda>a b. Inr ?bs) 20 ([], []) = Some (st', None)"
    using start by (simp add: IndexTransactions_def rangeFn_def dec SaveOrUpdate_def SaveLastIndexPoint_def ref_storm_def
        ref_records_def)
  have "decoded ?C ?bs = [t]" "end_point ?bs = Some 12"
    by (simp_all add: decoded_def dec end_point_def int32_of_def)
  with IndexTransactions_updates_index [OF ref_db.storm_db_axioms start refl run] run t(2) show ?thesis
    by (intro exI [of _ st'] exI [of _ t]) (simp add: put_all_def)
qed

text \<open>
  Indexing resumes before the recorded end: for a recorded height \<open>h\<close> the next run starts at
  \<open>h - 6\<close>, never below 0, so the last six blocks are indexed again after a reorganisation; after
  \<open>ClearSavedTransactions\<close> it starts at 0 on an empty index.
\<close>

theorem indexing_start_after_save:
  assumes "storm_db S records Match" and "0 \<le> h" and "is_int32 h" and "SaveLastIndexPoint S st h = (st', None)"
  shows "ReadIndexingStartBlock S st' = Inr (max 0 (h - 6)) \<and> records st' = records st \<and>
    (\<forall>st0 st1. ClearSavedTransactions S st0 = (st1, None) \<longrightarrow>
       records st1 = [] \<and> ReadIndexingStartBlock S st1 = Inr 0)"
proof -
  have save: "ReadIndexingStartBlock S st2 = Inr (max 0 (h - 6)) \<and> records st2 = records st1"
    if "SaveLastIndexPoint S st1 h = (st2, None)" "0 \<le> h" "is_int32 h" for st1 st2 h
  proof -
    from that(1) have s: "st_Set S st1 TxBucketName KeyEndBlock h = Inr st2"
      by (auto simp: SaveLastIndexPoint_def split: sum.splits)
    have "is_int32 (h - 6)" using that(2,3) by (simp add: is_int32_def)
    then show ?thesis
      using storm_db.get_set [OF assms(1) s] storm_db.set_records [OF assms(1) s]
      by (simp add: ReadIndexingStartBlock_def MaxReOrgBlocks_def int32_of_id Let_def max_def)
  qed
  have "records st1 = [] \<and> ReadIndexingStartBlock S st1 = Inr 0" if c: "ClearSavedTransactions S st0 = (st1, None)" for st0 st1
  proof -
    from c obtain st2 where d: "Drop S st0 = Inr st2" and s: "SaveLastIndexPoint S st2 0 = (st1, None)"
      by (auto simp: ClearSavedTransactions_def split: sum.splits)
    have "is_int32 0" by (simp add: is_int32_def)
    from save [OF s _ this] storm_db.drop_records [OF assms(1) d] show ?thesis by (simp add: max_def)
  qed
  with save [OF assms(4,2,3)] show ?thesis by blast
qed

theorem indexing_start_after_save_witness:
  "ReadIndexingStartBlock ref_storm ([], [((TxBucketName, KeyEndBlock), 100)]) = Inr 94"
proof -
  have "SaveLastIndexPoint ref_storm ([], []) 100 = (([], [((TxBucketName, KeyEndBlock), 100)]), None)"
    by (simp add: SaveLastIndexPoint_def ref_storm_def)
  from indexing_start_after_save [OF ref_db.storm_db_axioms _ _ this] show ?thesis by (simp add: is_int32_def)
qed

end
