(* ===== verification/Queries.thy ===== *)
theory Queries
  imports TxIndex
begin

text \<open>
  The variants of the queries of \<open>transactions.go\<close> that return JSON, and the publishing of unmined
  transactions.  The encoding and the wallet library are parameters; \<open>None\<close> is the recursion bound of
  the decoding.
\<close>

definition wallet_GetTransaction ::
  "(Transaction \<Rightarrow> string result) \<Rightarrow> nat \<Rightarrow> decode_lib \<Rightarrow> wallet_lib \<Rightarrow> int \<Rightarrow> bytes \<Rightarrow> string result option" where
  "wallet_GetTransaction marshal fuel L W walletID txHash =
     map_option (\<lambda>r. bind_res r marshal) (GetTransactionRaw fuel L W walletID txHash)"

definition wallet_GetTransactions ::
  "(Transaction list \<Rightarrow> string result) \<Rightarrow> 's storm \<Rightarrow> 's \<Rightarrow> int \<Rightarrow> int \<Rightarrow> int \<Rightarrow> bool \<Rightarrow> string result" where
  "wallet_GetTransactions marshal S st off lim txFilter newestFirst = bind_res (GetTransactionsRaw S st off lim txFilter newestFirst) marshal"

definition mw_GetTransactions ::
  "(Transaction list \<Rightarrow> string result) \<Rightarrow> 's storm \<Rightarrow> (bool \<Rightarrow> Transaction list \<Rightarrow> Transaction list) \<Rightarrow> 's list \<Rightarrow> int \<Rightarrow> int \<Rightarrow> int \<Rightarrow> bool \<Rightarrow>
   string result" where
  "mw_GetTransactions marshal S sorter sts off lim txFilter newestFirst =
     (case GetTransactions S sorter sts off lim txFilter newestFirst of None \<Rightarrow> Inr [] | Some txs \<Rightarrow> marshal txs)"

definition PublishUnminedTransactions :: "('w \<Rightarrow> 'n result) \<Rightarrow> ('w \<Rightarrow> 'n \<Rightarrow> 'w \<times> err option) \<Rightarrow> 'w \<Rightarrow> 'w \<times> err option" where
  "PublishUnminedTransactions NetworkBackend publish w =
     (case NetworkBackend w of Inl er \<Rightarrow> (w, Some er) | Inr n \<Rightarrow> publish w n)"

text \<open>When the transactions of one wallet cannot be read, the multi-wallet returns an empty string and no error.\<close>

theorem mw_GetTransactions_loses_errors:
  assumes "st \<in> set sts" "GetTransactionsRaw S st off lim txFilter newestFirst = Inl er"
  shows "mw_GetTransactions marshal S sorter sts off lim txFilter newestFirst = Inr []"
proof -
  have "collect_pages S sts off lim txFilter newestFirst = None"
    using assms by (induction sts) (auto split: sum.splits)
  then show ?thesis by (simp add: mw_GetTransactions_def GetTransactions_def)
qed

end
