(* ===== verification/Loader.thy ===== *)
theory Loader
  imports Prelude
begin

text \<open>
  The wallet loader, \<open>internal/loader/loader.go\<close>: it creates, opens and unloads the one wallet of a
  directory and runs the callbacks registered for its loading.  Its critical sections are atomic
  steps; \<open>OpenExistingWallet\<close> releases the mutex while the database is opened, so it is three steps
  that other goroutines may interleave with.  The file system, the database drivers and the wallet
  library are parameters.
\<close>

section \<open>State and parameters\<close>

text \<open>Float fields are only handed on to the wallet library; addresses are kept as strings.\<close>

record 'f StakeOptions =
  so_VotingEnabled :: bool
  so_TicketFee :: 'f
  so_AddressReuse :: bool
  so_VotingAddress :: "string option"
  so_PoolAddress :: "string option"
  so_PoolFees :: 'f
  so_StakePoolColdExtKey :: string

record ('c, 'd, 'w, 'f) Loader =
  l_callbacks :: "'c list"
  l_chainParams :: string
  l_dbDirPath :: string
  l_wallet :: "'w option"
  l_db :: "'d option"
  l_dbDriver :: string
  l_stakeOptions :: "'f StakeOptions"
  l_gapLimit :: int
  l_accountGapLimit :: int
  l_disableCoinTypeUpgrades :: bool
  l_allowHighFees :: bool
  l_relayFee :: 'f

text \<open>\<open>wallet.Config\<close>, as the loader fills it.\<close>

record ('d, 'f) Config =
  c_DB :: 'd
  c_PubPassphrase :: bytes
  c_VotingEnabled :: bool
  c_AddressReuse :: bool
  c_VotingAddress :: "string option"
  c_PoolAddress :: "string option"
  c_PoolFees :: 'f
  c_TicketFee :: 'f
  c_GapLimit :: int
  c_AccountGapLimit :: int
  c_DisableCoinTypeUpgrades :: bool
  c_StakePoolColdExtKey :: string
  c_AllowHighFees :: bool
  c_RelayFee :: 'f
  c_Params :: string

datatype file_info = Missing | IsDir | IsFile

record ('e, 'd, 'w, 'f) loader_lib =
  ld_Stat :: "'e \<Rightarrow> string \<Rightarrow> file_info result"
  ld_MkdirAll :: "'e \<Rightarrow> string \<Rightarrow> 'e \<times> err option"
  ld_Remove :: "'e \<Rightarrow> string \<Rightarrow> 'e"
  CreateDB :: "'e \<Rightarrow> string \<Rightarrow> string \<Rightarrow> 'd result \<times> 'e"
  OpenDB :: "'e \<Rightarrow> string \<Rightarrow> string \<Rightarrow> 'd result \<times> 'e"
  CloseDB :: "'e \<Rightarrow> 'd \<Rightarrow> 'e \<times> err option"
  Create :: "'e \<Rightarrow> 'd \<Rightarrow> bytes \<Rightarrow> bytes \<Rightarrow> bytes \<Rightarrow> string \<Rightarrow> 'e \<times> err option"
  CreateWatchOnly :: "'e \<Rightarrow> 'd \<Rightarrow> string \<Rightarrow> bytes \<Rightarrow> string \<Rightarrow> 'e \<times> err option"
  OpenW :: "'e \<Rightarrow> ('d, 'f) Config \<Rightarrow> 'w result \<times> 'e"

section \<open>Operations\<close>

definition NewLoader ::
  "string \<Rightarrow> string \<Rightarrow> 'f StakeOptions \<Rightarrow> int \<Rightarrow> bool \<Rightarrow> 'f \<Rightarrow> int \<Rightarrow> bool \<Rightarrow> ('c, 'd, 'w, 'f) Loader" where
  "NewLoader params dir so gap allowHigh relay accountGap disableUpgrades =
     \<lparr>l_callbacks = [], l_chainParams = params, l_dbDirPath = dir, l_wallet = None, l_db = None, l_dbDriver = ''bdb'',
      l_stakeOptions = so, l_gapLimit = gap, l_accountGapLimit = accountGap, l_disableCoinTypeUpgrades = disableUpgrades,
      l_allowHighFees = allowHigh, l_relayFee = relay\<rparr>"

definition SetDatabaseDriver :: "('c, 'd, 'w, 'f) Loader \<Rightarrow> string \<Rightarrow> ('c, 'd, 'w, 'f) Loader" where
  "SetDatabaseDriver l driver = l\<lparr>l_dbDriver := driver\<rparr>"

text \<open>The calls of callbacks an operation makes are returned, in order, with the wallet passed.\<close>

definition onLoaded :: "('c, 'd, 'w, 'f) Loader \<Rightarrow> 'w \<Rightarrow> 'd \<Rightarrow> ('c, 'd, 'w, 'f) Loader \<times> ('c \<times> 'w) list" where
  "onLoaded l w db = (l\<lparr>l_wallet := Some w, l_db := Some db, l_callbacks := []\<rparr>, map (\<lambda>fn. (fn, w)) (l_callbacks l))"

definition RunAfterLoad :: "('c, 'd, 'w, 'f) Loader \<Rightarrow> 'c \<Rightarrow> ('c, 'd, 'w, 'f) Loader \<times> ('c \<times> 'w) list" where
  "RunAfterLoad l fn =
     (case l_wallet l of
        Some w \<Rightarrow> (l, [(fn, w)])
      | None \<Rightarrow> (l\<lparr>l_callbacks := l_callbacks l @ [fn]\<rparr>, []))"

definition dbPath :: "('c, 'd, 'w, 'f) Loader \<Rightarrow> string" where
  "dbPath l = l_dbDirPath l @ ''/wallet.db''"

definition loader_fileExists :: "('e, 'd, 'w, 'f) loader_lib \<Rightarrow> 'e \<Rightarrow> string \<Rightarrow> bool result" where
  "loader_fileExists L e path =
     (case ld_Stat L e path of Inl er \<Rightarrow> Inl er | Inr Missing \<Rightarrow> Inr False | Inr _ \<Rightarrow> Inr True)"

definition wallet_config :: "('c, 'd, 'w, 'f) Loader \<Rightarrow> 'd \<Rightarrow> bytes \<Rightarrow> ('d, 'f) Config" where
  "wallet_config l db pubPass =
     (let so = l_stakeOptions l in
      \<lparr>c_DB = db, c_PubPassphrase = pubPass, c_VotingEnabled = so_VotingEnabled so, c_AddressReuse = so_AddressReuse so,
       c_VotingAddress = so_VotingAddress so, c_PoolAddress = so_PoolAddress so, c_PoolFees = so_PoolFees so,
       c_TicketFee = so_TicketFee so, c_GapLimit = l_gapLimit l, c_AccountGapLimit = l_accountGapLimit l,
       c_DisableCoinTypeUpgrades = l_disableCoinTypeUpgrades l, c_StakePoolColdExtKey = so_StakePoolColdExtKey so,
       c_AllowHighFees = l_allowHighFees l, c_RelayFee = l_relayFee l, c_Params = l_chainParams l\<rparr>)"

text \<open>The check of the network directory that both creating operations make first.\<close>

definition ensure_dir :: "('e, 'd, 'w, 'f) loader_lib \<Rightarrow> 'e \<Rightarrow> string \<Rightarrow> err \<Rightarrow> 'e \<times> err option" where
  "ensure_dir L e dir notDir =
     (case ld_Stat L e dir of
        Inl er \<Rightarrow> (e, Some er)
      | Inr Missing \<Rightarrow> ld_MkdirAll L e dir
      | Inr IsDir \<Rightarrow> (e, None)
      | Inr IsFile \<Rightarrow> (e, Some notDir))"

text \<open>From the directory to the opened wallet: what the deferred \<open>os.Remove\<close> guards.\<close>

definition write_wallet ::
  "('e, 'd, 'w, 'f) loader_lib \<Rightarrow> ('c, 'd, 'w, 'f) Loader \<Rightarrow> 'e \<Rightarrow> ('e \<Rightarrow> 'd \<Rightarrow> 'e \<times> err option) \<Rightarrow> bytes \<Rightarrow> ('w \<times> 'd) result \<times> 'e" where
  "write_wallet L l e init pubPass =
     (case ld_MkdirAll L e (l_dbDirPath l) of
        (e1, Some er) \<Rightarrow> (Inl er, e1)
      | (e1, None) \<Rightarrow>
          (case CreateDB L e1 (l_dbDriver l) (dbPath l) of
             (Inl er, e2) \<Rightarrow> (Inl er, e2)
           | (Inr db, e2) \<Rightarrow>
               (case init e2 db of
                  (e3, Some er) \<Rightarrow> (Inl er, e3)
                | (e3, None) \<Rightarrow>
                    (case OpenW L e3 (wallet_config l db pubPass) of
                       (Inl er, e4) \<Rightarrow> (Inl er, e4)
                     | (Inr w, e4) \<Rightarrow> (Inr (w, db), e4)))))"

definition create_wallet ::
  "('e, 'd, 'w, 'f) loader_lib \<Rightarrow> ('c, 'd, 'w, 'f) Loader \<Rightarrow> 'e \<Rightarrow> string \<Rightarrow> err \<Rightarrow> string \<Rightarrow> ('e \<Rightarrow> 'd \<Rightarrow> 'e \<times> err option) \<Rightarrow> bytes \<Rightarrow>
   'w result \<times> ('c, 'd, 'w, 'f) Loader \<times> 'e \<times> ('c \<times> 'w) list" where
  "create_wallet L l e loaded notDir exists init pubPass =
     (if l_wallet l \<noteq> None then (Inl (E Exist loaded), l, e, [])
      else case ensure_dir L e (l_dbDirPath l) notDir of
        (e1, Some er) \<Rightarrow> (Inl er, l, e1, [])
      | (e1, None) \<Rightarrow>
          (case loader_fileExists L e1 (dbPath l) of
             Inl er \<Rightarrow> (Inl er, l, e1, [])
           | Inr True \<Rightarrow> (Inl (E Exist exists), l, e1, [])
           | Inr False \<Rightarrow>
               (case write_wallet L l e1 init pubPass of
                  (Inl er, e2) \<Rightarrow> (Inl er, l, ld_Remove L e2 (dbPath l), [])
                | (Inr (w, db), e2) \<Rightarrow> (case onLoaded l w db of (l', calls) \<Rightarrow> (Inr w, l', e2, calls)))))"

definition CreateWatchingOnlyWallet ::
  "('e, 'd, 'w, 'f) loader_lib \<Rightarrow> ('c, 'd, 'w, 'f) Loader \<Rightarrow> 'e \<Rightarrow> string \<Rightarrow> bytes \<Rightarrow>
   'w result \<times> ('c, 'd, 'w, 'f) Loader \<times> 'e \<times> ('c \<times> 'w) list" where
  "CreateWatchingOnlyWallet L l e extendedPubKey pubPass =
     create_wallet L l e ''wallet already loaded'' (E Invalid ''not a directory'') ''wallet already exists''
       (\<lambda>e db. CreateWatchOnly L e db extendedPubKey pubPass (l_chainParams l)) pubPass"

definition CreateNewWallet ::
  "('e, 'd, 'w, 'f) loader_lib \<Rightarrow> ('c, 'd, 'w, 'f) Loader \<Rightarrow> 'e \<Rightarrow> bytes \<Rightarrow> bytes \<Rightarrow> bytes \<Rightarrow>
   'w result \<times> ('c, 'd, 'w, 'f) Loader \<times> 'e \<times> ('c \<times> 'w) list" where
  "CreateNewWallet L l e pubPassphrase privPassphrase seed =
     create_wallet L l e ''wallet already opened'' (New ''not a directory'') ''wallet DB exists''
       (\<lambda>e db. Create L e db pubPassphrase privPassphrase seed (l_chainParams l)) pubPassphrase"

text \<open>\<open>OpenExistingWallet\<close>: the check under the mutex, the opening without it, the rest under it again.\<close>

definition open_check :: "('c, 'd, 'w, 'f) Loader \<Rightarrow> err option" where
  "open_check l = (if l_wallet l \<noteq> None then Some (E Exist ''wallet already opened'') else None)"

definition open_finish ::
  "('e, 'd, 'w, 'f) loader_lib \<Rightarrow> ('c, 'd, 'w, 'f) Loader \<Rightarrow> 'e \<Rightarrow> 'd \<Rightarrow> bytes \<Rightarrow>
   'w result \<times> ('c, 'd, 'w, 'f) Loader \<times> 'e \<times> ('c \<times> 'w) list" where
  "open_finish L l e db pubPassphrase =
     (case OpenW L e (wallet_config l db pubPassphrase) of
        (Inl er, e1) \<Rightarrow> (Inl er, l, fst (CloseDB L e1 db), [])
      | (Inr w, e1) \<Rightarrow> (case onLoaded l w db of (l', calls) \<Rightarrow> (Inr w, l', e1, calls)))"

definition OpenExistingWallet ::
  "('e, 'd, 'w, 'f) loader_lib \<Rightarrow> ('c, 'd, 'w, 'f) Loader \<Rightarrow> 'e \<Rightarrow> bytes \<Rightarrow>
   'w result \<times> ('c, 'd, 'w, 'f) Loader \<times> 'e \<times> ('c \<times> 'w) list" where
  "OpenExistingWallet L l e pubPassphrase =
     (case open_check l of
        Some er \<Rightarrow> (Inl er, l, e, [])
      | None \<Rightarrow>
          (case OpenDB L e (l_dbDriver l) (dbPath l) of
             (Inl er, e1) \<Rightarrow> (Inl er, l, e1, [])
           | (Inr db, e1) \<Rightarrow> open_finish L l e1 db pubPassphrase))"

definition WalletExists :: "('e, 'd, 'w, 'f) loader_lib \<Rightarrow> ('c, 'd, 'w, 'f) Loader \<Rightarrow> 'e \<Rightarrow> bool result" where
  "WalletExists L l e = loader_fileExists L e (dbPath l)"

definition LoadedWallet :: "('c, 'd, 'w, 'f) Loader \<Rightarrow> 'w option \<times> bool" where
  "LoadedWallet l = (l_wallet l, l_wallet l \<noteq> None)"

definition UnloadWallet ::
  "('e, 'd, 'w, 'f) loader_lib \<Rightarrow> ('c, 'd, 'w, 'f) Loader \<Rightarrow> 'e \<Rightarrow> err option \<times> ('c, 'd, 'w, 'f) Loader \<times> 'e" where
  "UnloadWallet L l e =
     (if l_wallet l = None then (Some (E Invalid ''wallet is unopened''), l, e)
      else case l_db l of
        None \<Rightarrow> (Some (Panic ''nil database''), l, e)
      | Some db \<Rightarrow>
          (case CloseDB L e db of
             (e1, Some er) \<Rightarrow> (Some er, l, e1)
           | (e1, None) \<Rightarrow> (None, l\<lparr>l_wallet := None, l_db := None\<rparr>, e1)))"

definition NetworkBackend :: "('w \<Rightarrow> 'n option) \<Rightarrow> ('c, 'd, 'w, 'f) Loader \<Rightarrow> 'n option \<times> bool" where
  "NetworkBackend backend l =
     (let n = (case l_wallet l of None \<Rightarrow> None | Some w \<Rightarrow> backend w) in (n, n \<noteq> None))"

section \<open>Interleavings\<close>

datatype 'd phase = Idle | Checked | Opened 'd

text \<open>
  The loader, the world, what each goroutine has done of an \<open>OpenExistingWallet\<close>, and the history of
  registered callbacks and of the calls made.
\<close>

record ('e, 'c, 'd, 'w, 'f) sys =
  s_loader :: "('c, 'd, 'w, 'f) Loader"
  s_env :: 'e
  s_phase :: "nat \<Rightarrow> 'd phase"
  s_registered :: "'c list"
  s_calls :: "('c \<times> 'w) list"

definition after ::
  "('e, 'c, 'd, 'w, 'f) sys \<Rightarrow> 'w result \<times> ('c, 'd, 'w, 'f) Loader \<times> 'e \<times> ('c \<times> 'w) list \<Rightarrow> ('e, 'c, 'd, 'w, 'f) sys" where
  "after s r = (case r of (_, l, e, calls) \<Rightarrow> s\<lparr>s_loader := l, s_env := e, s_calls := s_calls s @ calls\<rparr>)"

inductive lstep :: "('e, 'd, 'w, 'f) loader_lib \<Rightarrow> ('e, 'c, 'd, 'w, 'f) sys \<Rightarrow> ('e, 'c, 'd, 'w, 'f) sys \<Rightarrow> bool" for L where
  lstep_driver: "lstep L s (s\<lparr>s_loader := SetDatabaseDriver (s_loader s) driver\<rparr>)"
| lstep_register: "RunAfterLoad (s_loader s) fn = (l, calls) \<Longrightarrow>
    lstep L s (s\<lparr>s_loader := l, s_registered := s_registered s @ [fn], s_calls := s_calls s @ calls\<rparr>)"
| lstep_watch: "lstep L s (after s (CreateWatchingOnlyWallet L (s_loader s) (s_env s) key pub))"
| lstep_new: "lstep L s (after s (CreateNewWallet L (s_loader s) (s_env s) pub priv seed))"
| lstep_unload: "UnloadWallet L (s_loader s) (s_env s) = (r, l, e) \<Longrightarrow> lstep L s (s\<lparr>s_loader := l, s_env := e\<rparr>)"
| lstep_check: "s_phase s t = Idle \<Longrightarrow> open_check (s_loader s) = None \<Longrightarrow> lstep L s (s\<lparr>s_phase := (s_phase s)(t := Checked)\<rparr>)"
| lstep_openfail: "s_phase s t = Checked \<Longrightarrow> OpenDB L (s_env s) (l_dbDriver (s_loader s)) (dbPath (s_loader s)) = (Inl er, e) \<Longrightarrow>
    lstep L s (s\<lparr>s_env := e, s_phase := (s_phase s)(t := Idle)\<rparr>)"
| lstep_open: "s_phase s t = Checked \<Longrightarrow> OpenDB L (s_env s) (l_dbDriver (s_loader s)) (dbPath (s_loader s)) = (Inr db, e) \<Longrightarrow>
    lstep L s (s\<lparr>s_env := e, s_phase := (s_phase s)(t := Opened db)\<rparr>)"
| lstep_finish: "s_phase s t = Opened db \<Longrightarrow>
    lstep L s (after (s\<lparr>s_phase := (s_phase s)(t := Idle)\<rparr>) (open_finish L (s_loader s) (s_env s) db pub))"

definition new_sys :: "('c, 'd, 'w, 'f) Loader \<Rightarrow> 'e \<Rightarrow> ('e, 'c, 'd, 'w, 'f) sys" where
  "new_sys l e = \<lparr>s_loader = l, s_env = e, s_phase = (\<lambda>_. Idle), s_registered = [], s_calls = []\<rparr>"

inductive loader_reach :: "('e, 'd, 'w, 'f) loader_lib \<Rightarrow> ('e, 'c, 'd, 'w, 'f) sys \<Rightarrow> bool" for L where
  reach_new: "loader_reach L (new_sys (NewLoader params dir so gap allowHigh relay accountGap disableUpgrades) e)"
| reach_step: "loader_reach L s \<Longrightarrow> lstep L s s' \<Longrightarrow> loader_reach L s'"

section \<open>What the loader relies on: one holder per database file\<close>

text \<open>
  \<open>holder e p\<close> is the handle that keeps the database file at \<open>p\<close> locked.  The database drivers take
  an exclusive lock on the files they open or create and release it on a close; a removed file is
  not locked by anybody, and a locked one exists.
\<close>

locale exclusive_db =
  fixes L :: "('e, 'd, 'w, 'f) loader_lib" and holder :: "'e \<Rightarrow> string \<rightharpoonup> 'd"
  assumes held_exists: "holder e p = Some d \<Longrightarrow> ld_Stat L e p \<noteq> Inr Missing"
    and MkdirAll_holder: "ld_MkdirAll L e q = (e', r) \<Longrightarrow> holder e' = holder e"
    and Remove_holder: "holder (ld_Remove L e p) = (holder e)(p := None)"
    and CreateDB_fails: "CreateDB L e drv p = (Inl er, e') \<Longrightarrow> holder e' = holder e"
    and CreateDB_locks: "CreateDB L e drv p = (Inr d, e') \<Longrightarrow> holder e p = None \<and> holder e' = (holder e)(p \<mapsto> d)"
    and OpenDB_fails: "OpenDB L e drv p = (Inl er, e') \<Longrightarrow> holder e' = holder e"
    and OpenDB_locks: "OpenDB L e drv p = (Inr d, e') \<Longrightarrow> holder e p = None \<and> holder e' = (holder e)(p \<mapsto> d)"
    and CloseDB_releases: "CloseDB L e d = (e', None) \<Longrightarrow> holder e' = (\<lambda>p. if holder e p = Some d then None else holder e p)"
    and CloseDB_fails: "CloseDB L e d = (e', Some er) \<Longrightarrow> holder e' = holder e"
    and Create_holder: "Create L e d pub priv seed params = (e', r1) \<Longrightarrow> holder e' = holder e"
    and CreateWatchOnly_holder: "CreateWatchOnly L e d key pub params = (e', r1) \<Longrightarrow> holder e' = holder e"
    and OpenW_holder: "OpenW L e cfg = (rw, e') \<Longrightarrow> holder e' = holder e"
begin

text \<open>
  The invariant: a loaded wallet has its database, which holds the lock; a goroutine between opening
  the database and taking the mutex again holds the lock too, so there is at most one and no wallet
  is loaded; callbacks are pending only before the first load, and the calls made followed by the
  pending callbacks are the registered ones.
\<close>

definition half_open :: "('e, 'c, 'd, 'w, 'f) sys \<Rightarrow> bool" where
  "half_open s \<longleftrightarrow> (\<exists>t d. s_phase s t = Opened d)"

definition loader_inv :: "('e, 'c, 'd, 'w, 'f) sys \<Rightarrow> bool" where
  "loader_inv s \<longleftrightarrow>
     (l_wallet (s_loader s) = None \<longleftrightarrow> l_db (s_loader s) = None) \<and>
     (\<forall>d. l_db (s_loader s) = Some d \<longrightarrow> holder (s_env s) (dbPath (s_loader s)) = Some d \<and> \<not> half_open s) \<and>
     (\<forall>t d. s_phase s t = Opened d \<longrightarrow> holder (s_env s) (dbPath (s_loader s)) = Some d) \<and>
     (\<forall>t t' d d'. s_phase s t = Opened d \<and> s_phase s t' = Opened d' \<longrightarrow> t = t') \<and>
     (l_db (s_loader s) \<noteq> None \<longrightarrow> l_callbacks (s_loader s) = []) \<and>
     s_registered s = map fst (s_calls s) @ l_callbacks (s_loader s)"

lemma ensure_dir_holder: "ensure_dir L e dir nd = (e', r) \<Longrightarrow> holder e' = holder e"
  by (auto simp: ensure_dir_def dest: MkdirAll_holder split: sum.splits file_info.splits)

lemma write_wallet_holder:
  assumes "write_wallet L l e init pub = (r, e')"
    and "\<And>e d e' r. init e d = (e', r) \<Longrightarrow> holder e' = holder e"
  shows "case r of Inl er \<Rightarrow> (\<forall>q. q \<noteq> dbPath l \<longrightarrow> holder e' q = holder e q) | Inr (w, d) \<Rightarrow> holder e' (dbPath l) = Some d"
  using assms(1) assms(2) unfolding write_wallet_def
  by (auto split: prod.splits sum.splits option.splits dest!: MkdirAll_holder CreateDB_fails CreateDB_locks OpenW_holder)

lemma create_wallet_inv:
  assumes "loader_inv s" and "\<And>e d e' r. init e d = (e', r) \<Longrightarrow> holder e' = holder e"
  shows "loader_inv (after s (create_wallet L (s_loader s) (s_env s) ld nd ex init pub))"
proof (cases "l_wallet (s_loader s)")
  case (Some w)
  with assms(1) show ?thesis by (simp add: create_wallet_def after_def loader_inv_def half_open_def)
next
  case None
  let ?l = "s_loader s"
  obtain e1 r1 where d: "ensure_dir L (s_env s) (l_dbDirPath ?l) nd = (e1, r1)" by fastforce
  then have h1: "holder e1 = holder (s_env s)" by (rule ensure_dir_holder)
  have keep: "loader_inv (s\<lparr>s_env := e1\<rparr>)" using assms(1) h1 by (simp add: loader_inv_def half_open_def)
  show ?thesis
  proof (cases "r1 = None \<and> loader_fileExists L e1 (dbPath ?l) = Inr False")
    case False
    with None d keep show ?thesis
      by (auto simp: create_wallet_def after_def split: option.splits sum.splits bool.splits)
  next
    case True
    then have "ld_Stat L e1 (dbPath ?l) = Inr Missing"
      by (auto simp: loader_fileExists_def split: sum.splits file_info.splits)
    then have free: "holder (s_env s) (dbPath ?l) = None" using held_exists h1 by (metis option.exhaust)
    then have idle: "\<not> half_open s" using assms(1) by (auto simp: loader_inv_def half_open_def)
    obtain r2 e2 where w: "write_wallet L ?l e1 init pub = (r2, e2)" by fastforce
    note hw = write_wallet_holder [OF w assms(2)]
    from assms(1) None have reg: "l_db ?l = None" "s_registered s = map fst (s_calls s) @ l_callbacks ?l"
      by (auto simp: loader_inv_def)
    show ?thesis
    proof (cases r2)
      case (Inl er)
      with True None d w reg idle show ?thesis
        by (simp add: create_wallet_def after_def loader_inv_def half_open_def Remove_holder)
    next
      case (Inr wd)
      obtain w' db where wd: "wd = (w', db)" by fastforce
      with Inr hw have "holder e2 (dbPath ?l) = Some db" by simp
      with Inr wd True None d w reg idle show ?thesis
        by (auto simp: create_wallet_def after_def loader_inv_def half_open_def onLoaded_def comp_def dbPath_def)
    qed
  qed
qed

lemma open_finish_inv:
  assumes "loader_inv s" and "s_phase s t = Opened db"
  shows "loader_inv (after (s\<lparr>s_phase := (s_phase s)(t := Idle)\<rparr>) (open_finish L (s_loader s) (s_env s) db pub))"
proof -
  let ?l = "s_loader s"
  have none: "l_wallet ?l = None" "l_db ?l = None" using assms by (auto simp: loader_inv_def half_open_def)
  have h: "holder (s_env s) (dbPath ?l) = Some db" and others: "\<And>t' d. t' \<noteq> t \<Longrightarrow> s_phase s t' \<noteq> Opened d"
    and reg: "s_registered s = map fst (s_calls s) @ l_callbacks ?l"
    using assms by (auto simp: loader_inv_def)
  obtain r e1 where o: "OpenW L (s_env s) (wallet_config ?l db pub) = (r, e1)" by fastforce
  then have h1: "holder e1 = holder (s_env s)" by (rule OpenW_holder)
  show ?thesis
  proof (cases r)
    case (Inl er)
    with o none others reg show ?thesis by (auto simp: open_finish_def after_def loader_inv_def half_open_def)
  next
    case (Inr w)
    with o none others reg h h1 show ?thesis
      by (auto simp: open_finish_def after_def loader_inv_def half_open_def onLoaded_def comp_def dbPath_def)
  qed
qed

lemma opendb_inv:
  assumes "loader_inv s" and "OpenDB L (s_env s) drv (dbPath (s_loader s)) = (Inr db, e)"
  shows "loader_inv (s\<lparr>s_env := e, s_phase := (s_phase s)(t := Opened db)\<rparr>)"
proof -
  have "holder (s_env s) (dbPath (s_loader s)) = None" and h: "holder e (dbPath (s_loader s)) = Some db"
    using OpenDB_locks [OF assms(2)] by auto
  then have none: "l_db (s_loader s) = None" and others: "\<And>t' d. s_phase s t' \<noteq> Opened d"
    using assms(1) by (auto simp: loader_inv_def)
  with assms(1) h show ?thesis by (auto simp: loader_inv_def)
qed

lemma unload_inv:
  assumes "loader_inv s" and "UnloadWallet L (s_loader s) (s_env s) = (r, l, e)"
  shows "loader_inv (s\<lparr>s_loader := l, s_env := e\<rparr>)"
proof (cases "l_db (s_loader s)")
  case None
  with assms show ?thesis by (auto simp: UnloadWallet_def loader_inv_def)
next
  case (Some db)
  with assms show ?thesis
    by (auto simp: UnloadWallet_def loader_inv_def half_open_def dbPath_def split: prod.splits option.splits dest: CloseDB_fails)
qed

lemma lstep_inv: "lstep L s s' \<Longrightarrow> loader_inv s \<Longrightarrow> loader_inv s'"
proof (induction rule: lstep.induct)
  case (lstep_driver s driver)
  then show ?case by (simp add: loader_inv_def SetDatabaseDriver_def dbPath_def half_open_def)
next
  case (lstep_register s fn l calls)
  then show ?case by (auto simp: loader_inv_def RunAfterLoad_def dbPath_def half_open_def split: option.splits)
next
  case (lstep_watch s key pub)
  then show ?case unfolding CreateWatchingOnlyWallet_def by (rule create_wallet_inv) (rule CreateWatchOnly_holder)
next
  case (lstep_new s pub priv seed)
  then show ?case unfolding CreateNewWallet_def by (rule create_wallet_inv) (rule Create_holder)
next
  case (lstep_openfail s t er e)
  then show ?case by (auto simp: loader_inv_def half_open_def dest: OpenDB_fails split: if_splits)
next
  case (lstep_check s t)
  then show ?case by (auto simp: loader_inv_def half_open_def)
qed (auto intro: unload_inv opendb_inv open_finish_inv)

lemma reach_inv: "loader_reach L s \<Longrightarrow> loader_inv s"
proof (induction rule: loader_reach.induct)
  case (reach_new params dir so gap allowHigh relay accountGap disableUpgrades e)
  show ?case by (simp add: loader_inv_def new_sys_def NewLoader_def half_open_def)
qed (rule lstep_inv)

end

section \<open>A reference environment\<close>

text \<open>
  Files with their lock: handles are numbered, a file is held by at most one of them.  Opening a
  wallet fails for the passphrase \<open>[0]\<close>.
\<close>

record ref_env =
  re_dirs :: "string list"
  re_files :: "string \<rightharpoonup> nat option"
  re_next :: nat
  re_open :: "nat list"

definition re_holder :: "ref_env \<Rightarrow> string \<rightharpoonup> nat" where
  "re_holder e p = Option.bind (re_files e p) id"

definition ref_loader :: "(ref_env, nat, bytes, unit) loader_lib" where
  "ref_loader = \<lparr>
     ld_Stat = (\<lambda>e p. Inr (if re_files e p \<noteq> None then IsFile else if p \<in> set (re_dirs e) then IsDir else Missing)),
     ld_MkdirAll = (\<lambda>e p. (e\<lparr>re_dirs := p # re_dirs e\<rparr>, None)),
     ld_Remove = (\<lambda>e p. e\<lparr>re_files := (re_files e)(p := None)\<rparr>),
     CreateDB = (\<lambda>e drv p. if re_files e p = None
        then (Inr (re_next e), e\<lparr>re_files := (re_files e)(p \<mapsto> Some (re_next e)), re_next := Suc (re_next e), re_open := re_next e # re_open e\<rparr>)
        else (Inl (E Exist ''database exists''), e)),
     OpenDB = (\<lambda>e drv p. if re_files e p = Some None
        then (Inr (re_next e), e\<lparr>re_files := (re_files e)(p \<mapsto> Some (re_next e)), re_next := Suc (re_next e), re_open := re_next e # re_open e\<rparr>)
        else (Inl (E IO ''cannot open''), e)),
     CloseDB = (\<lambda>e d. (e\<lparr>re_files := (\<lambda>p. map_option (\<lambda>h. if h = Some d then None else h) (re_files e p)), re_open := removeAll d (re_open e)\<rparr>, None)),
     Create = (\<lambda>e d pub priv seed params. (e, if seed = [] then Some (E Invalid ''seed'') else None)),
     CreateWatchOnly = (\<lambda>e d key pub params. (e, None)),
     OpenW = (\<lambda>e cfg. (if c_PubPassphrase cfg = [0] then Inl (E Passphrase ''pub'') else Inr (c_PubPassphrase cfg), e))\<rparr>"

lemmas ref_loader_simps = ref_loader_def re_holder_def fun_eq_iff

interpretation ref_lock: exclusive_db ref_loader re_holder
proof
  show "CloseDB ref_loader e d = (e', None) \<Longrightarrow> re_holder e' = (\<lambda>p. if re_holder e p = Some d then None else re_holder e p)" for e d e'
    by (auto simp: ref_loader_simps split: bind_splits)
qed (auto simp: ref_loader_simps bind_eq_Some_conv split: if_splits)

section \<open>Properties\<close>

text \<open>
  C6.  The window in \<open>OpenExistingWallet\<close> is harmless.  The mutex is released while the database is
  opened and the check for a loaded wallet is not repeated; yet in every interleaving of the
  loader's operations, with database files that have one holder at a time, a goroutine that comes
  back with an opened database finds no wallet loaded, it is the only such goroutine, a wallet is
  loaded exactly when its database is recorded, and \<open>UnloadWallet\<close> never meets a nil database.
\<close>

theorem no_loaded_wallet_is_replaced:
  assumes "exclusive_db L holder" and "loader_reach L s"
  shows "(l_wallet (s_loader s) = None \<longleftrightarrow> l_db (s_loader s) = None) \<and>
    (\<forall>t d. s_phase s t = Opened d \<longrightarrow> l_wallet (s_loader s) = None \<and> holder (s_env s) (dbPath (s_loader s)) = Some d) \<and>
    (\<forall>t t' d d'. s_phase s t = Opened d \<and> s_phase s t' = Opened d' \<longrightarrow> t = t') \<and>
    (\<forall>m. fst (UnloadWallet L (s_loader s) (s_env s)) = Some (Panic m) \<longrightarrow>
       (\<exists>d. l_db (s_loader s) = Some d \<and> snd (CloseDB L (s_env s) d) = Some (Panic m)))"
proof -
  note inv = exclusive_db.reach_inv [OF assms]
  have wd: "l_wallet (s_loader s) = None \<longleftrightarrow> l_db (s_loader s) = None" and
    "\<forall>t d. s_phase s t = Opened d \<longrightarrow> l_wallet (s_loader s) = None \<and> holder (s_env s) (dbPath (s_loader s)) = Some d" and
    "\<forall>t t' d d'. s_phase s t = Opened d \<and> s_phase s t' = Opened d' \<longrightarrow> t = t'"
    using inv by (auto simp: exclusive_db.loader_inv_def [OF assms(1)] exclusive_db.half_open_def [OF assms(1)])
  moreover have "\<exists>d. l_db (s_loader s) = Some d \<and> snd (CloseDB L (s_env s) d) = Some (Panic m)"
    if "fst (UnloadWallet L (s_loader s) (s_env s)) = Some (Panic m)" for m
    using that wd by (auto simp: UnloadWallet_def split: if_splits option.splits prod.splits)
  ultimately show ?thesis by blast
qed

text \<open>A run of the examples: a goroutine has opened the database and not taken the mutex yet.\<close>

definition ex_so :: "unit StakeOptions" where
  "ex_so = \<lparr>so_VotingEnabled = False, so_TicketFee = (), so_AddressReuse = False, so_VotingAddress = None, so_PoolAddress = None,
     so_PoolFees = (), so_StakePoolColdExtKey = []\<rparr>"

definition ex_loader :: "(nat, nat, bytes, unit) Loader" where
  "ex_loader = NewLoader ''testnet3'' ''d'' ex_so 20 False () 10 False"

definition ex_renv :: ref_env where
  "ex_renv = \<lparr>re_dirs = [''d''], re_files = [''d/wallet.db'' \<mapsto> None], re_next = 0, re_open = []\<rparr>"

lemma ex_half_open: "\<exists>s. loader_reach ref_loader s \<and> s_phase s 1 = Opened 0 \<and> s_loader s = ex_loader"
proof -
  let ?s = "new_sys ex_loader ex_renv"
  let ?s1 = "?s\<lparr>s_phase := (s_phase ?s)(1 := Checked)\<rparr>"
  have "loader_reach ref_loader ?s" unfolding ex_loader_def by (rule reach_new)
  moreover have "lstep ref_loader ?s ?s1"
    by (rule lstep_check) (simp_all add: new_sys_def open_check_def ex_loader_def NewLoader_def)
  ultimately have r1: "loader_reach ref_loader ?s1" by (rule reach_step)
  obtain e where "OpenDB ref_loader (s_env ?s1) (l_dbDriver (s_loader ?s1)) (dbPath (s_loader ?s1)) = (Inr 0, e)"
    by (simp add: ref_loader_def new_sys_def dbPath_def ex_loader_def NewLoader_def ex_renv_def)
  then have "lstep ref_loader ?s1 (?s1\<lparr>s_env := e, s_phase := (s_phase ?s1)(1 := Opened 0)\<rparr>)"
    by (intro lstep_open) simp_all
  from reach_step [OF r1 this] show ?thesis by (fastforce simp: new_sys_def)
qed

theorem no_loaded_wallet_is_replaced_witness:
  "\<exists>s :: (ref_env, nat, nat, bytes, unit) sys. loader_reach ref_loader s \<and> s_phase s 1 = Opened 0 \<and>
     re_holder (s_env s) ''d/wallet.db'' = Some 0 \<and> s_phase s 2 \<noteq> Opened 0"
proof -
  obtain s :: "(ref_env, nat, nat, bytes, unit) sys" where s: "loader_reach ref_loader s" "s_phase s 1 = Opened 0" "s_loader s = ex_loader"
    using ex_half_open by blast
  note P = no_loaded_wallet_is_replaced [OF ref_lock.exclusive_db_axioms s(1)]
  have "s_phase s 2 \<noteq> Opened 0"
  proof
    assume "s_phase s 2 = Opened 0"
    with P s(2) have "(1::nat) = 2" by blast
    then show False by simp
  qed
  moreover have "dbPath (s_loader s) = ''d/wallet.db''" by (simp add: s(3) dbPath_def ex_loader_def NewLoader_def)
  ultimately show ?thesis using P s(1,2) by metis
qed

text \<open>
  Every callback runs exactly once, in the order of registration: at every moment of every
  interleaving the calls made, followed by the callbacks still pending, are the registered
  callbacks, and once a wallet is loaded none is pending.
\<close>

theorem callbacks_run_once_in_order:
  assumes "exclusive_db L holder" and "loader_reach L s"
  shows "s_registered s = map fst (s_calls s) @ l_callbacks (s_loader s) \<and>
    (l_wallet (s_loader s) \<noteq> None \<longrightarrow> map fst (s_calls s) = s_registered s)"
  using exclusive_db.reach_inv [OF assms] by (auto simp: exclusive_db.loader_inv_def [OF assms(1)])

theorem callbacks_run_once_in_order_witness:
  "\<exists>s :: (ref_env, nat, nat, bytes, unit) sys. loader_reach ref_loader s \<and> s_registered s = [4] \<and> map fst (s_calls s) @ l_callbacks (s_loader s) = [4]"
proof -
  obtain s :: "(ref_env, nat, nat, bytes, unit) sys" where s: "s = new_sys ex_loader ex_renv" by simp
  have "loader_reach ref_loader s" unfolding s ex_loader_def by (rule reach_new)
  moreover obtain l calls where "RunAfterLoad (s_loader s) 4 = (l, calls)" by fastforce
  ultimately have r: "loader_reach ref_loader (s\<lparr>s_loader := l, s_registered := s_registered s @ [4], s_calls := s_calls s @ calls\<rparr>)"
    by (blast intro: reach_step lstep_register)
  have "s_registered (s\<lparr>s_loader := l, s_registered := s_registered s @ [4], s_calls := s_calls s @ calls\<rparr>) = [4]"
    by (simp add: s new_sys_def)
  with callbacks_run_once_in_order [OF ref_lock.exclusive_db_axioms r] r show ?thesis by metis
qed

text \<open>
  Creating never touches an existing wallet: if the directory and \<open>wallet.db\<close> in it are there,
  both creating operations fail with an \<open>Exist\<close> error, whether a wallet is loaded or not, call no
  callback, and leave the loader and the disk as they were.
\<close>

theorem create_keeps_existing_wallet:
  assumes "ld_Stat L e (l_dbDirPath l) = Inr IsDir" and "WalletExists L l e = Inr True"
  shows "(\<exists>m. CreateNewWallet L l e pub priv seed = (Inl (E Exist m), l, e, [])) \<and>
    (\<exists>m. CreateWatchingOnlyWallet L l e key pub = (Inl (E Exist m), l, e, []))"
  using assms by (simp add: CreateNewWallet_def CreateWatchingOnlyWallet_def create_wallet_def WalletExists_def ensure_dir_def)

theorem create_keeps_existing_wallet_witness:
  "\<exists>m. CreateNewWallet ref_loader ex_loader ex_renv [1] [2] [3] = (Inl (E Exist m), ex_loader, ex_renv, [])"
proof -
  have "ld_Stat ref_loader ex_renv (l_dbDirPath ex_loader) = Inr IsDir" "WalletExists ref_loader ex_loader ex_renv = Inr True"
    by (simp_all add: ref_loader_def ex_renv_def ex_loader_def NewLoader_def WalletExists_def loader_fileExists_def dbPath_def)
  from create_keeps_existing_wallet [OF this] show ?thesis by blast
qed

text \<open>
  A failed creation leaks the database.  When the new database was created and the wallet in it
  cannot be initialised, \<open>CreateNewWallet\<close> removes the file and returns the error, but nothing closes
  the handle: it stays open and the loader does not know it.  \<open>OpenExistingWallet\<close> does close the
  database on that path.
\<close>

theorem failed_create_leaks_database:
  assumes "l_wallet l = None" and "ld_Stat L e (l_dbDirPath l) = Inr IsDir" and "WalletExists L l e = Inr False"
    and "ld_MkdirAll L e (l_dbDirPath l) = (e1, None)" and "CreateDB L e1 (l_dbDriver l) (dbPath l) = (Inr db, e2)"
    and "Create L e2 db pub priv seed (l_chainParams l) = (e3, Some er)"
    and "db \<in> handles e2"
    and "\<forall>e db. handles (fst (Create L e db pub priv seed (l_chainParams l))) = handles e"
    and "\<forall>e p. handles (ld_Remove L e p) = handles e"
  shows "CreateNewWallet L l e pub priv seed = (Inl er, l, ld_Remove L e3 (dbPath l), []) \<and> db \<in> handles (ld_Remove L e3 (dbPath l))"
proof -
  have "handles e3 = handles e2" using assms(6,8) by (metis fst_conv)
  with assms show ?thesis
    by (simp add: CreateNewWallet_def create_wallet_def ensure_dir_def WalletExists_def write_wallet_def)
qed

theorem failed_create_leaks_database_witness:
  "\<exists>e'. CreateNewWallet ref_loader ex_loader (ex_renv\<lparr>re_files := Map.empty\<rparr>) [1] [2] [] = (Inl (E Invalid ''seed''), ex_loader, e', []) \<and> re_open e' = [0]"
proof -
  let ?e = "ex_renv\<lparr>re_files := Map.empty\<rparr>"
  let ?e1 = "?e\<lparr>re_dirs := [''d'', ''d'']\<rparr>"
  let ?e2 = "?e1\<lparr>re_files := [''d/wallet.db'' \<mapsto> Some 0], re_next := 1, re_open := [0]\<rparr>"
  have "CreateNewWallet ref_loader ex_loader ?e [1] [2] [] = (Inl (E Invalid ''seed''), ex_loader, ld_Remove ref_loader ?e2 (dbPath ex_loader), []) \<and>
      0 \<in> set (re_open (ld_Remove ref_loader ?e2 (dbPath ex_loader)))"
    by (rule failed_create_leaks_database [where ?e1.0 = ?e1 and ?e2.0 = ?e2 and handles = "\<lambda>e. set (re_open e)"])
       (simp_all add: ref_loader_def ex_renv_def ex_loader_def NewLoader_def WalletExists_def loader_fileExists_def dbPath_def)
  then show ?thesis by (simp add: ref_loader_def)
qed

end
