(* ===== verification/TxDb.thy ===== *)
theory TxDb
  imports Wallets TxIndex
begin

text \<open>
  Opening the transaction index of a wallet, \<open>txindex/db.go\<close>: the database file is created when it
  is missing and replaced when it was written with another version of the format.  The databases
  (\<open>storm\<close> on \<open>bolt\<close>) and the file system are parameters; a handle is what \<open>storm.Open\<close> returns.
\<close>

section \<open>Parameters\<close>

text \<open>\<open>OpenTimeout\<close> is \<open>bolt.ErrTimeout\<close>: another handle keeps the file locked.\<close>

datatype open_error = OpenTimeout | OpenError string

record ('e, 'h) storm_files =
  sf_Open :: "'e \<Rightarrow> string \<Rightarrow> (open_error + 'h) \<times> 'e"
  sf_Close :: "'e \<Rightarrow> 'h \<Rightarrow> 'e \<times> err option"
  sf_Get :: "'e \<Rightarrow> 'h \<Rightarrow> string \<Rightarrow> string \<Rightarrow> kv_err + int"
  sf_Set :: "'e \<Rightarrow> 'h \<Rightarrow> string \<Rightarrow> string \<Rightarrow> int \<Rightarrow> 'e result"
  sf_Init :: "'e \<Rightarrow> 'h \<Rightarrow> 'e result"

section \<open>Operations\<close>

definition DbName :: string where "DbName = ''tx.db''"
definition KeyDbVersion :: string where "KeyDbVersion = ''DbVersion''"
definition TxDbVersion :: int where "TxDbVersion = 1"

definition openOrCreateDB :: "('e, 'h) storm_files \<Rightarrow> 'e fs \<Rightarrow> 'e \<Rightarrow> string \<Rightarrow> 'h result \<times> 'e" where
  "openOrCreateDB SF F e dbPath =
     (case Stat F e dbPath of
        Inl er \<Rightarrow> (Inl (New ''error checking tx index database file''), e)
      | Inr exists \<Rightarrow>
          (case sf_Open SF e dbPath of
             (Inl OpenTimeout, e1) \<Rightarrow> (Inl (New ''tx index database is in use by another process''), e1)
           | (Inl (OpenError m), e1) \<Rightarrow> (Inl (New (''error opening tx index database: '' @ m)), e1)
           | (Inr txDB, e1) \<Rightarrow>
               if exists then (Inr txDB, e1)
               else (case sf_Set SF e1 txDB TxBucketName KeyDbVersion TxDbVersion of
                  Inl er \<Rightarrow> (Inl (New ''error initializing tx index db''),
                    case RemoveAll F e1 dbPath of Inl _ \<Rightarrow> e1 | Inr e2 \<Rightarrow> e2)
                | Inr e2 \<Rightarrow> (Inr txDB, e2))))"

text \<open>A missing version number leaves the variable at zero.\<close>

definition ensureDatabaseVersion :: "('e, 'h) storm_files \<Rightarrow> 'e fs \<Rightarrow> 'e \<Rightarrow> 'h \<Rightarrow> string \<Rightarrow> 'h result \<times> 'e" where
  "ensureDatabaseVersion SF F e txDB dbPath =
     (case sf_Get SF e txDB TxBucketName KeyDbVersion of
        Inl (KvErr m) \<Rightarrow> (Inl (New (''error checking tx index database version: '' @ m)), e)
      | r \<Rightarrow>
          let currentDbVersion = (case r of Inl _ \<Rightarrow> 0 | Inr v \<Rightarrow> v) in
          if currentDbVersion \<noteq> TxDbVersion
          then (case RemoveAll F e dbPath of
             Inl er \<Rightarrow> (Inl (New ''error deleting outdated tx index database''), e)
           | Inr e1 \<Rightarrow> openOrCreateDB SF F e1 dbPath)
          else (Inr txDB, e))"

definition Initialize :: "('e, 'h) storm_files \<Rightarrow> 'e fs \<Rightarrow> 'e \<Rightarrow> string \<Rightarrow> 'h result \<times> 'e" where
  "Initialize SF F e dbPath =
     (case openOrCreateDB SF F e dbPath of
        (Inl er, e1) \<Rightarrow> (Inl er, e1)
      | (Inr txDB, e1) \<Rightarrow>
          (case ensureDatabaseVersion SF F e1 txDB dbPath of
             (Inl er, e2) \<Rightarrow> (Inl er, e2)
           | (Inr txDB', e2) \<Rightarrow>
               (case sf_Init SF e2 txDB' of
                  Inl er \<Rightarrow> (Inl (New ''error initializing tx database for wallet''), e2)
                | Inr e3 \<Rightarrow> (Inr txDB', e3))))"

section \<open>What is relied on\<close>

text \<open>
  A file holds an optional version and the stored transactions (\<open>None\<close>: there is no file).  A handle
  reads and writes the file it was opened on, until that file is removed; it stays open until it is
  closed.  \<open>RemoveAll\<close> removes the file, not the handles on it.
\<close>

type_synonym 'x db_file = "int option \<times> 'x list"

locale storm_file_laws =
  fixes SF :: "('e, 'h) storm_files" and F :: "'e fs"
    and contents :: "'e \<Rightarrow> string \<rightharpoonup> 'x db_file" and path_of :: "'e \<Rightarrow> 'h \<rightharpoonup> string" and handles :: "'e \<Rightarrow> 'h set"
  assumes Stat_file: "Stat F e p = Inr b \<Longrightarrow> b \<longleftrightarrow> contents e p \<noteq> None"
    and Open_ok: "sf_Open SF e p = (Inr h, e') \<Longrightarrow>
      h \<notin> handles e \<and> handles e' = insert h (handles e) \<and> path_of e' = (path_of e)(h \<mapsto> p) \<and>
      contents e' = (contents e)(p \<mapsto> (case contents e p of None \<Rightarrow> (None, []) | Some c \<Rightarrow> c))"
    and Remove_ok: "RemoveAll F e p = Inr e' \<Longrightarrow> contents e' p = None \<and> handles e' = handles e"
    and Get_version: "path_of e h = Some p \<Longrightarrow> contents e p = Some (v, xs) \<Longrightarrow>
      sf_Get SF e h TxBucketName KeyDbVersion = (case v of None \<Rightarrow> Inl KvNotFound | Some n \<Rightarrow> Inr n) \<or>
      (\<exists>m. sf_Get SF e h TxBucketName KeyDbVersion = Inl (KvErr m))"
    and Set_version: "sf_Set SF e h TxBucketName KeyDbVersion n = Inr e' \<Longrightarrow> path_of e h = Some p \<Longrightarrow> contents e p = Some (v, xs) \<Longrightarrow>
      contents e' = (contents e)(p \<mapsto> (Some n, xs)) \<and> path_of e' = path_of e \<and> handles e' = handles e"
    and Init_keeps: "sf_Init SF e h = Inr e' \<Longrightarrow> contents e' = contents e \<and> path_of e' = path_of e \<and> handles e' = handles e"
begin

lemma openOrCreate_ok:
  assumes "openOrCreateDB SF F e p = (Inr h, e')"
  shows "h \<notin> handles e \<and> handles e' = insert h (handles e) \<and> path_of e' h = Some p \<and>
    contents e' p = Some (case contents e p of None \<Rightarrow> (Some TxDbVersion, []) | Some c \<Rightarrow> c)"
proof -
  from assms obtain b e1 where st: "Stat F e p = Inr b" and o: "sf_Open SF e p = (Inr h, e1)"
    and r: "if b then e' = e1 else sf_Set SF e1 h TxBucketName KeyDbVersion TxDbVersion = Inr e'"
    by (auto simp: openOrCreateDB_def split: sum.splits prod.splits open_error.splits if_splits)
  note o1 = Open_ok [OF o] and b = Stat_file [OF st]
  show ?thesis
  proof (cases b)
    case True
    with r o1 b show ?thesis by auto
  next
    case False
    with r have s: "sf_Set SF e1 h TxBucketName KeyDbVersion TxDbVersion = Inr e'" by simp
    from False b have n: "contents e p = None" by blast
    with o1 have "path_of e1 h = Some p" "contents e1 p = Some (None, [])" by simp_all
    with Set_version [OF s, of p None "[]"] o1 n show ?thesis by simp
  qed
qed

text \<open>The handle that \<open>Initialize\<close> loses when it replaces a database of another version.\<close>

lemma Initialize_ok:
  assumes "Initialize SF F e p = (Inr h, e')"
  shows "path_of e' h = Some p \<and> h \<in> handles e' \<and>
    (case contents e p of
       None \<Rightarrow> contents e' p = Some (Some TxDbVersion, []) \<and> handles e' = insert h (handles e)
     | Some (v, xs) \<Rightarrow>
         if v = Some TxDbVersion then contents e' p = Some (v, xs) \<and> handles e' = insert h (handles e)
         else contents e' p = Some (Some TxDbVersion, []) \<and> (\<exists>h0. h0 \<noteq> h \<and> h0 \<notin> handles e \<and> handles e' = {h, h0} \<union> handles e))"
proof -
  from assms obtain h0 e1 e2 where o: "openOrCreateDB SF F e p = (Inr h0, e1)"
    and v: "ensureDatabaseVersion SF F e1 h0 p = (Inr h, e2)" and i: "sf_Init SF e2 h = Inr e'"
    by (auto simp: Initialize_def split: sum.splits prod.splits)
  define c where "c = (case contents e p of None \<Rightarrow> (Some TxDbVersion, []) | Some c \<Rightarrow> c)"
  obtain vo xs where c: "c = (vo, xs)" by fastforce
  have o1: "h0 \<notin> handles e" "handles e1 = insert h0 (handles e)" "path_of e1 h0 = Some p" "contents e1 p = Some (vo, xs)"
    using openOrCreate_ok [OF o] c by (auto simp: c_def)
  note get = Get_version [OF o1(3,4)]
  have keep: "contents e' = contents e2" "path_of e' = path_of e2" "handles e' = handles e2" using Init_keeps [OF i] by auto
  show ?thesis
  proof (cases "vo = Some TxDbVersion")
    case True
    with v get have "h = h0 \<and> e2 = e1" by (auto simp: ensureDatabaseVersion_def split: sum.splits kv_err.splits)
    with True keep o1 c show ?thesis by (auto simp: c_def split: option.splits)
  next
    case False
    from v get False have "\<exists>e3. RemoveAll F e1 p = Inr e3 \<and> openOrCreateDB SF F e3 p = (Inr h, e2)"
      by (auto simp: ensureDatabaseVersion_def TxDbVersion_def split: sum.splits kv_err.splits if_splits option.splits)
    then obtain e3 where "RemoveAll F e1 p = Inr e3" "openOrCreateDB SF F e3 p = (Inr h, e2)" by blast
    from Remove_ok [OF this(1)] openOrCreate_ok [OF this(2)] o1
    have "h \<noteq> h0" "handles e2 = {h, h0} \<union> handles e" "path_of e2 h = Some p" "contents e2 p = Some (Some TxDbVersion, [])" by auto
    moreover from False c have "contents e p = Some (vo, xs)" by (auto simp: c_def split: option.splits)
    ultimately show ?thesis using False keep o1(1) by auto
  qed
qed

end

section \<open>A reference store\<close>

text \<open>Files, the paths of the handles (\<open>None\<close> once the file is removed), and the open handles, numbered in order.\<close>

record ref_files =
  rf_files :: "(string \<times> nat db_file) list"
  rf_paths :: "string option list"
  rf_open :: "nat list"

definition rf_file :: "ref_files \<Rightarrow> string \<rightharpoonup> nat db_file" where
  "rf_file e = map_of (rf_files e)"

definition rf_path :: "ref_files \<Rightarrow> nat \<rightharpoonup> string" where
  "rf_path e h = (if h < length (rf_paths e) then rf_paths e ! h else None)"

definition rf_set :: "ref_files \<Rightarrow> string \<Rightarrow> nat db_file \<Rightarrow> ref_files" where
  "rf_set e p c = e\<lparr>rf_files := (p, c) # rf_files e\<rparr>"

definition ref_storm_files :: "(ref_files, nat) storm_files" where
  "ref_storm_files = \<lparr>
     sf_Open = (\<lambda>e p. let h = length (rf_paths e) in
       if h \<in> set (rf_open e) then (Inl OpenTimeout, e)
       else (Inr h, (rf_set e p (case rf_file e p of None \<Rightarrow> (None, []) | Some c \<Rightarrow> c))
         \<lparr>rf_paths := rf_paths e @ [Some p], rf_open := h # rf_open e\<rparr>)),
     sf_Close = (\<lambda>e h. (e\<lparr>rf_open := removeAll h (rf_open e)\<rparr>, None)),
     sf_Get = (\<lambda>e h b k. case rf_path e h of None \<Rightarrow> Inl (KvErr ''closed'')
       | Some p \<Rightarrow> (case rf_file e p of Some (Some n, _) \<Rightarrow> Inr n | _ \<Rightarrow> Inl KvNotFound)),
     sf_Set = (\<lambda>e h b k n. case rf_path e h of None \<Rightarrow> Inl (New ''closed'')
       | Some p \<Rightarrow> Inr (rf_set e p (Some n, case rf_file e p of None \<Rightarrow> [] | Some (_, xs) \<Rightarrow> xs))),
     sf_Init = (\<lambda>e h. Inr e)\<rparr>"

definition ref_files_fs :: "ref_files fs" where
  "ref_files_fs = \<lparr>Stat = (\<lambda>e p. Inr (rf_file e p \<noteq> None)), Rename = (\<lambda>e p q. Inl (New ''not supported'')), MkdirAll = (\<lambda>e p. e),
     RemoveAll = (\<lambda>e p. Inr (e\<lparr>rf_files := filter (\<lambda>(q, _). q \<noteq> p) (rf_files e),
       rf_paths := map (\<lambda>q. if q = Some p then None else q) (rf_paths e)\<rparr>))\<rparr>"

lemma rf_file_set [simp]: "rf_file (rf_set e p c) = (rf_file e)(p \<mapsto> c)"
  by (simp add: rf_file_def rf_set_def)

lemma rf_file_more [simp]:
  "rf_file (e\<lparr>rf_paths := ps\<rparr>) = rf_file e" "rf_file (e\<lparr>rf_open := hs\<rparr>) = rf_file e"
  by (simp_all add: rf_file_def)

lemma rf_path_set [simp]: "rf_path (rf_set e p c) = rf_path e" "rf_open (rf_set e p c) = rf_open e"
  by (auto simp: rf_path_def rf_set_def)

interpretation ref_files: storm_file_laws ref_storm_files ref_files_fs rf_file rf_path "\<lambda>e. set (rf_open e)"
proof
  fix e e' :: ref_files and p :: string and h :: nat
  show "b \<longleftrightarrow> rf_file e p \<noteq> None" if "Stat ref_files_fs e p = Inr b" for b
    using that by (auto simp: ref_files_fs_def)
  show "h \<notin> set (rf_open e) \<and> set (rf_open e') = insert h (set (rf_open e)) \<and> rf_path e' = (rf_path e)(h \<mapsto> p) \<and>
      rf_file e' = (rf_file e)(p \<mapsto> (case rf_file e p of None \<Rightarrow> (None, []) | Some c \<Rightarrow> c))"
    if "sf_Open ref_storm_files e p = (Inr h, e')"
    using that by (auto simp: ref_storm_files_def Let_def fun_eq_iff rf_path_def nth_append split: if_splits)
  show "rf_file e' p = None \<and> set (rf_open e') = set (rf_open e)" if "RemoveAll ref_files_fs e p = Inr e'"
    using that by (auto simp: ref_files_fs_def rf_file_def map_of_eq_None_iff)
  show "sf_Get ref_storm_files e h TxBucketName KeyDbVersion = (case v of None \<Rightarrow> Inl KvNotFound | Some n \<Rightarrow> Inr n) \<or>
      (\<exists>m. sf_Get ref_storm_files e h TxBucketName KeyDbVersion = Inl (KvErr m))"
    if "rf_path e h = Some p" "rf_file e p = Some (v, xs)" for v xs
    using that by (auto simp: ref_storm_files_def split: option.splits)
  show "rf_file e' = (rf_file e)(p \<mapsto> (Some n, xs)) \<and> rf_path e' = rf_path e \<and> set (rf_open e') = set (rf_open e)"
    if "sf_Set ref_storm_files e h TxBucketName KeyDbVersion n = Inr e'" "rf_path e h = Some p" "rf_file e p = Some (v, xs)" for n v xs
    using that by (auto simp: ref_storm_files_def)
  show "rf_file e' = rf_file e \<and> rf_path e' = rf_path e \<and> set (rf_open e') = set (rf_open e)" if "sf_Init ref_storm_files e h = Inr e'"
    using that by (simp add: ref_storm_files_def)
qed

section \<open>Properties\<close>

text \<open>
  A transaction index that opens has the current version.  A missing one is created empty, one
  of the current version keeps its transactions, and one of any other version, or of none, is
  replaced by an empty one.  In the last case, and only then, a second handle stays open: the
  one on the removed file, which nothing can close any more.
\<close>

theorem Initialize_upgrades:
  assumes "storm_file_laws SF F contents path_of handles" and "Initialize SF F e p = (Inr h, e')"
  shows "path_of e' h = Some p \<and> h \<in> handles e' \<and>
    (case contents e p of
       None \<Rightarrow> contents e' p = Some (Some TxDbVersion, []) \<and> handles e' = insert h (handles e)
     | Some (v, xs) \<Rightarrow>
         if v = Some TxDbVersion then contents e' p = Some (v, xs) \<and> handles e' = insert h (handles e)
         else contents e' p = Some (Some TxDbVersion, []) \<and> (\<exists>h0. h0 \<noteq> h \<and> h0 \<notin> handles e \<and> handles e' = {h, h0} \<union> handles e))"
  by (rule storm_file_laws.Initialize_ok [OF assms])

theorem Initialize_upgrades_witness:
  "\<exists>h e'. Initialize ref_storm_files ref_files_fs \<lparr>rf_files = [(''tx.db'', (Some 0, [7, 8]))], rf_paths = [], rf_open = []\<rparr> ''tx.db'' = (Inr h, e') \<and>
     rf_file e' ''tx.db'' = Some (Some TxDbVersion, []) \<and> (\<exists>h0. h0 \<noteq> h \<and> h0 \<in> set (rf_open e'))"
proof -
  let ?e = "\<lparr>rf_files = [(''tx.db'', (Some 0, [7, 8]))], rf_paths = [], rf_open = []\<rparr>"
  obtain h e' where r: "Initialize ref_storm_files ref_files_fs ?e ''tx.db'' = (Inr h, e')"
    by (simp add: Initialize_def openOrCreateDB_def ensureDatabaseVersion_def ref_storm_files_def ref_files_fs_def rf_file_def
        rf_set_def rf_path_def Let_def TxDbVersion_def)
  from Initialize_upgrades [OF ref_files.storm_file_laws_axioms r] r show ?thesis
    by (auto simp: rf_file_def TxDbVersion_def)
qed

end
