(* ===== verification/Lifecycle.thy ===== *)
theory Lifecycle
  imports Utils TxDb Loader
begin

text \<open>
  The life of a wallet, \<open>wallet.go\<close> and the rest of \<open>multiwallet.go\<close>: a wallet is prepared, created,
  restored, linked or opened through its loader, unlocked, shut down and deleted.  An opened wallet is
  a handle, as in the code, where \<open>internal\<close> and the loader hold the same pointer; its state is part of
  the world \<open>'e\<close>.  An operation that blocks for ever on a channel is \<open>None\<close>; a panic is an error.
\<close>

section \<open>State and parameters\<close>

record ('e, 'd, 'w, 'f, 'h) world =
  wd_fs :: "'e fs"
  wd_loader :: "('e, 'd, 'w, 'f) loader_lib"
  wd_storm :: "('e, 'h) storm_files"
  wd_Unlock :: "'e \<Rightarrow> 'w \<Rightarrow> bytes \<Rightarrow> 'e \<times> err option"
  wd_Lock :: "'e \<Rightarrow> 'w \<Rightarrow> 'e"
  wd_Locked :: "'e \<Rightarrow> 'w \<Rightarrow> bool"
  wd_WatchingOnly :: "'e \<Rightarrow> 'w \<Rightarrow> bool"
  wd_ChangePublicPassphrase :: "'e \<Rightarrow> 'w \<Rightarrow> bytes \<Rightarrow> bytes \<Rightarrow> 'e \<times> err option"
  wd_DecodeUserInput :: "string \<Rightarrow> bytes result"
  InsecurePubPassphrase :: string
  DefaultRelayFee :: 'f
  ZeroFee :: 'f
  DefaultAccountGapLimit :: int

text \<open>
  The fields of \<open>Wallet\<close> that are not stored.  \<open>awaiting\<close> says that the goroutine of \<open>prepare\<close> still
  receives from \<open>shuttingDown\<close>; a context is the number of its cancel function.
\<close>

record ('w, 'd, 'f, 'h) LiveWallet = "'w Wallet" +
  CreatedAt :: int
  chainParams :: string
  loader :: "(unit, 'd, 'w, 'f) Loader option"
  txDB :: "'h option"
  awaiting :: bool
  cancelFuncs :: "nat list"
  cancelled :: "nat list"

type_synonym ('w, 'd, 'f, 'h) live_ext = "('w, 'd, 'f, 'h, unit) LiveWallet_ext"
type_synonym ('s, 'w, 'd, 'f, 'h) live_db = "('s, 'w, ('w, 'd, 'f, 'h) live_ext) wallet_db"
type_synonym ('s, 'w, 'd, 'f, 'h, 'e) live_mw = "('s, 'w, ('w, 'd, 'f, 'h) live_ext, 'e) MultiWallet"

text \<open>The zero value of the struct.\<close>

definition zero_wallet :: "('w, 'd, 'f, 'h) LiveWallet" where
  "zero_wallet = \<lparr>w_ID = 0, w_Name = [], w_DbDriver = [], EncryptedSeed = None, IsRestored = False, HasDiscoveredAccounts = False,
     PrivatePassphraseType = 0, dataDir = [], internal = None, CreatedAt = 0, chainParams = [], loader = None, txDB = None,
     awaiting = False, cancelFuncs = [], cancelled = []\<rparr>"

definition to_bytes :: "string \<Rightarrow> bytes" where
  "to_bytes s = map (\<lambda>c. of_nat (of_char c)) s"

definition ErrEmptySeed :: string where "ErrEmptySeed = ''empty_seed''"
definition ErrWalletIsRestored :: string where "ErrWalletIsRestored = ''wallet_is_restored''"
definition ErrWalletDatabaseInUse :: string where "ErrWalletDatabaseInUse = ''wallet_db_in_use''"

section \<open>A wallet (\<open>wallet.go\<close>, \<open>utils.go\<close>)\<close>

definition initWalletLoader :: "('e, 'd, 'w, 'f, 'h) world \<Rightarrow> string \<Rightarrow> string \<Rightarrow> string \<Rightarrow> (unit, 'd, 'w, 'f) Loader" where
  "initWalletLoader W params walletDataDir walletDbDriver =
     (let so = \<lparr>so_VotingEnabled = False, so_TicketFee = DefaultRelayFee W, so_AddressReuse = False, so_VotingAddress = None,
        so_PoolAddress = None, so_PoolFees = ZeroFee W, so_StakePoolColdExtKey = []\<rparr>;
        l = NewLoader params walletDataDir so 20 False (DefaultRelayFee W) (DefaultAccountGapLimit W) False
      in if walletDbDriver \<noteq> [] then SetDatabaseDriver l walletDbDriver else l)"

text \<open>The new context is the last one.\<close>

definition shutdownContext :: "('w, 'd, 'f, 'h) LiveWallet \<Rightarrow> ('w, 'd, 'f, 'h) LiveWallet" where
  "shutdownContext w = w\<lparr>cancelFuncs := cancelFuncs w @ [length (cancelFuncs w)]\<rparr>"

definition contextWithShutdownCancel :: "('s, 'w, 'd, 'f, 'h, 'e) live_mw \<Rightarrow> ('s, 'w, 'd, 'f, 'h, 'e) live_mw" where
  "contextWithShutdownCancel mw = mw\<lparr>mw_cancelFuncs := mw_cancelFuncs mw @ [length (mw_cancelFuncs mw)]\<rparr>"

definition listenForShutdown :: "('s, 'w, 'd, 'f, 'h, 'e) live_mw \<Rightarrow> ('s, 'w, 'd, 'f, 'h, 'e) live_mw" where
  "listenForShutdown mw = mw\<lparr>mw_cancelFuncs := [], mw_cancelled := [], mw_awaiting := True\<rparr>"

definition prepare :: "('e, 'd, 'w, 'f, 'h) world \<Rightarrow> string \<Rightarrow> string \<Rightarrow> ('w, 'd, 'f, 'h) LiveWallet \<Rightarrow> 'e \<Rightarrow> ('w, 'd, 'f, 'h) LiveWallet \<times> 'e \<times> err option" where
  "prepare W rootDirectory params w e =
     (let w1 = w\<lparr>chainParams := params, dataDir := rootDirectory @ ''/'' @ itoa (w_ID w)\<rparr> in
      case Initialize (wd_storm W) (wd_fs W) e (dataDir w1 @ ''/'' @ DbName) of
        (Inl er, e1) \<Rightarrow> (w1\<lparr>txDB := None\<rparr>, e1, Some er)
      | (Inr db, e1) \<Rightarrow>
          (w1\<lparr>txDB := Some db, loader := Some (initWalletLoader W params (dataDir w1) (w_DbDriver w1)),
              cancelFuncs := [], cancelled := [], awaiting := True\<rparr>, e1, None))"

text \<open>The errors of closing are only logged.\<close>

definition Shutdown :: "('e, 'd, 'w, 'f, 'h) world \<Rightarrow> ('w, 'd, 'f, 'h) LiveWallet \<Rightarrow> 'e \<Rightarrow> (('w, 'd, 'f, 'h) LiveWallet \<times> 'e) result option" where
  "Shutdown W w e =
     (if \<not> awaiting w then None
      else let w1 = w\<lparr>awaiting := False, cancelled := cancelFuncs w\<rparr> in
        case loader w1 of
          None \<Rightarrow> Some (Inl nil_panic)
        | Some l \<Rightarrow>
            let (r, l', e1) = (if snd (LoadedWallet l) then UnloadWallet (wd_loader W) l e else (None, l, e));
                e2 = (case txDB w1 of None \<Rightarrow> e1 | Some db \<Rightarrow> fst (sf_Close (wd_storm W) e1 db))
            in (case r of Some (Panic m) \<Rightarrow> Some (Inl (Panic m)) | _ \<Rightarrow> Some (Inr (w1\<lparr>loader := Some l'\<rparr>, e2))))"

definition WalletCreationTimeInMillis :: "('w, 'd, 'f, 'h) LiveWallet \<Rightarrow> int result" where
  "WalletCreationTimeInMillis w = (if IsRestored w then Inl (New ErrWalletIsRestored) else Inr (quot (CreatedAt w) 1000000))"

definition NetType :: "('w, 'd, 'f, 'h) LiveWallet \<Rightarrow> string" where
  "NetType w = chainParams w"

definition live_WalletExists :: "('e, 'd, 'w, 'f, 'h) world \<Rightarrow> ('w, 'd, 'f, 'h) LiveWallet \<Rightarrow> 'e \<Rightarrow> bool result" where
  "live_WalletExists W w e = (case loader w of None \<Rightarrow> Inl nil_panic | Some l \<Rightarrow> WalletExists (wd_loader W) l e)"

text \<open>The result of a call of the loader: its wallet becomes \<open>internal\<close>.\<close>

definition adopt :: "('w, 'd, 'f, 'h) LiveWallet \<Rightarrow> 'w result \<times> (unit, 'd, 'w, 'f) Loader \<times> 'e \<times> (unit \<times> 'w) list \<Rightarrow> ('w, 'd, 'f, 'h) LiveWallet \<times> 'e \<times> err option" where
  "adopt w r =
     (case r of
        (Inl er, l, e, _) \<Rightarrow> (w\<lparr>loader := Some l\<rparr>, e, Some er)
      | (Inr h, l, e, _) \<Rightarrow> (w\<lparr>loader := Some l, internal := Some h\<rparr>, e, None))"

definition createWallet :: "('e, 'd, 'w, 'f, 'h) world \<Rightarrow> string \<Rightarrow> string \<Rightarrow> ('w, 'd, 'f, 'h) LiveWallet \<Rightarrow> 'e \<Rightarrow> ('w, 'd, 'f, 'h) LiveWallet \<times> 'e \<times> err option" where
  "createWallet W privatePassphrase seedMnemonic w e =
     (if seedMnemonic = [] then (w, e, Some (New ErrEmptySeed))
      else case wd_DecodeUserInput W seedMnemonic of
        Inl er \<Rightarrow> (w, e, Some er)
      | Inr seed \<Rightarrow>
          (case loader w of
             None \<Rightarrow> (w, e, Some nil_panic)
           | Some l \<Rightarrow> adopt (shutdownContext w) (CreateNewWallet (wd_loader W) l e
               (to_bytes (InsecurePubPassphrase W)) (to_bytes privatePassphrase) seed)))"

definition createWatchingOnlyWallet :: "('e, 'd, 'w, 'f, 'h) world \<Rightarrow> string \<Rightarrow> ('w, 'd, 'f, 'h) LiveWallet \<Rightarrow> 'e \<Rightarrow> ('w, 'd, 'f, 'h) LiveWallet \<times> 'e \<times> err option" where
  "createWatchingOnlyWallet W extendedPublicKey w e =
     (case loader w of
        None \<Rightarrow> (w, e, Some nil_panic)
      | Some l \<Rightarrow> adopt (shutdownContext w) (CreateWatchingOnlyWallet (wd_loader W) l e extendedPublicKey (to_bytes (InsecurePubPassphrase W))))"

definition IsWatchingOnlyWallet :: "('e, 'd, 'w, 'f, 'h) world \<Rightarrow> ('w, 'd, 'f, 'h) LiveWallet \<Rightarrow> 'e \<Rightarrow> bool result" where
  "IsWatchingOnlyWallet W w e =
     (case loader w of
        None \<Rightarrow> Inl nil_panic
      | Some l \<Rightarrow> (case l_wallet l of None \<Rightarrow> Inr False | Some h \<Rightarrow> Inr (wd_WatchingOnly W e h)))"

definition openWallet :: "('e, 'd, 'w, 'f, 'h) world \<Rightarrow> ('w, 'd, 'f, 'h) LiveWallet \<Rightarrow> 'e \<Rightarrow> ('w, 'd, 'f, 'h) LiveWallet \<times> 'e \<times> err option" where
  "openWallet W w e =
     (case loader w of
        None \<Rightarrow> (w, e, Some nil_panic)
      | Some l \<Rightarrow>
          (case adopt (shutdownContext w) (OpenExistingWallet (wd_loader W) l e (to_bytes (InsecurePubPassphrase W))) of
             (w', e', er) \<Rightarrow> (w', e', map_option translateError er)))"

definition WalletOpened :: "('w, 'd, 'f, 'h) LiveWallet \<Rightarrow> bool" where
  "WalletOpened w = (internal w \<noteq> None)"

text \<open>The third result is the passphrase's array afterwards.\<close>

definition UnlockWallet :: "('e, 'd, 'w, 'f, 'h) world \<Rightarrow> ('w, 'd, 'f, 'h) LiveWallet \<Rightarrow> 'e \<Rightarrow> bytes \<Rightarrow> ('w, 'd, 'f, 'h) LiveWallet \<times> 'e \<times> bytes \<times> err option" where
  "UnlockWallet W w e privPass =
     (case loader w of
        None \<Rightarrow> (w, e, privPass, Some nil_panic)
      | Some l \<Rightarrow>
          (case l_wallet l of
             None \<Rightarrow> (w, e, privPass, Some (New ''wallet has not been loaded''))
           | Some h \<Rightarrow>
               (case wd_Unlock W e h privPass of
                  (e', er) \<Rightarrow> (shutdownContext w, e', zeroes privPass, map_option translateError er))))"

definition live_LockWallet :: "('e, 'd, 'w, 'f, 'h) world \<Rightarrow> ('w, 'd, 'f, 'h) LiveWallet \<Rightarrow> 'e \<Rightarrow> 'e result" where
  "live_LockWallet W w e =
     (case internal w of None \<Rightarrow> Inl nil_panic | Some h \<Rightarrow> Inr (if \<not> wd_Locked W e h then wd_Lock W e h else e))"

definition IsLocked :: "('e, 'd, 'w, 'f, 'h) world \<Rightarrow> ('w, 'd, 'f, 'h) LiveWallet \<Rightarrow> 'e \<Rightarrow> bool result" where
  "IsLocked W w e = (case internal w of None \<Rightarrow> Inl nil_panic | Some h \<Rightarrow> Inr (wd_Locked W e h))"

text \<open>The check of the passphrase in \<open>deleteWallet\<close>.\<close>

definition authorize_delete :: "('e, 'd, 'w, 'f, 'h) world \<Rightarrow> ('w, 'd, 'f, 'h) LiveWallet \<Rightarrow> 'e \<Rightarrow> bytes \<Rightarrow> ('w, 'd, 'f, 'h) LiveWallet \<times> 'e \<times> err option" where
  "authorize_delete W w e privatePassphrase =
     (case loader w of
        None \<Rightarrow> (w, e, Some nil_panic)
      | Some l \<Rightarrow>
          (case l_wallet l of
             None \<Rightarrow> (w, e, Some (New ErrWalletNotLoaded))
           | Some h \<Rightarrow>
               if wd_WatchingOnly W e h then (w, e, None)
               else (case internal w of
                  None \<Rightarrow> (w, e, Some nil_panic)
                | Some i \<Rightarrow>
                    (case wd_Unlock W e i privatePassphrase of
                       (e1, Some er) \<Rightarrow> (shutdownContext w, e1, Some (translateError er))
                     | (e1, None) \<Rightarrow> (shutdownContext w, wd_Lock W e1 i, None)))))"

definition deleteWallet ::
  "('e, 'd, 'w, 'f, 'h) world \<Rightarrow> ('w, 'd, 'f, 'h) LiveWallet \<Rightarrow> 'e \<Rightarrow> bytes \<Rightarrow> (('w, 'd, 'f, 'h) LiveWallet \<times> 'e \<times> bytes \<times> err option) option" where
  "deleteWallet W w e privatePassphrase =
     (case authorize_delete W w e privatePassphrase of
        (w1, e1, Some er) \<Rightarrow> Some (w1, e1, zeroes privatePassphrase, Some er)
      | (w1, e1, None) \<Rightarrow>
          (case Shutdown W w1 e1 of
             None \<Rightarrow> None
           | Some (Inl er) \<Rightarrow> Some (w1, e1, zeroes privatePassphrase, Some er)
           | Some (Inr (w2, e2)) \<Rightarrow>
               (case RemoveAll (wd_fs W) e2 (dataDir w2) of
                  Inl er \<Rightarrow> Some (w2, e2, zeroes privatePassphrase, Some er)
                | Inr e3 \<Rightarrow> Some (w2, e3, zeroes privatePassphrase, None))))"

definition DecryptSeed :: "crypt \<Rightarrow> ('w, 'd, 'f, 'h) LiveWallet \<Rightarrow> bytes \<Rightarrow> string result" where
  "DecryptSeed C w privatePassphrase =
     (if EncryptedSeed w = None then Inl (New ErrInvalid) else decryptWalletSeed C privatePassphrase (EncryptedSeed w))"

section \<open>The registry (\<open>multiwallet.go\<close>, \<open>multiwallet_utils.go\<close>)\<close>

text \<open>The order in which Go happens to range over the wallets is a list of their ids.\<close>

fun open_all :: "('e, 'd, 'w, 'f, 'h) world \<Rightarrow> nat list \<Rightarrow> ('s, 'w, 'd, 'f, 'h, 'e) live_mw \<Rightarrow> ('s, 'w, 'd, 'f, 'h, 'e) live_mw \<times> err option" where
  "open_all W [] mw = (mw, None)"
| "open_all W (i # is) mw =
     (case wallets mw i of
        None \<Rightarrow> (mw, Some nil_panic)
      | Some w \<Rightarrow>
          (case openWallet W w (mw_fs mw) of
             (w', e', er) \<Rightarrow>
               let mw' = mw\<lparr>wallets := (wallets mw)(i \<mapsto> w'), mw_fs := e'\<rparr> in
               (case er of Some x \<Rightarrow> (mw', Some x) | None \<Rightarrow> open_all W is mw')))"

definition OpenWallets ::
  "('e, 'd, 'w, 'f, 'h) world \<Rightarrow> 's kv \<Rightarrow> crypt \<Rightarrow> nat list \<Rightarrow> ('s, 'w, 'd, 'f, 'h, 'e) live_mw \<Rightarrow> bytes \<Rightarrow> ('s, 'w, 'd, 'f, 'h, 'e) live_mw \<times> err option" where
  "OpenWallets W K C order mw startupPassphrase =
     (if syncing_now mw then (mw, Some (New ErrSyncAlreadyInProgress))
      else case VerifyStartupPassphrase K C (mw_db mw) startupPassphrase of
        Some er \<Rightarrow> (mw, Some er)
      | None \<Rightarrow> open_all W order mw)"

fun all_watch_only :: "('e, 'd, 'w, 'f, 'h) world \<Rightarrow> 'e \<Rightarrow> ('w, 'd, 'f, 'h) LiveWallet list \<Rightarrow> bool result" where
  "all_watch_only W e [] = Inr True"
| "all_watch_only W e (w # ws) = bind_res (IsWatchingOnlyWallet W w e) (\<lambda>b. if \<not> b then Inr False else all_watch_only W e ws)"

definition AllWalletsAreWatchOnly :: "('e, 'd, 'w, 'f, 'h) world \<Rightarrow> 'e \<Rightarrow> ('w, 'd, 'f, 'h) LiveWallet list \<Rightarrow> bool result" where
  "AllWalletsAreWatchOnly W e ws = (if ws = [] then Inl (New ErrInvalid) else all_watch_only W e ws)"

definition NumWalletsNeedingSeedBackup :: "('w, 'd, 'f, 'h) LiveWallet list \<Rightarrow> int" where
  "NumWalletsNeedingSeedBackup ws = int32_of (int (length (filter (\<lambda>w. WalletOpened w \<and> EncryptedSeed w \<noteq> None) ws)))"

definition mw_UnlockWallet ::
  "('e, 'd, 'w, 'f, 'h) world \<Rightarrow> ('s, 'w, 'd, 'f, 'h, 'e) live_mw \<Rightarrow> nat \<Rightarrow> bytes \<Rightarrow> ('s, 'w, 'd, 'f, 'h, 'e) live_mw \<times> bytes \<times> err option" where
  "mw_UnlockWallet W mw walletID privPass =
     (case WalletWithID mw walletID of
        None \<Rightarrow> (mw, privPass, Some (New ErrNotExist))
      | Some w \<Rightarrow>
          (case UnlockWallet W w (mw_fs mw) privPass of
             (w', e', p, er) \<Rightarrow> (mw\<lparr>wallets := (wallets mw)(walletID \<mapsto> w'), mw_fs := e'\<rparr>, p, er)))"

definition DeleteWallet ::
  "('e, 'd, 'w, 'f, 'h) world \<Rightarrow> ('s, 'w, 'd, 'f, 'h) live_db \<Rightarrow> ('s, 'w, 'd, 'f, 'h, 'e) live_mw \<Rightarrow> nat \<Rightarrow> bytes \<Rightarrow>
   (('s, 'w, 'd, 'f, 'h, 'e) live_mw \<times> bytes \<times> err option) option" where
  "DeleteWallet W D mw walletID privPass =
     (if network_connected mw then Some (mw, privPass, Some (New ErrSyncAlreadyInProgress))
      else case WalletWithID mw walletID of
        None \<Rightarrow> Some (mw, privPass, Some (New ErrNotExist))
      | Some w \<Rightarrow>
          (case deleteWallet W w (mw_fs mw) privPass of
             None \<Rightarrow> None
           | Some (w', e', p, er) \<Rightarrow>
               let mw' = mw\<lparr>wallets := (wallets mw)(walletID \<mapsto> w'), mw_fs := e'\<rparr> in
               (case er of
                  Some x \<Rightarrow> Some (mw', p, Some (translateError x))
                | None \<Rightarrow>
                    (case ws_DeleteStruct D (mw_db mw) w' of
                       Inl x \<Rightarrow> Some (mw', p, Some (translateError x))
                     | Inr s \<Rightarrow> Some (mw'\<lparr>mw_db := s, wallets := (wallets mw)(walletID := None)\<rparr>, p, None)))))"

definition mw_CreateWatchOnlyWallet ::
  "('e, 'd, 'w, 'f, 'h) world \<Rightarrow> ('s, 'w, 'd, 'f, 'h) live_db \<Rightarrow> ('s, 'w, 'd, 'f, 'h, 'e) live_mw \<Rightarrow> string \<Rightarrow> string \<Rightarrow>
   (('w, 'd, 'f, 'h) LiveWallet result \<times> ('s, 'w, 'd, 'f, 'h, 'e) live_mw) option" where
  "mw_CreateWatchOnlyWallet W D mw walletName extendedPublicKey =
     saveNewWallet D (wd_fs W)
       (\<lambda>w e. case prepare W (rootDir mw) (mw_chainParams mw) w e of
          (w1, e1, Some er) \<Rightarrow> (w1, e1, Some er)
        | (w1, e1, None) \<Rightarrow> createWatchingOnlyWallet W extendedPublicKey w1 e1)
       mw (zero_wallet\<lparr>w_Name := walletName, IsRestored := True, HasDiscoveredAccounts := True\<rparr>)"

text \<open>The set-up that a new and a restored wallet share.\<close>

definition create_setup :: "('e, 'd, 'w, 'f, 'h) world \<Rightarrow> ('s, 'w, 'd, 'f, 'h, 'e) live_mw \<Rightarrow> string \<Rightarrow> string \<Rightarrow> ('w, 'd, 'f, 'h) LiveWallet \<Rightarrow> 'e \<Rightarrow> ('w, 'd, 'f, 'h) LiveWallet \<times> 'e \<times> err option" where
  "create_setup W mw privatePassphrase seed w e =
     (case prepare W (rootDir mw) (mw_chainParams mw) w e of
        (w1, e1, Some er) \<Rightarrow> (w1, e1, Some er)
      | (w1, e1, None) \<Rightarrow> createWallet W privatePassphrase seed w1 e1)"

definition mw_CreateNewWallet ::
  "('e, 'd, 'w, 'f, 'h) world \<Rightarrow> crypt \<Rightarrow> ('s, 'w, 'd, 'f, 'h) live_db \<Rightarrow> bytes result \<Rightarrow> (bytes \<Rightarrow> string) \<Rightarrow> int \<Rightarrow>
   ('s, 'w, 'd, 'f, 'h, 'e) live_mw \<Rightarrow> string \<Rightarrow> string \<Rightarrow> int \<Rightarrow> (('w, 'd, 'f, 'h) LiveWallet result \<times> ('s, 'w, 'd, 'f, 'h, 'e) live_mw) option" where
  "mw_CreateNewWallet W C D random EncodeMnemonic now mw walletName privatePassphrase privatePassphraseType =
     (case GenerateSeed random EncodeMnemonic of
        Inl er \<Rightarrow> Some (Inl er, mw)
      | Inr seed \<Rightarrow>
          (case encryptWalletSeed C (to_bytes privatePassphrase) seed of
             Inl er \<Rightarrow> Some (Inl er, mw)
           | Inr encryptedSeed \<Rightarrow>
               saveNewWallet D (wd_fs W) (create_setup W mw privatePassphrase seed) mw
                 (zero_wallet\<lparr>w_Name := walletName, CreatedAt := now, EncryptedSeed := Some encryptedSeed,
                    PrivatePassphraseType := privatePassphraseType, HasDiscoveredAccounts := True\<rparr>)))"

definition RestoreWallet ::
  "('e, 'd, 'w, 'f, 'h) world \<Rightarrow> ('s, 'w, 'd, 'f, 'h) live_db \<Rightarrow> ('s, 'w, 'd, 'f, 'h, 'e) live_mw \<Rightarrow> string \<Rightarrow> string \<Rightarrow> string \<Rightarrow> int \<Rightarrow>
   (('w, 'd, 'f, 'h) LiveWallet result \<times> ('s, 'w, 'd, 'f, 'h, 'e) live_mw) option" where
  "RestoreWallet W D mw walletName seedMnemonic privatePassphrase privatePassphraseType =
     saveNewWallet D (wd_fs W) (create_setup W mw privatePassphrase seedMnemonic) mw
       (zero_wallet\<lparr>w_Name := walletName, PrivatePassphraseType := privatePassphraseType, IsRestored := True, HasDiscoveredAccounts := False\<rparr>)"

text \<open>The wallet is unloaded after \<open>use\<close> (the argument \<open>onLoaded\<close>), whatever that returned.\<close>

definition loadWalletTemporarily ::
  "('e, 'd, 'w, 'f, 'h) world \<Rightarrow> string \<Rightarrow> string \<Rightarrow> string \<Rightarrow> string \<Rightarrow> ('e \<Rightarrow> 'w \<Rightarrow> 'e \<times> err option) option \<Rightarrow> 'e \<Rightarrow> 'e \<times> err option" where
  "loadWalletTemporarily W params driver walletDataDir walletPublicPass use e =
     (let pass = (if walletPublicPass = [] then InsecurePubPassphrase W else walletPublicPass);
          walletLoader = initWalletLoader W params walletDataDir driver in
      case OpenExistingWallet (wd_loader W) walletLoader e (to_bytes pass) of
        (Inl er, l, e1, _) \<Rightarrow> (e1, Some (translateError er))
      | (Inr h, l, e1, _) \<Rightarrow>
          (case (case use of None \<Rightarrow> (e1, None) | Some fn \<Rightarrow> fn e1 h) of
             (e2, er) \<Rightarrow> (snd (snd (UnloadWallet (wd_loader W) l e2)), er)))"

definition move_back :: "'e fs \<Rightarrow> string \<Rightarrow> string \<Rightarrow> 'e \<Rightarrow> 'e" where
  "move_back F src dest e = (case moveFile F e src dest of Inl _ \<Rightarrow> e | Inr e' \<Rightarrow> e')"

text \<open>Preparing and opening the linked wallet, once its files were moved.\<close>

definition link_open ::
  "('e, 'd, 'w, 'f, 'h) world \<Rightarrow> ('s, 'w, 'd, 'f, 'h, 'e) live_mw \<Rightarrow> string \<Rightarrow> ('w, 'd, 'f, 'h) LiveWallet \<Rightarrow> 'e \<Rightarrow> ('w, 'd, 'f, 'h) LiveWallet \<times> 'e \<times> err option" where
  "link_open W mw originalPubPass w e =
     (case prepare W (rootDir mw) (mw_chainParams mw) w e of
        (w1, e1, Some er) \<Rightarrow> (w1, e1, Some er)
      | (w1, e1, None) \<Rightarrow>
          if originalPubPass = [] \<or> originalPubPass = InsecurePubPassphrase W then openWallet W w1 e1
          else (case loadWalletTemporarily W (mw_chainParams mw) (dbDriver mw) (dataDir w1) originalPubPass
                  (Some (\<lambda>e h. wd_ChangePublicPassphrase W e h (to_bytes originalPubPass) (to_bytes (InsecurePubPassphrase W)))) e1 of
             (e2, Some er) \<Rightarrow> (w1, e2, Some er)
           | (e2, None) \<Rightarrow> openWallet W w1 e2))"

definition link_setup ::
  "('e, 'd, 'w, 'f, 'h) world \<Rightarrow> ('s, 'w, 'd, 'f, 'h, 'e) live_mw \<Rightarrow> string \<Rightarrow> string \<Rightarrow> ('w, 'd, 'f, 'h) LiveWallet \<Rightarrow> 'e \<Rightarrow> ('w, 'd, 'f, 'h) LiveWallet \<times> 'e \<times> err option" where
  "link_setup W mw walletDataDir originalPubPass w e =
     (let F = wd_fs W;
          currentWalletDb = walletDataDir @ ''/'' @ walletDbName; newWalletDb = dataDir w @ ''/'' @ walletDbName;
          currentTxDb = walletDataDir @ ''/'' @ DbName; newTxDb = dataDir w @ ''/'' @ DbName in
      case moveFile F e currentWalletDb newWalletDb of
        Inl er \<Rightarrow> (w, e, Some er)
      | Inr e1 \<Rightarrow>
          (case moveFile F e1 currentTxDb newTxDb of
             Inl er \<Rightarrow> (w, e1, Some er)
           | Inr e2 \<Rightarrow>
               (case link_open W mw originalPubPass w e2 of
                  (w1, e3, Some er) \<Rightarrow> (w1, move_back F newTxDb currentTxDb (move_back F newWalletDb currentWalletDb e3), Some er)
                | (w1, e3, None) \<Rightarrow> (w1, e3, None))))"

definition LinkExistingWallet ::
  "('e, 'd, 'w, 'f, 'h) world \<Rightarrow> ('s, 'w, 'd, 'f, 'h) live_db \<Rightarrow> ('s, 'w, 'd, 'f, 'h, 'e) live_mw \<Rightarrow> string \<Rightarrow> string \<Rightarrow> string \<Rightarrow> int \<Rightarrow>
   (('w, 'd, 'f, 'h) LiveWallet result \<times> ('s, 'w, 'd, 'f, 'h, 'e) live_mw) option" where
  "LinkExistingWallet W D mw walletName walletDataDir originalPubPass privatePassphraseType =
     (if \<not> WalletExistsAt (wd_fs W) (mw_fs mw) walletDataDir then Some (Inl (New ErrNotExist), mw)
      else let mw1 = contextWithShutdownCancel mw in
        case loadWalletTemporarily W (mw_chainParams mw) (dbDriver mw) walletDataDir originalPubPass None (mw_fs mw) of
          (e1, Some er) \<Rightarrow> Some (Inl er, mw1\<lparr>mw_fs := e1\<rparr>)
        | (e1, None) \<Rightarrow>
            saveNewWallet D (wd_fs W) (link_setup W mw walletDataDir originalPubPass) (mw1\<lparr>mw_fs := e1\<rparr>)
              (zero_wallet\<lparr>w_Name := walletName, PrivatePassphraseType := privatePassphraseType, IsRestored := True,
                 HasDiscoveredAccounts := False\<rparr>))"

definition markWalletAsDiscoveredAccounts ::
  "('s, 'w, 'd, 'f, 'h) live_db \<Rightarrow> ('s, 'w, 'd, 'f, 'h, 'e) live_mw \<Rightarrow> nat \<Rightarrow> ('s, 'w, 'd, 'f, 'h, 'e) live_mw \<times> err option" where
  "markWalletAsDiscoveredAccounts D mw walletID =
     (case WalletWithID mw walletID of
        None \<Rightarrow> (mw, Some (New ErrNotExist))
      | Some w \<Rightarrow>
          let w' = w\<lparr>HasDiscoveredAccounts := True\<rparr>; mw' = mw\<lparr>wallets := (wallets mw)(walletID \<mapsto> w')\<rparr> in
          (case ws_Save D (mw_db mw) w' of
             Inl er \<Rightarrow> (mw', Some er)
           | Inr (_, s) \<Rightarrow> (mw'\<lparr>mw_db := s\<rparr>, None)))"

text \<open>\<open>MultiWallet.Shutdown\<close>, from the shutdown signal on; \<open>CancelRescan\<close> and \<open>CancelSync\<close> come in between.\<close>

definition signal_shutdown :: "('s, 'w, 'd, 'f, 'h, 'e) live_mw \<Rightarrow> ('s, 'w, 'd, 'f, 'h, 'e) live_mw option" where
  "signal_shutdown mw = (if \<not> mw_awaiting mw then None else Some (mw\<lparr>mw_awaiting := False, mw_cancelled := mw_cancelFuncs mw\<rparr>))"

fun shutdown_wallets :: "('e, 'd, 'w, 'f, 'h) world \<Rightarrow> nat list \<Rightarrow> ('s, 'w, 'd, 'f, 'h, 'e) live_mw \<Rightarrow> ('s, 'w, 'd, 'f, 'h, 'e) live_mw result option" where
  "shutdown_wallets W [] mw = Some (Inr mw)"
| "shutdown_wallets W (i # is) mw =
     (case wallets mw i of
        None \<Rightarrow> Some (Inl nil_panic)
      | Some w \<Rightarrow>
          (case Shutdown W w (mw_fs mw) of
             None \<Rightarrow> None
           | Some (Inl er) \<Rightarrow> Some (Inl er)
           | Some (Inr (w', e')) \<Rightarrow> shutdown_wallets W is (mw\<lparr>wallets := (wallets mw)(i \<mapsto> w'), mw_fs := e'\<rparr>)))"

text \<open>
  The size of the root directory: \<open>filepath.Walk\<close> calls the function for each file and directory below it,
  with its information or an error, and stops at the first error that the function returns.
\<close>

datatype visit = Unreadable err | Readable bool int

fun add_sizes :: "visit list \<Rightarrow> int \<Rightarrow> int \<times> err option" where
  "add_sizes [] acc = (acc, None)"
| "add_sizes (Unreadable er # vs) acc = (acc, Some er)"
| "add_sizes (Readable isDir n # vs) acc = add_sizes vs (if isDir then acc else int64_of (acc + n))"

definition RootDirFileSizeInBytes :: "(string \<Rightarrow> visit list) \<Rightarrow> ('s, 'w, 'd, 'f, 'h, 'e) live_mw \<Rightarrow> int \<times> err option" where
  "RootDirFileSizeInBytes visits mw = add_sizes (visits (rootDir mw)) 0"

lemma RootDirFileSizeInBytes_sum:
  assumes "visits (rootDir mw) = map (\<lambda>(isDir, n). Readable isDir n) fs"
  shows "RootDirFileSizeInBytes visits mw = (int64_of (sum_list (map snd (filter (\<lambda>(isDir, n). \<not> isDir) fs))), None)"
proof -
  have "add_sizes (map (\<lambda>(isDir, n). Readable isDir n) fs) (int64_of a) =
      (int64_of (a + sum_list (map snd (filter (\<lambda>(isDir, n). \<not> isDir) fs))), None)" for a
  proof (induction fs arbitrary: a)
    case (Cons f fs)
    obtain isDir n where f: "f = (isDir, n)" by fastforce
    have "int64_of (int64_of a + n) = int64_of (a + n)" by (rule int64_of_add_left)
    with Cons [of a] Cons [of "a + n"] show ?case by (simp add: f algebra_simps)
  qed simp
  from this [of 0] assms show ?thesis by (simp add: RootDirFileSizeInBytes_def int64_of_def)
qed

section \<open>Starting (\<open>NewMultiWallet\<close>)\<close>

definition lower_char :: "char \<Rightarrow> char" where
  "lower_char c = (if 65 \<le> (of_char c :: nat) \<and> (of_char c :: nat) \<le> 90 then char_of (of_char c + 32 :: nat) else c)"

text \<open>\<open>utils.ChainParams\<close> returns the name of the parameters; the two names are those of the chain library, in ASCII.\<close>

definition ChainParams :: "string \<Rightarrow> string \<Rightarrow> string \<Rightarrow> string result" where
  "ChainParams mainnet testnet netType =
     (if map lower_char netType = map lower_char mainnet then Inr mainnet
      else if map lower_char netType = map lower_char testnet then Inr testnet
      else Inl (New ''invalid net type''))"

record ('s, 'w, 'd, 'f, 'h, 'e) boot =
  bt_mainnet :: string
  bt_testnet :: string
  bt_MkdirAll :: "'e \<Rightarrow> string \<Rightarrow> 'e \<times> err option"
  bt_NewRotator :: "'e \<Rightarrow> string \<Rightarrow> 'e \<times> err option"
  bt_Open :: "'e \<Rightarrow> string \<Rightarrow> (open_error + 's) \<times> 'e"
  bt_Init :: "'s \<Rightarrow> 's result"
  bt_Find :: "'s \<Rightarrow> kv_err + ('w, 'd, 'f, 'h) LiveWallet list"

definition initLogRotator :: "('s, 'w, 'd, 'f, 'h, 'e) boot \<Rightarrow> 'e \<Rightarrow> string \<Rightarrow> 'e \<times> err option" where
  "initLogRotator B e logFile =
     (case bt_NewRotator B e logFile of (e', er) \<Rightarrow> (e', map_option (\<lambda>_. New ''failed to create file rotator'') er))"

fun prepare_all ::
  "('e, 'd, 'w, 'f, 'h) world \<Rightarrow> ('w, 'd, 'f, 'h) LiveWallet list \<Rightarrow> ('s, 'w, 'd, 'f, 'h, 'e) live_mw \<Rightarrow> ('s, 'w, 'd, 'f, 'h, 'e) live_mw result \<times> 'e" where
  "prepare_all W [] mw = (Inr mw, mw_fs mw)"
| "prepare_all W (w # ws) mw =
     (case prepare W (rootDir mw) (mw_chainParams mw) w (mw_fs mw) of
        (w', e', Some er) \<Rightarrow> (Inl er, e')
      | (w', e', None) \<Rightarrow> prepare_all W ws (mw\<lparr>wallets := (wallets mw)(w_ID w \<mapsto> w'), mw_fs := e'\<rparr>))"

text \<open>The wallets saved in the database, prepared and registered.\<close>

definition load_wallets ::
  "('e, 'd, 'w, 'f, 'h) world \<Rightarrow> ('s, 'w, 'd, 'f, 'h, 'e) boot \<Rightarrow> string \<Rightarrow> string \<Rightarrow> string \<Rightarrow> 's \<Rightarrow> 'e \<Rightarrow>
   ('s, 'w, 'd, 'f, 'h, 'e) live_mw result \<times> 'e" where
  "load_wallets W B dir driver params s e =
     (case bt_Find B s of
        Inl (KvErr m) \<Rightarrow> (Inl (New m), e)
      | found \<Rightarrow>
          (case prepare_all W (case found of Inl _ \<Rightarrow> [] | Inr ws \<Rightarrow> ws)
             \<lparr>mw_db = s, wallets = Map.empty, mw_fs = e, rootDir = dir, dbDriver = driver, mw_chainParams = params,
              syncing_now = False, synced_now = False, mw_awaiting = False, mw_cancelFuncs = [], mw_cancelled = []\<rparr> of
             (Inl er, e') \<Rightarrow> (Inl er, e')
           | (Inr mw, e') \<Rightarrow> (Inr (listenForShutdown mw), e')))"

text \<open>What is left of the world is returned with an error too: the opened databases stay open.\<close>

definition NewMultiWallet ::
  "('e, 'd, 'w, 'f, 'h) world \<Rightarrow> ('s, 'w, 'd, 'f, 'h, 'e) boot \<Rightarrow> 'e \<Rightarrow> string \<Rightarrow> string \<Rightarrow> string \<Rightarrow>
   ('s, 'w, 'd, 'f, 'h, 'e) live_mw result \<times> 'e" where
  "NewMultiWallet W B e rootDirectory driver netType =
     (case ChainParams (bt_mainnet B) (bt_testnet B) netType of
        Inl er \<Rightarrow> (Inl er, e)
      | Inr params \<Rightarrow>
          let dir = rootDirectory @ ''/'' @ netType in
          case bt_MkdirAll B e dir of
            (e1, Some er) \<Rightarrow> (Inl (New ''failed to create rootDir''), e1)
          | (e1, None) \<Rightarrow>
              (case initLogRotator B e1 (dir @ ''/dcrlibwallet.log'') of
                 (e2, Some er) \<Rightarrow> (Inl (New ''failed to init logRotator''), e2)
               | (e2, None) \<Rightarrow>
                   (case bt_Open B e2 (dir @ ''/wallets.db'') of
                      (Inl OpenTimeout, e3) \<Rightarrow> (Inl (New ErrWalletDatabaseInUse), e3)
                    | (Inl (OpenError m), e3) \<Rightarrow> (Inl (New (''error opening wallets database: '' @ m)), e3)
                    | (Inr s, e3) \<Rightarrow>
                        (case bt_Init B s of
                           Inl er \<Rightarrow> (Inl er, e3)
                         | Inr s1 \<Rightarrow>
                             load_wallets W B dir driver params s1 e3))))"

section \<open>What the loader does to a wallet\<close>

definition loader_ok :: "(unit, 'd, 'w, 'f) Loader \<Rightarrow> bool" where
  "loader_ok l \<longleftrightarrow> (l_wallet l = None \<longleftrightarrow> l_db l = None)"

definition loads :: "'w result \<times> (unit, 'd, 'w, 'f) Loader \<times> 'e \<times> (unit \<times> 'w) list \<Rightarrow> (unit, 'd, 'w, 'f) Loader \<Rightarrow> bool" where
  "loads r l \<longleftrightarrow> (case r of (Inl er, l', _) \<Rightarrow> l' = l | (Inr h, l', _) \<Rightarrow> l_wallet l = None \<and> l_wallet l' = Some h \<and> l_db l' \<noteq> None)"

lemma create_wallet_loads: "loads (create_wallet L l e a b c f pub) l"
  by (auto simp: loads_def create_wallet_def onLoaded_def split: prod.splits sum.splits option.splits bool.splits)

lemma loader_loads [simp]:
  "loads (CreateNewWallet L l e pub priv seed) l" "loads (CreateWatchingOnlyWallet L l e key pub) l"
  "loads (OpenExistingWallet L l e pub) l"
  by (simp_all add: CreateNewWallet_def CreateWatchingOnlyWallet_def create_wallet_loads)
    (auto simp: loads_def OpenExistingWallet_def open_check_def open_finish_def onLoaded_def split: prod.splits sum.splits option.splits)

lemma UnloadWallet_cases:
  assumes "UnloadWallet L l e = (r, l', e')" and "loader_ok l"
  shows "loader_ok l' \<and> (l' = l \<or> l_wallet l' = None) \<and> (r = None \<longrightarrow> l_wallet l' = None) \<and>
    (\<forall>m. r = Some (Panic m) \<longrightarrow> (\<exists>d. snd (CloseDB L e d) = Some (Panic m)))"
proof (cases "l_db l")
  case None
  with assms show ?thesis by (auto simp: UnloadWallet_def loader_ok_def)
next
  case (Some d)
  obtain e1 x where c: "CloseDB L e d = (e1, x)" by fastforce
  then have "\<forall>m. x = Some (Panic m) \<longrightarrow> (\<exists>d. snd (CloseDB L e d) = Some (Panic m))" by (metis snd_conv)
  with c show ?thesis using assms Some by (auto simp: UnloadWallet_def loader_ok_def split: option.splits if_splits)
qed

text \<open>A wallet of the registry: prepared, and the wallet its loader has loaded is the one it uses.\<close>

definition live_ok :: "('w, 'd, 'f, 'h) LiveWallet \<Rightarrow> bool" where
  "live_ok w \<longleftrightarrow> (\<exists>l. loader w = Some l \<and> loader_ok l \<and> (\<forall>h. l_wallet l = Some h \<longrightarrow> internal w = Some h))"

lemma live_okE:
  assumes "live_ok w"
  obtains l where "loader w = Some l" "loader_ok l" "\<And>h. l_wallet l = Some h \<Longrightarrow> internal w = Some h"
  using assms by (auto simp: live_ok_def)

lemma live_ok_more [simp]:
  "live_ok (w\<lparr>cancelFuncs := cs\<rparr>) = live_ok w" "live_ok (w\<lparr>cancelled := ds\<rparr>) = live_ok w" "live_ok (w\<lparr>awaiting := a\<rparr>) = live_ok w"
  "live_ok (shutdownContext w) = live_ok w" "live_ok (w\<lparr>w_Name := n\<rparr>) = live_ok w" "live_ok (w\<lparr>EncryptedSeed := s\<rparr>) = live_ok w"
  "live_ok (w\<lparr>HasDiscoveredAccounts := b\<rparr>) = live_ok w" "live_ok (w\<lparr>PrivatePassphraseType := ty\<rparr>) = live_ok w"
  by (simp_all add: live_ok_def shutdownContext_def)

lemma adopt_ok:
  assumes "loads r l" and "loader_ok l" and "\<And>h. l_wallet l = Some h \<Longrightarrow> internal w = Some h" and "adopt w r = (w', e', er)"
  shows "live_ok w' \<and> (er = None \<longrightarrow> l_wallet l = None \<and> internal w' \<noteq> None \<and> (\<exists>l'. loader w' = Some l' \<and> l_wallet l' = internal w'))"
  using assms by (auto simp: adopt_def loads_def live_ok_def loader_ok_def split: prod.splits sum.splits)

lemma initWalletLoader_ok [simp]: "loader_ok (initWalletLoader W params dir driver)" "l_wallet (initWalletLoader W params dir driver) = None"
  by (simp_all add: initWalletLoader_def NewLoader_def SetDatabaseDriver_def loader_ok_def Let_def)

lemma prepare_ok: "prepare W r params w e = (w', e', None) \<Longrightarrow> live_ok w' \<and> awaiting w' \<and> internal w' = internal w \<and> w_ID w' = w_ID w \<and>
    (\<exists>l. loader w' = Some l \<and> l_wallet l = None) \<and> EncryptedSeed w' = EncryptedSeed w \<and> cancelFuncs w' = []"
  by (auto simp: prepare_def Let_def live_ok_def split: prod.splits sum.splits)

lemma saveNewWallet_registers:
  assumes "saveNewWallet D F setup mw w = Some (r, mw')"
  shows "(\<exists>er. r = Inl er \<and> wallets mw' = wallets mw) \<or>
    (\<exists>w' w1 s0 s1 w2 s2 e2 e3. r = Inr w' \<and> ws_Save D s0 w = Inr (w1, s1) \<and>
       ws_Save D s1 (complete_wallet (rootDir mw @ ''/'' @ itoa (w_ID w1)) (dbDriver mw) w1) = Inr (w2, s2) \<and>
       setup w2 e2 = (w', e3, None) \<and> wallets mw' = (wallets mw)(w_ID w' \<mapsto> w'))"
proof (cases r)
  case (Inr w')
  with saveNewWallet_spec [OF assms] show ?thesis unfolding Inr sum.case by blast
qed (use saveNewWallet_spec [OF assms] in simp)

text \<open>A wallet after a call of its loader: \<open>opened_by w w'\<close> says that the call loaded it.\<close>

definition opened_by :: "('w, 'd, 'f, 'h) LiveWallet \<Rightarrow> ('w, 'd, 'f, 'h) LiveWallet \<Rightarrow> bool" where
  "opened_by w w' \<longleftrightarrow> (\<exists>l l' h. loader w = Some l \<and> l_wallet l = None \<and> loader w' = Some l' \<and> l_wallet l' = Some h \<and> internal w' = Some h)"

definition same_wallet :: "('w, 'd, 'f, 'h) LiveWallet \<Rightarrow> ('w, 'd, 'f, 'h) LiveWallet \<Rightarrow> bool" where
  "same_wallet w w' \<longleftrightarrow> w_ID w' = w_ID w \<and> EncryptedSeed w' = EncryptedSeed w \<and> awaiting w' = awaiting w \<and> dataDir w' = dataDir w"

lemma same_wallet_refl [simp]: "same_wallet w w" "same_wallet w (shutdownContext w)"
  by (simp_all add: same_wallet_def shutdownContext_def)

lemma adopt_live:
  assumes "adopt (shutdownContext w) r = (w', e', er)" and "loader w = Some l" and "loads r l" and "live_ok w"
  shows "live_ok w' \<and> same_wallet w w' \<and> (er = None \<longrightarrow> opened_by w w')"
  using assms
  by (auto simp: adopt_def loads_def live_ok_def loader_ok_def shutdownContext_def same_wallet_def opened_by_def split: prod.splits sum.splits)

lemma createWallet_ok:
  assumes "createWallet W pass seed w e = (w', e', er)" and "live_ok w"
  shows "live_ok w' \<and> same_wallet w w' \<and> (er = None \<longrightarrow> opened_by w w')"
proof -
  from assms(2) obtain l where l: "loader w = Some l" by (rule live_okE)
  with assms show ?thesis
    by (auto simp: createWallet_def split: if_splits sum.splits dest!: adopt_live [OF _ l loader_loads(1)])
qed

lemma createWatchingOnlyWallet_ok:
  assumes "createWatchingOnlyWallet W key w e = (w', e', er)" and "live_ok w"
  shows "live_ok w' \<and> same_wallet w w' \<and> (er = None \<longrightarrow> opened_by w w')"
proof -
  from assms(2) obtain l where l: "loader w = Some l" by (rule live_okE)
  with assms show ?thesis
    by (auto simp: createWatchingOnlyWallet_def  dest!: adopt_live [OF _ l loader_loads(2)])
qed

lemma openWallet_ok:
  assumes "openWallet W w e = (w', e', er)" and "live_ok w"
  shows "live_ok w' \<and> same_wallet w w' \<and> (er = None \<longrightarrow> opened_by w w')"
proof -
  from assms(2) obtain l where l: "loader w = Some l" by (rule live_okE)
  with assms show ?thesis
    by (auto simp: openWallet_def split: prod.splits dest!: adopt_live [OF _ l loader_loads(3)])
qed

lemma Shutdown_ok:
  assumes "Shutdown W w e = Some (Inr (w', e'))" and "live_ok w"
  shows "live_ok w' \<and> \<not> awaiting w' \<and> cancelled w' = cancelFuncs w \<and> dataDir w' = dataDir w"
proof -
  from assms(2) obtain l where l: "loader w = Some l" "loader_ok l" "\<And>h. l_wallet l = Some h \<Longrightarrow> internal w = Some h" by (rule live_okE) blast
  from assms(1) l(1) obtain l' where w': "w' = w\<lparr>awaiting := False, cancelled := cancelFuncs w, loader := Some l'\<rparr>"
    and u: "l' = l \<or> (\<exists>r e1. UnloadWallet (wd_loader W) l e = (r, l', e1))"
    by (auto simp: Shutdown_def Let_def split: if_splits prod.splits option.splits err.splits)
  from u UnloadWallet_cases [OF _ l(2), of "wd_loader W" e] l(2,3) have "loader_ok l'" "\<And>h. l_wallet l' = Some h \<Longrightarrow> internal w = Some h"
    by (metis option.distinct(1))+
  with w' show ?thesis by (auto simp: live_ok_def)
qed

text \<open>Deleting is authorized by the passphrase of the loaded wallet, which is the one the wallet uses.\<close>

lemma authorize_delete_live:
  assumes "live_ok w"
  shows "\<exists>l. loader w = Some l \<and> authorize_delete W w e p = (case l_wallet l of
       None \<Rightarrow> (w, e, Some (New ErrWalletNotLoaded))
     | Some h \<Rightarrow> if wd_WatchingOnly W e h then (w, e, None)
         else (shutdownContext w, case wd_Unlock W e h p of (e1, Some er) \<Rightarrow> (e1, Some (translateError er)) | (e1, None) \<Rightarrow> (wd_Lock W e1 h, None)))"
  using assms by (auto simp: authorize_delete_def live_ok_def split: option.splits prod.splits)

lemma deleteWallet_ok:
  assumes "deleteWallet W w e p = Some (w', e', q, er)" and "live_ok w"
  shows "live_ok w' \<and> q = zeroes p"
proof -
  obtain w1 e1 r1 where a: "authorize_delete W w e p = (w1, e1, r1)" by (metis prod_cases3)
  then have "w1 = w \<or> w1 = shutdownContext w" by (auto simp: authorize_delete_def split: option.splits if_splits prod.splits)
  with assms(2) have "live_ok w1" by auto
  with a assms(1) Shutdown_ok show ?thesis
    by (fastforce simp: deleteWallet_def split: option.splits sum.splits prod.splits)
qed

section \<open>The registry as a transition system\<close>

text \<open>
  Every operation on the registry, in any order; \<open>elsewhere\<close> is everything else that changes the
  files, the opened wallets, the wallets database and the flags of the sync data.
\<close>

inductive registry_step ::
  "('e, 'd, 'w, 'f, 'h) world \<Rightarrow> 's kv \<Rightarrow> crypt \<Rightarrow> ('s, 'w, 'd, 'f, 'h) live_db \<Rightarrow> ('w \<Rightarrow> bytes \<Rightarrow> bytes \<Rightarrow> 'w result) \<Rightarrow>
   ('s, 'w, 'd, 'f, 'h, 'e) live_mw \<Rightarrow> ('s, 'w, 'd, 'f, 'h, 'e) live_mw \<Rightarrow> bool" for W K C D change where
  r_open: "OpenWallets W K C order mw pass = (mw', er) \<Longrightarrow> registry_step W K C D change mw mw'"
| r_watch: "mw_CreateWatchOnlyWallet W D mw n key = Some (r, mw') \<Longrightarrow> registry_step W K C D change mw mw'"
| r_new: "mw_CreateNewWallet W C D random enc now mw n p ty = Some (r, mw') \<Longrightarrow> registry_step W K C D change mw mw'"
| r_restore: "RestoreWallet W D mw n seed p ty = Some (r, mw') \<Longrightarrow> registry_step W K C D change mw mw'"
| r_link: "LinkExistingWallet W D mw n dir pub ty = Some (r, mw') \<Longrightarrow> registry_step W K C D change mw mw'"
| r_rename: "RenameWallet D mw i n = (mw', er) \<Longrightarrow> registry_step W K C D change mw mw'"
| r_delete: "DeleteWallet W D mw i p = Some (mw', p', er) \<Longrightarrow> registry_step W K C D change mw mw'"
| r_unlock: "mw_UnlockWallet W mw i p = (mw', p', er) \<Longrightarrow> registry_step W K C D change mw mw'"
| r_verify: "VerifySeedForWallet D C mw i seed p = (mw', b, er) \<Longrightarrow> registry_step W K C D change mw mw'"
| r_change: "ChangePrivatePassphraseForWallet D C change mw i old new ty = (mw', er) \<Longrightarrow> registry_step W K C D change mw mw'"
| r_mark: "markWalletAsDiscoveredAccounts D mw i = (mw', er) \<Longrightarrow> registry_step W K C D change mw mw'"
| r_shutdown: "shutdown_wallets W order mw = Some (Inr mw') \<Longrightarrow> registry_step W K C D change mw mw'"
| r_elsewhere: "registry_step W K C D change mw (mw\<lparr>mw_fs := e, mw_db := s, syncing_now := a, synced_now := b\<rparr>)"

inductive registry ::
  "('e, 'd, 'w, 'f, 'h) world \<Rightarrow> 's kv \<Rightarrow> crypt \<Rightarrow> ('s, 'w, 'd, 'f, 'h) live_db \<Rightarrow> ('w \<Rightarrow> bytes \<Rightarrow> bytes \<Rightarrow> 'w result) \<Rightarrow>
   ('s, 'w, 'd, 'f, 'h, 'e) live_mw \<Rightarrow> bool" for W K C D change where
  start: "NewMultiWallet W B e dir driver netType = (Inr mw, e') \<Longrightarrow> registry W K C D change mw"
| step: "registry W K C D change mw \<Longrightarrow> registry_step W K C D change mw mw' \<Longrightarrow> registry W K C D change mw'"

definition all_live :: "('s, 'w, 'd, 'f, 'h, 'e) live_mw \<Rightarrow> bool" where
  "all_live mw \<longleftrightarrow> (\<forall>i w. wallets mw i = Some w \<longrightarrow> live_ok w)"

lemma all_live_update [intro]: "all_live mw \<Longrightarrow> live_ok w \<Longrightarrow> wallets mw' = (wallets mw)(i \<mapsto> w) \<Longrightarrow> all_live mw'"
  by (auto simp: all_live_def)

lemma all_live_same: "all_live mw \<Longrightarrow> wallets mw' = wallets mw \<Longrightarrow> all_live mw'"
  by (auto simp: all_live_def)

lemma all_live_delete: "all_live mw \<Longrightarrow> wallets mw' = (wallets mw)(i := None) \<Longrightarrow> all_live mw'"
  by (auto simp: all_live_def)

lemmas all_live_intros = all_live_update all_live_same all_live_delete

lemma all_liveD: "all_live mw \<Longrightarrow> wallets mw i = Some w \<Longrightarrow> live_ok w"
  by (simp add: all_live_def)

lemma saveNewWallet_live:
  assumes "saveNewWallet D F setup mw w = Some (r, mw')" and "all_live mw"
    and "\<And>w1 e1 w2 e2. setup w1 e1 = (w2, e2, None) \<Longrightarrow> live_ok w2"
  shows "all_live mw'"
  using saveNewWallet_registers [OF assms(1)] assms(2,3) all_live_intros by metis

lemma create_setup_live: "create_setup W mw p seed w e = (w', e', None) \<Longrightarrow> live_ok w'"
  by (auto simp: create_setup_def split: prod.splits option.splits dest: prepare_ok createWallet_ok)

lemma link_setup_live: "link_setup W mw dir pub w e = (w', e', None) \<Longrightarrow> live_ok w'"
  by (auto simp: link_setup_def link_open_def Let_def split: prod.splits option.splits sum.splits if_splits dest: prepare_ok openWallet_ok)

lemma open_all_live: "open_all W order mw = (mw', er) \<Longrightarrow> all_live mw \<Longrightarrow> all_live mw'"
proof (induction order arbitrary: mw)
  case (Cons i order)
  show ?case
  proof (cases "wallets mw i")
    case None
    with Cons.prems show ?thesis by simp
  next
    case (Some w)
    obtain w1 e1 r1 where o: "openWallet W w (mw_fs mw) = (w1, e1, r1)" by (metis prod_cases3)
    with openWallet_ok all_liveD [OF Cons.prems(2) Some] Cons.prems(2)
    have "all_live (mw\<lparr>wallets := (wallets mw)(i \<mapsto> w1), mw_fs := e1\<rparr>)" by fastforce
    with Cons Some o show ?thesis by (auto simp: Let_def split: option.splits)
  qed
qed simp

lemma shutdown_wallets_live: "shutdown_wallets W order mw = Some (Inr mw') \<Longrightarrow> all_live mw \<Longrightarrow> all_live mw'"
proof (induction order arbitrary: mw)
  case (Cons i order)
  then obtain w w1 e1 where w: "wallets mw i = Some w" and s: "Shutdown W w (mw_fs mw) = Some (Inr (w1, e1))"
    by (auto split: option.splits sum.splits)
  with Shutdown_ok [OF s all_liveD [OF Cons.prems(2) w]] Cons.prems(2)
  have "all_live (mw\<lparr>wallets := (wallets mw)(i \<mapsto> w1), mw_fs := e1\<rparr>)" by fastforce
  with Cons w s show ?case by auto
qed simp

lemma DeleteWallet_live:
  assumes "DeleteWallet W D mw i p = Some (mw', p', er)" and "all_live mw"
  shows "all_live mw'"
proof (cases "network_connected mw \<or> wallets mw i = None")
  case True
  with assms show ?thesis by (auto simp: DeleteWallet_def WalletWithID_def split: if_splits)
next
  case False
  then obtain w where w: "wallets mw i = Some w" by blast
  with False assms(1) obtain w1 e1 q x where d: "deleteWallet W w (mw_fs mw) p = Some (w1, e1, q, x)"
    by (auto simp: DeleteWallet_def WalletWithID_def split: option.splits)
  with deleteWallet_ok [OF d all_liveD [OF assms(2) w]] have "live_ok w1" by simp
  moreover from False assms(1) w d have "wallets mw' = (wallets mw)(i \<mapsto> w1) \<or> wallets mw' = (wallets mw)(i := None)"
    by (auto simp: DeleteWallet_def WalletWithID_def Let_def split: option.splits sum.splits)
  ultimately show ?thesis using assms(2) all_live_intros by metis
qed

lemma live_ok_cong: "live_ok w \<Longrightarrow> loader w' = loader w \<Longrightarrow> internal w' = internal w \<Longrightarrow> live_ok w'"
  by (simp add: live_ok_def)

lemma change_live:
  assumes "ChangePrivatePassphraseForWallet D C change mw i old new ty = (mw', er)" and "all_live mw"
    and "\<And>h a b h'. change h a b = Inr h' \<Longrightarrow> h' = h"
  shows "all_live mw'"
proof -
  have keep: "changePrivatePassphrase change w a b = (Inr w', a', b') \<Longrightarrow> loader w' = loader w \<and> internal w' = internal w" for w w' a b a' b'
    by (auto simp: changePrivatePassphrase_def split: option.splits sum.splits dest: assms(3))
  from assms(1) have "wallets mw' = wallets mw \<or>
      (\<exists>w w'. wallets mw i = Some w \<and> wallets mw' = (wallets mw)(i \<mapsto> w') \<and> loader w' = loader w \<and> internal w' = internal w)"
    by (auto simp: ChangePrivatePassphraseForWallet_def WalletWithID_def Let_def
        split: if_splits option.splits sum.splits prod.splits dest!: keep)
  with assms(2) live_ok_cong all_live_intros show ?thesis by (metis all_liveD)
qed

lemma registry_step_live:
  assumes "registry_step W K C D change mw mw'" and "all_live mw" and "\<And>h a b h'. change h a b = Inr h' \<Longrightarrow> h' = h"
  shows "all_live mw'"
  using assms(1)
proof cases
  case (r_open order pass er)
  with open_all_live assms(2) show ?thesis by (auto simp: OpenWallets_def split: if_splits option.splits)
next
  case (r_watch n key r)
  then show ?thesis unfolding mw_CreateWatchOnlyWallet_def using assms(2)
    by (rule saveNewWallet_live) (auto split: prod.splits option.splits dest: prepare_ok createWatchingOnlyWallet_ok)
next
  case (r_new random enc now n p ty r)
  with assms(2) show ?thesis
    by (auto simp: mw_CreateNewWallet_def split: sum.splits elim!: saveNewWallet_live intro: create_setup_live)
next
  case (r_restore n seed p ty r)
  with assms(2) show ?thesis by (auto simp: RestoreWallet_def elim!: saveNewWallet_live intro: create_setup_live)
next
  case (r_link n dir pub ty r)
  have "all_live (mw\<lparr>mw_cancelFuncs := cs, mw_fs := e\<rparr>)" for cs e using assms(2) by (simp add: all_live_def)
  with r_link assms(2) show ?thesis
    by (auto simp: LinkExistingWallet_def contextWithShutdownCancel_def Let_def split: if_splits prod.splits option.splits
        elim!: saveNewWallet_live intro: link_setup_live)
next
  case (r_rename i n er)
  then have "wallets mw' = wallets mw \<or> (\<exists>w. wallets mw i = Some w \<and> wallets mw' = (wallets mw)(i \<mapsto> w\<lparr>w_Name := n\<rparr>))"
    by (auto simp: RenameWallet_def WalletWithID_def Let_def split: if_splits option.splits sum.splits bool.splits)
  with assms(2) show ?thesis by (auto simp: all_live_def split: if_splits)
next
  case (r_unlock i p p' er)
  then have "wallets mw' = wallets mw \<or> (\<exists>w. wallets mw i = Some w \<and> wallets mw' = (wallets mw)(i \<mapsto> shutdownContext w)) \<or>
      (\<exists>w. wallets mw i = Some w \<and> wallets mw' = (wallets mw)(i \<mapsto> w))"
    by (auto simp: mw_UnlockWallet_def UnlockWallet_def WalletWithID_def split: option.splits prod.splits)
  with assms(2) show ?thesis by (auto simp: all_live_def split: if_splits)
next
  case (r_verify i seed p b er)
  then have "wallets mw' = wallets mw \<or> (\<exists>w. wallets mw i = Some w \<and> wallets mw' = (wallets mw)(i \<mapsto> w\<lparr>EncryptedSeed := None\<rparr>))"
    by (auto simp: VerifySeedForWallet_def WalletWithID_def Let_def split: if_splits option.splits sum.splits)
  with assms(2) show ?thesis by (auto simp: all_live_def split: if_splits)
next
  case (r_mark i er)
  then have "wallets mw' = wallets mw \<or> (\<exists>w. wallets mw i = Some w \<and> wallets mw' = (wallets mw)(i \<mapsto> w\<lparr>HasDiscoveredAccounts := True\<rparr>))"
    by (auto simp: markWalletAsDiscoveredAccounts_def WalletWithID_def Let_def split: if_splits option.splits sum.splits)
  with assms(2) show ?thesis by (auto simp: all_live_def split: if_splits)
next
  case (r_change i old new ty er)
  from change_live [OF this assms(2,3)] show ?thesis .
next
  case (r_delete i p p' er)
  from DeleteWallet_live [OF this assms(2)] show ?thesis .
next
  case (r_shutdown order)
  from shutdown_wallets_live [OF this assms(2)] show ?thesis .
next
  case (r_elsewhere e s a b)
  with assms(2) show ?thesis by (simp add: all_live_def)
qed

lemma prepare_all_ready:
  assumes "prepare_all W ws mw = (Inr mw', e')" and "mw_fs mw = e"
    and "\<forall>i w. wallets mw i = Some w \<longrightarrow> live_ok w \<and> awaiting w \<and> \<not> snd (LoadedWallet (the (loader w)))"
  shows "(\<forall>i w. wallets mw' i = Some w \<longrightarrow> live_ok w \<and> awaiting w \<and> \<not> snd (LoadedWallet (the (loader w)))) \<and>
    dom (wallets mw') = dom (wallets mw) \<union> w_ID ` set ws \<and> mw_db mw' = mw_db mw"
  using assms
proof (induction ws arbitrary: mw e)
  case (Cons w ws)
  from Cons.prems(1) obtain w1 e1 where p: "prepare W (rootDir mw) (mw_chainParams mw) w (mw_fs mw) = (w1, e1, None)"
    and r: "prepare_all W ws (mw\<lparr>wallets := (wallets mw)(w_ID w \<mapsto> w1), mw_fs := e1\<rparr>) = (Inr mw', e')"
    by (auto split: prod.splits option.splits)
  from prepare_ok [OF p] have "live_ok w1 \<and> awaiting w1 \<and> \<not> snd (LoadedWallet (the (loader w1)))" by (auto simp: LoadedWallet_def)
  with Cons.prems(3) have "\<forall>i v. ((wallets mw)(w_ID w \<mapsto> w1)) i = Some v \<longrightarrow> live_ok v \<and> awaiting v \<and> \<not> snd (LoadedWallet (the (loader v)))"
    by simp
  with Cons.IH [OF r refl] show ?case by (simp del: fun_upd_apply)
qed simp

lemma load_wallets_ready:
  assumes "load_wallets W B dir driver params s e = (Inr mw, e')"
  shows "mw_awaiting mw \<and> (\<forall>i w. wallets mw i = Some w \<longrightarrow> live_ok w \<and> awaiting w \<and> \<not> snd (LoadedWallet (the (loader w)))) \<and>
    (case bt_Find B (mw_db mw) of Inl er \<Rightarrow> er = KvNotFound \<and> wallets mw = Map.empty | Inr ws \<Rightarrow> dom (wallets mw) = w_ID ` set ws)"
proof -
  define ws where "ws = (case bt_Find B s of Inl _ \<Rightarrow> [] | Inr ws \<Rightarrow> ws)"
  from assms obtain mw1 where p: "prepare_all W ws \<lparr>mw_db = s, wallets = Map.empty, mw_fs = e, rootDir = dir, dbDriver = driver, mw_chainParams = params,
      syncing_now = False, synced_now = False, mw_awaiting = False, mw_cancelFuncs = [], mw_cancelled = []\<rparr> = (Inr mw1, e')"
    and mw: "mw = listenForShutdown mw1" and f: "\<forall>m. bt_Find B s \<noteq> Inl (KvErr m)"
    by (auto simp: load_wallets_def ws_def split: sum.splits prod.splits kv_err.splits)
  note r = prepare_all_ready [OF p refl, simplified]
  have m: "mw_awaiting mw" "wallets mw = wallets mw1" "mw_db mw = s" using mw r by (simp_all add: listenForShutdown_def)
  have "case bt_Find B s of Inl er \<Rightarrow> er = KvNotFound \<and> wallets mw1 = Map.empty | Inr ws \<Rightarrow> dom (wallets mw1) = w_ID ` set ws"
  proof (cases "bt_Find B s")
    case (Inl er)
    with f have "er = KvNotFound" by (cases er) auto
    with Inl r show ?thesis by (simp add: ws_def)
  qed (use r in \<open>simp add: ws_def\<close>)
  with r m show ?thesis by (cases "bt_Find B s") simp_all
qed

lemma NewMultiWallet_loads:
  assumes "NewMultiWallet W B e dir driver netType = (Inr mw, e')"
  shows "\<exists>d params s e1. load_wallets W B d driver params s e1 = (Inr mw, e')"
  using assms unfolding NewMultiWallet_def Let_def
  by (auto split: sum.splits prod.splits option.splits open_error.splits)

lemma registry_live:
  assumes "registry W K C D change mw" and "\<And>h a b h'. change h a b = Inr h' \<Longrightarrow> h' = h"
  shows "all_live mw"
  using assms(1)
proof induction
  case (start B e dir driver netType mw e')
  from NewMultiWallet_loads [OF this] load_wallets_ready show ?case by (metis all_live_def)
next
  case (step mw mw')
  from registry_step_live [OF step(2,3) assms(2)] show ?case .
qed

section \<open>Opening, deleting, shutting down\<close>

lemma open_all_other: "open_all W order mw = (mw', er) \<Longrightarrow> k \<notin> set order \<Longrightarrow> wallets mw' k = wallets mw k"
  by (induction order arbitrary: mw) (auto simp: Let_def split: option.splits prod.splits)

lemma open_all_opens:
  assumes "open_all W order mw = (mw', None)" and "distinct order" and "all_live mw" and "i \<in> set order"
  shows "\<exists>w w'. wallets mw i = Some w \<and> wallets mw' i = Some w' \<and> opened_by w w'"
  using assms
proof (induction order arbitrary: mw)
  case (Cons j order)
  from Cons.prems(1) obtain w w1 e1 where w: "wallets mw j = Some w" and o: "openWallet W w (mw_fs mw) = (w1, e1, None)"
    and r: "open_all W order (mw\<lparr>wallets := (wallets mw)(j \<mapsto> w1), mw_fs := e1\<rparr>) = (mw', None)"
    by (auto simp: Let_def split: option.splits prod.splits)
  let ?mw1 = "mw\<lparr>wallets := (wallets mw)(j \<mapsto> w1), mw_fs := e1\<rparr>"
  from openWallet_ok [OF o all_liveD [OF Cons.prems(3) w]] have ok: "live_ok w1" "opened_by w w1" by simp_all
  with Cons.prems(3) have live: "all_live ?mw1" by fastforce
  note other = open_all_other [OF r]
  show ?case
  proof (cases "i = j")
    case True
    with other [of j] Cons.prems(2) w ok show ?thesis by auto
  next
    case False
    with Cons.IH [OF r _ live] Cons.prems(2,4) show ?thesis by auto
  qed
qed simp

text \<open>The effect of \<open>Shutdown\<close>: it returns unless nobody waits for the signal any more.\<close>

definition no_close_panic :: "('e, 'd, 'w, 'f, 'h) world \<Rightarrow> bool" where
  "no_close_panic W \<longleftrightarrow> (\<forall>e d m. snd (CloseDB (wd_loader W) e d) \<noteq> Some (Panic m))"

lemma Shutdown_returns:
  assumes "live_ok w" and "no_close_panic W"
  shows "if awaiting w then \<exists>w' e'. Shutdown W w e = Some (Inr (w', e')) \<and> cancelled w' = cancelFuncs w \<and> live_ok w' else Shutdown W w e = None"
proof (cases "awaiting w")
  case True
  from assms(1) obtain l where l: "loader w = Some l" "loader_ok l" by (auto simp: live_ok_def)
  obtain r l' e1 where u: "(if snd (LoadedWallet l) then UnloadWallet (wd_loader W) l e else (None, l, e)) = (r, l', e1)" by (metis prod_cases3)
  have "r \<noteq> Some (Panic m)" for m
    using u UnloadWallet_cases [OF _ l(2), of "wd_loader W" e] assms(2) by (auto simp: no_close_panic_def split: if_splits)
  with True l(1) u have "\<exists>w' e'. Shutdown W w e = Some (Inr (w', e'))"
    by (auto simp: Shutdown_def Let_def split: option.splits err.splits)
  with True Shutdown_ok [OF _ assms(1)] show ?thesis by (metis option.inject sum.inject(2))
qed (simp add: Shutdown_def)

lemma shutdown_wallets_other: "shutdown_wallets W order mw = Some (Inr mw') \<Longrightarrow> k \<notin> set order \<Longrightarrow> wallets mw' k = wallets mw k"
  by (induction order arbitrary: mw) (auto split: option.splits sum.splits)

lemma shutdown_wallets_iff:
  assumes "all_live mw" and "no_close_panic W" and "distinct order" and "set order \<subseteq> dom (wallets mw)"
  shows "if \<forall>i \<in> set order. awaiting (the (wallets mw i))
    then \<exists>mw'. shutdown_wallets W order mw = Some (Inr mw') \<and>
      (\<forall>i \<in> set order. cancelled (the (wallets mw' i)) = cancelFuncs (the (wallets mw i)))
    else shutdown_wallets W order mw = None"
  using assms(1,3,4)
proof (induction order arbitrary: mw)
  case (Cons i order)
  then obtain w where w: "wallets mw i = Some w" by auto
  show ?case
  proof (cases "awaiting w")
    case True
    with Shutdown_returns [OF all_liveD [OF Cons.prems(1) w] assms(2), of "mw_fs mw"]
    obtain w1 e1 where s: "Shutdown W w (mw_fs mw) = Some (Inr (w1, e1))" "cancelled w1 = cancelFuncs w" "live_ok w1" by auto
    let ?mw1 = "mw\<lparr>wallets := (wallets mw)(i \<mapsto> w1), mw_fs := e1\<rparr>"
    have live: "all_live ?mw1" using Cons.prems(1) s(3) by fastforce
    have same: "wallets ?mw1 j = wallets mw j" if "j \<in> set order" for j using that Cons.prems(2) by auto
    have ih: "if \<forall>i \<in> set order. awaiting (the (wallets ?mw1 i))
      then \<exists>mw'. shutdown_wallets W order ?mw1 = Some (Inr mw') \<and>
        (\<forall>i \<in> set order. cancelled (the (wallets mw' i)) = cancelFuncs (the (wallets ?mw1 i)))
      else shutdown_wallets W order ?mw1 = None"
      by (rule Cons.IH [OF live]) (use Cons.prems(2,3) in auto)
    have "(\<forall>j \<in> set order. awaiting (the (wallets ?mw1 j))) \<longleftrightarrow> (\<forall>j \<in> set order. awaiting (the (wallets mw j)))"
      using same by simp
    note ih = ih [unfolded this]
    show ?thesis
    proof (cases "\<forall>j \<in> set order. awaiting (the (wallets mw j))")
      case all: True
      from ih [unfolded if_P [OF all]] obtain mw' where r: "shutdown_wallets W order ?mw1 = Some (Inr mw')"
        and "\<forall>j \<in> set order. cancelled (the (wallets mw' j)) = cancelFuncs (the (wallets ?mw1 j))" by blast
      then have c: "\<forall>j \<in> set order. cancelled (the (wallets mw' j)) = cancelFuncs (the (wallets mw j))" using same by simp
      have "wallets mw' i = Some w1" using shutdown_wallets_other [OF r] Cons.prems(2) by auto
      with r c show ?thesis using True all w s(1,2) by simp
    next
      case all: False
      from ih [unfolded if_not_P [OF all]] have "shutdown_wallets W order ?mw1 = None" .
      with all w s(1) show ?thesis by simp
    qed
  next
    case False
    with Shutdown_returns [OF all_liveD [OF Cons.prems(1) w] assms(2), of "mw_fs mw"] w show ?thesis by auto
  qed
qed simp

section \<open>An example world\<close>

text \<open>
  A world whose state is the list of files, in which everything succeeds except that \<open>failing\<close>
  cannot be removed; the passphrase of every wallet is \<open>[1]\<close>.
\<close>

definition ex_world :: "string \<Rightarrow> (string list, unit, unit, unit, unit) world" where
  "ex_world failing = \<lparr>
     wd_fs = \<lparr>Stat = (\<lambda>e p. Inr (p \<in> set e)), Rename = (\<lambda>e p q. if p = failing then Inl (E IO ''rename'') else Inr (q # removeAll p e)),
       MkdirAll = (\<lambda>e p. p # e), RemoveAll = (\<lambda>e p. if p = failing then Inl (E IO ''remove'') else Inr (removeAll p e))\<rparr>,
     wd_loader = \<lparr>ld_Stat = (\<lambda>e p. Inr (if p \<in> set e then IsDir else Missing)), ld_MkdirAll = (\<lambda>e p. (p # e, None)), ld_Remove = (\<lambda>e p. removeAll p e),
       CreateDB = (\<lambda>e drv p. (Inr (), p # e)), OpenDB = (\<lambda>e drv p. (Inr (), e)), CloseDB = (\<lambda>e d. (e, None)),
       Create = (\<lambda>e d a b c ps. (e, None)), CreateWatchOnly = (\<lambda>e d k a ps. (e, None)), OpenW = (\<lambda>e c. (Inr (), e))\<rparr>,
     wd_storm = \<lparr>sf_Open = (\<lambda>e p. (Inr (), p # e)), sf_Close = (\<lambda>e h. (e, None)), sf_Get = (\<lambda>e h b k. Inr TxDbVersion),
       sf_Set = (\<lambda>e h b k n. Inr e), sf_Init = (\<lambda>e h. Inr e)\<rparr>,
     wd_Unlock = (\<lambda>e h p. (e, if p = [1] then None else Some (E Passphrase ''wrong''))), wd_Lock = (\<lambda>e h. e), wd_Locked = (\<lambda>e h. True),
     wd_WatchingOnly = (\<lambda>e h. False), wd_ChangePublicPassphrase = (\<lambda>e h a b. (e, None)), wd_DecodeUserInput = (\<lambda>s. Inr (to_bytes s)),
     InsecurePubPassphrase = ''public'', DefaultRelayFee = (), ZeroFee = (), DefaultAccountGapLimit = 10\<rparr>"

definition ex_boot :: "((unit, unit, unit, unit) LiveWallet list, unit, unit, unit, unit, string list) boot" where
  "ex_boot = \<lparr>bt_mainnet = ''mainnet'', bt_testnet = ''testnet3'', bt_MkdirAll = (\<lambda>e p. (p # e, None)), bt_NewRotator = (\<lambda>e p. (p # e, None)),
     bt_Open = (\<lambda>e p. (Inr [zero_wallet\<lparr>w_ID := 1\<rparr>], p # e)), bt_Init = Inr, bt_Find = Inr\<rparr>"

definition ex_live_db :: "((unit, unit, unit, unit) LiveWallet list, unit, unit, unit, unit) live_db" where
  "ex_live_db = \<lparr>ws_Save = (\<lambda>s w. let w' = (if w_ID w = 0 then w\<lparr>w_ID := Suc (length s)\<rparr> else w) in
       Inr (w', w' # filter (\<lambda>v. w_ID v \<noteq> w_ID w') s)),
     ws_DeleteStruct = (\<lambda>s w. Inr (filter (\<lambda>v. w_ID v \<noteq> w_ID w) s)),
     ws_OneName = (\<lambda>s n. case filter (\<lambda>v. w_Name v = n) s of [] \<Rightarrow> Inl KvNotFound | w # _ \<Rightarrow> Inr w),
     ws_Begin = Inr, ws_Commit = Inr\<rparr>"

definition ex_kv :: "(unit, unit, unit, unit) LiveWallet list kv" where
  "ex_kv = \<lparr>kv_Get = (\<lambda>s b k. Inl KvNotFound), kv_Set = (\<lambda>s b k v. Inr s), kv_Delete = (\<lambda>s b k. Inr s), kv_Drop = (\<lambda>s b. Inr s)\<rparr>"

text \<open>A registry with one saved wallet, and the same with the wallet opened.\<close>

definition ex_prepared :: "string \<Rightarrow> (unit, unit, unit, unit) LiveWallet" where
  "ex_prepared f = zero_wallet\<lparr>w_ID := 1, dataDir := ''r/mainnet/1'', chainParams := ''mainnet'',
     loader := Some (initWalletLoader (ex_world f) ''mainnet'' ''r/mainnet/1'' []), txDB := Some (), awaiting := True\<rparr>"

definition ex_opened :: "string \<Rightarrow> (unit, unit, unit, unit) LiveWallet" where
  "ex_opened f = (ex_prepared f)\<lparr>loader := Some ((initWalletLoader (ex_world f) ''mainnet'' ''r/mainnet/1'' [])\<lparr>l_wallet := Some (), l_db := Some ()\<rparr>),
     internal := Some (), cancelFuncs := [0]\<rparr>"

lemma ex_prepare: "prepare (ex_world f) ''r/mainnet'' ''mainnet'' (zero_wallet\<lparr>w_ID := 1\<rparr>) e = (ex_prepared f, ''r/mainnet/1/tx.db'' # e, None)"
proof -
  have "itoa 1 = ''1''" by code_simp
  then show ?thesis
    by (simp add: prepare_def Let_def Initialize_def openOrCreateDB_def ensureDatabaseVersion_def ex_world_def DbName_def ex_prepared_def zero_wallet_def)
qed

lemma ex_open: "openWallet (ex_world f) (ex_prepared f) e = (ex_opened f, e, None)"
  by (simp add: openWallet_def ex_prepared_def ex_opened_def OpenExistingWallet_def open_check_def open_finish_def onLoaded_def adopt_def
      shutdownContext_def initWalletLoader_def NewLoader_def ex_world_def Let_def zero_wallet_def)

lemma ex_registry_started:
  "\<exists>mw. registry (ex_world f) ex_kv ex_crypt ex_live_db (\<lambda>h a b. Inr h) mw \<and> wallets mw = [1 \<mapsto> ex_prepared f] \<and> \<not> network_connected mw \<and>
     mw_db mw = [zero_wallet\<lparr>w_ID := 1\<rparr>] \<and> rootDir mw = ''r/mainnet'' \<and> mw_chainParams mw = ''mainnet'' \<and> mw_awaiting mw"
proof -
  let ?W = "ex_world f"
  obtain mw e' where r: "NewMultiWallet ?W ex_boot [] ''r'' [] ''mainnet'' = (Inr mw, e')" and mw: "wallets mw = [1 \<mapsto> ex_prepared f]"
      "\<not> network_connected mw" "mw_db mw = [zero_wallet\<lparr>w_ID := 1\<rparr>]" "rootDir mw = ''r/mainnet''" "mw_chainParams mw = ''mainnet''" "mw_awaiting mw"
    using ex_prepare [of f]
    by (simp add: NewMultiWallet_def ex_boot_def ChainParams_def initLogRotator_def load_wallets_def listenForShutdown_def Let_def network_connected_def)
  from registry.start [OF r] mw show ?thesis by blast
qed

lemma ex_opened_registry:
  "\<exists>mw. registry (ex_world f) ex_kv ex_crypt ex_live_db (\<lambda>h a b. Inr h) mw \<and> wallets mw = [1 \<mapsto> ex_opened f] \<and> \<not> network_connected mw \<and>
     mw_db mw = [zero_wallet\<lparr>w_ID := 1\<rparr>] \<and> mw_awaiting mw"
proof -
  from ex_registry_started [of f] obtain mw where mw: "registry (ex_world f) ex_kv ex_crypt ex_live_db (\<lambda>h a b. Inr h) mw" "wallets mw = [1 \<mapsto> ex_prepared f]"
    "\<not> network_connected mw" "mw_db mw = [zero_wallet\<lparr>w_ID := 1\<rparr>]" "mw_awaiting mw" by blast
  let ?mw' = "mw\<lparr>wallets := [1 \<mapsto> ex_opened f]\<rparr>"
  have "OpenWallets (ex_world f) ex_kv ex_crypt [1] mw [] = (?mw', None)"
    using mw(2,3) by (simp add: OpenWallets_def network_connected_def VerifyStartupPassphrase_def ex_kv_def ex_open Let_def)
  from registry.step [OF mw(1) registry_step.r_open [OF this]] mw(3-5) show ?thesis by (intro exI [of _ ?mw']) (simp add: network_connected_def)
qed

section \<open>Properties\<close>

text \<open>
  C11.  However the operations on the registry follow each other, every registered wallet has its
  loader; the loader has a wallet exactly when it has its database, and then that wallet is the
  one the operations use.  So no operation meets a nil pointer there, and a deletion is always
  authorized by the passphrase of the wallet that is loaded.
\<close>

theorem registry_wallets_ready:
  assumes "registry W K C D change mw" and "\<forall>h a b h'. change h a b = Inr h' \<longrightarrow> h' = h" and "wallets mw i = Some w"
  shows "\<exists>l. loader w = Some l \<and> (l_wallet l = None \<longleftrightarrow> l_db l = None) \<and> (\<forall>h. l_wallet l = Some h \<longrightarrow> internal w = Some h) \<and>
    IsWatchingOnlyWallet W w e = Inr (case l_wallet l of None \<Rightarrow> False | Some h \<Rightarrow> wd_WatchingOnly W e h) \<and>
    authorize_delete W w e p = (case l_wallet l of
       None \<Rightarrow> (w, e, Some (New ErrWalletNotLoaded))
     | Some h \<Rightarrow> if wd_WatchingOnly W e h then (w, e, None)
         else (shutdownContext w, case wd_Unlock W e h p of (e1, Some er) \<Rightarrow> (e1, Some (translateError er)) | (e1, None) \<Rightarrow> (wd_Lock W e1 h, None)))"
proof -
  from registry_live [OF assms(1)] assms(2,3) have live: "live_ok w" by (auto simp: all_live_def)
  then obtain l where "loader w = Some l" "loader_ok l" "\<forall>h. l_wallet l = Some h \<longrightarrow> internal w = Some h" by (auto simp: live_ok_def)
  moreover from this(1) authorize_delete_live [OF live, of W e p] show ?thesis
    using calculation by (auto simp: loader_ok_def IsWatchingOnlyWallet_def split: option.splits)
qed

theorem registry_wallets_ready_witness:
  "\<exists>mw. registry (ex_world []) ex_kv ex_crypt ex_live_db (\<lambda>h a b. Inr h) mw \<and> wallets mw 1 = Some (ex_opened []) \<and>
     snd (snd (authorize_delete (ex_world []) (ex_opened []) [] [7])) = Some (New ErrInvalidPassphrase)"
proof -
  from ex_opened_registry [of "[]"] obtain mw where mw: "registry (ex_world []) ex_kv ex_crypt ex_live_db (\<lambda>h a b. Inr h) mw"
    "wallets mw = [1 \<mapsto> ex_opened []]" by blast
  from registry_wallets_ready [OF mw(1), of 1 "ex_opened []" "[]" "[7]"] mw(2)
  have "snd (snd (authorize_delete (ex_world []) (ex_opened []) [] [7])) = Some (New ErrInvalidPassphrase)"
    by (auto simp: ex_opened_def ex_world_def)
  with mw show ?thesis by auto
qed

text \<open>
  C12.  \<open>DeleteWallet\<close> of a registered wallet.  On success the multi-wallet is not connected, the
  loaded wallet is watch-only or was unlocked by the given passphrase, its data directory is
  removed, it is deleted from the database and from the registry, every other wallet stays, and
  the passphrase is overwritten.  On an error the database and all other wallets stay.
\<close>

theorem DeleteWallet_needs_passphrase:
  assumes "registry W K C D change mw" and "\<forall>h a b h'. change h a b = Inr h' \<longrightarrow> h' = h" and "wallets mw i = Some w"
    and "DeleteWallet W D mw i p = Some (mw', p', er)"
  shows "if er = None
    then \<not> network_connected mw \<and> p' = zeroes p \<and> wallets mw' = (wallets mw)(i := None) \<and>
      (\<exists>l h. loader w = Some l \<and> l_wallet l = Some h \<and> (wd_WatchingOnly W (mw_fs mw) h \<or> snd (wd_Unlock W (mw_fs mw) h p) = None)) \<and>
      (\<exists>e w'. RemoveAll (wd_fs W) e (dataDir w) = Inr (mw_fs mw') \<and> ws_DeleteStruct D (mw_db mw) w' = Inr (mw_db mw') \<and> w_ID w' = w_ID w)
    else mw_db mw' = mw_db mw \<and> (\<forall>j. j \<noteq> i \<longrightarrow> wallets mw' j = wallets mw j)"
proof (cases er)
  case (Some x)
  with assms(4) show ?thesis
    by (auto simp: DeleteWallet_def WalletWithID_def Let_def split: if_splits option.splits sum.splits prod.splits)
next
  case None
  from registry_live [OF assms(1)] assms(2,3) have live: "live_ok w" by (auto simp: all_live_def)
  from assms(3,4) None obtain w' e' where d: "deleteWallet W w (mw_fs mw) p = Some (w', mw_fs mw', p', None)" "\<not> network_connected mw"
    "ws_DeleteStruct D (mw_db mw) w' = Inr (mw_db mw')" "wallets mw' = (wallets mw)(i := None)"
    by (auto simp: DeleteWallet_def WalletWithID_def Let_def split: if_splits option.splits sum.splits prod.splits)
  from d(1) obtain w1 e1 e2 where a: "authorize_delete W w (mw_fs mw) p = (w1, e1, None)" and s: "Shutdown W w1 e1 = Some (Inr (w', e2))"
    and rm: "RemoveAll (wd_fs W) e2 (dataDir w') = Inr (mw_fs mw')" and z: "p' = zeroes p"
    by (auto simp: deleteWallet_def split: prod.splits option.splits sum.splits)
  from a have w1: "w1 = w \<or> w1 = shutdownContext w" by (auto simp: authorize_delete_def split: option.splits if_splits prod.splits)
  from s have w': "dataDir w' = dataDir w1 \<and> w_ID w' = w_ID w1"
    by (auto simp: Shutdown_def Let_def split: if_splits option.splits prod.splits err.splits)
  have "\<exists>l h. loader w = Some l \<and> l_wallet l = Some h \<and> (wd_WatchingOnly W (mw_fs mw) h \<or> snd (wd_Unlock W (mw_fs mw) h p) = None)"
    using a live by (auto simp: authorize_delete_def live_ok_def split: option.splits if_splits prod.splits)
  moreover have "dataDir w' = dataDir w" "w_ID w' = w_ID w" using w1 w' by (auto simp: shutdownContext_def)
  ultimately show ?thesis using None d(2-4) rm z by auto
qed

lemmas ex_delete_defs = DeleteWallet_def WalletWithID_def deleteWallet_def authorize_delete_def Shutdown_def LoadedWallet_def UnloadWallet_def
  ex_opened_def ex_prepared_def ex_world_def shutdownContext_def zero_wallet_def initWalletLoader_def NewLoader_def

theorem DeleteWallet_needs_passphrase_witness:
  "\<exists>mw mw'. registry (ex_world []) ex_kv ex_crypt ex_live_db (\<lambda>h a b. Inr h) mw \<and>
     DeleteWallet (ex_world []) ex_live_db mw 1 [1] = Some (mw', [0], None) \<and> wallets mw' = Map.empty"
proof -
  from ex_opened_registry [of "[]"] obtain mw where mw: "registry (ex_world []) ex_kv ex_crypt ex_live_db (\<lambda>h a b. Inr h) mw"
    "wallets mw = [1 \<mapsto> ex_opened []]" "\<not> network_connected mw" by blast
  have "\<exists>mw'. DeleteWallet (ex_world []) ex_live_db mw 1 [1] = Some (mw', zeroes [1], None)"
    using mw(2,3) by (simp add: ex_delete_defs ex_live_db_def Let_def zeroes_def)
  then obtain mw' where d: "DeleteWallet (ex_world []) ex_live_db mw 1 [1] = Some (mw', zeroes [1], None)" by blast
  from DeleteWallet_needs_passphrase [OF mw(1) _ _ d] mw(2) have "wallets mw' = Map.empty" by auto
  with mw d show ?thesis by (auto simp: zeroes_def)
qed


lemma ex_no_close_panic: "no_close_panic (ex_world f)"
  by (simp add: no_close_panic_def ex_world_def)


text \<open>
  When the data directory of a wallet cannot be removed, or the wallet cannot be deleted from the
  database, \<open>DeleteWallet\<close> returns an error and the wallet stays registered, but its shutdown signal
  is already used up: \<open>MultiWallet.Shutdown\<close> never returns afterwards.
\<close>

theorem failed_delete_blocks_shutdown:
  assumes "registry W K C D change mw" and "\<forall>h a b h'. change h a b = Inr h' \<longrightarrow> h' = h" and "no_close_panic W"
    and "wallets mw i = Some w" and "\<not> network_connected mw" and "snd (snd (authorize_delete W w (mw_fs mw) p)) = None"
    and "DeleteWallet W D mw i p = Some (mw', p', Some er)" and "distinct order" and "set order = dom (wallets mw')"
  shows "i \<in> dom (wallets mw') \<and> shutdown_wallets W order mw' = None"
proof -
  from registry_live [OF assms(1)] assms(2) have live: "all_live mw" by blast
  with DeleteWallet_live [OF assms(7)] have live': "all_live mw'" by blast
  from assms(6) obtain w1 e1 where a: "authorize_delete W w (mw_fs mw) p = (w1, e1, None)" by (metis prod.collapse)
  then have "w1 = w \<or> w1 = shutdownContext w" by (auto simp: authorize_delete_def split: option.splits if_splits prod.splits)
  with all_liveD [OF live assms(4)] have ok: "live_ok w1" by auto
  from assms(4,5,7) a obtain w2 e2 where s: "Shutdown W w1 e1 = Some (Inr (w2, e2))" and w2: "wallets mw' = (wallets mw)(i \<mapsto> w2)"
  proof -
    from assms(4,5,7) have "Shutdown W w1 e1 \<noteq> None" using a
      by (cases "Shutdown W w1 e1") (auto simp: DeleteWallet_def WalletWithID_def deleteWallet_def)
    with Shutdown_returns [OF ok assms(3), of e1] obtain w2 e2 where s: "Shutdown W w1 e1 = Some (Inr (w2, e2))" by (auto split: if_splits)
    with assms(4,5,7) a have "wallets mw' = (wallets mw)(i \<mapsto> w2)"
      by (auto simp: DeleteWallet_def WalletWithID_def deleteWallet_def Let_def split: sum.splits)
    with s that show thesis by blast
  qed
  from Shutdown_ok [OF s ok] w2 assms(9) have "\<not> (\<forall>i \<in> set order. awaiting (the (wallets mw' i)))" by auto
  with shutdown_wallets_iff [OF live' assms(3,8)] assms(9) w2 show ?thesis by auto
qed

theorem failed_delete_blocks_shutdown_witness:
  "\<exists>mw mw'. registry (ex_world ''r/mainnet/1'') ex_kv ex_crypt ex_live_db (\<lambda>h a b. Inr h) mw \<and>
     DeleteWallet (ex_world ''r/mainnet/1'') ex_live_db mw 1 [1] = Some (mw', [0], Some (E IO ''remove'')) \<and>
     shutdown_wallets (ex_world ''r/mainnet/1'') [1] mw' = None"
proof -
  let ?f = "''r/mainnet/1''"
  from ex_opened_registry [of ?f] obtain mw where mw: "registry (ex_world ?f) ex_kv ex_crypt ex_live_db (\<lambda>h a b. Inr h) mw"
    "wallets mw = [1 \<mapsto> ex_opened ?f]" "\<not> network_connected mw" by blast
  have a: "snd (snd (authorize_delete (ex_world ?f) (ex_opened ?f) (mw_fs mw) [1])) = None" by (simp add: ex_delete_defs)
  have "\<exists>mw'. DeleteWallet (ex_world ?f) ex_live_db mw 1 [1] = Some (mw', zeroes [1], Some (E IO ''remove'')) \<and> dom (wallets mw') = {1}"
    using mw(2,3) by (simp add: ex_delete_defs Let_def)
  then obtain mw' where d: "DeleteWallet (ex_world ?f) ex_live_db mw 1 [1] = Some (mw', zeroes [1], Some (E IO ''remove''))" "dom (wallets mw') = {1}" by blast
  from failed_delete_blocks_shutdown [OF mw(1) _ ex_no_close_panic _ mw(3) a d(1), of "[1]"] mw(2) d(2)
  have "shutdown_wallets (ex_world ?f) [1] mw' = None" by simp
  with mw d show ?thesis by (auto simp: zeroes_def)
qed

text \<open>
  \<open>OpenWallets\<close> without an error: every wallet was not loaded before and is opened now, with
  the wallet of its loader.  So after an attempt that failed half-way it can never succeed again:
  one wallet that is already loaded makes every later call fail.
\<close>

theorem OpenWallets_opens_all:
  assumes "registry W K C D change mw" and "\<forall>h a b h'. change h a b = Inr h' \<longrightarrow> h' = h" and "distinct order" and "set order = dom (wallets mw)"
  shows "case OpenWallets W K C order mw pass of (mw', er) \<Rightarrow>
    (er = None \<longrightarrow> (\<forall>i \<in> dom (wallets mw). \<exists>w w'. wallets mw i = Some w \<and> wallets mw' i = Some w' \<and> opened_by w w')) \<and>
    ((\<exists>w \<in> ran (wallets mw). l_wallet (the (loader w)) \<noteq> None) \<longrightarrow> er \<noteq> None)"
proof -
  obtain mw' er where o: "OpenWallets W K C order mw pass = (mw', er)" by fastforce
  have live: "all_live mw" using registry_live [OF assms(1)] assms(2) by blast
  have opens: "\<exists>w w'. wallets mw i = Some w \<and> wallets mw' i = Some w' \<and> opened_by w w'" if "er = None" "i \<in> dom (wallets mw)" for i
  proof -
    from o that(1) have "open_all W order mw = (mw', None)" by (auto simp: OpenWallets_def split: if_splits option.splits)
    from open_all_opens [OF this assms(3) live] that(2) assms(4) show ?thesis by auto
  qed
  moreover have "er \<noteq> None" if "w \<in> ran (wallets mw)" "l_wallet (the (loader w)) \<noteq> None" for w
  proof
    assume "er = None"
    moreover from that(1) obtain i where "wallets mw i = Some w" by (auto simp: ran_def)
    ultimately show False using opens [OF _ domI] that(2) by (fastforce simp: opened_by_def)
  qed
  ultimately show ?thesis using o by auto
qed

theorem OpenWallets_opens_all_witness:
  "\<exists>mw. registry (ex_world []) ex_kv ex_crypt ex_live_db (\<lambda>h a b. Inr h) mw \<and> wallets mw = [1 \<mapsto> ex_opened []] \<and>
     snd (OpenWallets (ex_world []) ex_kv ex_crypt [1] mw []) \<noteq> None"
proof -
  from ex_opened_registry [of "[]"] obtain mw where mw: "registry (ex_world []) ex_kv ex_crypt ex_live_db (\<lambda>h a b. Inr h) mw"
    "wallets mw = [1 \<mapsto> ex_opened []]" by blast
  have "\<exists>w \<in> ran (wallets mw). l_wallet (the (loader w)) \<noteq> None" using mw(2) by (simp add: ex_opened_def)
  with OpenWallets_opens_all [OF mw(1), of "[1]" "[]"] mw(2)
  have "snd (OpenWallets (ex_world []) ex_kv ex_crypt [1] mw []) \<noteq> None" by (auto split: prod.splits)
  with mw show ?thesis by blast
qed

text \<open>\<open>Save\<close> assigns at most the id of the wallet it is given.\<close>

definition save_sets_id :: "('s, 'w, 'd, 'f, 'h) live_db \<Rightarrow> bool" where
  "save_sets_id D \<longleftrightarrow> (\<forall>s w w' s'. ws_Save D s w = Inr (w', s') \<longrightarrow> w' = w\<lparr>w_ID := w_ID w'\<rparr>)"

lemma save_sets_idD: "save_sets_id D \<Longrightarrow> ws_Save D s w = Inr (w', s') \<Longrightarrow> EncryptedSeed w' = EncryptedSeed w"
  unfolding save_sets_id_def by (metis LiveWallet.surjective Wallet.ext_inject Wallet.surjective Wallet.update_convs(1))

lemma create_setup_opens:
  assumes "create_setup W mw p seed w e = (w', e', None)"
  shows "EncryptedSeed w' = EncryptedSeed w \<and> awaiting w' \<and> (\<exists>l h. loader w' = Some l \<and> l_wallet l = Some h \<and> internal w' = Some h)"
proof -
  from assms obtain w1 e1 where p: "prepare W (rootDir mw) (mw_chainParams mw) w e = (w1, e1, None)" "createWallet W p seed w1 e1 = (w', e', None)"
    by (auto simp: create_setup_def split: prod.splits option.splits)
  with prepare_ok [OF p(1)] createWallet_ok [OF p(2)] show ?thesis by (auto simp: same_wallet_def opened_by_def)
qed

text \<open>
  C13.  A wallet that \<open>CreateNewWallet\<close> returns is registered under its id and open: it waits for a
  shutdown, it uses the wallet its loader has loaded, and \<open>DecryptSeed\<close> with the passphrase it was
  created with gives back the seed that was generated for it.
\<close>

theorem CreateNewWallet_seed_round_trip:
  assumes "secret_box C" and "save_sets_id D"
    and "mw_CreateNewWallet W C D random enc now mw n pass ty = Some (Inr w, mw')"
  shows "wallets mw' = (wallets mw)(w_ID w \<mapsto> w) \<and> WalletOpened w \<and> awaiting w \<and>
    (\<exists>l. loader w = Some l \<and> l_wallet l = internal w) \<and>
    (\<exists>seed. GenerateSeed random enc = Inr seed \<and> DecryptSeed C w (to_bytes pass) = Inr seed)"
proof -
  from assms(3) obtain seed es where seed: "GenerateSeed random enc = Inr seed" "encryptWalletSeed C (to_bytes pass) seed = Inr es"
    and s: "saveNewWallet D (wd_fs W) (create_setup W mw pass seed) mw
       (zero_wallet\<lparr>w_Name := n, CreatedAt := now, EncryptedSeed := Some es, PrivatePassphraseType := ty, HasDiscoveredAccounts := True\<rparr>) = Some (Inr w, mw')"
    by (auto simp: mw_CreateNewWallet_def split: sum.splits)
  from saveNewWallet_registers [OF s] obtain w1 s0 s1 w2 s2 e2 e3 where
    v1: "ws_Save D s0 (zero_wallet\<lparr>w_Name := n, CreatedAt := now, EncryptedSeed := Some es, PrivatePassphraseType := ty, HasDiscoveredAccounts := True\<rparr>) = Inr (w1, s1)"
    and v2: "ws_Save D s1 (complete_wallet (rootDir mw @ ''/'' @ itoa (w_ID w1)) (dbDriver mw) w1) = Inr (w2, s2)"
    and su: "create_setup W mw pass seed w2 e2 = (w, e3, None)" and reg: "wallets mw' = (wallets mw)(w_ID w \<mapsto> w)" by auto
  have "EncryptedSeed w2 = Some es"
    using save_sets_idD [OF assms(2) v1] save_sets_idD [OF assms(2) v2] by (simp add: complete_wallet_def)
  with create_setup_opens [OF su] have "EncryptedSeed w = Some es" by simp
  moreover have "decryptWalletSeed C (to_bytes pass) (Some es) = Inr seed"
    by (rule secret_box.decrypt_encrypt [OF assms(1) seed(2)])
  ultimately show ?thesis using create_setup_opens [OF su] reg seed(1) by (auto simp: DecryptSeed_def WalletOpened_def)
qed

theorem CreateNewWallet_seed_round_trip_witness:
  "\<exists>mw w mw'. mw_CreateNewWallet (ex_world []) ex_crypt ex_live_db (Inr [1, 2]) (map (\<lambda>b. char_of (unat b))) 5 mw ''savings'' ''pw'' 0 = Some (Inr w, mw') \<and>
     WalletOpened w \<and> DecryptSeed ex_crypt w (to_bytes ''pw'') = Inr (map (\<lambda>b. char_of (unat b)) [1, 2 :: 8 word])"
proof -
  let ?enc = "map (\<lambda>b :: 8 word. char_of (unat b))"
  from ex_registry_started [of "[]"] obtain mw where "registry (ex_world []) ex_kv ex_crypt ex_live_db (\<lambda>h a b. Inr h) mw"
    and mw: "\<not> network_connected mw" "mw_db mw = [zero_wallet\<lparr>w_ID := 1\<rparr>]" "rootDir mw = ''r/mainnet''" by blast
  let ?mw = "mw\<lparr>mw_fs := [], dbDriver := []\<rparr>"
  have "\<exists>w mw'. mw_CreateNewWallet (ex_world []) ex_crypt ex_live_db (Inr [1, 2]) ?enc 5 ?mw ''savings'' ''pw'' 0 = Some (Inr w, mw')"
    using mw by (simp add: mw_CreateNewWallet_def GenerateSeed_def encryptWalletSeed_def ex_box saveNewWallet_def WalletNameExists_def HasPrefix_def
        ex_live_db_def network_connected_def batchDbTransaction_def new_wallet_body_def fileExists_def ex_world_def complete_wallet_def Let_def
        zero_wallet_def create_setup_def prepare_def Initialize_def openOrCreateDB_def ensureDatabaseVersion_def createWallet_def to_bytes_def
        initWalletLoader_def NewLoader_def CreateNewWallet_def create_wallet_def ensure_dir_def loader_fileExists_def write_wallet_def onLoaded_def
        adopt_def shutdownContext_def dbPath_def DbName_def)
  then obtain w mw' where r: "mw_CreateNewWallet (ex_world []) ex_crypt ex_live_db (Inr [1, 2]) ?enc 5 ?mw ''savings'' ''pw'' 0 = Some (Inr w, mw')" by blast
  have "save_sets_id ex_live_db" by (auto simp: save_sets_id_def ex_live_db_def Let_def split: if_splits)
  from CreateNewWallet_seed_round_trip [OF ref_box.secret_box_axioms this r] r show ?thesis
    by (intro exI [of _ ?mw] exI [of _ w] exI [of _ mw']) (auto simp: GenerateSeed_def)
qed

text \<open>
  When the index file cannot be moved, \<open>LinkExistingWallet\<close> returns the error without moving the wallet
  file back: the wallet's old directory has lost it, and no wallet is registered.
\<close>

theorem failed_link_strands_wallet:
  assumes "moveFile (wd_fs W) e (dir @ ''/'' @ walletDbName) (dataDir w @ ''/'' @ walletDbName) = Inr e1"
    and "moveFile (wd_fs W) e1 (dir @ ''/'' @ DbName) (dataDir w @ ''/'' @ DbName) = Inl er"
  shows "link_setup W mw dir pub w e = (w, e1, Some er)"
  using assms by (simp add: link_setup_def Let_def)

section \<open>Iterating over the wallets (\<open>wallets.go\<close>)\<close>

text \<open>\<open>AllWallets\<close> lists the wallets in the order in which Go happens to range over the map.\<close>

definition AllWallets :: "nat list \<Rightarrow> ('s, 'w, 'd, 'f, 'h, 'e) live_mw \<Rightarrow> ('w, 'd, 'f, 'h) LiveWallet list" where
  "AllWallets order mw = List.map_filter (wallets mw) order"

record 'a WalletsIterator =
  currentIndex :: nat
  it_wallets :: "'a list"

definition WalletsIterator_of :: "'a list \<Rightarrow> 'a WalletsIterator" where
  "WalletsIterator_of ws = \<lparr>currentIndex = 0, it_wallets = ws\<rparr>"

definition it_Next :: "'a WalletsIterator \<Rightarrow> 'a option \<times> 'a WalletsIterator" where
  "it_Next it =
     (if currentIndex it < length (it_wallets it)
      then (Some (it_wallets it ! currentIndex it), it\<lparr>currentIndex := currentIndex it + 1\<rparr>)
      else (None, it))"

definition it_Reset :: "'a WalletsIterator \<Rightarrow> 'a WalletsIterator" where
  "it_Reset it = it\<lparr>currentIndex := 0\<rparr>"

fun it_take :: "nat \<Rightarrow> 'a WalletsIterator \<Rightarrow> 'a option list \<times> 'a WalletsIterator" where
  "it_take 0 it = ([], it)"
| "it_take (Suc n) it = (let (w, it1) = it_Next it; (ws, it2) = it_take n it1 in (w # ws, it2))"

lemma it_take_rest:
  "it_take n it = (rs, it') \<Longrightarrow> rs = map Some (take n (drop (currentIndex it) (it_wallets it))) @ replicate (n - (length (it_wallets it) - currentIndex it)) None \<and>
     it_wallets it' = it_wallets it"
proof (induction n arbitrary: it it' rs)
  case (Suc n)
  obtain ws it2 where t: "it_take n (snd (it_Next it)) = (ws, it2)" by fastforce
  with Suc.prems have rs: "rs = fst (it_Next it) # ws" "it' = it2" by (auto simp: Let_def split: prod.splits)
  show ?case
  proof (cases "currentIndex it < length (it_wallets it)")
    case True
    with Suc.IH [OF t] rs show ?thesis by (simp add: it_Next_def Cons_nth_drop_Suc [symmetric] Suc_diff_Suc)
  next
    case False
    with Suc.IH [OF t] rs show ?thesis by (simp add: it_Next_def)
  qed
qed simp

text \<open>
  The iterator gives every wallet once, in order, then nil, and the same again after \<open>Reset\<close>.
\<close>

theorem iterator_visits_all:
  assumes "it_take n (WalletsIterator_of ws) = (rs, it)"
  shows "rs = map Some (take n ws) @ replicate (n - length ws) None \<and> it_Reset it = WalletsIterator_of ws"
  using it_take_rest [OF assms] by (auto simp: WalletsIterator_of_def it_Reset_def)

end
