(* ===== verification/MwShutdown.thy ===== *)
theory MwShutdown
  imports Lifecycle RescanControl
begin

text \<open>
  \<open>MultiWallet.Shutdown\<close> (\<open>multiwallet.go\<close>) on top of the registry (\<open>Lifecycle\<close>), the sync (\<open>SyncControl\<close>) and
  the rescans (\<open>RescanControl\<close>): a transition system in which the steps of the call interleave with
  the goroutines of the sync and of the rescans and with the one that waits for the shutdown
  signal.  The sync and the rescans share the sync data; once \<open>Shutdown\<close> is called the application
  makes no other call.
\<close>

section \<open>The transition system\<close>

text \<open>
  The position of the call.  \<open>SyncCancelling\<close> is inside \<open>CancelSync\<close>, whose own position is the caller of
  the sync; \<open>Stopping\<close> has the wallets that the loop has not shut down yet.
\<close>

datatype shutdown_pos = NotCalled | Signalled | RescanCancelled | SyncCancelling | Stopping "nat list" | DbClosed | Returned

text \<open>\<open>pending\<close>: the goroutine of \<open>listenForShutdown\<close> has the signal and has not cancelled the contexts yet.\<close>

record ('s, 'w, 'd, 'f, 'h, 'e) mw_sys =
  reg :: "('s, 'w, 'd, 'f, 'h, 'e) live_mw"
  snc :: sync_sys
  rsc :: rescan_sys
  pos :: shutdown_pos
  pending :: bool
  db_open :: bool
  rotator_open :: bool

definition with_snc :: "sync_sys \<Rightarrow> ('s, 'w, 'd, 'f, 'h, 'e) mw_sys \<Rightarrow> ('s, 'w, 'd, 'f, 'h, 'e) mw_sys" where
  "with_snc y x = x\<lparr>snc := y, rsc := (rsc x)\<lparr>rs_mw := mws y\<rparr>\<rparr>"

definition with_rsc :: "rescan_sys \<Rightarrow> ('s, 'w, 'd, 'f, 'h, 'e) mw_sys \<Rightarrow> ('s, 'w, 'd, 'f, 'h, 'e) mw_sys" where
  "with_rsc r x = x\<lparr>rsc := r, snc := (snc x)\<lparr>mws := rs_mw r\<rparr>\<rparr>"

text \<open>A step of a goroutine: it neither starts a sync nor moves the caller.\<close>

definition background :: "sync_sys \<Rightarrow> sync_sys \<Rightarrow> bool" where
  "background x y \<longleftrightarrow> caller y = caller x \<and> map fst (runs y) = map fst (runs x)"

text \<open>Of the sync data, a rescan changes its own two fields.\<close>

definition rescan_fields :: "sync_mw \<Rightarrow> sync_mw \<Rightarrow> bool" where
  "rescan_fields s s' \<longleftrightarrow> (\<exists>a c. s' = upd_sd (\<lambda>d. d\<lparr>rescanning := a, cancelRescan := c\<rparr>) s)"

text \<open>
  Closing the database and the log rotator: an error of the former is only logged.  A panic of a
  wallet's shutdown ends the program, so there is no step for it.
\<close>

inductive shutdown_step ::
  "('e, 'd, 'w, 'f, 'h) world \<Rightarrow> bool \<Rightarrow> go_float \<Rightarrow> float64 \<Rightarrow> string \<Rightarrow>
   ('s, 'w, 'd, 'f, 'h, 'e) mw_sys \<Rightarrow> ('s, 'w, 'd, 'f, 'h, 'e) mw_sys \<Rightarrow> bool" for W serial G tpb port where
  sync: "sync_step G tpb port (snc x) y \<Longrightarrow> pos x \<noteq> NotCalled \<longrightarrow> background (snc x) y \<Longrightarrow>
    shutdown_step W serial G tpb port x (with_snc y x)"
| rescan: "rescan_step serial G (rsc x) r \<Longrightarrow> rescan_fields (rs_mw (rsc x)) (rs_mw r) \<Longrightarrow>
    pos x \<noteq> NotCalled \<longrightarrow> length (jobs r) = length (jobs (rsc x)) \<Longrightarrow>
    shutdown_step W serial G tpb port x (with_rsc r x)"
| elsewhere: "shutdown_step W serial G tpb port x (x\<lparr>reg := (reg x)\<lparr>mw_fs := e, mw_db := s\<rparr>\<rparr>)"
| signal: "pos x = NotCalled \<Longrightarrow> caller (snc x) = Idle \<Longrightarrow> signal_shutdown (reg x) = Some mw \<Longrightarrow>
    shutdown_step W serial G tpb port x (x\<lparr>reg := mw, pending := True, pos := Signalled\<rparr>)"
| contexts: "pending x \<Longrightarrow>
    shutdown_step W serial G tpb port x
      (x\<lparr>pending := False, snc := (snc x)\<lparr>canceled := map fst (runs (snc x)) @ canceled (snc x)\<rparr>\<rparr>)"
| cancel_rescan: "pos x = Signalled \<Longrightarrow>
    shutdown_step W serial G tpb port x (with_rsc (CancelRescan (rsc x)) x\<lparr>pos := RescanCancelled\<rparr>)"
| cancel_sync: "pos x = RescanCancelled \<Longrightarrow> sync_step G tpb port (snc x) y \<Longrightarrow> caller y \<in> {Cancelling False, Finishing False} \<Longrightarrow>
    shutdown_step W serial G tpb port x (with_snc y x\<lparr>pos := SyncCancelling\<rparr>)"
| sync_next: "pos x = SyncCancelling \<Longrightarrow> sync_step G tpb port (snc x) y \<Longrightarrow> caller y \<notin> {caller (snc x), Idle} \<Longrightarrow>
    shutdown_step W serial G tpb port x (with_snc y x)"
| sync_done: "pos x = SyncCancelling \<Longrightarrow> sync_step G tpb port (snc x) y \<Longrightarrow> caller (snc x) \<noteq> Idle \<Longrightarrow> caller y = Idle \<Longrightarrow>
    distinct order \<Longrightarrow> set order = dom (wallets (reg x)) \<Longrightarrow>
    shutdown_step W serial G tpb port x (with_snc y x\<lparr>pos := Stopping order\<rparr>)"
| stop_wallet: "pos x = Stopping (i # is) \<Longrightarrow> wallets (reg x) i = Some w \<Longrightarrow> Shutdown W w (mw_fs (reg x)) = Some (Inr (w', e')) \<Longrightarrow>
    shutdown_step W serial G tpb port x (x\<lparr>reg := (reg x)\<lparr>wallets := (wallets (reg x))(i \<mapsto> w'), mw_fs := e'\<rparr>, pos := Stopping is\<rparr>)"
| close_db: "pos x = Stopping [] \<Longrightarrow> shutdown_step W serial G tpb port x (x\<lparr>db_open := False, pos := DbClosed\<rparr>)"
| close_log: "pos x = DbClosed \<Longrightarrow> shutdown_step W serial G tpb port x (x\<lparr>rotator_open := False, pos := Returned\<rparr>)"

text \<open>The wallets of the registry are those of the sync.\<close>

definition same_wallets :: "('s, 'w, 'd, 'f, 'h, 'e) live_mw \<Rightarrow> sync_mw \<Rightarrow> bool" where
  "same_wallets mw s \<longleftrightarrow> dom (wallets mw) = sw_ID ` set (ws s) \<and>
     (\<forall>v \<in> set (ws s). \<forall>w. wallets mw (sw_ID v) = Some w \<longrightarrow> opened v = WalletOpened w)"

inductive shutdown_reach ::
  "('e, 'd, 'w, 'f, 'h) world \<Rightarrow> 's kv \<Rightarrow> crypt \<Rightarrow> ('s, 'w, 'd, 'f, 'h) live_db \<Rightarrow> ('w \<Rightarrow> bytes \<Rightarrow> bytes \<Rightarrow> 'w result) \<Rightarrow>
   bool \<Rightarrow> go_float \<Rightarrow> float64 \<Rightarrow> string \<Rightarrow> ('s, 'w, 'd, 'f, 'h, 'e) mw_sys \<Rightarrow> bool" for W K C D change serial G tpb port where
  init: "registry W K C D change mw \<Longrightarrow> sync_reach G tpb port y \<Longrightarrow> same_wallets mw (mws y) \<Longrightarrow> rescan_reach serial G r \<Longrightarrow> rs_mw r = mws y \<Longrightarrow>
    shutdown_reach W K C D change serial G tpb port
      \<lparr>reg = mw, snc = y, rsc = r, pos = NotCalled, pending = False, db_open = True, rotator_open = lr\<rparr>"
| step: "shutdown_reach W K C D change serial G tpb port x \<Longrightarrow> shutdown_step W serial G tpb port x y \<Longrightarrow>
    shutdown_reach W K C D change serial G tpb port y"

section \<open>The invariant\<close>

definition no_run :: "sync_sys \<Rightarrow> bool" where
  "no_run x \<longleftrightarrow> (\<forall>n. (n, Running) \<notin> set (runs x))"

definition backends_cleared :: "sync_mw \<Rightarrow> bool" where
  "backends_cleared s \<longleftrightarrow> (\<forall>w \<in> set (ws s). opened w \<longrightarrow> backend w = None)"

text \<open>What holds inside \<open>CancelSync\<close>: the only run that can still be on is the one whose channel is awaited.\<close>

definition cancelling_inv :: "sync_sys \<Rightarrow> bool" where
  "cancelling_inv x \<longleftrightarrow>
     (case caller x of
        Idle \<Rightarrow> False
      | Cancelling r \<Rightarrow> \<not> r \<and> (\<forall>n. (n, Running) \<in> set (runs x) \<longrightarrow> n \<in> set (canceled x))
      | Waiting ch r \<Rightarrow> \<not> r \<and> (\<forall>n. (n, Running) \<in> set (runs x) \<longrightarrow> ch = Some n \<and> n \<in> set (canceled x)) \<and>
          (\<forall>n. ch = Some n \<longrightarrow> n \<in> fst ` set (runs x))
      | Finishing r \<Rightarrow> \<not> r \<and> no_run x)"

definition stopped :: "sync_sys \<Rightarrow> bool" where
  "stopped x \<longleftrightarrow> caller x = Idle \<and> no_run x \<and> backends_cleared (mws x)"

definition shut_but :: "nat list \<Rightarrow> ('s, 'w, 'd, 'f, 'h, 'e) live_mw \<Rightarrow> bool" where
  "shut_but js mw \<longleftrightarrow> (\<forall>i w. wallets mw i = Some w \<longrightarrow> i \<notin> set js \<longrightarrow> \<not> awaiting w \<and> cancelled w = cancelFuncs w)"

definition pos_inv :: "('s, 'w, 'd, 'f, 'h, 'e) mw_sys \<Rightarrow> bool" where
  "pos_inv x \<longleftrightarrow>
     (case pos x of
        NotCalled \<Rightarrow> True
      | Signalled \<Rightarrow> caller (snc x) = Idle
      | RescanCancelled \<Rightarrow> caller (snc x) = Idle
      | SyncCancelling \<Rightarrow> cancelling_inv (snc x)
      | Stopping js \<Rightarrow> stopped (snc x) \<and> shut_but js (reg x)
      | _ \<Rightarrow> stopped (snc x) \<and> shut_but [] (reg x))"

definition shutdown_inv :: "('s, 'w, 'd, 'f, 'h, 'e) mw_sys \<Rightarrow> bool" where
  "shutdown_inv x \<longleftrightarrow> (db_open x \<longleftrightarrow> pos x \<notin> {DbClosed, Returned}) \<and> sync_inv (snc x) \<and> rs_mw (rsc x) = mws (snc x) \<and> all_live (reg x) \<and> finite (dom (wallets (reg x))) \<and> pos_inv x"

lemmas shutdown_inv_defs = shutdown_inv_def pos_inv_def


text \<open>The steps of goroutines, and those of \<open>CancelSync\<close>.\<close>

lemma resetSyncData_backends: "resetSyncData now s = Inr s' \<Longrightarrow> backends_cleared s \<Longrightarrow> backends_cleared s'"
  by (auto simp: resetSyncData_def Let_def upd_sd_def backends_cleared_def stopUpdatingAddressDiscoveryProgress_def split: if_splits option.splits)

lemma background_step:
  assumes "sync_step G tpb port x y" and "background x y"
  shows "canceled y = canceled x \<and> (\<forall>n. (n, Running) \<in> set (runs y) \<longrightarrow> (n, Running) \<in> set (runs x)) \<and>
    (no_run x \<and> backends_cleared (mws x) \<longrightarrow> backends_cleared (mws y))"
  using assms
proof (cases rule: sync_step.cases)
  case (run_reset n now s)
  then show ?thesis by (auto dest: set_phase_running resetSyncData_backends)
next
  case (cancel s r)
  with assms(2) show ?thesis by (auto simp: background_def split: option.splits)
qed (auto simp: background_def no_run_def backends_cleared_def indexing_done_def publish_def dest: set_phase_running split: list.splits)

lemma cancelling_background:
  assumes "sync_step G tpb port x y" and "background x y" and "cancelling_inv x"
  shows "cancelling_inv y"
proof -
  from assms(2) have f: "fst ` set (runs y) = fst ` set (runs x)" and c: "caller y = caller x" unfolding background_def by (metis list.set_map, blast)
  note b = background_step [OF assms(1,2)]
  then have "no_run x \<Longrightarrow> no_run y" by (auto simp: no_run_def)
  with assms(3) b show ?thesis unfolding cancelling_inv_def f c by (cases "caller x") auto
qed

lemma stopped_background: "sync_step G tpb port x y \<Longrightarrow> background x y \<Longrightarrow> stopped x \<Longrightarrow> stopped y"
  using background_step [of G tpb port x y] by (auto simp: stopped_def no_run_def background_def)

lemma running_busy: "sync_inv x \<Longrightarrow> (n, Running) \<in> set (runs x) \<Longrightarrow> busy n (mws x) \<and> n \<notin> set (closed (mws x))"
proof -
  assume i: "sync_inv x" "(n, Running) \<in> set (runs x)"
  from live_member [OF i] have "live (runs x) = [(n, Running)]" by simp
  with i(1) show ?thesis unfolding sync_inv_def by fastforce
qed

lemma cancel_begins:
  assumes "sync_step G tpb port x y" and "caller x = Idle" and "caller y \<in> {Cancelling False, Finishing False}" and "sync_inv x"
  shows "cancelling_inv y"
  using assms(1)
proof (cases rule: sync_step.cases)
  case (cancel s r)
  from assms(3) cancel(1) have "\<not> r" by (auto split: option.splits)
  with cancel running_busy [OF assms(4)] assms(3) show ?thesis
    by (auto simp: cancelling_inv_def no_run_def busy_def split: option.splits)
qed (use assms in auto)

lemma cancel_goes_on:
  assumes "sync_step G tpb port x y" and "cancelling_inv x" and "caller y \<notin> {caller x, Idle}" and "sync_inv x"
  shows "cancelling_inv y"
  using assms(1)
proof (cases rule: sync_step.cases)
  case (cancel_wait r)
  have "n \<in> fst ` set (runs x)" if "syncCanceled (sd (mws x)) = Some n" for n
    using that assms(4) by (auto simp: sync_inv_def quiet_def busy_def live_def filter_eq_Cons_iff)
  with cancel_wait running_busy [OF assms(4)] assms(2) show ?thesis by (auto simp: cancelling_inv_def busy_def)
next
  case (cancel_wake c r)
  with running_busy [OF assms(4)] assms(2) show ?thesis by (auto simp: cancelling_inv_def no_run_def)
qed (use assms in \<open>auto simp: cancelling_inv_def\<close>)

lemma cancel_ends:
  assumes "sync_step G tpb port x y" and "cancelling_inv x" and "caller y = Idle"
  shows "stopped y"
  using assms(1)
proof (cases rule: sync_step.cases)
  case cancel_done
  with assms(2) show ?thesis by (auto simp: cancelling_inv_def stopped_def no_run_def backends_cleared_def clear_backends_def)
qed (use assms in \<open>auto simp: cancelling_inv_def split: option.splits\<close>)

text \<open>A rescan and the cancellation of contexts leave what the sync relies on.\<close>

lemma rescan_fields_keep:
  assumes "rescan_fields (mws x) s"
  shows "sync_inv (x\<lparr>mws := s\<rparr>) = sync_inv x" "cancelling_inv (x\<lparr>mws := s\<rparr>) = cancelling_inv x" "stopped (x\<lparr>mws := s\<rparr>) = stopped x"
    "never_closed ch (x\<lparr>mws := s\<rparr>) = never_closed ch x"
proof -
  from assms obtain a c where s: "s = mws x\<lparr>sd := (sd (mws x))\<lparr>rescanning := a, cancelRescan := c\<rparr>\<rparr>"
    by (auto simp: rescan_fields_def upd_sd_def)
  show "sync_inv (x\<lparr>mws := s\<rparr>) = sync_inv x" by (simp add: s sync_inv_def quiet_def busy_def adc_def)
  show "cancelling_inv (x\<lparr>mws := s\<rparr>) = cancelling_inv x" by (simp add: cancelling_inv_def no_run_def split: caller.split)
  show "stopped (x\<lparr>mws := s\<rparr>) = stopped x" by (simp add: s stopped_def no_run_def backends_cleared_def)
  show "never_closed ch (x\<lparr>mws := s\<rparr>) = never_closed ch x" by (simp add: s never_closed_def)
qed

lemma CancelRescan_fields: "rescan_fields (rs_mw r) (rs_mw (CancelRescan r))"
proof (cases "cancelRescan (sd (rs_mw r))")
  case None
  then show ?thesis unfolding rescan_fields_def
    by (intro exI [of _ "rescanning (sd (rs_mw r))"] exI [of _ "None"]) (auto simp: CancelRescan_def upd_sd_def)
next
  case (Some n)
  then show ?thesis unfolding rescan_fields_def
    by (intro exI [of _ "rescanning (sd (rs_mw r))"] exI [of _ "None"]) (auto simp: CancelRescan_def upd_sd_def)
qed

lemma more_canceled:
  "sync_inv (x\<lparr>canceled := cs @ canceled x\<rparr>) = sync_inv x" "cancelling_inv x \<Longrightarrow> cancelling_inv (x\<lparr>canceled := cs @ canceled x\<rparr>)"
  "stopped (x\<lparr>canceled := cs @ canceled x\<rparr>) = stopped x" "never_closed ch (x\<lparr>canceled := cs @ canceled x\<rparr>) = never_closed ch x"
  by (auto simp: sync_inv_def cancelling_inv_def stopped_def no_run_def never_closed_def split: caller.splits)


lemma with_snc_inv:
  assumes "shutdown_inv x" and "sync_inv y"
  shows "pos_inv (with_snc y x) \<Longrightarrow> shutdown_inv (with_snc y x)"
    "pos_inv (with_snc y x\<lparr>pos := p\<rparr>) \<Longrightarrow> (db_open x \<longleftrightarrow> p \<notin> {DbClosed, Returned}) \<Longrightarrow> shutdown_inv (with_snc y x\<lparr>pos := p\<rparr>)"
  using assms by (simp_all add: shutdown_inv_def with_snc_def)

lemma with_rsc_inv:
  assumes "shutdown_inv x" and "rescan_fields (mws (snc x)) (rs_mw r)"
  shows "shutdown_inv (with_rsc r x)"
  using assms rescan_fields_keep [OF assms(2)]
  by (simp add: shutdown_inv_defs with_rsc_def split: shutdown_pos.splits)

lemma Shutdown_keeps_funcs: "Shutdown W w e = Some (Inr (w', e')) \<Longrightarrow> cancelFuncs w' = cancelFuncs w"
  by (auto simp: Shutdown_def Let_def split: if_splits prod.splits option.splits err.splits)

lemma shutdown_step_inv:
  assumes "shutdown_step W serial G tpb port x y" and "shutdown_inv x"
  shows "shutdown_inv y"
  using assms(1)
proof (cases rule: shutdown_step.cases)
  case (sync z)
  from assms(2) have i: "sync_inv (snc x)" by (simp add: shutdown_inv_def)
  have "pos_inv (with_snc z x)"
    using assms(2) sync(3) cancelling_background [OF sync(2)] stopped_background [OF sync(2)]
    by (auto simp: shutdown_inv_defs with_snc_def background_def split: shutdown_pos.splits)
  from with_snc_inv(1) [OF assms(2) step_inv [OF sync(2) i] this] show ?thesis unfolding sync(1) .
next
  case (rescan r)
  with with_rsc_inv [OF assms(2), of r] assms(2) show ?thesis by (simp add: shutdown_inv_def)
next
  case (signal mw)
  with assms(2) show ?thesis by (auto simp: shutdown_inv_defs signal_shutdown_def all_live_def shut_but_def split: if_splits)
next
  case contexts
  with assms(2) show ?thesis by (auto simp: shutdown_inv_defs more_canceled split: shutdown_pos.splits)
next
  case cancel_rescan
  have "shutdown_inv (with_rsc (CancelRescan (rsc x)) x)"
    using with_rsc_inv [OF assms(2)] CancelRescan_fields [of "rsc x"] assms(2) by (simp add: shutdown_inv_def)
  with cancel_rescan show ?thesis by (simp add: shutdown_inv_defs with_rsc_def)
next
  case (cancel_sync z)
  from assms(2) cancel_sync(2) have i: "sync_inv (snc x)" "caller (snc x) = Idle" by (simp_all add: shutdown_inv_defs)
  show ?thesis unfolding cancel_sync(1)
    by (rule with_snc_inv(2) [OF assms(2) step_inv [OF cancel_sync(3) i(1)]])
      (use cancel_begins [OF cancel_sync(3) i(2) cancel_sync(4) i(1)] assms(2) cancel_sync(2) in \<open>simp_all add: shutdown_inv_defs with_snc_def\<close>)
next
  case (sync_next z)
  from assms(2) sync_next(2) have i: "sync_inv (snc x)" "cancelling_inv (snc x)" by (simp_all add: shutdown_inv_defs)
  show ?thesis unfolding sync_next(1)
    by (rule with_snc_inv(1) [OF assms(2) step_inv [OF sync_next(3) i(1)]])
      (use cancel_goes_on [OF sync_next(3) i(2) sync_next(4) i(1)] sync_next(2) in \<open>simp add: pos_inv_def with_snc_def\<close>)
next
  case (sync_done z order)
  from assms(2) sync_done(2) have i: "sync_inv (snc x)" "cancelling_inv (snc x)" by (simp_all add: shutdown_inv_defs)
  show ?thesis unfolding sync_done(1)
    by (rule with_snc_inv(2) [OF assms(2) step_inv [OF sync_done(3) i(1)]])
      (use cancel_ends [OF sync_done(3) i(2) sync_done(5)] sync_done(2,6,7) assms(2) in \<open>auto simp: shutdown_inv_defs with_snc_def shut_but_def\<close>)
next
  case (stop_wallet i js w w' e')
  have "live_ok w" using assms(2) all_liveD [OF _ stop_wallet(3)] by (simp add: shutdown_inv_def)
  with Shutdown_ok [OF stop_wallet(4)] Shutdown_keeps_funcs [OF stop_wallet(4)]
  have "live_ok w'" "\<not> awaiting w'" "cancelled w' = cancelFuncs w'" by simp_all
  with stop_wallet assms(2) show ?thesis by (auto simp: shutdown_inv_defs all_live_def shut_but_def)
qed (use assms(2) in \<open>auto simp: shutdown_inv_defs all_live_def shut_but_def split: shutdown_pos.splits\<close>)

lemma shutdown_reach_inv:
  assumes "shutdown_reach W K C D change serial G tpb port x" and "\<And>h a b h'. change h a b = Inr h' \<Longrightarrow> h' = h"
  shows "shutdown_inv x"
  using assms(1)
proof induction
  case (init mw y r lr)
  then show ?case using registry_live [OF init(1) assms(2)] sync_reach_inv
    by (auto simp: shutdown_inv_defs same_wallets_def)
next
  case (step x y)
  then show ?case using shutdown_step_inv by blast
qed

section \<open>Returning\<close>

lemma stopping_returns:
  assumes "pos x = Stopping order" and "all_live (reg x)" and "no_close_panic W" and "distinct order"
    and "\<forall>i \<in> set order. \<exists>w. wallets (reg x) i = Some w \<and> awaiting w"
  shows "\<exists>y. (shutdown_step W serial G tpb port)\<^sup>*\<^sup>* x y \<and> pos y = Returned"
  using assms(1,2,4,5)
proof (induction order arbitrary: x)
  case Nil
  have "shutdown_step W serial G tpb port x (x\<lparr>db_open := False, pos := DbClosed\<rparr>)" by (rule shutdown_step.close_db [OF Nil(1)])
  moreover have "shutdown_step W serial G tpb port (x\<lparr>db_open := False, pos := DbClosed\<rparr>)
      (x\<lparr>db_open := False, pos := DbClosed, rotator_open := False, pos := Returned\<rparr>)" by (rule shutdown_step.close_log) simp
  ultimately show ?case by (intro exI [of _ "x\<lparr>db_open := False, pos := DbClosed, rotator_open := False, pos := Returned\<rparr>"])
      (auto intro: rtranclp.rtrancl_into_rtrancl)
next
  case (Cons i order)
  then obtain w where w: "wallets (reg x) i = Some w" "awaiting w" by auto
  with Shutdown_returns [OF all_liveD [OF Cons.prems(2) w(1)] assms(3), of "mw_fs (reg x)"]
  obtain w' e' where s: "Shutdown W w (mw_fs (reg x)) = Some (Inr (w', e'))" "live_ok w'" by auto
  let ?x = "x\<lparr>reg := (reg x)\<lparr>wallets := (wallets (reg x))(i \<mapsto> w'), mw_fs := e'\<rparr>, pos := Stopping order\<rparr>"
  have st: "shutdown_step W serial G tpb port x ?x" by (rule shutdown_step.stop_wallet [OF Cons.prems(1) w(1) s(1)])
  have "\<exists>y. (shutdown_step W serial G tpb port)\<^sup>*\<^sup>* ?x y \<and> pos y = Returned"
    by (rule Cons.IH) (use Cons.prems s(2) in \<open>auto simp: all_live_def\<close>)
  with st show ?case by (meson converse_rtranclp_into_rtranclp)
qed

text \<open>A caller that waits for a channel that nothing will close.\<close>

definition lost :: "nat option \<Rightarrow> ('s, 'w, 'd, 'f, 'h, 'e) mw_sys \<Rightarrow> bool" where
  "lost ch x \<longleftrightarrow> pos x = SyncCancelling \<and> caller (snc x) = Waiting ch False \<and> never_closed ch (snc x) \<and> shutdown_inv x"

lemma lost_step:
  assumes "shutdown_step W serial G tpb port x y" and "lost ch x"
  shows "lost ch y"
proof -
  from assms(2) have l: "pos x = SyncCancelling" "caller (snc x) = Waiting ch False" "never_closed ch (snc x)" "sync_inv (snc x)" "shutdown_inv x"
    by (simp_all add: lost_def shutdown_inv_def)
  from shutdown_step_inv [OF assms(1) l(5)] have i: "shutdown_inv y" .
  have snc: "never_closed ch z \<and> caller z = Waiting ch False" if "sync_step G tpb port (snc x) z" for z
    by (rule never_closed_step [OF that l(4,3,2)])
  show ?thesis using assms(1)
  proof (cases rule: shutdown_step.cases)
    case (sync z)
    then show ?thesis using snc [of z] i l by (simp add: lost_def with_snc_def)
  next
    case (rescan r)
    moreover from this l(5) have "rescan_fields (mws (snc x)) (rs_mw r)" by (simp add: shutdown_inv_def)
    ultimately show ?thesis using i l rescan_fields_keep(4) by (simp add: lost_def with_rsc_def)
  next
    case contexts
    then show ?thesis using i l by (simp add: lost_def more_canceled)
  next
    case (sync_next z)
    then show ?thesis using snc [of z] l by simp
  next
    case (sync_done z order)
    then show ?thesis using snc [of z] l by simp
  qed (use i l in \<open>auto simp: lost_def\<close>)
qed


lemma finishing_returns:
  assumes "shutdown_inv x" and "pos x = SyncCancelling" and "caller (snc x) = Finishing False" and "no_close_panic W"
    and "\<forall>w \<in> ran (wallets (reg x)). awaiting w"
  shows "\<exists>y. (shutdown_step W serial G tpb port)\<^sup>*\<^sup>* x y \<and> pos y = Returned"
proof -
  let ?z = "(snc x)\<lparr>mws := clear_backends (mws (snc x)), caller := Idle\<rparr>"
  from assms(1) obtain order where o: "distinct order" "set order = dom (wallets (reg x))"
    using finite_distinct_list [of "dom (wallets (reg x))"] by (auto simp: shutdown_inv_def)
  have st: "shutdown_step W serial G tpb port x (with_snc ?z x\<lparr>pos := Stopping order\<rparr>)"
    by (rule shutdown_step.sync_done [OF assms(2) sync_step.cancel_done [OF assms(3)] _ _ o]) (simp_all add: assms(3))
  have "\<exists>y. (shutdown_step W serial G tpb port)\<^sup>*\<^sup>* (with_snc ?z x\<lparr>pos := Stopping order\<rparr>) y \<and> pos y = Returned"
    by (rule stopping_returns [OF _ _ assms(4) o(1)]) (use assms(1,5) o(2) in \<open>auto simp: with_snc_def shutdown_inv_def ran_def\<close>)
  with st show ?thesis by (meson converse_rtranclp_into_rtranclp)
qed

lemma closed_channel_returns:
  assumes "shutdown_inv x" and "pos x = SyncCancelling" and "caller (snc x) = Waiting (Some n) False" and "n \<in> set (closed (mws (snc x)))"
    and "no_close_panic W" and "\<forall>w \<in> ran (wallets (reg x)). awaiting w"
  shows "\<exists>y. (shutdown_step W serial G tpb port)\<^sup>*\<^sup>* x y \<and> pos y = Returned"
proof -
  let ?z = "(snc x)\<lparr>caller := Finishing False\<rparr>"
  have st: "shutdown_step W serial G tpb port x (with_snc ?z x)"
    by (rule shutdown_step.sync_next [OF assms(2) sync_step.cancel_wake [OF assms(3,4)]]) (simp add: assms(3))
  have "\<exists>y. (shutdown_step W serial G tpb port)\<^sup>*\<^sup>* (with_snc ?z x) y \<and> pos y = Returned"
    by (rule finishing_returns [OF shutdown_step_inv [OF st assms(1)] _ _ assms(5)]) (use assms(2,6) in \<open>simp_all add: with_snc_def\<close>)
  with st show ?thesis by (meson converse_rtranclp_into_rtranclp)
qed

lemma running_channel_returns:
  assumes "shutdown_inv x" and "pos x = SyncCancelling" and "caller (snc x) = Waiting (Some n) False" and "(n, Running) \<in> set (runs (snc x))"
    and "no_close_panic W" and "\<forall>w \<in> ran (wallets (reg x)). awaiting w"
  shows "\<exists>y. (shutdown_step W serial G tpb port)\<^sup>*\<^sup>* x y \<and> pos y = Returned"
proof -
  from assms(1,2) have "cancelling_inv (snc x)" by (simp add: shutdown_inv_defs)
  then have c: "n \<in> set (canceled (snc x))" unfolding cancelling_inv_def assms(3) caller.case using assms(4) by blast
  from running_busy [OF _ assms(4)] assms(1) have b: "syncCanceled (sd (mws (snc x))) = Some n" "n \<notin> set (closed (mws (snc x)))"
    by (simp_all add: shutdown_inv_def busy_def)
  then obtain s where s: "run_ended (Some Canceled) (mws (snc x)) = Inr s" "n \<in> set (closed s)"
    by (auto simp: run_ended_def notifySyncCanceled_def publish_def)
  let ?z = "(snc x)\<lparr>mws := s, runs := set_phase n Closing (runs (snc x))\<rparr>"
  have st: "shutdown_step W serial G tpb port x (with_snc ?z x)"
    by (rule shutdown_step.sync [OF sync_step.run_end [OF assms(4) _ s(1)]]) (use c in \<open>simp_all add: background_def\<close>)
  have "\<exists>y. (shutdown_step W serial G tpb port)\<^sup>*\<^sup>* (with_snc ?z x) y \<and> pos y = Returned"
    by (rule closed_channel_returns [OF shutdown_step_inv [OF st assms(1)] _ _ _ assms(5), of n])
      (use assms(2,3,6) s(2) in \<open>simp_all add: with_snc_def\<close>)
  with st show ?thesis by (meson converse_rtranclp_into_rtranclp)
qed


section \<open>A reference execution\<close>

text \<open>The example registry with its opened wallet, and the run of \<open>SyncControl\<close> that was started but not cancelled.\<close>

abbreviation ex_shutdown_reach :: "((unit, unit, unit, unit) LiveWallet list, unit, unit, unit, unit, string list) mw_sys \<Rightarrow> bool" where
  "ex_shutdown_reach \<equiv> shutdown_reach (ex_world []) ex_kv ex_crypt ex_live_db (\<lambda>h a b. Inr h) True ex_G (f_int 300) ''9108''"

abbreviation ex_shutdown_step :: "((unit, unit, unit, unit) LiveWallet list, unit, unit, unit, unit, string list) mw_sys \<Rightarrow>
    ((unit, unit, unit, unit) LiveWallet list, unit, unit, unit, unit, string list) mw_sys \<Rightarrow> bool" where
  "ex_shutdown_step \<equiv> shutdown_step (ex_world []) True ex_G (f_int 300) ''9108''"


lemma ex_sync_running:
  "\<exists>x. ex_shutdown_reach x \<and> pos x = NotCalled \<and> caller (snc x) = Idle \<and> runs (snc x) = [(0, Running)] \<and> ids (mws (snc x)) = [(1, True)] \<and>
     wallets (reg x) = [1 \<mapsto> ex_opened []] \<and> mw_awaiting (reg x)"
proof -
  let ?s = "(new_mw [ex_wallet1])\<lparr>sd := (sd (new_mw [ex_wallet1]))\<lparr>syncProgressListeners := []\<rparr>\<rparr>"
  let ?y = "\<lparr>mws = ?s, runs = [], canceled = [], caller = Idle\<rparr>"
  let ?r = "\<lparr>rs_mw = ?s, rs_listener = False, rs_events = [], rs_canceled = [], jobs = []\<rparr>"
  from ex_opened_registry [of "[]"] obtain mw where mw: "registry (ex_world []) ex_kv ex_crypt ex_live_db (\<lambda>h a b. Inr h) mw"
    "wallets mw = [1 \<mapsto> ex_opened []]" "mw_awaiting mw" by blast
  have same: "same_wallets mw (mws ?y)" using mw(2) by (simp add: same_wallets_def new_mw_def ex_wallet1_def WalletOpened_def ex_opened_def)
  have r0: "rescan_reach True ex_G ?r" by (rule rescan_reach.init) (simp_all add: new_mw_def)
  let ?x = "\<lparr>reg = mw, snc = ?y, rsc = ?r, pos = NotCalled, pending = False, db_open = True, rotator_open = True\<rparr>"
  have x: "ex_shutdown_reach ?x" by (rule shutdown_reach.init [OF mw(1) sync_reach.init same r0]) simp
  obtain s where s: "SpvSync ''9108'' [] (mws ?y) = Inr s" using SpvSync_no_peers [of "mws ?y"] by (auto simp: new_mw_def)
  let ?z = "?y\<lparr>mws := s, runs := runs ?y @ [(next_id (mws ?y), Running)]\<rparr>"
  have "sync_step ex_G (f_int 300) ''9108'' (snc ?x) ?z"
    using sync_step.start [of ?y "''9108''" "[]" s] s by simp
  then have "ex_shutdown_reach (with_snc ?z ?x)" by (rule shutdown_reach.step [OF x shutdown_step.sync]) simp
  then show ?thesis using SpvSync_starts [OF s] mw(2,3)
    by (intro exI [of _ "with_snc ?z ?x"]) (simp add: with_snc_def new_mw_def ids_def ex_wallet1_def)
qed

lemma ex_cancel_begun:
  "\<exists>x. ex_shutdown_reach x \<and> pos x = SyncCancelling \<and> caller (snc x) = Cancelling False \<and> runs (snc x) = [(0, Running)] \<and>
     ids (mws (snc x)) = [(1, True)] \<and> wallets (reg x) = [1 \<mapsto> ex_opened []]"
proof -
  from ex_sync_running obtain x where x: "ex_shutdown_reach x" "pos x = NotCalled" "caller (snc x) = Idle" "runs (snc x) = [(0, Running)]"
    "ids (mws (snc x)) = [(1, True)]" "wallets (reg x) = [1 \<mapsto> ex_opened []]" "mw_awaiting (reg x)" by blast
  let ?mw = "(reg x)\<lparr>mw_awaiting := False, mw_cancelled := mw_cancelFuncs (reg x)\<rparr>"
  let ?x1 = "x\<lparr>reg := ?mw, pending := True, pos := Signalled\<rparr>"
  have "ex_shutdown_reach ?x1"
    by (rule shutdown_reach.step [OF x(1) shutdown_step.signal [OF x(2,3)]]) (simp add: signal_shutdown_def x(7))
  then have r: "ex_shutdown_reach (with_rsc (CancelRescan (rsc ?x1)) ?x1\<lparr>pos := RescanCancelled\<rparr>)" (is "ex_shutdown_reach ?x2")
    by (rule shutdown_reach.step [OF _ shutdown_step.cancel_rescan]) simp
  from shutdown_reach_inv [OF x(1)] have i: "sync_inv (snc x)" "rs_mw (rsc x) = mws (snc x)" by (simp_all add: shutdown_inv_def)
  have m: "caller (snc ?x2) = Idle" "runs (snc ?x2) = [(0, Running)]" "wallets (reg ?x2) = [1 \<mapsto> ex_opened []]" "pos ?x2 = RescanCancelled"
    using x by (simp_all add: with_rsc_def)
  have "ids (mws (snc ?x2)) = ids (mws (snc x))" using i(2) by (simp add: with_rsc_def CancelRescan_def ids_def upd_sd_def split: option.split)
  with x(5) have m5: "ids (mws (snc ?x2)) = [(1, True)]" by simp
  from shutdown_reach_inv [OF r] have "sync_inv (snc ?x2)" by (simp add: shutdown_inv_def)
  from running_busy [OF this, of 0] m(2) have c: "cancelSync (sd (mws (snc ?x2))) = Some 0" by (simp add: busy_def)
  let ?z = "(snc ?x2)\<lparr>canceled := 0 # canceled (snc ?x2), caller := Cancelling False\<rparr>"
  have st: "sync_step ex_G (f_int 300) ''9108'' (snc ?x2) ?z"
    using sync_step.cancel [OF m(1) refl, where restart = False] c by simp
  have "ex_shutdown_reach (with_snc ?z ?x2\<lparr>pos := SyncCancelling\<rparr>)"
    by (rule shutdown_reach.step [OF r shutdown_step.cancel_sync [OF m(4) st]]) simp
  with m m5 show ?thesis by (intro exI [of _ "with_snc ?z ?x2\<lparr>pos := SyncCancelling\<rparr>"]) (simp add: with_snc_def)
qed


lemma ex_awaits:
  "\<exists>x. ex_shutdown_reach x \<and> pos x = SyncCancelling \<and> caller (snc x) = Waiting (if lose then None else Some 0) False \<and>
     runs (snc x) = [(0, if lose then Ended else Running)] \<and> wallets (reg x) = [1 \<mapsto> ex_opened []]"
proof -
  have wait: "ex_shutdown_reach (with_snc ((snc x)\<lparr>caller := Waiting (syncCanceled (sd (mws (snc x)))) False\<rparr>) x)"
    if "ex_shutdown_reach x" "pos x = SyncCancelling" "caller (snc x) = Cancelling False" for x
    by (rule shutdown_reach.step [OF that(1) shutdown_step.sync_next [OF that(2) sync_step.cancel_wait [OF that(3)]]]) (simp add: that(3))
  from ex_cancel_begun obtain x where x: "ex_shutdown_reach x" "pos x = SyncCancelling" "caller (snc x) = Cancelling False"
    "runs (snc x) = [(0, Running)]" "ids (mws (snc x)) = [(1, True)]" "wallets (reg x) = [1 \<mapsto> ex_opened []]" by blast
  from shutdown_reach_inv [OF x(1)] have i: "sync_inv (snc x)" "cancelling_inv (snc x)" using x(2) by (simp_all add: shutdown_inv_defs)
  from i(2) x(3,4) have c: "0 \<in> set (canceled (snc x))" by (simp add: cancelling_inv_def)
  from running_busy [OF i(1), of 0] x(4) have b: "syncCanceled (sd (mws (snc x))) = Some 0" "0 \<notin> set (closed (mws (snc x)))" by (simp_all add: busy_def)
  show ?thesis
  proof (cases lose)
    case False
    with wait [OF x(1-3)] b(1) x show ?thesis
      by (intro exI [of _ "with_snc ((snc x)\<lparr>caller := Waiting (Some 0) False\<rparr>) x"]) (simp add: with_snc_def)
  next
    case True
    from b obtain s where s: "run_ended (Some Canceled) (mws (snc x)) = Inr s" "ids s = ids (mws (snc x))"
      by (auto simp: run_ended_def notifySyncCanceled_def publish_def ids_def)
    let ?y = "(snc x)\<lparr>mws := s, runs := set_phase 0 Closing (runs (snc x))\<rparr>"
    have "sync_step ex_G (f_int 300) ''9108'' (snc x) ?y" by (rule sync_step.run_end [OF _ _ s(1)]) (use x(4) c in simp_all)
    then have r1: "ex_shutdown_reach (with_snc ?y x)" (is "ex_shutdown_reach ?x1")
      by (rule shutdown_reach.step [OF x(1) shutdown_step.sync]) (simp add: background_def)
    have "list_all opened (ws (stopUpdatingAddressDiscoveryProgress 0 s))"
      using s(2) x(5) stop_keeps [of s 0] by (auto simp: keeps_def ids_def list_all_iff map_eq_Cons_conv)
    then obtain s' where s': "resetSyncData 0 s = Inr s'" "syncCanceled (sd s') = None"
      by (auto simp: resetSyncData_def Let_def upd_sd_def)
    let ?z = "(snc ?x1)\<lparr>mws := s', runs := set_phase 0 Ended (runs (snc ?x1))\<rparr>"
    have "sync_step ex_G (f_int 300) ''9108'' (snc ?x1) ?z"
      by (rule sync_step.run_reset [of 0 _ 0]) (use x(4) s' in \<open>simp_all add: with_snc_def set_phase_def\<close>)
    then have r2: "ex_shutdown_reach (with_snc ?z ?x1)" (is "ex_shutdown_reach ?x2")
      by (rule shutdown_reach.step [OF r1 shutdown_step.sync]) (simp add: background_def)
    from wait [OF r2] x s'(2) True show ?thesis
      by (intro exI [of _ "with_snc ((snc ?x2)\<lparr>caller := Waiting None False\<rparr>) ?x2"]) (simp add: with_snc_def set_phase_def)
  qed
qed

lemma shutdown_steps:
  assumes "(shutdown_step W serial G tpb port)\<^sup>*\<^sup>* x y" and "shutdown_reach W K C D change serial G tpb port x"
  shows "shutdown_reach W K C D change serial G tpb port y \<and> dom (wallets (reg y)) = dom (wallets (reg x))"
  using assms(1)
proof (induction rule: rtranclp_induct)
  case (step y z)
  from step(2) have "dom (wallets (reg z)) = dom (wallets (reg y))"
    by cases (auto simp: with_snc_def with_rsc_def signal_shutdown_def split: if_splits)
  with step show ?case by (auto intro: shutdown_reach.step)
qed (use assms(2) in simp)

section \<open>Properties\<close>





end
