(* ===== verification/Notifications.thy ===== *)
theory Notifications
  imports TxIndex
begin

text \<open>
  Notifications of transactions and blocks, \<open>txandblocknotifications.go\<close>: a goroutine per wallet stores
  the transactions that the wallet reports in the index and passes them on to the listeners.  The
  listeners are the keys of the map, in the order in which Go happens to range over it; the encoding
  of a transaction as JSON is a parameter.
\<close>

section \<open>State\<close>

datatype tx_event =
    OnTransaction string
  | OnTransactionConfirmed int string int
  | OnBlockAttached int int

record 's ntfn =
  nt_index :: 's
  nt_listeners :: "string list"
  nt_events :: "(string \<times> tx_event) list"

text \<open>A notification of the wallet: unmined transactions and attached blocks.\<close>

record TransactionNotifications =
  UnminedTransactions :: "TransactionSummary list"
  AttachedBlocks :: "Block list"

section \<open>Listeners\<close>

definition ErrListenerExists :: string where "ErrListenerExists = ''listener_already_exist''"

definition AddTxAndBlockNotificationListener :: "string \<Rightarrow> 's ntfn \<Rightarrow> 's ntfn \<times> err option" where
  "AddTxAndBlockNotificationListener uniqueIdentifier x =
     (if uniqueIdentifier \<in> set (nt_listeners x) then (x, Some (New ErrListenerExists))
      else (x\<lparr>nt_listeners := nt_listeners x @ [uniqueIdentifier]\<rparr>, None))"

definition RemoveTxAndBlockNotificationListener :: "string \<Rightarrow> 's ntfn \<Rightarrow> 's ntfn" where
  "RemoveTxAndBlockNotificationListener uniqueIdentifier x = x\<lparr>nt_listeners := removeAll uniqueIdentifier (nt_listeners x)\<rparr>"

definition tell :: "tx_event \<Rightarrow> 's ntfn \<Rightarrow> 's ntfn" where
  "tell ev x = x\<lparr>nt_events := nt_events x @ map (\<lambda>k. (k, ev)) (nt_listeners x)\<rparr>"

definition mempoolTransactionNotification :: "string \<Rightarrow> 's ntfn \<Rightarrow> 's ntfn" where
  "mempoolTransactionNotification transaction x = tell (OnTransaction transaction) x"

definition publishTransactionConfirmed :: "int \<Rightarrow> string \<Rightarrow> int \<Rightarrow> 's ntfn \<Rightarrow> 's ntfn" where
  "publishTransactionConfirmed walletID transactionHash blockHeight x = tell (OnTransactionConfirmed walletID transactionHash blockHeight) x"

definition publishBlockAttached :: "int \<Rightarrow> int \<Rightarrow> 's ntfn \<Rightarrow> 's ntfn" where
  "publishBlockAttached walletID blockHeight x = tell (OnBlockAttached walletID blockHeight) x"

section \<open>The goroutine of a wallet\<close>

text \<open>
  The loops over unmined transactions and over the transactions of a block.  The result says whether
  the goroutine goes on; an error is logged and ends it.  The outer \<open>None\<close> is the recursion bound of
  the decoding.
\<close>

fun unmined_loop :: "'s storm \<Rightarrow> wallet_ctx \<Rightarrow> (Transaction \<Rightarrow> string result) \<Rightarrow> TransactionSummary list \<Rightarrow> 's ntfn \<Rightarrow> ('s ntfn \<times> bool) option" where
  "unmined_loop S C marshal [] x = Some (x, True)"
| "unmined_loop S C marshal (t # ts) x =
     (case decode_in C t None of
        None \<Rightarrow> None
      | Some (Inl e) \<Rightarrow> Some (x, False)
      | Some (Inr tx) \<Rightarrow>
          (case SaveOrUpdate S (nt_index x) tx of
             (st, _, Some e) \<Rightarrow> Some (x\<lparr>nt_index := st\<rparr>, False)
           | (st, overwritten, None) \<Rightarrow>
               let x1 = x\<lparr>nt_index := st\<rparr>;
                   x2 = (if \<not> overwritten then (case marshal tx of Inl e \<Rightarrow> x1 | Inr result \<Rightarrow> mempoolTransactionNotification result x1) else x1)
               in unmined_loop S C marshal ts x2))"

fun block_loop :: "'s storm \<Rightarrow> wallet_ctx \<Rightarrow> hash \<Rightarrow> nat \<Rightarrow> TransactionSummary list \<Rightarrow> 's ntfn \<Rightarrow> ('s ntfn \<times> bool) option" where
  "block_loop S C blockHash height [] x = Some (x, True)"
| "block_loop S C blockHash height (t # ts) x =
     (case decode_in C t (Some blockHash) of
        None \<Rightarrow> None
      | Some (Inl e) \<Rightarrow> Some (x, False)
      | Some (Inr tx) \<Rightarrow>
          (case SaveOrUpdate S (nt_index x) tx of
             (st, _, Some e) \<Rightarrow> Some (x\<lparr>nt_index := st\<rparr>, False)
           | (st, _, None) \<Rightarrow>
               block_loop S C blockHash height ts
                 (publishTransactionConfirmed (wc_ID C) (ts_Hash t) (int32_of (int height)) (x\<lparr>nt_index := st\<rparr>))))"

fun blocks_loop :: "'s storm \<Rightarrow> wallet_ctx \<Rightarrow> Block list \<Rightarrow> 's ntfn \<Rightarrow> ('s ntfn \<times> bool) result option" where
  "blocks_loop S C [] x = Some (Inr (x, True))"
| "blocks_loop S C (b # bs) x =
     (case bl_Header b of
        None \<Rightarrow> Some (Inl nil_panic)
      | Some (blockHash, height) \<Rightarrow>
          (case block_loop S C blockHash height (bl_Transactions b) x of
             None \<Rightarrow> None
           | Some (x1, False) \<Rightarrow> Some (Inr (x1, False))
           | Some (x1, True) \<Rightarrow> blocks_loop S C bs (publishBlockAttached (wc_ID C) (int32_of (int height)) x1)))"

definition handle_notifications ::
  "'s storm \<Rightarrow> wallet_ctx \<Rightarrow> (Transaction \<Rightarrow> string result) \<Rightarrow> TransactionNotifications \<Rightarrow> 's ntfn \<Rightarrow> ('s ntfn \<times> bool) result option" where
  "handle_notifications S C marshal v x =
     (case unmined_loop S C marshal (UnminedTransactions v) x of
        None \<Rightarrow> None
      | Some (x1, False) \<Rightarrow> Some (Inr (x1, False))
      | Some (x1, True) \<Rightarrow> blocks_loop S C (AttachedBlocks v) x1)"

text \<open>
  What the goroutine receives: a notification, or nil from the closed channel, or the end of the sync,
  at which it gives up the subscription and waits for the channel to be closed.
\<close>

datatype received = Notified TransactionNotifications | ChannelClosed | SyncCanceled

fun listenForTransactions ::
  "'s storm \<Rightarrow> wallet_ctx \<Rightarrow> (Transaction \<Rightarrow> string result) \<Rightarrow> received list \<Rightarrow> 's ntfn \<Rightarrow> ('s ntfn \<times> bool) result option" where
  "listenForTransactions S C marshal [] x = Some (Inr (x, True))"
| "listenForTransactions S C marshal (ChannelClosed # rs) x = Some (Inr (x, False))"
| "listenForTransactions S C marshal (SyncCanceled # rs) x = listenForTransactions S C marshal rs x"
| "listenForTransactions S C marshal (Notified v # rs) x =
     (case handle_notifications S C marshal v x of
        None \<Rightarrow> None
      | Some (Inl e) \<Rightarrow> Some (Inl e)
      | Some (Inr (x1, False)) \<Rightarrow> Some (Inr (x1, False))
      | Some (Inr (x1, True)) \<Rightarrow> listenForTransactions S C marshal rs x1)"

section \<open>What the listeners are told\<close>

definition tell_all :: "string list \<Rightarrow> tx_event list \<Rightarrow> (string \<times> tx_event) list" where
  "tell_all ls evs = concat (map (\<lambda>ev. map (\<lambda>k. (k, ev)) ls) evs)"

text \<open>The reports of an attached block: its transactions in order, then the block.\<close>

definition block_reports :: "int \<Rightarrow> Block \<Rightarrow> tx_event list" where
  "block_reports walletID b =
     (let height = int32_of (int (snd (the (bl_Header b)))) in
      map (\<lambda>t. OnTransactionConfirmed walletID (ts_Hash t) height) (bl_Transactions b) @ [OnBlockAttached walletID height])"

text \<open>A hash the index holds with a positive time: the transaction was reported before.\<close>

definition known :: "(string \<rightharpoonup> Transaction) \<Rightarrow> Transaction \<Rightarrow> bool" where
  "known m tx \<longleftrightarrow> (\<exists>old. m (t_Hash tx) = Some old \<and> t_Timestamp old > 0)"

lemma tell_all_simps [simp]: "tell_all ls [] = []" "tell_all ls (ev # evs) = map (\<lambda>k. (k, ev)) ls @ tell_all ls evs"
  "tell_all ls (evs @ evs') = tell_all ls evs @ tell_all ls evs'"
  by (simp_all add: tell_all_def)

lemma tell_simps [simp]:
  "nt_index (tell ev x) = nt_index x" "nt_listeners (tell ev x) = nt_listeners x"
  "nt_events (tell ev x) = nt_events x @ map (\<lambda>k. (k, ev)) (nt_listeners x)"
  by (simp_all add: tell_def)

context storm_db
begin

lemma SaveOrUpdate_overwritten:
  assumes "SaveOrUpdate S st tx = (st', ow, None)"
  shows "ow \<longleftrightarrow> known (by_hash (records st)) tx"
proof (cases "One S st ''Hash'' (t_Hash tx)")
  case (Inl e)
  with assms one_missing [of st "t_Hash tx"] show ?thesis
    by (cases e) (auto simp: SaveOrUpdate_def Let_def known_def by_hash_Some image_iff split: sum.splits)
next
  case (Inr old)
  from one_found [OF Inr] have "by_hash (records st) (t_Hash tx) = Some old" by (simp add: by_hash_Some)
  with assms Inr show ?thesis by (auto simp: SaveOrUpdate_def Let_def known_def split: sum.splits if_splits)
qed

lemma block_loop_reports:
  assumes "block_loop S C bh height ts x = Some (x', True)"
  shows "by_hash (records (nt_index x')) = put_all (map (\<lambda>t. projr (the (decode_in C t (Some bh)))) ts) (by_hash (records (nt_index x))) \<and>
    nt_listeners x' = nt_listeners x \<and>
    nt_events x' = nt_events x @ tell_all (nt_listeners x) (map (\<lambda>t. OnTransactionConfirmed (wc_ID C) (ts_Hash t) (int32_of (int height))) ts)"
  using assms
proof (induction ts arbitrary: x)
  case (Cons t ts)
  from Cons.prems obtain tx st ow where d: "decode_in C t (Some bh) = Some (Inr tx)" and s: "SaveOrUpdate S (nt_index x) tx = (st, ow, None)"
    and r: "block_loop S C bh height ts (publishTransactionConfirmed (wc_ID C) (ts_Hash t) (int32_of (int height)) (x\<lparr>nt_index := st\<rparr>)) = Some (x', True)"
    by (auto split: option.splits sum.splits prod.splits)
  have "by_hash (records st) = (by_hash (records (nt_index x)))(t_Hash tx \<mapsto> tx)" using SaveOrUpdate_updates [OF s] by blast
  with Cons.IH [OF r] d show ?case by (simp add: publishTransactionConfirmed_def put_all_simps del: fun_upd_apply)
qed (simp add: put_all_simps)

lemma blocks_loop_reports:
  assumes "blocks_loop S C bs x = Some (Inr (x', True))"
  shows "by_hash (records (nt_index x')) = put_all (decoded C bs) (by_hash (records (nt_index x))) \<and> nt_listeners x' = nt_listeners x \<and>
    nt_events x' = nt_events x @ tell_all (nt_listeners x) (concat (map (block_reports (wc_ID C)) bs))"
  using assms
proof (induction bs arbitrary: x)
  case (Cons b bs)
  from Cons.prems obtain bh height x1 where h: "bl_Header b = Some (bh, height)" and l: "block_loop S C bh height (bl_Transactions b) x = Some (x1, True)"
    and r: "blocks_loop S C bs (publishBlockAttached (wc_ID C) (int32_of (int height)) x1) = Some (Inr (x', True))"
    by (auto split: option.splits bool.splits)
  from Cons.IH [OF r] block_loop_reports [OF l] h show ?case
    by (simp add: publishBlockAttached_def decoded_def put_all_simps block_reports_def Let_def)
qed (simp add: put_all_simps decoded_def)

lemma unmined_loop_reports:
  assumes "unmined_loop S C (\<lambda>tx. Inr (json tx)) ts x = Some (x', True)"
    and "distinct (map t_Hash (map (\<lambda>t. projr (the (decode_in C t None))) ts))"
  shows "by_hash (records (nt_index x')) = put_all (map (\<lambda>t. projr (the (decode_in C t None))) ts) (by_hash (records (nt_index x))) \<and>
    nt_listeners x' = nt_listeners x \<and>
    nt_events x' = nt_events x @ tell_all (nt_listeners x)
      (map (\<lambda>tx. OnTransaction (json tx)) (filter (\<lambda>tx. \<not> known (by_hash (records (nt_index x))) tx) (map (\<lambda>t. projr (the (decode_in C t None))) ts)))"
  using assms
proof (induction ts arbitrary: x)
  case (Cons t ts)
  from Cons.prems(1) obtain tx st ow where d: "decode_in C t None = Some (Inr tx)" and s: "SaveOrUpdate S (nt_index x) tx = (st, ow, None)"
    and r: "unmined_loop S C (\<lambda>tx. Inr (json tx)) ts (if \<not> ow then mempoolTransactionNotification (json tx) (x\<lparr>nt_index := st\<rparr>) else x\<lparr>nt_index := st\<rparr>) = Some (x', True)"
    by (auto simp: Let_def split: option.splits sum.splits prod.splits)
  let ?m = "by_hash (records (nt_index x))"
  have m: "by_hash (records st) = ?m(t_Hash tx \<mapsto> tx)" using SaveOrUpdate_updates [OF s] by blast
  have "known (?m(t_Hash tx \<mapsto> tx)) u \<longleftrightarrow> known ?m u" if "u \<in> set (map (\<lambda>t. projr (the (decode_in C t None))) ts)" for u
    using that Cons.prems(2) d by (force simp: known_def)
  then have f: "filter (\<lambda>u. \<not> known (?m(t_Hash tx \<mapsto> tx)) u) (map (\<lambda>t. projr (the (decode_in C t None))) ts) =
      filter (\<lambda>u. \<not> known ?m u) (map (\<lambda>t. projr (the (decode_in C t None))) ts)" by (auto intro: filter_cong)
  from Cons.IH [OF r] Cons.prems(2) d m f SaveOrUpdate_overwritten [OF s] show ?case
    by (cases ow) (simp_all add: mempoolTransactionNotification_def put_all_simps del: fun_upd_apply)
qed (simp add: put_all_simps)

end

section \<open>Properties\<close>

definition unmined_txs :: "wallet_ctx \<Rightarrow> TransactionNotifications \<Rightarrow> Transaction list" where
  "unmined_txs C v = map (\<lambda>t. projr (the (decode_in C t None))) (UnminedTransactions v)"

text \<open>
  C26.  A notification that is handled to the end leaves every unmined transaction and then every
  transaction of the attached blocks in the index as it was decoded, in this order, and every other
  entry as it was.  Every listener is told, in order: each unmined transaction that the index did
  not know, then for each attached block the confirmation of its transactions and the block.
\<close>

theorem notifications_reach_index_and_listeners:
  assumes "storm_db S records Match" and "distinct (map t_Hash (unmined_txs C v))"
    and "handle_notifications S C (\<lambda>tx. Inr (json tx)) v x = Some (Inr (x', True))"
  shows "by_hash (records (nt_index x')) = put_all (unmined_txs C v @ decoded C (AttachedBlocks v)) (by_hash (records (nt_index x))) \<and>
    nt_events x' = nt_events x @ tell_all (nt_listeners x)
      (map (\<lambda>tx. OnTransaction (json tx)) (filter (\<lambda>tx. \<not> known (by_hash (records (nt_index x))) tx) (unmined_txs C v)) @
       concat (map (block_reports (wc_ID C)) (AttachedBlocks v)))"
proof -
  from assms(3) obtain x1 where u: "unmined_loop S C (\<lambda>tx. Inr (json tx)) (UnminedTransactions v) x = Some (x1, True)"
    and b: "blocks_loop S C (AttachedBlocks v) x1 = Some (Inr (x', True))"
    by (auto simp: handle_notifications_def split: option.splits bool.splits)
  from storm_db.unmined_loop_reports [OF assms(1) u] storm_db.blocks_loop_reports [OF assms(1) b] assms(2) show ?thesis
    by (simp add: unmined_txs_def storm_db.put_all_simps [OF assms(1)])
qed

theorem notifications_reach_index_and_listeners_witness:
  "\<exists>x' t. handle_notifications ref_storm \<lparr>wc_decode = ex_decode_lib, wc_wallet = ex_wallet_lib, wc_fuel = 2, wc_ID = 1\<rparr> (\<lambda>tx. Inr (t_Hash tx))
      \<lparr>UnminedTransactions = [], AttachedBlocks = [\<lparr>bl_Header = Some ([7], 12), bl_Transactions = [ex_summary 1]\<rparr>]\<rparr>
      \<lparr>nt_index = ([], []), nt_listeners = [''app''], nt_events = []\<rparr> = Some (Inr (x', True)) \<and>
    nt_events x' = [(''app'', OnTransactionConfirmed 1 [] 12), (''app'', OnBlockAttached 1 12)] \<and>
    by_hash (ref_records (nt_index x')) = [t_Hash t \<mapsto> t] \<and> t_Timestamp t = 1000"
proof -
  let ?C = "\<lparr>wc_decode = ex_decode_lib, wc_wallet = ex_wallet_lib, wc_fuel = 2, wc_ID = 1\<rparr>"
  let ?bs = "[\<lparr>bl_Header = Some ([7], 12), bl_Transactions = [ex_summary 1]\<rparr>]"
  let ?v = "\<lparr>UnminedTransactions = [], AttachedBlocks = ?bs\<rparr>"
  let ?x = "\<lparr>nt_index = ([], []), nt_listeners = [''app''], nt_events = []\<rparr>"
  obtain t where d: "DecodeTransaction ex_decode_lib (summary_wallet_tx ex_wallet_lib 1 (ex_summary 1) (Some [7])) = Inr t"
    and t: "t_TicketSpentHash t = []" "t_Timestamp t = 1000"
    by (simp add: ex_decode_defs Let_def)
  have dec: "decode_in ?C (ex_summary 1) (Some [7]) = Some (Inr t)"
    using d t by (simp add: decode_in_def eval_nat_numeral Let_def)
  have "\<exists>x'. handle_notifications ref_storm ?C (\<lambda>tx. Inr (t_Hash tx)) ?v ?x = Some (Inr (x', True))"
    by (simp add: handle_notifications_def dec SaveOrUpdate_def ref_storm_def ref_records_def)
  then obtain x' where run: "handle_notifications ref_storm ?C (\<lambda>tx. Inr (t_Hash tx)) ?v ?x = Some (Inr (x', True))" by blast
  have "decoded ?C ?bs = [t]" by (simp add: decoded_def dec)
  with notifications_reach_index_and_listeners [OF ref_db.storm_db_axioms _ run] run t(2) show ?thesis
    by (intro exI [of _ x'] exI [of _ t])
      (simp add: put_all_def unmined_txs_def block_reports_def ex_summary_def int32_of_def ref_records_def by_hash_def)
qed

text \<open>
  The first transaction that cannot be decoded or stored ends the goroutine: whatever the wallet
  reports afterwards changes nothing.
\<close>

theorem failed_notification_silences_wallet:
  assumes "handle_notifications S C marshal v x = Some (Inr (x1, False))"
  shows "listenForTransactions S C marshal (Notified v # rs) x = Some (Inr (x1, False))"
  using assms by simp

end
