(* ===== verification/Accounts.thy ===== *)
theory Accounts
  imports Utils
begin

text \<open>
  Accounts, addresses and signed messages of an opened wallet: \<open>accounts.go\<close>, \<open>address.go\<close> and
  \<open>message.go\<close>.  The wallet library is a parameter; \<open>'w\<close> is the state of the opened wallet
  (\<open>wallet.internal\<close>), \<open>'a\<close> a decoded address.  A call on a wallet that is not opened is a nil
  dereference.  A lock channel is modelled by its effect: the wallet is told to lock when the
  operation returns.
\<close>

section \<open>Parameters\<close>

record AccountProperties =
  ap_AccountName :: string
  LastUsedExternalIndex :: nat
  LastUsedInternalIndex :: nat
  ap_ImportedKeyCount :: nat

record Balances =
  bs_Total :: int
  bs_Spendable :: int
  bs_ImmatureCoinbaseRewards :: int
  bs_ImmatureStakeGeneration :: int
  bs_LockedByTickets :: int
  bs_VotingAuthority :: int
  bs_Unconfirmed :: int

text \<open>What the wallet knows of an address; \<open>mi_PubKey\<close> is \<open>ExportPubKey\<close> of a managed public key address.\<close>

record managed_info =
  mi_Account :: nat
  mi_PubKey :: "string option"

text \<open>The types of addresses that \<open>message.go\<close> distinguishes; the flag says that the signature type is secp256k1.\<close>

datatype addr_kind = SecpPubKey | PubKeyHash bool | OtherAddr

record ('w, 'a) account_lib =
  al_Accounts :: "'w \<Rightarrow> (nat list \<times> hash \<times> int) result"
  al_AccountProperties :: "'w \<Rightarrow> nat \<Rightarrow> AccountProperties result"
  al_CalculateAccountBalance :: "'w \<Rightarrow> nat \<Rightarrow> int \<Rightarrow> Balances result"
  al_Unlock :: "'w \<Rightarrow> bytes \<Rightarrow> 'w result"
  al_LockSignal :: "'w \<Rightarrow> 'w"
  al_NextAccount :: "'w \<Rightarrow> string \<Rightarrow> nat result \<times> 'w"
  al_RenameAccount :: "'w \<Rightarrow> nat \<Rightarrow> string \<Rightarrow> 'w result"
  al_AccountName :: "'w \<Rightarrow> nat \<Rightarrow> string result"
  al_AccountNumber :: "'w \<Rightarrow> string \<Rightarrow> nat result"
  al_CoinType :: "'w \<Rightarrow> nat result"
  al_DecodeAddress :: "string \<Rightarrow> 'a result"
  al_HaveAddress :: "'w \<Rightarrow> 'a \<Rightarrow> bool result"
  al_AddressInfo :: "'w \<Rightarrow> 'a \<Rightarrow> managed_info result"
  al_CurrentAddress :: "'w \<Rightarrow> nat \<Rightarrow> string result"
  al_NewExternalAddress :: "'w \<Rightarrow> nat \<Rightarrow> (string \<times> 'w) result"
  al_DecodeHex :: "string \<Rightarrow> bytes result"
  al_NewAddressSecpPubKey :: "bytes \<Rightarrow> string result"
  al_kind :: "'a \<Rightarrow> addr_kind"
  al_SignMessage :: "'w \<Rightarrow> string \<Rightarrow> 'a \<Rightarrow> bytes result"
  al_VerifyMessage :: "string \<Rightarrow> 'a \<Rightarrow> bytes \<Rightarrow> bool result"

section \<open>Accounts (\<open>accounts.go\<close>)\<close>

record Balance =
  Total :: int
  Spendable :: int
  ImmatureReward :: int
  ImmatureStakeGeneration :: int
  LockedByTickets :: int
  VotingAuthority :: int
  UnConfirmed :: int

record Account =
  ac_WalletID :: nat
  ac_Number :: int
  ac_Name :: string
  ac_Balance :: Balance
  ac_TotalBalance :: int
  ExternalKeyCount :: int
  InternalKeyCount :: int
  ImportedKeyCount :: int

record Accounts =
  acs_Count :: int
  acs_CurrentBlockHash :: hash
  acs_CurrentBlockHeight :: int
  acs_Acc :: "Account list"

definition on_opened :: "('w, 'x) Wallet_scheme \<Rightarrow> ('w \<Rightarrow> 'r result) \<Rightarrow> 'r result" where
  "on_opened w f = (case internal w of None \<Rightarrow> Inl nil_panic | Some i \<Rightarrow> f i)"

text \<open>\<open>rc\<close> is \<open>RequiredConfirmations\<close> of the wallet.\<close>

definition GetAccountBalance :: "('w, 'a) account_lib \<Rightarrow> int \<Rightarrow> ('w, 'x) Wallet_scheme \<Rightarrow> int \<Rightarrow> Balance result" where
  "GetAccountBalance L rc w accountNumber =
     on_opened w (\<lambda>i. bind_res (al_CalculateAccountBalance L i (uint32_of accountNumber) rc) (\<lambda>b.
       Inr \<lparr>Total = bs_Total b, Spendable = bs_Spendable b, ImmatureReward = bs_ImmatureCoinbaseRewards b,
            ImmatureStakeGeneration = bs_ImmatureStakeGeneration b, LockedByTickets = bs_LockedByTickets b,
            VotingAuthority = bs_VotingAuthority b, UnConfirmed = bs_Unconfirmed b\<rparr>))"

text \<open>\<open>int32(index + 20)\<close>, where the sum of \<open>uint32\<close> values wraps.\<close>

definition key_count :: "nat \<Rightarrow> int" where
  "key_count index = int32_of (int (uint32_of (int index + 20)))"

definition GetAccount :: "('w, 'a) account_lib \<Rightarrow> int \<Rightarrow> ('w, 'x) Wallet_scheme \<Rightarrow> int \<Rightarrow> Account result" where
  "GetAccount L rc w accountNumber =
     bind_res (on_opened w (\<lambda>i. al_AccountProperties L i (uint32_of accountNumber))) (\<lambda>props.
     bind_res (GetAccountBalance L rc w accountNumber) (\<lambda>balance.
       Inr \<lparr>ac_WalletID = w_ID w, ac_Number = accountNumber, ac_Name = ap_AccountName props, ac_Balance = balance,
            ac_TotalBalance = Total balance, ExternalKeyCount = key_count (LastUsedExternalIndex props),
            InternalKeyCount = key_count (LastUsedInternalIndex props), ImportedKeyCount = int32_of (int (ap_ImportedKeyCount props))\<rparr>))"

fun get_accounts :: "('w, 'a) account_lib \<Rightarrow> int \<Rightarrow> ('w, 'x) Wallet_scheme \<Rightarrow> nat list \<Rightarrow> Account list result" where
  "get_accounts L rc w [] = Inr []"
| "get_accounts L rc w (n # ns) =
     bind_res (GetAccount L rc w (int32_of (int n))) (\<lambda>a. bind_res (get_accounts L rc w ns) (\<lambda>as. Inr (a # as)))"

definition GetAccountsRaw :: "('w, 'a) account_lib \<Rightarrow> int \<Rightarrow> ('w, 'x) Wallet_scheme \<Rightarrow> Accounts result" where
  "GetAccountsRaw L rc w =
     bind_res (on_opened w (al_Accounts L)) (\<lambda>(ns, h, height).
     bind_res (get_accounts L rc w ns) (\<lambda>accounts.
       Inr \<lparr>acs_Count = int (length ns), acs_CurrentBlockHash = h, acs_CurrentBlockHeight = height, acs_Acc = accounts\<rparr>))"

text \<open>\<open>marshal\<close> is \<open>json.Marshal\<close>, whose error is dropped.\<close>

definition GetAccounts :: "(Accounts \<Rightarrow> string) \<Rightarrow> ('w, 'a) account_lib \<Rightarrow> int \<Rightarrow> ('w, 'x) Wallet_scheme \<Rightarrow> string result" where
  "GetAccounts marshal L rc w =
     (case GetAccountsRaw L rc w of
        Inl (Panic m) \<Rightarrow> Inl (Panic m)
      | Inl er \<Rightarrow> Inr []
      | Inr accounts \<Rightarrow> Inr (marshal accounts))"

record AccountsIterator =
  ai_currentIndex :: nat
  ai_accounts :: "Account list"

definition AccountsIterator_of :: "('w, 'a) account_lib \<Rightarrow> int \<Rightarrow> ('w, 'x) Wallet_scheme \<Rightarrow> AccountsIterator result" where
  "AccountsIterator_of L rc w = bind_res (GetAccountsRaw L rc w) (\<lambda>accounts. Inr \<lparr>ai_currentIndex = 0, ai_accounts = acs_Acc accounts\<rparr>)"

definition ai_Next :: "AccountsIterator \<Rightarrow> Account option \<times> AccountsIterator" where
  "ai_Next it =
     (if ai_currentIndex it < length (ai_accounts it)
      then (Some (ai_accounts it ! ai_currentIndex it), it\<lparr>ai_currentIndex := ai_currentIndex it + 1\<rparr>)
      else (None, it))"

definition ai_Reset :: "AccountsIterator \<Rightarrow> AccountsIterator" where
  "ai_Reset it = it\<lparr>ai_currentIndex := 0\<rparr>"

text \<open>The second result is the array of the passphrase afterwards.\<close>

definition NextAccount :: "('w, 'a) account_lib \<Rightarrow> ('w, 'x) Wallet_scheme \<Rightarrow> string \<Rightarrow> bytes \<Rightarrow> int result \<times> bytes \<times> ('w, 'x) Wallet_scheme" where
  "NextAccount L w accountName privPass =
     (case internal w of
        None \<Rightarrow> (Inl nil_panic, zeroes privPass, w)
      | Some i \<Rightarrow>
          (case al_Unlock L i privPass of
             Inl er \<Rightarrow> (Inl (New ErrInvalidPassphrase), zeroes privPass, w\<lparr>internal := Some (al_LockSignal L i)\<rparr>)
           | Inr i1 \<Rightarrow>
               (case al_NextAccount L i1 accountName of
                  (r, i2) \<Rightarrow> (bind_res r (\<lambda>n. Inr (int32_of (int n))), zeroes privPass, w\<lparr>internal := Some (al_LockSignal L i2)\<rparr>))))"

definition RenameAccount :: "('w, 'a) account_lib \<Rightarrow> ('w, 'x) Wallet_scheme \<Rightarrow> int \<Rightarrow> string \<Rightarrow> ('w, 'x) Wallet_scheme result" where
  "RenameAccount L w accountNumber newName =
     on_opened w (\<lambda>i. case al_RenameAccount L i (uint32_of accountNumber) newName of
        Inl er \<Rightarrow> Inl (translateError er)
      | Inr i' \<Rightarrow> Inr (w\<lparr>internal := Some i'\<rparr>))"

definition acc_AccountName :: "('w, 'a) account_lib \<Rightarrow> ('w, 'x) Wallet_scheme \<Rightarrow> int \<Rightarrow> string result" where
  "acc_AccountName L w accountNumber =
     on_opened w (\<lambda>i. case al_AccountName L i (uint32_of accountNumber) of Inl er \<Rightarrow> Inr ''Account not found'' | Inr name \<Rightarrow> Inr name)"

definition AccountNumber :: "('w, 'a) account_lib \<Rightarrow> ('w, 'x) Wallet_scheme \<Rightarrow> string \<Rightarrow> nat result" where
  "AccountNumber L w accountName = on_opened w (\<lambda>i. al_AccountNumber L i accountName)"

text \<open>The legacy paths have the typographic apostrophe, three bytes in UTF-8.\<close>

abbreviation apostrophe :: string where "apostrophe \<equiv> [CHR 0xE2, CHR 0x80, CHR 0x99]"

definition TestnetHDPath :: string where "TestnetHDPath = ''m / 44' / 1' / ''"
definition LegacyTestnetHDPath :: string where "LegacyTestnetHDPath = ''m / 44'' @ apostrophe @ '' / 11'' @ apostrophe @ '' / ''"
definition MainnetHDPath :: string where "MainnetHDPath = ''m / 44' / 42' / ''"
definition LegacyMainnetHDPath :: string where "LegacyMainnetHDPath = ''m / 44'' @ apostrophe @ '' / 20'' @ apostrophe @ '' / ''"

definition HDPathForAccount :: "('w, 'a) account_lib \<Rightarrow> bool \<Rightarrow> nat \<Rightarrow> ('w, 'x) Wallet_scheme \<Rightarrow> int \<Rightarrow> string result" where
  "HDPathForAccount L isMainnet legacyCoinType w accountNumber =
     on_opened w (\<lambda>i. case al_CoinType L i of
        Inl er \<Rightarrow> Inl (translateError er)
      | Inr cointype \<Rightarrow>
          let isLegacyCoinType = (cointype = legacyCoinType);
              hdPath = (if isMainnet then (if isLegacyCoinType then LegacyMainnetHDPath else MainnetHDPath)
                        else (if isLegacyCoinType then LegacyTestnetHDPath else TestnetHDPath))
          in Inr (hdPath @ fmt_d accountNumber))"

section \<open>Addresses (\<open>address.go\<close>)\<close>

record AddressInfo =
  ad_Address :: string
  IsMine :: bool
  ad_AccountNumber :: nat
  ad_AccountName :: string

definition ErrAddressDiscoveryNotDone :: string where "ErrAddressDiscoveryNotDone = ''address_discovery_not_done''"

definition IsAddressValid :: "('w, 'a) account_lib \<Rightarrow> string \<Rightarrow> bool" where
  "IsAddressValid L address = is_ok (al_DecodeAddress L address)"

definition HaveAddress :: "('w, 'a) account_lib \<Rightarrow> ('w, 'x) Wallet_scheme \<Rightarrow> string \<Rightarrow> bool result" where
  "HaveAddress L w address =
     (case al_DecodeAddress L address of
        Inl er \<Rightarrow> Inr False
      | Inr addr \<Rightarrow> on_opened w (\<lambda>i. case al_HaveAddress L i addr of Inl er \<Rightarrow> Inr False | Inr b \<Rightarrow> Inr b))"

text \<open>\<open>errText\<close> is the text of an error.  An address the wallet does not know gives a nil \<open>info\<close>, which is dereferenced.\<close>

definition AccountOfAddress :: "(err \<Rightarrow> string) \<Rightarrow> ('w, 'a) account_lib \<Rightarrow> ('w, 'x) Wallet_scheme \<Rightarrow> string \<Rightarrow> string result" where
  "AccountOfAddress errText L w address =
     (case al_DecodeAddress L address of
        Inl er \<Rightarrow> Inr (errText er)
      | Inr addr \<Rightarrow> on_opened w (\<lambda>i. case al_AddressInfo L i addr of
          Inl er \<Rightarrow> Inl nil_panic
        | Inr info \<Rightarrow> acc_AccountName L w (int32_of (int (mi_Account info)))))"

definition AddressInfo_of :: "('w, 'a) account_lib \<Rightarrow> ('w, 'x) Wallet_scheme \<Rightarrow> string \<Rightarrow> AddressInfo result" where
  "AddressInfo_of L w address =
     (case al_DecodeAddress L address of
        Inl er \<Rightarrow> Inl er
      | Inr addr \<Rightarrow> on_opened w (\<lambda>i. case al_AddressInfo L i addr of
          Inl er \<Rightarrow> Inr \<lparr>ad_Address = address, IsMine = False, ad_AccountNumber = 0, ad_AccountName = []\<rparr>
        | Inr info \<Rightarrow> bind_res (acc_AccountName L w (int32_of (int (mi_Account info)))) (\<lambda>name.
            Inr \<lparr>ad_Address = address, IsMine = True, ad_AccountNumber = mi_Account info, ad_AccountName = name\<rparr>)))"

definition CurrentAddress :: "('w, 'a) account_lib \<Rightarrow> ('w, 'x) Wallet_scheme \<Rightarrow> int \<Rightarrow> string result" where
  "CurrentAddress L w account =
     (if IsRestored w \<and> \<not> HasDiscoveredAccounts w then Inl (New ErrAddressDiscoveryNotDone)
      else on_opened w (\<lambda>i. al_CurrentAddress L i (uint32_of account)))"

definition NextAddress :: "('w, 'a) account_lib \<Rightarrow> ('w, 'x) Wallet_scheme \<Rightarrow> int \<Rightarrow> (string \<times> ('w, 'x) Wallet_scheme) result" where
  "NextAddress L w account =
     (if IsRestored w \<and> \<not> HasDiscoveredAccounts w then Inl (New ErrAddressDiscoveryNotDone)
      else on_opened w (\<lambda>i. bind_res (al_NewExternalAddress L i (uint32_of account)) (\<lambda>(addr, i'). Inr (addr, w\<lparr>internal := Some i'\<rparr>))))"

definition AddressPubKey :: "('w, 'a) account_lib \<Rightarrow> ('w, 'x) Wallet_scheme \<Rightarrow> string \<Rightarrow> string result" where
  "AddressPubKey L w address =
     bind_res (al_DecodeAddress L address) (\<lambda>addr.
     on_opened w (\<lambda>i. bind_res (al_AddressInfo L i addr) (\<lambda>ainfo.
       case mi_PubKey ainfo of
         None \<Rightarrow> Inl (New ''address is not a managed pub key address'')
       | Some pubKey \<Rightarrow> bind_res (al_DecodeHex L pubKey) (al_NewAddressSecpPubKey L))))"

section \<open>Messages (\<open>message.go\<close>)\<close>

definition ErrInvalidAddress :: string where "ErrInvalidAddress = ''invalid_address''"

definition can_sign :: "addr_kind \<Rightarrow> bool" where
  "can_sign k = (case k of SecpPubKey \<Rightarrow> True | PubKeyHash secp \<Rightarrow> secp | OtherAddr \<Rightarrow> False)"

text \<open>The wallet is unlocked first and told to lock on every return.\<close>

definition SignMessage :: "('w, 'a) account_lib \<Rightarrow> ('w, 'x) Wallet_scheme \<Rightarrow> bytes \<Rightarrow> string \<Rightarrow> string \<Rightarrow> bytes result \<times> ('w, 'x) Wallet_scheme" where
  "SignMessage L w passphrase address message =
     (case internal w of
        None \<Rightarrow> (Inl nil_panic, w)
      | Some i \<Rightarrow>
          (case al_Unlock L i passphrase of
             Inl er \<Rightarrow> (Inl (translateError er), w\<lparr>internal := Some (al_LockSignal L i)\<rparr>)
           | Inr i1 \<Rightarrow>
               ((case al_DecodeAddress L address of
                   Inl er \<Rightarrow> Inl (translateError er)
                 | Inr addr \<Rightarrow>
                     if \<not> can_sign (al_kind L addr) then Inl (New ErrInvalidAddress)
                     else (case al_SignMessage L i1 message addr of Inl er \<Rightarrow> Inl (translateError er) | Inr sig \<Rightarrow> Inr sig)),
                w\<lparr>internal := Some (al_LockSignal L i1)\<rparr>)))"

definition VerifyMessage :: "('w, 'a) account_lib \<Rightarrow> string \<Rightarrow> string \<Rightarrow> string \<Rightarrow> bool result" where
  "VerifyMessage L address message signatureBase64 =
     (case al_DecodeAddress L address of
        Inl er \<Rightarrow> Inl (translateError er)
      | Inr addr \<Rightarrow>
          (case DecodeBase64 signatureBase64 of
             Inl er \<Rightarrow> Inl er
           | Inr signature \<Rightarrow>
               if \<not> can_sign (al_kind L addr) then Inl (New ErrInvalidAddress)
               else (case al_VerifyMessage L message addr signature of Inl er \<Rightarrow> Inl (translateError er) | Inr valid \<Rightarrow> Inr valid)))"

section \<open>Properties\<close>

lemma uint32_int32: "n < 2 ^ 32 \<Longrightarrow> uint32_of (int32_of (int n)) = n"
  using take_bit_signed_take_bit [of 32 31 "int n"] by (simp add: take_bit_eq_mod int32_of_def uint32_of_def)

lemma key_count_exact: "index + 20 < 2 ^ 31 \<Longrightarrow> key_count index = int index + 20"
  by (simp add: key_count_def uint32_of_def int32_of_id is_int32_def)

lemma key_count_unused: "key_count (2 ^ 32 - 1) = 19"
  by (simp add: key_count_def uint32_of_def int32_of_id is_int32_def)

text \<open>An entry of the list of accounts, for the account number that the wallet reported.\<close>

definition describes :: "('w, 'a) account_lib \<Rightarrow> int \<Rightarrow> ('w, 'x) Wallet_scheme \<Rightarrow> 'w \<Rightarrow> nat \<Rightarrow> Account \<Rightarrow> bool" where
  "describes L rc w i n a \<longleftrightarrow> (\<exists>props b. al_AccountProperties L i n = Inr props \<and> al_CalculateAccountBalance L i n rc = Inr b \<and>
     ac_WalletID a = w_ID w \<and> uint32_of (ac_Number a) = n \<and> ac_Name a = ap_AccountName props \<and> ac_TotalBalance a = bs_Total b \<and>
     Spendable (ac_Balance a) = bs_Spendable b \<and> ExternalKeyCount a = key_count (LastUsedExternalIndex props))"

lemma GetAccount_describes:
  assumes "internal w = Some i" and "n < 2 ^ 32" and "GetAccount L rc w (int32_of (int n)) = Inr a"
  shows "describes L rc w i n a"
  using assms uint32_int32 [OF assms(2)]
  by (auto simp: GetAccount_def GetAccountBalance_def on_opened_def bind_res_Inr describes_def)

lemma get_accounts_describe:
  assumes "internal w = Some i" and "\<forall>n \<in> set ns. n < 2 ^ 32" and "get_accounts L rc w ns = Inr as"
  shows "list_all2 (describes L rc w i) ns as"
  using assms(2,3)
proof (induction ns arbitrary: as)
  case (Cons n ns)
  then show ?case using GetAccount_describes [OF assms(1)] by (auto simp: bind_res_Inr)
qed simp

text \<open>
  The list of accounts has one entry per account the wallet reports, in the same order, with the
  name, the balances and the key counts of that account: the detour of the number through a signed
  integer loses nothing, and a key count is exact for an account with fewer than 2^31 - 20 used
  addresses.
\<close>

theorem GetAccountsRaw_lists_accounts:
  assumes "internal w = Some i" and "al_Accounts L i = Inr (ns, h, height)" and "\<forall>n \<in> set ns. n < 2 ^ 32"
    and "GetAccountsRaw L rc w = Inr acs"
  shows "acs_Count acs = int (length ns) \<and> acs_CurrentBlockHeight acs = height \<and> list_all2 (describes L rc w i) ns (acs_Acc acs) \<and>
    (\<forall>index. index + 20 < 2 ^ 31 \<longrightarrow> key_count index = int index + 20)"
proof -
  from assms(1,2,4) obtain as where "get_accounts L rc w ns = Inr as" and "acs = \<lparr>acs_Count = int (length ns), acs_CurrentBlockHash = h,
      acs_CurrentBlockHeight = height, acs_Acc = as\<rparr>"
    by (auto simp: GetAccountsRaw_def on_opened_def bind_res_Inr)
  with get_accounts_describe [OF assms(1,3)] key_count_exact show ?thesis by simp
qed

text \<open>
  C29.  A message that \<open>SignMessage\<close> signs is verified: \<open>VerifyMessage\<close> accepts the signature, in base64,
  for the same address and message, if the wallet library accepts its own signatures.  The wallet
  had been unlocked with the passphrase and is told to lock again, also when signing fails.
\<close>

theorem signed_messages_verify:
  assumes "\<forall>i m a s. al_SignMessage L i m a = Inr s \<longrightarrow> al_VerifyMessage L m a s = Inr True" and "internal w = Some i"
  shows "case SignMessage L w passphrase address message of (r, w') \<Rightarrow>
    (\<forall>sig. r = Inr sig \<longrightarrow> VerifyMessage L address message (EncodeBase64 sig) = Inr True \<and> is_ok (al_Unlock L i passphrase)) \<and>
    (\<exists>i'. internal w' = Some (al_LockSignal L i') \<and> (i' = i \<or> al_Unlock L i passphrase = Inr i'))"
  using assms base64_round_trip
  by (auto simp: SignMessage_def VerifyMessage_def split: sum.splits)

text \<open>
  \<open>NextAccount\<close> on an opened wallet overwrites the passphrase with zeros and tells the wallet to
  lock, whatever the result; it gives the number of a new account only after the passphrase
  unlocked the wallet.
\<close>

theorem NextAccount_clears_and_locks:
  assumes "internal w = Some i"
  shows "case NextAccount L w accountName privPass of (r, p, w') \<Rightarrow>
    p = replicate (length privPass) 0 \<and> (\<exists>i'. internal w' = Some (al_LockSignal L i')) \<and>
    (case al_Unlock L i privPass of
       Inl er \<Rightarrow> r = Inl (New ErrInvalidPassphrase)
     | Inr i1 \<Rightarrow> r = bind_res (fst (al_NextAccount L i1 accountName)) (\<lambda>n. Inr (int32_of (int n))))"
  using assms by (auto simp: NextAccount_def zeroes_def map_replicate_const split: sum.splits prod.splits)

text \<open>
  An address that the wallet does not know: \<open>AddressInfo\<close> reports it as not its own, \<open>AccountOfAddress\<close>
  dereferences a nil pointer.  For an address it knows the two agree.
\<close>

theorem AccountOfAddress_panics_on_unknown_address:
  assumes "internal w = Some i" and "al_DecodeAddress L address = Inr addr"
  shows "(case al_AddressInfo L i addr of
      Inl er \<Rightarrow> AccountOfAddress errText L w address = Inl nil_panic \<and>
        AddressInfo_of L w address = Inr \<lparr>ad_Address = address, IsMine = False, ad_AccountNumber = 0, ad_AccountName = []\<rparr>
    | Inr info \<Rightarrow> \<exists>ai. AddressInfo_of L w address = Inr ai \<and> IsMine ai \<and> AccountOfAddress errText L w address = Inr (ad_AccountName ai))"
  using assms by (auto simp: AccountOfAddress_def AddressInfo_of_def on_opened_def acc_AccountName_def bind_res_def split: sum.splits)

text \<open>An error of the wallet is lost: \<open>GetAccounts\<close> returns an empty text and no error.\<close>

theorem GetAccounts_loses_errors:
  assumes "GetAccountsRaw L rc w = Inl er" and "\<forall>m. er \<noteq> Panic m"
  shows "GetAccounts marshal L rc w = Inr []"
  using assms by (cases er) (simp_all add: GetAccounts_def)

section \<open>An example\<close>

text \<open>A wallet with one account, whose state is whether it is unlocked; its passphrase is \<open>[1]\<close>.\<close>

definition ex_lib :: "(bool, string) account_lib" where
  "ex_lib = \<lparr>al_Accounts = (\<lambda>i. Inr ([0, 2 ^ 31], [], 7)),
     al_AccountProperties = (\<lambda>i n. Inr \<lparr>ap_AccountName = ''default'', LastUsedExternalIndex = 4, LastUsedInternalIndex = 0, ap_ImportedKeyCount = 0\<rparr>),
     al_CalculateAccountBalance = (\<lambda>i n rc. Inr \<lparr>bs_Total = int n, bs_Spendable = 0, bs_ImmatureCoinbaseRewards = 0, bs_ImmatureStakeGeneration = 0,
       bs_LockedByTickets = 0, bs_VotingAuthority = 0, bs_Unconfirmed = 0\<rparr>),
     al_Unlock = (\<lambda>i p. if p = [1] then Inr True else Inl (E Passphrase ''wrong'')), al_LockSignal = (\<lambda>i. False),
     al_NextAccount = (\<lambda>i n. (if i then Inr 3 else Inl (New ''locked''), i)), al_RenameAccount = (\<lambda>i n s. Inr i), al_AccountName = (\<lambda>i n. Inr ''default''),
     al_AccountNumber = (\<lambda>i s. Inr 0), al_CoinType = (\<lambda>i. Inr 42), al_DecodeAddress = Inr, al_HaveAddress = (\<lambda>i a. Inr True),
     al_AddressInfo = (\<lambda>i a. Inr \<lparr>mi_Account = 0, mi_PubKey = None\<rparr>), al_CurrentAddress = (\<lambda>i n. Inr ''D''), al_NewExternalAddress = (\<lambda>i n. Inr (''D'', i)),
     al_DecodeHex = (\<lambda>s. Inr []), al_NewAddressSecpPubKey = (\<lambda>b. Inr ''D''), al_kind = (\<lambda>a. SecpPubKey),
     al_SignMessage = (\<lambda>i m a. if i then Inr (map (\<lambda>c. of_nat (of_char c)) m) else Inl (New ''locked'')),
     al_VerifyMessage = (\<lambda>m a s. Inr (s = map (\<lambda>c. of_nat (of_char c)) m))\<rparr>"

definition ex_acc_wallet :: "bool Wallet" where
  "ex_acc_wallet = \<lparr>w_ID = 1, w_Name = [], w_DbDriver = [], EncryptedSeed = None, IsRestored = False, HasDiscoveredAccounts = True,
     PrivatePassphraseType = 0, dataDir = [], internal = Some False\<rparr>"

theorem GetAccountsRaw_lists_accounts_witness:
  "\<exists>acs. GetAccountsRaw ex_lib 2 ex_acc_wallet = Inr acs \<and> acs_Count acs = 2 \<and> list_all2 (describes ex_lib 2 ex_acc_wallet False) [0, 2 ^ 31] (acs_Acc acs)"
proof -
  have "\<exists>acs. GetAccountsRaw ex_lib 2 ex_acc_wallet = Inr acs"
    by (simp add: GetAccountsRaw_def GetAccount_def GetAccountBalance_def on_opened_def ex_acc_wallet_def ex_lib_def bind_res_def)
  then obtain acs where r: "GetAccountsRaw ex_lib 2 ex_acc_wallet = Inr acs" by blast
  have "al_Accounts ex_lib False = Inr ([0, 2 ^ 31], [], 7)" "internal ex_acc_wallet = Some False" by (simp_all add: ex_lib_def ex_acc_wallet_def)
  from GetAccountsRaw_lists_accounts [OF this(2,1) _ r] r show ?thesis by auto
qed

theorem signed_messages_verify_witness:
  "\<exists>sig w'. SignMessage ex_lib ex_acc_wallet [1] ''D'' ''hello'' = (Inr sig, w') \<and> VerifyMessage ex_lib ''D'' ''hello'' (EncodeBase64 sig) = Inr True \<and>
     internal w' = Some False"
proof -
  have "\<exists>sig w'. SignMessage ex_lib ex_acc_wallet [1] ''D'' ''hello'' = (Inr sig, w')"
    by (simp add: SignMessage_def ex_lib_def ex_acc_wallet_def can_sign_def)
  then obtain sig w' where r: "SignMessage ex_lib ex_acc_wallet [1] ''D'' ''hello'' = (Inr sig, w')" by blast
  have "\<forall>i m a s. al_SignMessage ex_lib i m a = Inr s \<longrightarrow> al_VerifyMessage ex_lib m a s = Inr True" by (auto simp: ex_lib_def)
  moreover have "internal ex_acc_wallet = Some False" by (simp add: ex_acc_wallet_def)
  ultimately show ?thesis using signed_messages_verify [of ex_lib ex_acc_wallet False, where passphrase = "[1]" and address = "''D''" and message = "''hello''"] r by (auto simp: ex_lib_def)
qed

theorem NextAccount_clears_and_locks_witness:
  "case NextAccount ex_lib ex_acc_wallet ''new'' [1] of (r, p, w') \<Rightarrow> r = Inr 3 \<and> p = [0] \<and> internal w' = Some False"
proof -
  have i: "internal ex_acc_wallet = Some False" by (simp add: ex_acc_wallet_def)
  obtain r p w' where n: "NextAccount ex_lib ex_acc_wallet ''new'' [1] = (r, p, w')" by (metis prod_cases3)
  from NextAccount_clears_and_locks [OF i, where L = ex_lib and accountName = "''new''" and privPass = "[1]"] n show ?thesis
    by (auto simp: ex_lib_def bind_res_def int32_of_def)
qed

end
