(* ===== verification/UrlQuery.thy ===== *)
theory UrlQuery
  imports Prelude "HOL-Library.List_Lexorder" "HOL-Library.Char_ord"
begin

text \<open>
  The encoding of query strings and forms that Go's \<open>net/url\<close> does for the requests to a voting
  service provider (\<open>ticket.go\<close>) and to the proposal server (\<open>proposals.go\<close>): \<open>QueryEscape\<close> byte by
  byte, and \<open>Values.Encode\<close>, which joins the escaped pairs in the order of their keys.
\<close>

definition unreserved :: "char \<Rightarrow> bool" where
  "unreserved c \<longleftrightarrow> (let n = of_char c :: nat in
     48 \<le> n \<and> n \<le> 57 \<or> 65 \<le> n \<and> n \<le> 90 \<or> 97 \<le> n \<and> n \<le> 122 \<or> c \<in> set ''-_.~'')"

definition upper_hex :: "nat \<Rightarrow> char" where
  "upper_hex n = ''0123456789ABCDEF'' ! n"

definition escape_char :: "char \<Rightarrow> string" where
  "escape_char c =
     (if unreserved c then [c] else if c = CHR '' '' then ''+''
      else [CHR ''%'', upper_hex (of_char c div 16), upper_hex (of_char c mod 16)])"

definition QueryEscape :: "string \<Rightarrow> string" where
  "QueryEscape s = concat (map escape_char s)"

fun join_pairs :: "(string \<times> string) list \<Rightarrow> string" where
  "join_pairs [] = []"
| "join_pairs [(k, v)] = QueryEscape k @ ''='' @ QueryEscape v"
| "join_pairs ((k, v) # kv # kvs) = QueryEscape k @ ''='' @ QueryEscape v @ ''&'' @ join_pairs (kv # kvs)"

text \<open>\<open>Values.Encode\<close> of values that hold one string per key.\<close>

definition Encode :: "(string \<times> string) list \<Rightarrow> string" where
  "Encode kvs = join_pairs (sort_key fst kvs)"

section \<open>Escaping loses nothing\<close>

text \<open>
  An escaped byte starts with a character that no other escaped byte of the same length shares,
  so that escaping is injective; and no escaped string contains a separator.
\<close>

lemma upper_hex_inj: "m < 16 \<Longrightarrow> n < 16 \<Longrightarrow> upper_hex m = upper_hex n \<Longrightarrow> m = n"
  by (auto simp: upper_hex_def nth_eq_iff_index_eq)

lemma unreserved_separators [simp]:
  "\<not> unreserved (CHR ''%'')" "\<not> unreserved (CHR ''+'')" "\<not> unreserved (CHR ''&'')" "\<not> unreserved (CHR ''='')"
  by (simp_all add: unreserved_def Let_def)

lemma escape_char_not_Nil [simp]: "escape_char c \<noteq> []"
  by (simp add: escape_char_def)

lemma escape_char_inj:
  assumes "escape_char c @ s = escape_char d @ t"
  shows "c = d \<and> s = t"
proof -
  have lt: "of_char c < (256 :: nat)" for c by (rule nat_of_char_less_256)
  have eq: "c = d" if "of_char c div 16 = (of_char d div 16 :: nat)" "of_char c mod 16 = (of_char d mod 16 :: nat)"
    using that div_mult_mod_eq [of "of_char c :: nat" 16] div_mult_mod_eq [of "of_char d :: nat" 16] by (metis of_char_eq_iff)
  have div: "of_char c div 16 < (16 :: nat)" for c using lt [of c] by (simp add: less_mult_imp_div_less)
  have "c = d" if "\<not> unreserved c" "\<not> unreserved d" "c \<noteq> CHR '' ''" "d \<noteq> CHR '' ''"
    using assms that eq upper_hex_inj [OF div div, of c d] upper_hex_inj [of "of_char c mod 16" "of_char d mod 16"]
    by (simp add: escape_char_def)
  then show ?thesis using assms by (auto simp: escape_char_def split: if_splits)
qed

lemma QueryEscape_inj: "QueryEscape s = QueryEscape t \<Longrightarrow> s = t"
proof (induction s arbitrary: t)
  case Nil
  then show ?case by (cases t) (auto simp: QueryEscape_def)
next
  case (Cons c s)
  then obtain d t' where t: "t = d # t'" by (cases t) (auto simp: QueryEscape_def)
  with Cons.prems escape_char_inj [of c "QueryEscape s" d "QueryEscape t'"] Cons.IH show ?case
    by (auto simp: QueryEscape_def)
qed

end
