(* ===== verification/Tickets.thy ===== *)
theory Tickets
  imports Accounts Transactions UrlQuery
begin

text \<open>
  Tickets, \<open>ticket.go\<close> and \<open>ticketstatus.go\<close>: listing the tickets of a wallet, their price, and buying
  them, directly or through a voting service provider.  The wallet library and the HTTP exchange
  are parameters; a JSON value has the shape that \<open>encoding/json\<close> decodes into an interface.
\<close>

section \<open>Status (\<open>ticketstatus.go\<close>)\<close>

datatype TicketStatus = TicketStatusUnknown | TicketStatusUnmined | TicketStatusImmature | TicketStatusLive
  | TicketStatusVoted | TicketStatusMissed | TicketStatusExpired | TicketStatusRevoked | OtherStatus int

fun ticketStatusString :: "TicketStatus \<Rightarrow> string" where
  "ticketStatusString TicketStatusUnknown = ''UNKNOWN''"
| "ticketStatusString TicketStatusUnmined = ''UNMINED''"
| "ticketStatusString TicketStatusImmature = ''IMMATURE''"
| "ticketStatusString TicketStatusLive = ''LIVE''"
| "ticketStatusString TicketStatusVoted = ''VOTED''"
| "ticketStatusString TicketStatusMissed = ''MISSED''"
| "ticketStatusString TicketStatusExpired = ''EXPIRED''"
| "ticketStatusString TicketStatusRevoked = ''REVOKED''"
| "ticketStatusString (OtherStatus n) = ''UNKNOWN''"

section \<open>Data\<close>

text \<open>The spender of a ticket is a pointer, nil for a ticket that is not spent.\<close>

record TicketSummary =
  tk_Ticket :: TransactionSummary
  tk_Spender :: "TransactionSummary option"
  tk_Status :: TicketStatus

record TicketInfo =
  ti_BlockHeight :: int
  ti_Status :: string
  ti_Ticket :: TransactionSummary
  ti_Spender :: TransactionSummary

record GetTicketsRequest =
  StartingBlockHash :: "bytes option"
  StartingBlockHeight :: int
  EndingBlockHash :: "bytes option"
  EndingBlockHeight :: int
  TargetTicketCount :: int

record TicketPriceResponse =
  TicketPrice :: int
  tp_Height :: int

record PurchaseTicketsRequest =
  pr_Account :: nat
  pr_RequiredConfirmations :: nat
  pr_NumTickets :: nat
  pr_Passphrase :: bytes
  pr_Expiry :: nat
  pr_TxFee :: int
  pr_TicketAddress :: string
  pr_PoolAddress :: string
  pr_PoolFees :: float64
  pr_TicketFee :: int

record VSPTicketPurchaseInfo =
  vsp_PoolAddress :: string
  vsp_PoolFees :: float64
  vsp_Script :: string
  vsp_TicketAddress :: string

text \<open>\<open>wallet.PurchaseTicketsRequest\<close> of the wallet library, as it is filled in.\<close>

record 'a purchase =
  pu_Count :: int
  pu_SourceAccount :: nat
  pu_VotingAddress :: "'a option"
  pu_MinConf :: int
  pu_Expiry :: int

datatype block_id = ByHash hash | ByHeight int

datatype json = JNull | JBool bool | JNum float64 | JStr string | JArr "json list" | JObj "(string \<times> json) list"

text \<open>
  \<open>tk_backend\<close> is the network backend of the wallet: none, the RPC client of a node, or another one.
  \<open>tk_GetTickets\<close> gives the tickets block by block, with the height of the block, and the error at
  the end.  \<open>tk_exist_wraps\<close> is \<open>errors.Is(errors.Exist, err)\<close>, as the code writes it: whether the bare
  kind \<open>Exist\<close> equals or wraps \<open>err\<close>.
\<close>

datatype net_backend = NoBackend err | RpcBackend | OtherBackend

record ('w, 'a) ticket_lib =
  tk_backend :: "'w \<Rightarrow> net_backend"
  tk_NewHash :: "bytes \<Rightarrow> hash result"
  tk_GetTickets :: "'w \<Rightarrow> bool \<Rightarrow> block_id option \<Rightarrow> block_id option \<Rightarrow> (TicketSummary list \<times> nat option) list \<times> err option"
  tk_NextStakeDifficulty :: "'w \<Rightarrow> int result"
  tk_StakeDifficulty :: "'w \<Rightarrow> int result"
  tk_MainChainTip :: "'w \<Rightarrow> int"
  tk_ValidPoolFeeRate :: "float64 \<Rightarrow> bool"
  tk_TicketFeeIncrement :: "'w \<Rightarrow> int"
  tk_Purchase :: "'w \<Rightarrow> 'a purchase \<Rightarrow> hash list result \<times> 'w"
  tk_ImportScript :: "'w \<Rightarrow> bytes \<Rightarrow> 'w \<times> err option"
  tk_exist_wraps :: "err \<Rightarrow> bool"
  tk_hash_String :: "hash \<Rightarrow> string"
  tk_Post :: "string \<Rightarrow> string \<Rightarrow> json result"

text \<open>\<open>StakeInfo\<close>: the precise figures come from a node.\<close>

definition StakeInfo :: "('w \<Rightarrow> net_backend) \<Rightarrow> ('w \<Rightarrow> 'i result) \<Rightarrow> ('w \<Rightarrow> 'i result) \<Rightarrow> ('w, 'x) Wallet_scheme \<Rightarrow> 'i result" where
  "StakeInfo backend StakeInfoPrecise StakeInfoOf w = on_opened w (\<lambda>i. if backend i = RpcBackend then StakeInfoPrecise i else StakeInfoOf i)"

section \<open>Listing tickets\<close>

text \<open>The loop of \<open>rangeFn\<close> over the tickets of a block; \<open>infos\<close> are the tickets collected so far.\<close>

fun add_tickets :: "TicketSummary list \<Rightarrow> nat option \<Rightarrow> TicketInfo list \<Rightarrow> TicketInfo list result" where
  "add_tickets [] block infos = Inr infos"
| "add_tickets (t # ts) block infos =
     (case tk_Spender t of
        None \<Rightarrow> Inl nil_panic
      | Some spender \<Rightarrow>
          add_tickets ts block (infos @ [\<lparr>ti_BlockHeight = (case block of None \<Rightarrow> -1 | Some h \<Rightarrow> int32_of (int h)),
            ti_Status = ticketStatusString (tk_Status t), ti_Ticket = tk_Ticket t, ti_Spender = spender\<rparr>]))"

text \<open>The library calls \<open>rangeFn\<close> block by block until it asks to stop, which the second result says.\<close>

fun collect_tickets :: "int \<Rightarrow> (TicketSummary list \<times> nat option) list \<Rightarrow> TicketInfo list \<Rightarrow> (TicketInfo list \<times> bool) result" where
  "collect_tickets target [] infos = Inr (infos, False)"
| "collect_tickets target ((ts, block) # bs) infos =
     (case add_tickets ts block infos of
        Inl er \<Rightarrow> Inl er
      | Inr infos' \<Rightarrow> if target > 0 \<and> int (length infos') \<ge> target then Inr (infos', True) else collect_tickets target bs infos')"

definition block_identifier :: "('w, 'a) ticket_lib \<Rightarrow> string \<Rightarrow> bytes option \<Rightarrow> int \<Rightarrow> block_id option result" where
  "block_identifier T which hash height =
     (case hash of
        Some h \<Rightarrow>
          if height \<noteq> 0 then Inl (New (which @ '' block hash and height may not be specified simultaneously''))
          else bind_res (tk_NewHash T h) (\<lambda>x. Inr (Some (ByHash x)))
      | None \<Rightarrow> Inr (if height \<noteq> 0 then Some (ByHeight height) else None))"

text \<open>The error of the library is returned beside the tickets collected; when \<open>rangeFn\<close> stops the listing there is none.\<close>

definition getTickets :: "('w, 'a) ticket_lib \<Rightarrow> ('w, 'x) Wallet_scheme \<Rightarrow> GetTicketsRequest \<Rightarrow> (TicketInfo list \<times> err option) result" where
  "getTickets T w req =
     bind_res (block_identifier T ''starting'' (StartingBlockHash req) (StartingBlockHeight req)) (\<lambda>startBlock.
     bind_res (block_identifier T ''ending'' (EndingBlockHash req) (EndingBlockHeight req)) (\<lambda>endBlock.
       if TargetTicketCount req < 0 then Inl (New ''target ticket count may not be negative'')
       else on_opened w (\<lambda>i.
         case tk_GetTickets T i (tk_backend T i = RpcBackend) startBlock endBlock of
           (blocks, er) \<Rightarrow> bind_res (collect_tickets (TargetTicketCount req) blocks []) (\<lambda>(infos, stopped).
             Inr (infos, if stopped then None else er)))))"

definition GetTickets :: "('w, 'a) ticket_lib \<Rightarrow> ('w, 'x) Wallet_scheme \<Rightarrow> bytes option \<Rightarrow> bytes option \<Rightarrow> int \<Rightarrow> (TicketInfo list \<times> err option) result" where
  "GetTickets T w startingBlockHash endingBlockHash targetCount =
     getTickets T w \<lparr>StartingBlockHash = startingBlockHash, StartingBlockHeight = 0, EndingBlockHash = endingBlockHash, EndingBlockHeight = 0,
       TargetTicketCount = targetCount\<rparr>"

definition GetTicketsForBlockHeightRange :: "('w, 'a) ticket_lib \<Rightarrow> ('w, 'x) Wallet_scheme \<Rightarrow> int \<Rightarrow> int \<Rightarrow> int \<Rightarrow> (TicketInfo list \<times> err option) result" where
  "GetTicketsForBlockHeightRange T w startHeight endHeight targetCount =
     getTickets T w \<lparr>StartingBlockHash = None, StartingBlockHeight = startHeight, EndingBlockHash = None, EndingBlockHeight = endHeight,
       TargetTicketCount = targetCount\<rparr>"

definition TicketPrice_of :: "('w, 'a) ticket_lib \<Rightarrow> ('w, 'x) Wallet_scheme \<Rightarrow> TicketPriceResponse result" where
  "TicketPrice_of T w =
     on_opened w (\<lambda>i.
       case tk_NextStakeDifficulty T i of
         Inr sdiff \<Rightarrow> Inr \<lparr>TicketPrice = sdiff, tp_Height = tk_MainChainTip T i\<rparr>
       | Inl _ \<Rightarrow>
           (case tk_backend T i of
              NoBackend er \<Rightarrow> Inl er
            | _ \<Rightarrow>
                (case tk_StakeDifficulty T i of
                   Inl er \<Rightarrow> Inl (translateError er)
                 | Inr price \<Rightarrow> Inr \<lparr>TicketPrice = price, tp_Height = tk_MainChainTip T i\<rparr>)))"

section \<open>Buying tickets\<close>

definition TrimSuffix :: "string \<Rightarrow> string \<Rightarrow> string" where
  "TrimSuffix s suffix = (if suffix \<noteq> [] \<and> length suffix \<le> length s \<and> drop (length s - length suffix) s = suffix then take (length s - length suffix) s else s)"

text \<open>A type assertion on the value of a key; a missing key is a nil interface.\<close>

definition bad_assertion :: err where "bad_assertion = Panic ''interface conversion''"

definition assert_obj :: "json option \<Rightarrow> (string \<times> json) list result" where
  "assert_obj v = (case v of Some (JObj m) \<Rightarrow> Inr m | _ \<Rightarrow> Inl bad_assertion)"

definition assert_str :: "json option \<Rightarrow> string result" where
  "assert_str v = (case v of Some (JStr s) \<Rightarrow> Inr s | _ \<Rightarrow> Inl bad_assertion)"

definition assert_num :: "json option \<Rightarrow> float64 result" where
  "assert_num v = (case v of Some (JNum x) \<Rightarrow> Inr x | _ \<Rightarrow> Inl bad_assertion)"

text \<open>Decoding into a map: an object, or null, which leaves the map nil; anything else is an error.\<close>

definition response_map :: "json \<Rightarrow> (string \<times> json) list result" where
  "response_map j = (case j of JObj m \<Rightarrow> Inr m | JNull \<Rightarrow> Inr [] | _ \<Rightarrow> Inl (New ''json: cannot unmarshal''))"

definition CallVSPTicketInfoAPI :: "('w, 'a) ticket_lib \<Rightarrow> string \<Rightarrow> string \<Rightarrow> VSPTicketPurchaseInfo result" where
  "CallVSPTicketInfoAPI T vspHost pubKeyAddr =
     (let apiUrl = TrimSuffix vspHost ''/'' @ ''/api/v2/purchaseticket'' in
      bind_res (tk_Post T apiUrl (Encode [(''UserPubKeyAddr'', pubKeyAddr)])) (\<lambda>body.
      bind_res (response_map body) (\<lambda>apiResponse.
      bind_res (assert_obj (map_of apiResponse ''data'')) (\<lambda>data.
      bind_res (assert_str (map_of data ''Script'')) (\<lambda>script.
      bind_res (assert_num (map_of data ''PoolFees'')) (\<lambda>fees.
      bind_res (assert_str (map_of data ''PoolAddress'')) (\<lambda>pool.
      bind_res (assert_str (map_of data ''TicketAddress'')) (\<lambda>ticket.
        Inr \<lparr>vsp_PoolAddress = pool, vsp_PoolFees = fees, vsp_Script = script, vsp_TicketAddress = ticket\<rparr>))))))))"

text \<open>An error wrapped by \<open>fmt.Errorf\<close>; a panic passes through.\<close>

fun wrap_err :: "string \<Rightarrow> err \<Rightarrow> err" where
  "wrap_err m (Panic p) = Panic p"
| "wrap_err m e = New m"

definition wrap_result :: "string \<Rightarrow> 'r result \<Rightarrow> 'r result" where
  "wrap_result m r = (case r of Inl e \<Rightarrow> Inl (wrap_err m e) | Inr x \<Rightarrow> Inr x)"

text \<open>Importing the script of the provider: the error of unlocking is not looked at.\<close>

definition import_script :: "('w, 'a) account_lib \<Rightarrow> ('w, 'a) ticket_lib \<Rightarrow> ('w, 'x) Wallet_scheme \<Rightarrow> bytes \<Rightarrow> bytes \<Rightarrow> ('w, 'x) Wallet_scheme \<times> err option" where
  "import_script L T w passphrase rs =
     (case internal w of
        None \<Rightarrow> (w, Some nil_panic)
      | Some i \<Rightarrow>
          (case tk_ImportScript T (case al_Unlock L i passphrase of Inl _ \<Rightarrow> i | Inr i1 \<Rightarrow> i1) rs of
             (i2, er) \<Rightarrow> (w\<lparr>internal := Some (al_LockSignal L i2)\<rparr>,
               case er of None \<Rightarrow> None
               | Some x \<Rightarrow> if tk_exist_wraps T x then None else Some (wrap_err ''error importing vsp redeem script'' x))))"

definition updateTicketPurchaseRequestWithVSPInfo ::
  "('w, 'a) account_lib \<Rightarrow> ('w, 'a) ticket_lib \<Rightarrow> ('w, 'x) Wallet_scheme \<Rightarrow> string \<Rightarrow> PurchaseTicketsRequest \<Rightarrow>
   PurchaseTicketsRequest result \<times> ('w, 'x) Wallet_scheme" where
  "updateTicketPurchaseRequestWithVSPInfo L T w vspHost request =
     (case bind_res (wrap_result ''get wallet pubkeyaddr error'' (CurrentAddress L w 0)) (\<lambda>address.
           bind_res (wrap_result ''get wallet pubkeyaddr error'' (AddressPubKey L w address)) (\<lambda>pubKeyAddr.
           bind_res (wrap_result ''vsp connection error'' (CallVSPTicketInfoAPI T vspHost pubKeyAddr)) (\<lambda>info.
           bind_res (wrap_result ''invalid vsp purchase ticket response'' (al_DecodeHex L (vsp_Script info))) (\<lambda>rs. Inr (info, rs))))) of
        Inl er \<Rightarrow> (Inl er, w)
      | Inr (info, rs) \<Rightarrow>
          (case import_script L T w (pr_Passphrase request) rs of
             (w1, Some er) \<Rightarrow> (Inl er, w1)
           | (w1, None) \<Rightarrow>
               (Inr (request\<lparr>pr_TicketAddress := vsp_TicketAddress info, pr_PoolAddress := vsp_PoolAddress info, pr_PoolFees := vsp_PoolFees info\<rparr>), w1)))"

definition optional_address :: "('w, 'a) account_lib \<Rightarrow> string \<Rightarrow> string \<Rightarrow> 'a option result" where
  "optional_address L which address =
     (if address = [] then Inr None
      else case al_DecodeAddress L address of Inl _ \<Rightarrow> Inl (New (''Invalid '' @ which @ '' address'')) | Inr a \<Rightarrow> Inr (Some a))"

text \<open>Comparisons of a float with zero, both false for NaN.\<close>

definition f_positive :: "float64 \<Rightarrow> bool" where "f_positive x = f_lt (Fin 0) x"
definition f_nonpositive :: "float64 \<Rightarrow> bool" where "f_nonpositive x = (f_lt x (Fin 0) \<or> x = Fin 0 \<or> x = NegZero)"

text \<open>The checks of a request, in order; the result is the decoded voting address.\<close>

definition check_purchase :: "('w, 'a) account_lib \<Rightarrow> ('w, 'a) ticket_lib \<Rightarrow> 'w option \<Rightarrow> PurchaseTicketsRequest \<Rightarrow> 'a option result" where
  "check_purchase L T opened_wallet request =
     bind_res (optional_address L ''ticket'' (pr_TicketAddress request)) (\<lambda>ticketAddr.
     bind_res (optional_address L ''pool'' (pr_PoolAddress request)) (\<lambda>poolAddr.
       if f_positive (pr_PoolFees request) \<and> \<not> tk_ValidPoolFeeRate T (pr_PoolFees request) then Inl (New ''Invalid pool fees percentage'')
       else if f_positive (pr_PoolFees request) \<and> poolAddr = None then Inl (New ''Pool fees set but no pool addresshelper given'')
       else if f_nonpositive (pr_PoolFees request) \<and> poolAddr \<noteq> None then Inl (New ''Pool fees negative or unset but pool addresshelper given'')
       else if pr_NumTickets request < 1 then Inl (New ''Zero or negative number of tickets given'')
       else case opened_wallet of
         None \<Rightarrow> Inl nil_panic
       | Some i \<Rightarrow>
           let ticketFee = (if pr_TicketFee request > 0 then pr_TicketFee request else tk_TicketFeeIncrement T i) in
           if pr_TxFee request < 0 \<or> ticketFee < 0 then Inl (New ''Negative fees per KB given'')
           else Inr ticketAddr))"

definition purchase_of :: "PurchaseTicketsRequest \<Rightarrow> 'a option \<Rightarrow> 'a purchase" where
  "purchase_of request ticketAddr =
     \<lparr>pu_Count = int (pr_NumTickets request), pu_SourceAccount = pr_Account request, pu_VotingAddress = ticketAddr,
      pu_MinConf = int32_of (int (pr_RequiredConfirmations request)), pu_Expiry = int32_of (int (pr_Expiry request))\<rparr>"

text \<open>From the unlocking on, every return tells the wallet to lock.\<close>

definition buy_tickets ::
  "('w, 'a) account_lib \<Rightarrow> ('w, 'a) ticket_lib \<Rightarrow> 'w \<Rightarrow> PurchaseTicketsRequest \<Rightarrow> 'a option \<Rightarrow> string list result \<times> 'w" where
  "buy_tickets L T i request ticketAddr =
     (case al_Unlock L i (pr_Passphrase request) of
        Inl er \<Rightarrow> (Inl (translateError er), al_LockSignal L i)
      | Inr i1 \<Rightarrow>
          (case tk_backend T i1 of
             NoBackend er \<Rightarrow> (Inl er, al_LockSignal L i1)
           | _ \<Rightarrow>
               (case tk_Purchase T i1 (purchase_of request ticketAddr) of
                  (Inl er, i2) \<Rightarrow> (Inl (wrap_err ''unable to purchase tickets'' er), al_LockSignal L i2)
                | (Inr hashes, i2) \<Rightarrow> (Inr (map (tk_hash_String T) hashes), al_LockSignal L i2))))"

definition PurchaseTickets ::
  "('w, 'a) account_lib \<Rightarrow> ('w, 'a) ticket_lib \<Rightarrow> ('w, 'x) Wallet_scheme \<Rightarrow> PurchaseTicketsRequest \<Rightarrow> string \<Rightarrow> string list result \<times> ('w, 'x) Wallet_scheme" where
  "PurchaseTickets L T w request0 vspHost =
     (case (if vspHost \<noteq> [] then updateTicketPurchaseRequestWithVSPInfo L T w vspHost request0 else (Inr request0, w)) of
        (Inl er, w1) \<Rightarrow> (Inl er, w1)
      | (Inr request, w1) \<Rightarrow>
          (case check_purchase L T (internal w1) request of
             Inl er \<Rightarrow> (Inl er, w1)
           | Inr ticketAddr \<Rightarrow>
               (case internal w1 of
                  None \<Rightarrow> (Inl nil_panic, w1)
                | Some i \<Rightarrow> (case buy_tickets L T i request ticketAddr of (r, i') \<Rightarrow> (r, w1\<lparr>internal := Some i'\<rparr>)))))"

section \<open>Properties\<close>

text \<open>The entry of a ticket that is spent.\<close>

definition ticket_info :: "nat option \<Rightarrow> TicketSummary \<Rightarrow> TicketInfo" where
  "ticket_info block t = \<lparr>ti_BlockHeight = (case block of None \<Rightarrow> -1 | Some h \<Rightarrow> int32_of (int h)),
     ti_Status = ticketStatusString (tk_Status t), ti_Ticket = tk_Ticket t, ti_Spender = the (tk_Spender t)\<rparr>"

definition block_infos :: "(TicketSummary list \<times> nat option) list \<Rightarrow> TicketInfo list" where
  "block_infos bs = concat (map (\<lambda>(ts, block). map (ticket_info block) ts) bs)"

lemma add_tickets_spent:
  "add_tickets ts block infos =
     (if \<exists>t \<in> set ts. tk_Spender t = None then Inl nil_panic else Inr (infos @ map (ticket_info block) ts))"
  by (induction ts arbitrary: infos) (auto simp: ticket_info_def split: option.splits)

lemma block_infos_simps [simp]:
  "block_infos [] = []"
  "block_infos ((ts, block) # bs) = map (ticket_info block) ts @ block_infos bs"
  by (simp_all add: block_infos_def)

text \<open>The listing stops at the first block, after \<open>infos\<close>, with which the target is reached.\<close>

definition enough :: "int \<Rightarrow> TicketInfo list \<Rightarrow> bool" where
  "enough target infos \<longleftrightarrow> target > 0 \<and> target \<le> int (length infos)"

lemma collect_tickets_Cons:
  assumes "\<forall>t \<in> set ts. tk_Spender t \<noteq> None"
  shows "collect_tickets target ((ts, block) # bs) infos =
    (let infos' = infos @ map (ticket_info block) ts in
     if enough target infos' then Inr (infos', True) else collect_tickets target bs infos')"
  using assms by (auto simp: add_tickets_spent enough_def Let_def)

lemma collect_tickets_all:
  assumes "\<forall>(ts, block) \<in> set bs. \<forall>t \<in> set ts. tk_Spender t \<noteq> None"
    and "\<forall>j \<in> {1..length bs}. \<not> enough target (infos @ block_infos (take j bs))"
  shows "collect_tickets target bs infos = Inr (infos @ block_infos bs, False)"
  using assms
proof (induction bs arbitrary: infos)
  case (Cons b bs)
  obtain ts block where b: "b = (ts, block)" by fastforce
  have 1: "\<not> enough target (infos @ map (ticket_info block) ts)" using Cons.prems(2) by (auto simp: b dest: bspec [of _ _ 1])
  have 2: "\<not> enough target ((infos @ map (ticket_info block) ts) @ block_infos (take j bs))" if "j \<in> {1..length bs}" for j
    using bspec [OF Cons.prems(2), of "Suc j"] that by (simp add: b)
  have 3: "\<forall>t \<in> set ts. tk_Spender t \<noteq> None" "\<forall>(ts, block) \<in> set bs. \<forall>t \<in> set ts. tk_Spender t \<noteq> None"
    using Cons.prems(1) by (auto simp: b)
  show ?case using Cons.IH [OF 3(2)] 2 1 unfolding b collect_tickets_Cons [OF 3(1)] by (simp add: Let_def)
qed simp

lemma collect_tickets_first:
  assumes "\<forall>(ts, block) \<in> set (take k bs). \<forall>t \<in> set ts. tk_Spender t \<noteq> None" "k \<in> {1..length bs}"
    and "\<forall>j \<in> {1..<k}. \<not> enough target (infos @ block_infos (take j bs))" "enough target (infos @ block_infos (take k bs))"
  shows "collect_tickets target bs infos = Inr (infos @ block_infos (take k bs), True)"
  using assms
proof (induction bs arbitrary: infos k)
  case (Cons b bs)
  obtain ts block where b: "b = (ts, block)" by fastforce
  obtain k' where k: "k = Suc k'" using Cons.prems(2) by (cases k) auto
  have 3: "\<forall>t \<in> set ts. tk_Spender t \<noteq> None" "\<forall>(ts, block) \<in> set (take k' bs). \<forall>t \<in> set ts. tk_Spender t \<noteq> None"
    using Cons.prems(1) by (auto simp: b k)
  show ?case
  proof (cases "k' = 0")
    case True
    then show ?thesis using Cons.prems(4) unfolding b collect_tickets_Cons [OF 3(1)] by (simp add: k)
  next
    case False
    have 1: "\<not> enough target (infos @ map (ticket_info block) ts)"
      using bspec [OF Cons.prems(3), of 1] False by (simp add: b k)
    have 2: "\<not> enough target ((infos @ map (ticket_info block) ts) @ block_infos (take j bs))" if "j \<in> {1..<k'}" for j
      using bspec [OF Cons.prems(3), of "Suc j"] that by (simp add: b k)
    have "collect_tickets target bs (infos @ map (ticket_info block) ts) =
        Inr ((infos @ map (ticket_info block) ts) @ block_infos (take k' bs), True)"
      using Cons.prems(2,4) False 2 by (intro Cons.IH [OF 3(2)]) (auto simp: b k)
    then show ?thesis using 1 unfolding b collect_tickets_Cons [OF 3(1)] by (simp add: Let_def k)
  qed
qed simp

lemma collect_tickets_find:
  assumes "\<forall>(ts, block) \<in> set bs. \<forall>t \<in> set ts. tk_Spender t \<noteq> None"
  shows "collect_tickets target bs infos =
    (case find (\<lambda>k. enough target (infos @ block_infos (take k bs))) [1..<Suc (length bs)] of
       None \<Rightarrow> Inr (infos @ block_infos bs, False)
     | Some k \<Rightarrow> Inr (infos @ block_infos (take k bs), True))"
proof (cases "find (\<lambda>k. enough target (infos @ block_infos (take k bs))) [1..<Suc (length bs)]")
  case None
  then have "\<forall>j \<in> {1..length bs}. \<not> enough target (infos @ block_infos (take j bs))"
    by (auto simp: find_None_iff simp del: upt_Suc)
  from collect_tickets_all [OF assms this] None show ?thesis by (simp del: upt_Suc)
next
  case (Some k)
  then obtain n where n: "n < length bs" "enough target (infos @ block_infos (take (Suc n) bs))" "k = Suc n"
    "\<forall>j < n. \<not> enough target (infos @ block_infos (take (Suc j) bs))"
    by (auto simp: find_Some_iff simp del: upt_Suc)
  have "\<not> enough target (infos @ block_infos (take j bs))" if "j \<in> {1..<k}" for j
    using n(3,4) that by (cases j) auto
  moreover have "\<forall>(ts, block) \<in> set (take k bs). \<forall>t \<in> set ts. tk_Spender t \<noteq> None"
    using assms set_take_subset [of k bs] by blast
  ultimately show ?thesis using Some n(1-3) by (subst collect_tickets_first [of k]) auto
qed

lemma collect_tickets_unspent:
  assumes "\<exists>(ts, block) \<in> set bs. \<exists>t \<in> set ts. tk_Spender t = None"
  shows "collect_tickets 0 bs infos = Inl nil_panic"
  using assms
proof (induction bs arbitrary: infos)
  case (Cons b bs)
  obtain ts block where b: "b = (ts, block)" by fastforce
  then show ?case using Cons by (cases "\<exists>t \<in> set ts. tk_Spender t = None") (simp_all add: add_tickets_spent)
qed simp

text \<open>
  On an opened wallet, for a request whose limits decode and whose target is not negative, and
  when every ticket the wallet library lists is spent, \<open>getTickets\<close> returns the tickets of the shortest
  prefix of the blocks that reaches the target, without an error; when no prefix does, and always for
  a target of 0, it returns all tickets with the error of the library.
\<close>

theorem getTickets_stops_at_target:
  assumes "internal w = Some i" "TargetTicketCount req \<ge> 0"
    and "block_identifier T ''starting'' (StartingBlockHash req) (StartingBlockHeight req) = Inr s"
    and "block_identifier T ''ending'' (EndingBlockHash req) (EndingBlockHeight req) = Inr e"
    and "tk_GetTickets T i (tk_backend T i = RpcBackend) s e = (blocks, er)"
    and "\<forall>(ts, block) \<in> set blocks. \<forall>t \<in> set ts. tk_Spender t \<noteq> None"
  shows "getTickets T w req =
    (case find (\<lambda>k. enough (TargetTicketCount req) (block_infos (take k blocks))) [1..<Suc (length blocks)] of
       None \<Rightarrow> Inr (block_infos blocks, er)
     | Some k \<Rightarrow> Inr (block_infos (take k blocks), None))"
  using assms(1-5) collect_tickets_find [OF assms(6), of "TargetTicketCount req" "[]"]
  by (auto simp: getTickets_def on_opened_def bind_res_def split: option.splits)

text \<open>
  Listing every ticket of a wallet with a ticket that is not spent dereferences the nil spender.
\<close>

theorem GetTickets_panics_on_unspent_ticket:
  assumes "internal w = Some i" "tk_GetTickets T i (tk_backend T i = RpcBackend) None None = (blocks, er)"
    and "\<exists>(ts, block) \<in> set blocks. \<exists>t \<in> set ts. tk_Spender t = None"
  shows "GetTickets T w None None 0 = Inl nil_panic"
  using assms(1,2) collect_tickets_unspent [OF assms(3), of "[]"]
  by (simp add: GetTickets_def getTickets_def on_opened_def bind_res_def block_identifier_def)


text \<open>
  A provider that answers with an object that has no object under \<open>data\<close>, as an error response has,
  makes the purchase panic on the type assertion; nothing is bought and the wallet is as it was.
\<close>

theorem PurchaseTickets_panics_on_error_response:
  assumes "vspHost \<noteq> []" "CurrentAddress L w 0 = Inr address" "AddressPubKey L w address = Inr key"
    and "tk_Post T (TrimSuffix vspHost ''/'' @ ''/api/v2/purchaseticket'') (Encode [(''UserPubKeyAddr'', key)]) = Inr (JObj m)"
    and "\<nexists>d. map_of m ''data'' = Some (JObj d)"
  shows "PurchaseTickets L T w request vspHost = (Inl bad_assertion, w)"
proof -
  have "assert_obj (map_of m ''data'') = Inl bad_assertion"
    using assms(5) by (auto simp: assert_obj_def split: option.splits json.splits)
  then have "CallVSPTicketInfoAPI T vspHost key = Inl bad_assertion"
    using assms(4) by (simp add: CallVSPTicketInfoAPI_def bind_res_def response_map_def)
  then show ?thesis using assms(1-3)
    by (simp add: PurchaseTickets_def updateTicketPurchaseRequestWithVSPInfo_def bind_res_def wrap_result_def bad_assertion_def)
qed

section \<open>Witnesses\<close>

definition ex_ticket_summary :: TransactionSummary where
  "ex_ticket_summary = \<lparr>ts_Hash = [], ts_Transaction = [], MyInputs = [], MyOutputs = [], ts_Timestamp = 0\<rparr>"

definition ex_ticket :: TicketSummary where
  "ex_ticket = \<lparr>tk_Ticket = ex_ticket_summary, tk_Spender = Some ex_ticket_summary, tk_Status = TicketStatusVoted\<rparr>"

definition ex_tickets :: "(bool, string) ticket_lib" where
  "ex_tickets = \<lparr>tk_backend = (\<lambda>_. OtherBackend), tk_NewHash = Inr, tk_GetTickets = (\<lambda>_ _ _ _. ([([ex_ticket], Some 7), ([ex_ticket], Some 8), ([ex_ticket], None)], None)),
     tk_NextStakeDifficulty = (\<lambda>_. Inr 5), tk_StakeDifficulty = (\<lambda>_. Inr 5), tk_MainChainTip = (\<lambda>_. 9), tk_ValidPoolFeeRate = (\<lambda>_. True),
     tk_TicketFeeIncrement = (\<lambda>_. 4), tk_Purchase = (\<lambda>i _. (if i then Inr [[1]] else Inl (New ''locked''), i)), tk_ImportScript = (\<lambda>i _. (i, None)), tk_exist_wraps = (\<lambda>_. False),
     tk_hash_String = (\<lambda>_. ''01''), tk_Post = (\<lambda>_ _. Inr (JObj []))\<rparr>"

definition ex_request :: PurchaseTicketsRequest where
  "ex_request = \<lparr>pr_Account = 0, pr_RequiredConfirmations = 2, pr_NumTickets = 2, pr_Passphrase = [1], pr_Expiry = 0, pr_TxFee = 0, pr_TicketAddress = ''D'',
     pr_PoolAddress = [], pr_PoolFees = Fin 0, pr_TicketFee = 0\<rparr>"

theorem getTickets_stops_at_target_witness:
  "GetTicketsForBlockHeightRange ex_tickets ex_acc_wallet 0 0 2 = Inr ([ticket_info (Some 7) ex_ticket, ticket_info (Some 8) ex_ticket], None)"
proof -
  have e: "\<forall>(ts, block) \<in> set [([ex_ticket], Some 7), ([ex_ticket], Some 8), ([ex_ticket], None :: nat option)]. \<forall>t \<in> set ts. tk_Spender t \<noteq> None"
    by (simp add: ex_ticket_def)
  have "internal ex_acc_wallet = Some False" by (simp add: ex_acc_wallet_def)
  from getTickets_stops_at_target [OF this, of "\<lparr>StartingBlockHash = None, StartingBlockHeight = 0, EndingBlockHash = None, EndingBlockHeight = 0, TargetTicketCount = 2\<rparr>"
      ex_tickets None None, OF _ _ _ _ e]
  show ?thesis by (simp add: GetTicketsForBlockHeightRange_def block_identifier_def ex_tickets_def enough_def upt_rec)
qed


end
