(* ===== verification/Proposals.thy ===== *)
theory Proposals
  imports UrlQuery
begin

text \<open>
  The client of the proposal server, \<open>proposals.go\<close>.  An HTTP exchange on a server whose state has
  type \<open>'s\<close>, and the decoding and printing of JSON, are parameters.  A Go slice that may be nil is an
  option.  The loop that fetches the pages may run for ever: it is a partial function, and not
  returning is \<^const>\<open>None\<close>.
\<close>

section \<open>Data\<close>

record ProposalFile =
  pf_Name :: string
  pf_Mime :: string
  pf_Digest :: string
  pf_Payload :: string

record ProposalMetaData =
  pm_Name :: string
  pm_LinkTo :: string
  pm_LinkBy :: int

record ProposalCensorshipRecord =
  Token :: string
  Merkle :: string
  pc_Signature :: string

record Proposal =
  p_Name :: string
  p_State :: int
  p_Status :: int
  p_Timestamp :: int
  p_UserID :: string
  p_Username :: string
  p_PublicKey :: string
  p_Signature :: string
  p_NumComments :: int
  p_Version :: string
  p_PublishedAt :: int
  p_Files :: "ProposalFile list"
  p_MetaData :: "ProposalMetaData list"
  CensorshipRecord :: ProposalCensorshipRecord

text \<open>The server policy is its page size; a client keeps it once it is fetched.\<close>

record Politeia =
  csrfToken :: string
  serverPolicy :: "int option"

definition newPoliteia :: Politeia where
  "newPoliteia = \<lparr>csrfToken = [], serverPolicy = None\<rparr>"

record request =
  rq_Method :: string
  rq_Scheme :: string
  rq_Host :: string
  rq_Path :: string
  rq_RawQuery :: string
  rq_Body :: "bytes option"
  rq_Header :: "(string \<rightharpoonup> string) option"

record response =
  StatusCode :: int
  rs_Body :: "string result"

record 's http_lib =
  http_Do :: "'s \<Rightarrow> request \<Rightarrow> response result \<times> 's"
  decode_string :: "string result \<Rightarrow> string result"
  decode_policy :: "string result \<Rightarrow> int result"
  decode_proposals :: "string result \<Rightarrow> Proposal list option result"
  marshal_proposals :: "Proposal list option \<Rightarrow> string result"

definition apiEndpoint :: string where "apiEndpoint = ''proposals.decred.org''"
definition apiEndpointPath :: string where "apiEndpointPath = ''/api/v1''"
definition apiVersionPath :: string where "apiVersionPath = ''/api/v1/version''"
definition apiPolicyPath :: string where "apiPolicyPath = ''/policy''"
definition apiVettedProposalsPath :: string where "apiVettedProposalsPath = ''/proposals/vetted''"

section \<open>Requests\<close>

definition handleResponse :: "response \<Rightarrow> (string result \<Rightarrow> 'd result) \<Rightarrow> 'd result" where
  "handleResponse res decode =
     (if StatusCode res = 200 then decode (rs_Body res)
      else case rs_Body res of
        Inl _ \<Rightarrow> Inl (New ''error reading response body'')
      | Inr body \<Rightarrow> Inl (New (''request error: '' @ body)))"

text \<open>\<open>Header.Set\<close> assigns to an entry of a map, which panics on a nil map.\<close>

definition set_header :: "request \<Rightarrow> string \<Rightarrow> string \<Rightarrow> request result" where
  "set_header req k v =
     (case rq_Header req of
        None \<Rightarrow> Inl (Panic ''assignment to entry in nil map'')
      | Some m \<Rightarrow> Inr (req\<lparr>rq_Header := Some (m(k \<mapsto> v))\<rparr>))"

definition base_request :: "string \<Rightarrow> string \<Rightarrow> (string \<times> string) list option \<Rightarrow> bytes option \<Rightarrow> request" where
  "base_request path method queryStrings body =
     \<lparr>rq_Method = method, rq_Scheme = ''https'', rq_Host = apiEndpoint, rq_Path = apiEndpointPath @ path,
      rq_RawQuery = (case queryStrings of None \<Rightarrow> [] | Some kvs \<Rightarrow> Encode kvs), rq_Body = body, rq_Header = None\<rparr>"

text \<open>
  \<open>originalURL\<close> points to the URL of the request, whose path is then overwritten: setting it back
  changes nothing.
\<close>

definition prepareRequest ::
  "'s http_lib \<Rightarrow> 's \<Rightarrow> Politeia \<Rightarrow> string \<Rightarrow> string \<Rightarrow> (string \<times> string) list option \<Rightarrow> bytes option \<Rightarrow> request result \<times> Politeia \<times> 's" where
  "prepareRequest H s p path method queryStrings body =
     (let req = base_request path method queryStrings body in
      if method \<noteq> ''POST'' then (Inr req, p, s)
      else if csrfToken p \<noteq> [] then (set_header req ''X-CSRF-TOKEN'' (csrfToken p), p, s)
      else let versionReq = req\<lparr>rq_Path := apiVersionPath\<rparr> in
        case http_Do H s versionReq of
          (Inl _, s1) \<Rightarrow> (Inl (New ''error fetching csrf token''), p, s1)
        | (Inr res, s1) \<Rightarrow>
            (case handleResponse res (decode_string H) of
               Inl er \<Rightarrow> (Inl er, p, s1)
             | Inr token \<Rightarrow> (set_header versionReq ''X-CSRF-TOKEN'' token, p\<lparr>csrfToken := token\<rparr>, s1)))"

definition makeRequest ::
  "'s http_lib \<Rightarrow> 's \<Rightarrow> Politeia \<Rightarrow> string \<Rightarrow> string \<Rightarrow> (string \<times> string) list option \<Rightarrow> bytes option \<Rightarrow> (string result \<Rightarrow> 'd result) \<Rightarrow>
   'd result \<times> Politeia \<times> 's" where
  "makeRequest H s p path method queryStrings body decode =
     (case prepareRequest H s p path method queryStrings body of
        (Inl er, p1, s1) \<Rightarrow> (Inl er, p1, s1)
      | (Inr req, p1, s1) \<Rightarrow>
          (case http_Do H s1 req of
             (Inl er, s2) \<Rightarrow> (Inl er, p1, s2)
           | (Inr res, s2) \<Rightarrow> (handleResponse res decode, p1, s2)))"

section \<open>Proposals\<close>

text \<open>An error wrapped by \<open>fmt.Errorf\<close>; a panic passes through.\<close>

definition wrapped :: "string \<Rightarrow> 'r result \<Rightarrow> 'r result" where
  "wrapped m r = (case r of Inl (Panic q) \<Rightarrow> Inl (Panic q) | Inl _ \<Rightarrow> Inl (New m) | Inr x \<Rightarrow> Inr x)"

definition getServerPolicy :: "'s http_lib \<Rightarrow> 's \<Rightarrow> Politeia \<Rightarrow> int result \<times> Politeia \<times> 's" where
  "getServerPolicy H s p =
     (case makeRequest H s p apiPolicyPath ''GET'' None None (decode_policy H) of
        (r, p1, s1) \<Rightarrow> (wrapped ''error fetching politeia policy'' r, p1, s1))"

definition getProposalsChunk :: "'s http_lib \<Rightarrow> 's \<Rightarrow> Politeia \<Rightarrow> string \<Rightarrow> Proposal list option result \<times> Politeia \<times> 's" where
  "getProposalsChunk H s p startHash =
     (let queryStrings = (if startHash \<noteq> [] then Some [(''after'', startHash)] else None) in
      case makeRequest H s p apiVettedProposalsPath ''GET'' queryStrings None (decode_proposals H) of
        (r, p1, s1) \<Rightarrow> (wrapped ''error fetching proposals'' r, p1, s1))"

definition GetProposalsChunk :: "'s http_lib \<Rightarrow> 's \<Rightarrow> Politeia \<Rightarrow> string \<Rightarrow> string result \<times> Politeia \<times> 's" where
  "GetProposalsChunk H s p startHash =
     (case getProposalsChunk H s p startHash of
        (r, p1, s1) \<Rightarrow> (bind_res r (\<lambda>proposals. wrapped ''error marshalling proposal result to json'' (marshal_proposals H proposals)), p1, s1))"

text \<open>\<open>append\<close> on slices: nothing appended to nil is nil.\<close>

definition append_nilable :: "'a list option \<Rightarrow> 'a list option \<Rightarrow> 'a list option" where
  "append_nilable xs ys =
     (case ys of None \<Rightarrow> xs | Some [] \<Rightarrow> xs | Some (y # l) \<Rightarrow> Some ((case xs of None \<Rightarrow> [] | Some k \<Rightarrow> k) @ y # l))"

text \<open>The loop of \<open>GetAllProposals\<close>: \<open>chunk\<close> is \<open>proposalChunkResult\<close>.\<close>

partial_function (option) proposals_loop ::
  "'s http_lib \<Rightarrow> 's \<Rightarrow> Politeia \<Rightarrow> int \<Rightarrow> Proposal list option \<Rightarrow> Proposal list option \<Rightarrow> (Proposal list option result \<times> Politeia \<times> 's) option" where
  "proposals_loop H s p pageSize chunk proposals =
     (case chunk of
        None \<Rightarrow> Some (Inr proposals, p, s)
      | Some xs \<Rightarrow>
          if int (length xs) < pageSize then Some (Inr proposals, p, s)
          else if pageSize < 1 then Some (Inl (Panic ''index out of range''), p, s)
          else case getProposalsChunk H s p (Token (CensorshipRecord (xs ! nat (pageSize - 1)))) of
            (Inl er, p1, s1) \<Rightarrow> Some (Inl er, p1, s1)
          | (Inr chunk', p1, s1) \<Rightarrow> proposals_loop H s1 p1 pageSize chunk' (append_nilable proposals chunk'))"

definition fetch_policy :: "'s http_lib \<Rightarrow> 's \<Rightarrow> Politeia \<Rightarrow> int result \<times> Politeia \<times> 's" where
  "fetch_policy H s p =
     (case serverPolicy p of
        Some n \<Rightarrow> (Inr n, p, s)
      | None \<Rightarrow>
          (case getServerPolicy H s p of
             (Inl er, p1, s1) \<Rightarrow> (Inl er, p1, s1)
           | (Inr n, p1, s1) \<Rightarrow> (Inr n, p1\<lparr>serverPolicy := Some n\<rparr>, s1)))"

definition GetAllProposals :: "'s http_lib \<Rightarrow> 's \<Rightarrow> Politeia \<Rightarrow> (string result \<times> Politeia \<times> 's) option" where
  "GetAllProposals H s p =
     (case fetch_policy H s p of
        (Inl er, p1, s1) \<Rightarrow> Some (Inl er, p1, s1)
      | (Inr pageSize, p1, s1) \<Rightarrow>
          (case getProposalsChunk H s1 p1 [] of
             (Inl er, p2, s2) \<Rightarrow> Some (wrapped ''error fetching all proposals'' (Inl er), p2, s2)
           | (Inr chunk, p2, s2) \<Rightarrow>
               (case proposals_loop H s2 p2 pageSize chunk (append_nilable None chunk) of
                  None \<Rightarrow> None
                | Some (r, p3, s3) \<Rightarrow>
                    Some (bind_res r (\<lambda>proposals. wrapped ''error marshalling proposal result to json'' (marshal_proposals H proposals)), p3, s3))))"

section \<open>A server that pages its proposals\<close>

fun slice_list :: "'a list option \<Rightarrow> 'a list" where
  "slice_list None = []"
| "slice_list (Some xs) = xs"

text \<open>The slice that appending the elements to nil gives.\<close>

definition appended :: "'a list \<Rightarrow> 'a list option" where
  "appended xs = (if xs = [] then None else Some xs)"

lemma append_nilable_appended [simp]: "append_nilable (appended xs) ys = appended (xs @ slice_list ys)"
  by (auto simp: append_nilable_def appended_def split: option.splits list.splits)

lemma append_nilable_None [simp]: "append_nilable None ys = appended (slice_list ys)"
  using append_nilable_appended [of "[]" ys] by (simp add: appended_def)

text \<open>The query for the page after the first \<open>i\<close> of the vetted proposals.\<close>

definition page_query :: "Proposal list \<Rightarrow> nat \<Rightarrow> (string \<times> string) list option" where
  "page_query vetted i = (if i = 0 then None else Some [(''after'', Token (CensorshipRecord (vetted ! (i - 1))))])"

lemma GET_request [simp]:
  "prepareRequest H s p path ''GET'' q b = (Inr (base_request path ''GET'' q b), p, s)"
  by (simp add: prepareRequest_def Let_def)

text \<open>
  The API of the proposal server: in a state that is \<open>good\<close> it answers the request for its policy with
  the page size, and the request for the page after a proposal with the next proposals, as many as the
  page size allows.
\<close>

locale proposal_service =
  fixes H :: "'s http_lib" and good :: "'s \<Rightarrow> bool" and vetted :: "Proposal list" and pageSize :: int
  assumes pageSize: "pageSize \<ge> 1"
    and tokens: "x \<in> set vetted \<Longrightarrow> Token (CensorshipRecord x) \<noteq> []"
    and policy: "good s \<Longrightarrow> \<exists>body s'. http_Do H s (base_request apiPolicyPath ''GET'' None None) = (Inr \<lparr>StatusCode = 200, rs_Body = body\<rparr>, s') \<and>
      good s' \<and> decode_policy H body = Inr pageSize"
    and page: "good s \<Longrightarrow> i \<le> length vetted \<Longrightarrow>
      \<exists>body chunk s'. http_Do H s (base_request apiVettedProposalsPath ''GET'' (page_query vetted i) None) = (Inr \<lparr>StatusCode = 200, rs_Body = body\<rparr>, s') \<and>
        good s' \<and> decode_proposals H body = Inr chunk \<and> slice_list chunk = take (nat pageSize) (drop i vetted)"
begin

lemma chunk_after:
  assumes "good s" "i \<le> length vetted" "t = (if i = 0 then [] else Token (CensorshipRecord (vetted ! (i - 1))))"
  shows "\<exists>chunk s'. getProposalsChunk H s p t = (Inr chunk, p, s') \<and> good s' \<and> slice_list chunk = take (nat pageSize) (drop i vetted)"
proof -
  have "t \<noteq> []" if "i \<noteq> 0" using assms(2,3) that tokens [of "vetted ! (i - 1)"] by simp
  then have "(if t \<noteq> [] then Some [(''after'', t)] else None) = page_query vetted i"
    using assms(3) by (auto simp: page_query_def)
  with page [OF assms(1,2)] show ?thesis
    by (fastforce simp: getProposalsChunk_def Let_def makeRequest_def handleResponse_def wrapped_def)
qed

lemma loop_collects:
  assumes "good s" "i \<le> length vetted" "slice_list chunk = take (nat pageSize) (drop i vetted)"
  shows "\<exists>s'. proposals_loop H s p pageSize chunk (appended (take (i + nat pageSize) vetted)) = Some (Inr (appended vetted), p, s') \<and> good s'"
  using assms
proof (induction "length vetted - i" arbitrary: i s chunk rule: less_induct)
  case less
  let ?n = "nat pageSize"
  show ?case
  proof (cases "length vetted < i + ?n")
    case True
    then have "int (length (slice_list chunk)) < pageSize" using less.prems pageSize by simp
    then show ?thesis using True less.prems(1) pageSize
      by (cases chunk) (auto simp: proposals_loop.simps [of H s])
  next
    case False
    then have len: "length (slice_list chunk) = ?n" using less.prems by simp
    then obtain xs where xs: "chunk = Some xs" using pageSize by (cases chunk) auto
    have tok: "xs ! nat (pageSize - 1) = vetted ! (i + ?n - 1)" using less.prems(3) xs pageSize False by (simp add: nat_diff_distrib)
    obtain chunk' s' where c: "getProposalsChunk H s p (Token (CensorshipRecord (vetted ! (i + ?n - 1)))) = (Inr chunk', p, s')"
      "good s'" "slice_list chunk' = take ?n (drop (i + ?n) vetted)"
      using chunk_after [OF less.prems(1), of "i + ?n" _ p] False pageSize by auto
    have "take (i + ?n) vetted @ slice_list chunk' = take (i + ?n + ?n) vetted" using c(3) by (simp add: take_add)
    then have "proposals_loop H s p pageSize chunk (appended (take (i + ?n) vetted)) =
        proposals_loop H s' p pageSize chunk' (appended (take (i + ?n + ?n) vetted))"
      using c(1) len xs tok pageSize by (simp add: proposals_loop.simps [of H s])
    then show ?thesis using less.hyps [of "i + ?n" s' chunk'] c(2,3) False pageSize by auto
  qed
qed

lemma policy_fetched:
  assumes "good s" "serverPolicy p = None \<or> serverPolicy p = Some pageSize"
  shows "\<exists>s'. fetch_policy H s p = (Inr pageSize, p\<lparr>serverPolicy := Some pageSize\<rparr>, s') \<and> good s'"
  using assms policy [OF assms(1)]
  by (auto simp: fetch_policy_def getServerPolicy_def makeRequest_def handleResponse_def wrapped_def)

lemma all_collected:
  assumes "good s" "serverPolicy p = None \<or> serverPolicy p = Some pageSize"
  shows "\<exists>s'. GetAllProposals H s p =
    Some (wrapped ''error marshalling proposal result to json'' (marshal_proposals H (appended vetted)), p\<lparr>serverPolicy := Some pageSize\<rparr>, s') \<and> good s'"
proof -
  let ?p = "p\<lparr>serverPolicy := Some pageSize\<rparr>"
  obtain s1 where s1: "fetch_policy H s p = (Inr pageSize, ?p, s1)" "good s1" using policy_fetched [OF assms] by blast
  obtain chunk s2 where s2: "getProposalsChunk H s1 ?p [] = (Inr chunk, ?p, s2)" "good s2" "slice_list chunk = take (nat pageSize) vetted"
    using chunk_after [OF s1(2), of 0 "[]" ?p] by auto
  obtain s3 where "proposals_loop H s2 ?p pageSize chunk (appended (take (nat pageSize) vetted)) = Some (Inr (appended vetted), ?p, s3)" "good s3"
    using loop_collects [OF s2(2), of 0 chunk ?p] s2(3) by auto
  then show ?thesis using s1(1) s2 by (simp add: GetAllProposals_def bind_res_def)
qed

end

text \<open>
  A server of the API without a state: it answers with the query it was sent, and the decoding looks
  the page up.
\<close>

definition tok :: "Proposal \<Rightarrow> string" where
  "tok x = Token (CensorshipRecord x)"

definition ref_page :: "int \<Rightarrow> Proposal list \<Rightarrow> string \<Rightarrow> Proposal list" where
  "ref_page n vetted q = take (nat n) (if q = [] then vetted else tl (dropWhile (\<lambda>x. Encode [(''after'', tok x)] \<noteq> q) vetted))"

definition ref_server :: "int \<Rightarrow> Proposal list \<Rightarrow> unit http_lib" where
  "ref_server n vetted = \<lparr>
     http_Do = (\<lambda>_ req. (Inr \<lparr>StatusCode = 200, rs_Body = Inr (rq_RawQuery req)\<rparr>, ())),
     decode_string = (\<lambda>b. b), decode_policy = (\<lambda>_. Inr n), decode_proposals = (\<lambda>b. bind_res b (\<lambda>q. Inr (Some (ref_page n vetted q)))),
     marshal_proposals = (\<lambda>ps. Inr (concat (map tok (slice_list ps))))\<rparr>"

lemma Encode_after: "Encode [(''after'', t)] = Encode [(''after'', u)] \<longleftrightarrow> t = u"
  using QueryEscape_inj by (auto simp: Encode_def)

lemma Encode_after_not_Nil [simp]: "Encode [(''after'', t)] \<noteq> []"
  by (simp add: Encode_def)

lemma dropWhile_distinct:
  "distinct (map f xs) \<Longrightarrow> j < length xs \<Longrightarrow> dropWhile (\<lambda>x. f x \<noteq> f (xs ! j)) xs = drop j xs"
proof (induction xs arbitrary: j)
  case (Cons x xs)
  then show ?case by (cases j) auto
qed simp

lemma ref_server_serves:
  assumes "n \<ge> 1" "distinct (map tok vetted)" "[] \<notin> tok ` set vetted"
  shows "proposal_service (ref_server n vetted) (\<lambda>_. True) vetted n"
proof
  show "Token (CensorshipRecord x) \<noteq> []" if "x \<in> set vetted" for x using assms(3) that by (metis imageI tok_def)
  fix i assume i: "i \<le> length vetted"
  have "tl (drop (i - 1) vetted) = drop i vetted" if "i > 0" using that by (simp add: tl_drop drop_Suc flip: drop_Suc)
  then have "ref_page n vetted (rq_RawQuery (base_request apiVettedProposalsPath ''GET'' (page_query vetted i) None)) = take (nat n) (drop i vetted)"
    using i dropWhile_distinct [OF assms(2), of "i - 1"]
    by (cases "i = 0") (simp_all add: ref_page_def base_request_def page_query_def Encode_after flip: tok_def)
  then show "\<exists>body chunk s'. http_Do (ref_server n vetted) s (base_request apiVettedProposalsPath ''GET'' (page_query vetted i) None) =
      (Inr \<lparr>StatusCode = 200, rs_Body = body\<rparr>, s') \<and> True \<and> decode_proposals (ref_server n vetted) body = Inr chunk \<and>
      slice_list chunk = take (nat n) (drop i vetted)" for s
    by (simp add: ref_server_def bind_res_def)
qed (use assms in \<open>auto simp: ref_server_def\<close>)

definition ex_proposal :: "string \<Rightarrow> Proposal" where
  "ex_proposal t = \<lparr>p_Name = t, p_State = 2, p_Status = 4, p_Timestamp = 0, p_UserID = [], p_Username = [], p_PublicKey = [], p_Signature = [],
     p_NumComments = 0, p_Version = ''1'', p_PublishedAt = 0, p_Files = [], p_MetaData = [], CensorshipRecord = \<lparr>Token = t, Merkle = [], pc_Signature = []\<rparr>\<rparr>"

definition ex_vetted :: "Proposal list" where
  "ex_vetted = map ex_proposal [''a'', ''b'', ''c'', ''d'']"

interpretation ref_proposals: proposal_service "ref_server 2 ex_vetted" "\<lambda>_. True" ex_vetted 2
  by (rule ref_server_serves) (simp_all add: ex_vetted_def ex_proposal_def tok_def)

section \<open>Properties\<close>

text \<open>
  C28.  Against a server that answers with its policy and its pages, and with no policy or the current
  one remembered, \<open>GetAllProposals\<close> returns, and its result is the JSON of all vetted proposals,
  each once and in the order of the server; the policy is remembered.
\<close>

theorem GetAllProposals_returns_all:
  assumes "proposal_service H good vetted pageSize" "good s" "serverPolicy p = None \<or> serverPolicy p = Some pageSize"
  shows "\<exists>s'. GetAllProposals H s p =
    Some (wrapped ''error marshalling proposal result to json'' (marshal_proposals H (appended vetted)), p\<lparr>serverPolicy := Some pageSize\<rparr>, s')"
  using proposal_service.all_collected [OF assms] by blast

theorem GetAllProposals_returns_all_witness:
  "\<exists>s'. GetAllProposals (ref_server 2 ex_vetted) () newPoliteia = Some (Inr ''abcd'', \<lparr>csrfToken = [], serverPolicy = Some 2\<rparr>, s')"
  using GetAllProposals_returns_all [OF ref_proposals.proposal_service_axioms, where s = "()" and p = newPoliteia]
  by (simp add: newPoliteia_def wrapped_def ref_server_def appended_def ex_vetted_def ex_proposal_def tok_def)

text \<open>No request with method POST is ever prepared: the header map of the request is nil.\<close>

theorem POST_is_never_prepared:
  "fst (prepareRequest H s p path ''POST'' q b) \<noteq> Inr req"
  by (auto simp: prepareRequest_def Let_def base_request_def set_header_def split: prod.splits sum.splits if_splits)

text \<open>A server that answers every page with the same full page keeps the loop running for ever.\<close>

theorem proposals_loop_runs_for_ever:
  assumes same: "\<And>s t. \<exists>s'. getProposalsChunk H s p t = (Inr (Some xs), p, s')"
    and "pageSize \<ge> 1" "int (length xs) \<ge> pageSize"
  shows "proposals_loop H s p pageSize (Some xs) proposals = None"
proof (rule ccontr)
  assume "proposals_loop H s p pageSize (Some xs) proposals \<noteq> None"
  then obtain out where out: "proposals_loop H s p pageSize (Some xs) proposals = Some out" by blast
  let ?P = "\<lambda>H' s p' n chunk ps out. \<not> (H' = H \<and> p' = p \<and> n = pageSize \<and> chunk = Some xs)"
  have "?P H s p pageSize (Some xs) proposals out"
  proof (rule proposals_loop.raw_induct [where P = ?P, OF _ out], goal_cases)
    case (1 loop H' s p' n chunk ps out)
    show ?case
    proof
      assume *: "H' = H \<and> p' = p \<and> n = pageSize \<and> chunk = Some xs"
      obtain s' where "getProposalsChunk H s p (Token (CensorshipRecord (xs ! nat (pageSize - 1)))) = (Inr (Some xs), p, s')" using same by blast
      with 1(2) * assms(2,3) have "loop H s' p pageSize (Some xs) (append_nilable ps (Some xs)) = Some out" by simp
      from 1(1) [OF this] show False by blast
    qed
  qed
  then show False by blast
qed

end
