(* ===== verification/WordList.thy ===== *)
theory WordList
  imports Prelude "HOL-Library.Multiset"
begin

text \<open>
  The word list of \<open>wordlist.go\<close>: 512 words, alternating between the two lists of 256 words that write
  a byte at an even and at an odd position of a seed.  The constant \<open>AlternatingWords\<close> of the code is one string
  with a word per line; \<open>PGPWordList\<close> splits it.
\<close>

section \<open>Splitting and joining lines\<close>

text \<open>\<open>strings.Split\<close> at a separator of one character.\<close>

fun Split :: "string \<Rightarrow> char \<Rightarrow> string list" where
  "Split [] c = [[]]"
| "Split (x # s) c =
     (if x = c then [] # Split s c else case Split s c of [] \<Rightarrow> [[x]] | w # ws \<Rightarrow> (x # w) # ws)"

fun join_lines :: "string list \<Rightarrow> string" where
  "join_lines [] = []"
| "join_lines [w] = w"
| "join_lines (w # v # ws) = w @ CHR 0x0A # join_lines (v # ws)"

lemma Split_not_Nil [simp]: "Split s c \<noteq> []"
  by (induction s) (auto split: list.splits)

lemma Split_word: "c \<notin> set w \<Longrightarrow> Split w c = [w]"
  by (induction w) auto

lemma Split_append: "c \<notin> set w \<Longrightarrow> Split (w @ c # s) c = w # Split s c"
  by (induction w) auto

lemma Split_join_lines:
  "ws \<noteq> [] \<Longrightarrow> \<forall>w \<in> set ws. CHR 0x0A \<notin> set w \<Longrightarrow> Split (join_lines ws) (CHR 0x0A) = ws"
  by (induction ws rule: join_lines.induct) (auto simp: Split_word Split_append)

section \<open>The words\<close>

text \<open>The lines of the constant, in five parts.\<close>

definition words_1 :: "string list" where
  "words_1 = [
    ''aardvark'', ''adroitness'', ''absurd'', ''adviser'', ''accrue'', ''aftermath'', ''acme'', ''aggregate'',
    ''adrift'', ''alkali'', ''adult'', ''almighty'', ''afflict'', ''amulet'', ''ahead'', ''amusement'', ''aimless'',
    ''antenna'', ''Algol'', ''applicant'', ''allow'', ''Apollo'', ''alone'', ''armistice'', ''ammo'', ''article'',
    ''ancient'', ''asteroid'', ''apple'', ''Atlantic'', ''artist'', ''atmosphere'', ''assume'', ''autopsy'',
    ''Athens'', ''Babylon'', ''atlas'', ''backwater'', ''Aztec'', ''barbecue'', ''baboon'', ''belowground'',
    ''backfield'', ''bifocals'', ''backward'', ''bodyguard'', ''banjo'', ''bookseller'', ''beaming'', ''borderline'',
    ''bedlamp'', ''bottomless'', ''beehive'', ''Bradbury'', ''beeswax'', ''bravado'', ''befriend'', ''Brazilian'',
    ''Belfast'', ''breakaway'', ''berserk'', ''Burlington'', ''billiard'', ''businessman'', ''bison'', ''butterfat'',
    ''blackjack'', ''Camelot'', ''blockade'', ''candidate'', ''blowtorch'', ''cannonball'', ''bluebird'',
    ''Capricorn'', ''bombast'', ''caravan'', ''bookshelf'', ''caretaker'', ''brackish'', ''celebrate'',
    ''breadline'', ''cellulose'', ''breakup'', ''certify'', ''brickyard'', ''chambermaid'', ''briefcase'',
    ''Cherokee'', ''Burbank'', ''Chicago'', ''button'', ''clergyman'', ''buzzard'', ''coherence'', ''cement'',
    ''combustion'', ''chairlift'', ''commando'', ''chatter'', ''company'', ''checkup'', ''component'', ''chisel'',
    ''concurrent'', ''choking'', ''confidence'', ''chopper'', ''conformist'', ''Christmas'', ''congregate'',
    ''clamshell'', ''consensus'', ''classic'', ''consulting'', ''classroom'', ''corporate'', ''cleanup'',
    ''corrosion'', ''clockwork'', ''councilman'', ''cobra'', ''crossover'', ''commence'', ''crucifix'', ''concert'',
    ''cumbersome'', ''cowbell'', ''customer'', ''crackdown'', ''Dakota'', ''cranky'', ''decadence'', ''crowfoot'',
    ''December'', ''crucial'', ''decimal'', ''crumpled'', ''designing'', ''crusade'', ''detector'', ''cubic'',
    ''detergent'', ''dashboard'', ''determine'', ''deadbolt'', ''dictator'', ''deckhand'', ''dinosaur'']"

definition words_2 :: "string list" where
  "words_2 = [
    ''dogsled'', ''direction'', ''dragnet'', ''disable'', ''drainage'', ''disbelief'', ''dreadful'', ''disruptive'',
    ''drifter'', ''distortion'', ''dropper'', ''document'', ''drumbeat'', ''embezzle'', ''drunken'', ''enchanting'',
    ''Dupont'', ''enrollment'', ''dwelling'', ''enterprise'', ''eating'', ''equation'', ''edict'', ''equipment'',
    ''egghead'', ''escapade'', ''eightball'', ''Eskimo'', ''endorse'', ''everyday'', ''endow'', ''examine'',
    ''enlist'', ''existence'', ''erase'', ''exodus'', ''escape'', ''fascinate'', ''exceed'', ''filament'',
    ''eyeglass'', ''finicky'', ''eyetooth'', ''forever'', ''facial'', ''fortitude'', ''fallout'', ''frequency'',
    ''flagpole'', ''gadgetry'', ''flatfoot'', ''Galveston'', ''flytrap'', ''getaway'', ''fracture'', ''glossary'',
    ''framework'', ''gossamer'', ''freedom'', ''graduate'', ''frighten'', ''gravity'', ''gazelle'', ''guitarist'',
    ''Geiger'', ''hamburger'', ''glitter'', ''Hamilton'', ''glucose'', ''handiwork'', ''goggles'', ''hazardous'',
    ''goldfish'', ''headwaters'', ''gremlin'', ''hemisphere'', ''guidance'', ''hesitate'', ''hamlet'', ''hideaway'',
    ''highchair'', ''holiness'', ''hockey'', ''hurricane'']"

definition words_3 :: "string list" where
  "words_3 = [
    ''indoors'', ''hydraulic'', ''indulge'', ''impartial'', ''inverse'', ''impetus'', ''involve'', ''inception'',
    ''island'', ''indigo'', ''jawbone'', ''inertia'', ''keyboard'', ''infancy'', ''kickoff'', ''inferno'', ''kiwi'',
    ''informant'', ''klaxon'', ''insincere'', ''locale'', ''insurgent'', ''lockup'', ''integrate'', ''merit'',
    ''intention'', ''minnow'', ''inventive'', ''miser'', ''Istanbul'', ''Mohawk'', ''Jamaica'', ''mural'',
    ''Jupiter'', ''music'', ''leprosy'', ''necklace'', ''letterhead'', ''Neptune'', ''liberty'', ''newborn'',
    ''maritime'', ''nightbird'', ''matchmaker'', ''Oakland'', ''maverick'', ''obtuse'', ''Medusa'', ''offload'',
    ''megaton'', ''optic'', ''microscope'', ''orca'', ''microwave'', ''payday'', ''midsummer'', ''peachy'',
    ''millionaire'', ''pheasant'', ''miracle'', ''physique'', ''misnomer'', ''playhouse'', ''molasses'', ''Pluto'',
    ''molecule'', ''preclude'', ''Montana'', ''prefer'', ''monument'', ''preshrunk'', ''mosquito'', ''printer'',
    ''narrative'', ''prowler'', ''nebula'', ''pupil'', ''newsletter'', ''puppy'', ''Norwegian'', ''python'',
    ''October'', ''quadrant'', ''Ohio'', ''quiver'', ''onlooker'', ''quota'', ''opulent'', ''ragtime'', ''Orlando'',
    ''ratchet'', ''outfielder'', ''rebirth'', ''Pacific'', ''reform'', ''pandemic'', ''regain'', ''Pandora'',
    ''reindeer'', ''paperweight'', ''rematch'', ''paragon'']"

definition words_4 :: "string list" where
  "words_4 = [
    ''repay'', ''paragraph'', ''retouch'', ''paramount'', ''revenge'', ''passenger'', ''reward'', ''pedigree'',
    ''rhythm'', ''Pegasus'', ''ribcage'', ''penetrate'', ''ringbolt'', ''perceptive'', ''robust'', ''performance'',
    ''rocker'', ''pharmacy'', ''ruffled'', ''phonetic'', ''sailboat'', ''photograph'', ''sawdust'', ''pioneer'',
    ''scallion'', ''pocketful'', ''scenic'', ''politeness'', ''scorecard'', ''positive'', ''Scotland'', ''potato'',
    ''seabird'', ''processor'', ''select'', ''provincial'', ''sentence'', ''proximate'', ''shadow'', ''puberty'',
    ''shamrock'', ''publisher'', ''showgirl'', ''pyramid'', ''skullcap'', ''quantity'', ''skydive'', ''racketeer'',
    ''slingshot'', ''rebellion'', ''slowdown'', ''recipe'', ''snapline'', ''recover'', ''snapshot'', ''repellent'',
    ''snowcap'', ''replica'', ''snowslide'', ''reproduce'', ''solo'', ''resistor'', ''southward'', ''responsive'',
    ''soybean'', ''retraction'', ''spaniel'', ''retrieval'', ''spearhead'', ''retrospect'', ''spellbind'',
    ''revenue'', ''spheroid'', ''revival'', ''spigot'', ''revolver'', ''spindle'', ''sandalwood'', ''spyglass'',
    ''sardonic'', ''stagehand'', ''Saturday'', ''stagnate'', ''savagery'', ''stairway'', ''scavenger'', ''standard'',
    ''sensation'', ''stapler'', ''sociable'', ''steamship'', ''souvenir'', ''sterling'', ''specialist'',
    ''stockman'', ''speculate'', ''stopwatch'', ''stethoscope'', ''stormy'', ''stupendous'', ''sugar'', ''supportive'']"

definition words_5 :: "string list" where
  "words_5 = [
    ''surmount'', ''surrender'', ''suspense'', ''suspicious'', ''sweatband'', ''sympathy'', ''swelter'',
    ''tambourine'', ''tactics'', ''telephone'', ''talon'', ''therapist'', ''tapeworm'', ''tobacco'', ''tempest'',
    ''tolerance'', ''tiger'', ''tomorrow'', ''tissue'', ''torpedo'', ''tonic'', ''tradition'', ''topmost'',
    ''travesty'', ''tracker'', ''trombonist'', ''transit'', ''truncated'', ''trauma'', ''typewriter'', ''treadmill'',
    ''ultimate'', ''Trojan'', ''undaunted'', ''trouble'', ''underfoot'', ''tumor'', ''unicorn'', ''tunnel'',
    ''unify'', ''tycoon'', ''universe'', ''uncut'', ''unravel'', ''unearth'', ''upcoming'', ''unwind'', ''vacancy'',
    ''uproot'', ''vagabond'', ''upset'', ''vertigo'', ''upshot'', ''Virginia'', ''vapor'', ''visitor'', ''village'',
    ''vocalist'', ''virus'', ''voyager'', ''Vulcan'', ''warranty'', ''waffle'', ''Waterloo'', ''wallet'',
    ''whimsical'', ''watchword'', ''Wichita'', ''wayside'', ''Wilmington'', ''willow'', ''Wyoming'', ''woodlark'',
    ''yesteryear'', ''Zulu'', ''Yucatan'']"

definition AlternatingWords :: string where
  "AlternatingWords = join_lines (words_1 @ words_2 @ words_3 @ words_4 @ words_5)"

definition PGPWordList :: "string list" where
  "PGPWordList = Split AlternatingWords (CHR 0x0A)"

section \<open>Properties\<close>

text \<open>ASCII letters by their bits; the five low bits number the letter, whatever its case.\<close>

fun is_letter :: "char \<Rightarrow> bool" where
  "is_letter (Char b0 b1 b2 b3 b4 b5 b6 b7) \<longleftrightarrow> \<not> b7 \<and> b6 \<and> (b0 \<or> b1 \<or> b2 \<or> b3 \<or> b4) \<and> \<not> (b4 \<and> b3 \<and> (b2 \<or> b1 \<and> b0))"

fun letter_bits :: "char \<Rightarrow> bool list" where
  "letter_bits (Char b0 b1 b2 b3 b4 b5 b6 b7) = [b4, b3, b2, b1, b0]"

definition word_bits :: "string \<Rightarrow> bool list" where
  "word_bits w = concat (map letter_bits w)"

definition is_word :: "string \<Rightarrow> bool" where
  "is_word w \<longleftrightarrow> w \<noteq> [] \<and> list_all is_letter w"

text \<open>The lexicographic order on bits, and merging two lists that it sorts.\<close>

fun bits_less :: "bool list \<Rightarrow> bool list \<Rightarrow> bool" where
  "bits_less _ [] = False"
| "bits_less [] (y # ys) = True"
| "bits_less (x # xs) (y # ys) = (if x = y then bits_less xs ys else y)"

fun merge :: "bool list list \<Rightarrow> bool list list \<Rightarrow> bool list list" where
  "merge [] ys = ys"
| "merge xs [] = xs"
| "merge (x # xs) (y # ys) = (if bits_less x y then x # merge xs (y # ys) else y # merge (x # xs) ys)"

fun increasing :: "bool list list \<Rightarrow> bool" where
  "increasing (x # y # ys) = (bits_less x y \<and> increasing (y # ys))"
| "increasing _ = True"

fun evens :: "'a list \<Rightarrow> 'a list" where
  "evens (x # y # xs) = x # evens xs"
| "evens xs = xs"

fun odds :: "'a list \<Rightarrow> 'a list" where
  "odds (x # y # xs) = y # odds xs"
| "odds xs = []"

fun put_bits :: "bool list \<Rightarrow> bool list list \<Rightarrow> bool list list" where
  "put_bits x [] = [x]"
| "put_bits x (y # ys) = (if bits_less x y then x # y # ys else y # put_bits x ys)"

definition sort_words :: "string list \<Rightarrow> bool list list" where
  "sort_words ws = (let ks = map word_bits ws in merge (evens ks) (foldr put_bits (odds ks) []))"

lemma bits_less_irrefl [simp]: "\<not> bits_less x x"
  by (induction x) auto

lemma bits_less_trans: "bits_less x y \<Longrightarrow> bits_less y z \<Longrightarrow> bits_less x z"
proof (induction x y arbitrary: z rule: bits_less.induct)
  case (3 x xs y ys)
  then show ?case by (cases z) (auto split: if_splits)
qed (auto elim: bits_less.elims)

lemma increasing_distinct: "increasing xs \<Longrightarrow> distinct xs"
proof -
  have "sorted_wrt bits_less xs" if "increasing xs"
    using that by (induction xs rule: increasing.induct) (auto intro: bits_less_trans)
  then show "increasing xs \<Longrightarrow> distinct xs"
    by (metis bits_less_irrefl distinct_conv_nth linorder_neqE_nat sorted_wrt_nth_less)
qed

lemma mset_merge: "mset (merge xs ys) = mset xs + mset ys"
  by (induction xs ys rule: merge.induct) auto

lemma mset_put_bits: "mset (put_bits x xs) = add_mset x (mset xs)"
  by (induction xs) auto

lemma mset_evens_odds: "mset (evens xs) + mset (odds xs) = mset xs"
  by (induction xs rule: evens.induct) auto

lemma mset_sort_words: "mset (sort_words ws) = mset (map word_bits ws)"
proof -
  have "mset (foldr put_bits xs []) = mset xs" for xs by (induction xs) (auto simp: mset_put_bits)
  then show ?thesis by (simp add: sort_words_def Let_def mset_merge mset_evens_odds)
qed

lemma increasing_glue: "increasing (xs @ [m]) \<Longrightarrow> increasing (m # ys) \<Longrightarrow> increasing (xs @ m # ys)"
  by (induction xs rule: increasing.induct) (auto split: list.splits)

text \<open>
  The evaluation, part by part: the words of a part are words, and the sorted parts lie between the
  bits of separating strings.
\<close>

lemma words_1_checked: "list_all is_word words_1 \<and> length words_1 = 148 \<and> increasing (sort_words words_1 @ [word_bits ''diq''])"
  by code_simp

lemma words_2_checked: "list_all is_word words_2 \<and> length words_2 = 84 \<and> increasing (word_bits ''diq'' # sort_words words_2 @ [word_bits ''hv''])"
  by code_simp

lemma words_3_checked: "list_all is_word words_3 \<and> length words_3 = 102" "list_all is_word words_4 \<and> length words_4 = 102"
  by code_simp+

lemma words_3_4_checked: "increasing (word_bits ''hv'' # sort_words (words_3 @ words_4) @ [word_bits ''suq''])"
  by code_simp

lemma words_5_checked: "list_all is_word words_5 \<and> length words_5 = 76 \<and> increasing (word_bits ''suq'' # sort_words words_5)"
  by code_simp

definition all_words :: "string list" where
  "all_words = words_1 @ words_2 @ (words_3 @ words_4) @ words_5"

lemma all_words_are_words: "list_all is_word all_words"
  using words_1_checked words_2_checked words_3_checked words_5_checked by (simp add: all_words_def)

lemma all_words_distinct: "distinct (map word_bits all_words)"
proof -
  have "increasing (sort_words words_1 @ word_bits ''diq'' # sort_words words_2 @ word_bits ''hv'' #
      sort_words (words_3 @ words_4) @ word_bits ''suq'' # sort_words words_5)"
    using words_1_checked words_2_checked words_3_4_checked words_5_checked
    by (metis append_Cons increasing_glue)
  then have "distinct (sort_words words_1 @ sort_words words_2 @ sort_words (words_3 @ words_4) @ sort_words words_5)"
    using increasing_distinct by fastforce
  moreover have "mset (sort_words words_1 @ sort_words words_2 @ sort_words (words_3 @ words_4) @ sort_words words_5) = mset (map word_bits all_words)"
    by (simp add: all_words_def mset_sort_words)
  ultimately show ?thesis using mset_eq_imp_distinct_iff by blast
qed

lemma word_no_newline: "is_word w \<Longrightarrow> CHR 0x0A \<notin> set w"
  by (auto simp: is_word_def list_all_iff)

lemma PGPWordList_words: "PGPWordList = all_words"
proof -
  have "\<forall>w \<in> set all_words. CHR 0x0A \<notin> set w" using all_words_are_words by (auto simp: list_all_iff word_no_newline)
  moreover have "all_words \<noteq> []" using words_1_checked by (auto simp: all_words_def)
  ultimately show ?thesis using Split_join_lines [of all_words] by (simp add: PGPWordList_def AlternatingWords_def all_words_def)
qed

text \<open>The letters with their case forgotten; two words with the same image differ at most in case.\<close>

definition ignore_case :: "string \<Rightarrow> bool list list" where
  "ignore_case w = map letter_bits w"

text \<open>
  C40.  \<open>PGPWordList\<close> has 512 entries, each a non-empty string of ASCII letters, and no two are equal,
  even when their case is ignored: a word determines its position, hence the byte it writes and
  whether it stands at an even or an odd place.
\<close>

theorem PGPWordList_is_a_code:
  "length PGPWordList = 512 \<and> list_all is_word PGPWordList \<and> distinct (map ignore_case PGPWordList)"
proof -
  have "distinct (map concat (map ignore_case all_words))"
    using all_words_distinct by (simp add: ignore_case_def word_bits_def [abs_def] comp_def)
  then have "distinct (map ignore_case all_words)" using distinct_map by blast
  moreover have "length all_words = 512"
    using words_1_checked words_2_checked words_3_checked words_5_checked by (simp add: all_words_def)
  ultimately show ?thesis using all_words_are_words by (simp add: PGPWordList_words)
qed

end
