(* ===== verification/Entropy.thy ===== *)
theory Entropy
  imports Float64 Prelude "HOL-Library.Sublist"
begin

text \<open>
  \<open>ShannonEntropy\<close> of \<open>utils.go\<close>, over the bytes of a Go string.  \<open>string(byte(i))\<close> is the UTF-8 encoding of
  the character \<open>i\<close>: one byte up to 127 and two from 128 on.  \<open>math.Log2\<close> is a parameter.
\<close>

definition rune_bytes :: "nat \<Rightarrow> bytes" where
  "rune_bytes i = (if i < 128 then [of_nat i] else [of_nat (192 + i div 64), of_nat (128 + i mod 64)])"

text \<open>\<open>strings.Count\<close>: occurrences of a non-empty string that do not overlap.\<close>

function count_sub :: "bytes \<Rightarrow> bytes \<Rightarrow> nat" where
  "count_sub s sub =
     (if s = [] \<or> sub = [] then 0
      else if prefix sub s then Suc (count_sub (drop (length sub) s) sub) else count_sub (tl s) sub)"
  by pat_completeness auto
termination
  by (relation "measure (\<lambda>(s, sub). length s)") auto

declare count_sub.simps [simp del]

definition entropy_step :: "(float64 \<Rightarrow> float64) \<Rightarrow> bytes \<Rightarrow> float64 \<Rightarrow> nat \<Rightarrow> float64" where
  "entropy_step log2 text entropy i =
     (let px = f_div (f_int (int (count_sub text (rune_bytes i)))) (f_int (int (length text))) in
      if f_lt (Fin 0) px then f_add entropy (f_mul (f_neg px) (log2 px)) else entropy)"

definition ShannonEntropy :: "(float64 \<Rightarrow> float64) \<Rightarrow> bytes \<Rightarrow> float64" where
  "ShannonEntropy log2 text = (if text = [] then Fin 0 else foldl (entropy_step log2 text) (Fin 0) [0..<256])"

section \<open>Properties\<close>

lemma count_sub_absent: "b \<notin> set s \<Longrightarrow> b \<in> set sub \<Longrightarrow> count_sub s sub = 0"
proof (induction s sub rule: count_sub.induct)
  case (1 s sub)
  then have "\<not> prefix sub s" using set_mono_prefix by blast
  moreover have "b \<notin> set (tl s)" using 1 by (cases s) auto
  ultimately show ?case using 1 by (subst count_sub.simps) auto
qed

lemma no_share: "\<not> f_lt (Fin 0) (f_div (f_int 0) y)"
  by (cases y) (auto simp: f_div_def f_int_def fl_def fl_val_def fzero_def Let_def)

text \<open>The bytes that start a character below 256 in UTF-8.\<close>

definition starts_latin :: "byte \<Rightarrow> bool" where
  "starts_latin b \<longleftrightarrow> unat b < 128 \<or> unat b = 194 \<or> unat b = 195"

lemma rune_starts: "i < 256 \<Longrightarrow> \<exists>b \<in> set (rune_bytes i). starts_latin b"
proof (cases "i < 128")
  case False
  assume "i < 256"
  then have "i div 64 = 2 \<or> i div 64 = 3" using False by linarith
  then show ?thesis using False by (auto simp: rune_bytes_def starts_latin_def unat_of_nat)
qed (simp add: rune_bytes_def starts_latin_def unat_of_nat)

text \<open>
  Only characters below 256 are counted.  A text without them, such as any text in Cyrillic, Greek or
  Chinese letters, has entropy 0, whatever it says.
\<close>

theorem ShannonEntropy_ignores_other_scripts:
  assumes "\<forall>b \<in> set text. \<not> starts_latin b"
  shows "ShannonEntropy log2 text = Fin 0"
proof -
  have step: "entropy_step log2 text e i = e" if i: "i < 256" for e i
  proof -
    obtain b where "b \<in> set (rune_bytes i)" "starts_latin b" using rune_starts [OF i] by blast
    then have "count_sub text (rune_bytes i) = 0" using assms count_sub_absent by blast
    then show ?thesis using no_share by (simp add: entropy_step_def Let_def)
  qed
  have "foldl (entropy_step log2 text) e is = e" if "set is \<subseteq> {0..<256}" for e "is"
    using that by (induction "is" arbitrary: e) (auto simp: step)
  then show ?thesis by (simp add: ShannonEntropy_def del: upt_Suc)
qed

end
