(* ===== verification/Dates.thy ===== *)
theory Dates
  imports Utils
begin

text \<open>
  The dates and amounts of \<open>utils.go\<close>, with the part of Go's \<open>time\<close> package that they use: the calendar fields of a
  timestamp, computed from the seconds since a year far in the past, and their formatting.
\<close>

section \<open>The calendar of \<open>time\<close>\<close>

text \<open>
  Seconds are counted from the year 1 inside a \<open>Time\<close>, and for the calendar from the year
  \<open>-292277022399\<close>, which like the year 1 follows a year divisible by 400.
\<close>

definition unixToInternal :: int where "unixToInternal = 62135596800"
definition internalToAbsolute :: int where "internalToAbsolute = 9223371966579724800"
definition absoluteZeroYear :: int where "absoluteZeroYear = -292277022399"

definition internal_sec :: "int \<Rightarrow> int" where
  "internal_sec ts = int64_of (ts + unixToInternal)"

definition abs_sec :: "int \<Rightarrow> nat" where
  "abs_sec ts = nat ((internal_sec ts + internalToAbsolute) mod 2 ^ 64)"

definition isLeap :: "int \<Rightarrow> bool" where
  "isLeap year \<longleftrightarrow> year mod 4 = 0 \<and> (year mod 100 \<noteq> 0 \<or> year mod 400 = 0)"

definition daysBefore :: "nat list" where
  "daysBefore = [0, 31, 59, 90, 120, 151, 181, 212, 243, 273, 304, 334, 365]"

text \<open>The years and the day of the year, by cycles of 400, 100, 4 and 1 years; the last cycle of 100 years and the
  last year of 4 are a day longer, which the corrections take back.\<close>

definition cycle :: "nat \<Rightarrow> nat \<Rightarrow> bool \<Rightarrow> nat \<times> nat \<Rightarrow> nat \<times> nat" where
  "cycle years days longer = (\<lambda>(y, d).
     (let n = d div days; n = (if longer then n - n div 4 else n) in (y + years * n, d - days * n)))"

definition abs_year :: "nat \<Rightarrow> nat \<times> nat" where
  "abs_year d = cycle 1 365 True (cycle 4 1461 False (cycle 100 36524 True (cycle 400 146097 False (0, d))))"

definition month_day :: "bool \<Rightarrow> nat \<Rightarrow> nat \<times> nat" where
  "month_day leap yday =
     (if leap \<and> yday = 59 then (2, 29)
      else let day = (if leap \<and> yday > 59 then yday - 1 else yday); month = day div 31; fin = daysBefore ! (month + 1)
        in if day \<ge> fin then (month + 2, day - fin + 1) else (month + 1, day - daysBefore ! month + 1))"

definition absDate :: "nat \<Rightarrow> int \<times> nat \<times> nat" where
  "absDate secs =
     (let (y, yday) = abs_year (secs div 86400); year = int64_of (int y + absoluteZeroYear)
      in (year, month_day (isLeap year) yday))"

definition absClock :: "nat \<Rightarrow> nat \<times> nat \<times> nat" where
  "absClock secs = (let s = secs mod 86400; hour = s div 3600; s1 = s - hour * 3600; m = s1 div 60 in (hour, m, s1 - m * 60))"

section \<open>Formatting (\<open>utils.go\<close>)\<close>

definition appendInt :: "int \<Rightarrow> nat \<Rightarrow> string" where
  "appendInt x width =
     (let t = itoa (nat \<bar>x\<bar>) in (if x < 0 then ''-'' else []) @ replicate (width - length t) CHR ''0'' @ t)"

definition format_date :: "int \<Rightarrow> string" where
  "format_date ts =
     (case absDate (abs_sec ts) of (y, m, d) \<Rightarrow> appendInt y 4 @ ''-'' @ appendInt (int m) 2 @ ''-'' @ appendInt (int d) 2)"

definition format_clock :: "int \<Rightarrow> string" where
  "format_clock ts =
     (case absClock (abs_sec ts) of (h, m, s) \<Rightarrow> appendInt (int h) 2 @ '':'' @ appendInt (int m) 2 @ '':'' @ appendInt (int s) 2)"

definition FormatUTCTime :: "int \<Rightarrow> string" where
  "FormatUTCTime timestamp = format_date timestamp @ '' '' @ format_clock timestamp"

text \<open>The difference of two times in nanoseconds, at most the largest and at least the smallest duration.\<close>

definition Sub_time :: "int \<times> int \<Rightarrow> int \<Rightarrow> int" where
  "Sub_time now ts =
     (let d = (internal_sec (fst now) - internal_sec ts) * 1000000000 + snd now in max (- (2 ^ 63)) (min (2 ^ 63 - 1) d))"

text \<open>\<open>now\<close> is the current time, in seconds and nanoseconds.\<close>

definition ExtractDateOrTime :: "int \<times> int \<Rightarrow> int \<Rightarrow> string" where
  "ExtractDateOrTime now timestamp =
     (if f_lt (f_int 24) (Hours (Sub_time now timestamp)) then format_date timestamp else format_clock timestamp)"

section \<open>The Gregorian calendar\<close>

definition month_len :: "bool \<Rightarrow> nat \<Rightarrow> nat" where
  "month_len leap m = [31, if leap then 29 else 28, 31, 30, 31, 30, 31, 31, 30, 31, 30, 31] ! (m - 1)"

text \<open>The days before a year, counted from the year 1, and the days of a date, counted from 1970.\<close>

definition year_days :: "int \<Rightarrow> int" where
  "year_days y = 365 * (y - 1) + (y - 1) div 4 - (y - 1) div 100 + (y - 1) div 400"

text \<open>The days of a year before a month.\<close>

primrec month_start :: "bool \<Rightarrow> nat \<Rightarrow> nat" where
  "month_start leap 0 = 0"
| "month_start leap (Suc m) = month_start leap m + (if m = 0 then 0 else month_len leap m)"

definition civil_days :: "int \<Rightarrow> nat \<Rightarrow> nat \<Rightarrow> int" where
  "civil_days y m d = year_days y + int (month_start (isLeap y) m) + int d - 1 - 719162"

definition valid_date :: "int \<Rightarrow> nat \<Rightarrow> nat \<Rightarrow> bool" where
  "valid_date y m d \<longleftrightarrow> 1 \<le> m \<and> m \<le> 12 \<and> 1 \<le> d \<and> d \<le> month_len (isLeap y) m"

declare month_start.simps(2) [simp del]

lemma month_start_numeral [simp]:
  "month_start leap (numeral k) =
     month_start leap (pred_numeral k) + (if pred_numeral k = 0 then 0 else month_len leap (pred_numeral k))"
  by (simp add: numeral_eq_Suc month_start.simps)

lemma below_12: "k < 12 \<Longrightarrow> k = 0 \<or> k = 1 \<or> k = 2 \<or> k = 3 \<or> k = 4 \<or> k = 5 \<or> k = 6 \<or> k = 7 \<or> k = 8 \<or> k = 9 \<or> k = 10 \<or> k = (11 :: nat)"
  by presburger

lemma month_table:
  assumes "m < 12"
  shows "month_start False (Suc m) = daysBefore ! m" "daysBefore ! Suc m = month_start False (Suc m) + month_len False (Suc m)"
    "month_start True (Suc m) = month_start False (Suc m) + (if m \<le> 1 then 0 else 1)"
    "month_len True (Suc m) = month_len False (Suc m) + (if m = 1 then 1 else 0)"
    "2 \<le> m \<Longrightarrow> 59 \<le> month_start False (Suc m)"
  using below_12 [OF assms]
  by (elim disjE; simp add: month_len_def daysBefore_def month_start.simps)+

lemma daysBefore_31:
  assumes "k < 12"
  shows "daysBefore ! k \<le> 31 * k" "k < 11 \<Longrightarrow> 31 * k + 31 \<le> daysBefore ! Suc (Suc k)" "daysBefore ! 12 = 365"
  using below_12 [OF assms] by (elim disjE; simp add: daysBefore_def)+

lemma month_day_plain:
  assumes "day < 365" and "month_day False day = (m, d)"
  shows "1 \<le> m \<and> m \<le> 12 \<and> 1 \<le> d \<and> d \<le> month_len False m \<and> month_start False m + d = day + 1"
proof -
  obtain k where k: "day div 31 = k" by blast
  then have b: "31 * k \<le> day" "day < 31 * k + 31" by auto
  with assms(1) have k12: "k < 12" by linarith
  show ?thesis
  proof (cases "day \<ge> daysBefore ! Suc k")
    case True
    with daysBefore_31(3) [OF k12] assms(1) k12 have "Suc k < 12" by (cases "k = 11") auto
    moreover have "m = Suc (Suc k)" "d = Suc (day - daysBefore ! Suc k)" using True assms(2) k by (auto simp: month_day_def Let_def)
    ultimately show ?thesis using True b daysBefore_31(2) [OF k12] month_table(1,2) [OF \<open>Suc k < 12\<close>] by auto
  next
    case False
    moreover from this have "m = Suc k" "d = Suc (day - daysBefore ! k)" using assms(2) k by (auto simp: month_day_def Let_def)
    ultimately show ?thesis using k12 b daysBefore_31(1) [OF k12] month_table(1,2) [OF k12] by auto
  qed
qed

lemma month_day_ok:
  assumes "yday < (if leap then 366 else 365)" and "month_day leap yday = (m, d)"
  shows "1 \<le> m \<and> m \<le> 12 \<and> 1 \<le> d \<and> d \<le> month_len leap m \<and> month_start leap m + d = yday + 1"
proof (cases leap)
  case False
  with assms month_day_plain show ?thesis by simp
next
  case True
  show ?thesis
  proof (cases "yday = 59")
    case False
    let ?day = "if yday > 59 then yday - 1 else yday"
    have p: "month_day False ?day = (m, d)" using assms(2) True False by (simp add: month_day_def Let_def)
    from assms(1) True have "?day < 365" by auto
    note q = month_day_plain [OF this p]
    then obtain k where k: "m = Suc k" "k < 12" by (cases m) auto
    have "k \<le> 1 \<longleftrightarrow> yday < 59"
    proof
      assume "k \<le> 1"
      then have "k = 0 \<or> k = 1" by linarith
      with q k False show "yday < 59" by (auto simp: month_len_def month_start.simps split: if_splits)
    next
      assume "yday < 59"
      with q k month_table(5) [OF k(2)] show "k \<le> 1" by fastforce
    qed
    with q k True False month_table(3,4) [OF k(2)] show ?thesis by (auto split: if_splits)
  qed (use assms True in \<open>simp add: month_day_def month_len_def month_start.simps\<close>)
qed

text \<open>The digits of a day in the cycles of 400, 100, 4 and 1 years.\<close>

lemma last_cycle:
  fixes r n :: nat
  assumes "r \<le> 4 * n" and "0 < n"
  defines "t \<equiv> r div n - r div n div 4"
  shows "t \<le> 3 \<and> n * t \<le> r \<and> r - n * t \<le> n \<and> (r - n * t = n \<longrightarrow> t = 3)"
proof (cases "r = 4 * n")
  case True
  with assms(2) show ?thesis by (simp add: t_def)
next
  case False
  with assms have "r div n < 4" by (simp add: less_mult_imp_div_less)
  then have t: "t = r div n" by (simp add: t_def)
  have "r - n * t = r mod n" by (simp add: t minus_mult_div_eq_mod)
  moreover have "r mod n < n" using assms(2) by simp
  ultimately show ?thesis using \<open>r div n < 4\<close> by (simp add: t) 
qed

lemma cycle_digits:
  assumes "(y, d) = abs_year d0"
  obtains a c q z where "y = 400 * a + 100 * c + 4 * q + z" "c \<le> 3" "q \<le> 24" "z \<le> 3"
    "d0 = 146097 * a + 36524 * c + 1461 * q + 365 * z + d" "d \<le> 365" "d = 365 \<Longrightarrow> z = 3 \<and> (q \<noteq> 24 \<or> c = 3)"
proof -
  define a where "a = d0 div 146097"
  define r where "r = d0 mod 146097"
  define c where "c = r div 36524 - r div 36524 div 4"
  define r1 where "r1 = r - 36524 * c"
  define q where "q = r1 div 1461"
  define r2 where "r2 = r1 mod 1461"
  define z where "z = r2 div 365 - r2 div 365 div 4"
  have y: "y = 400 * a + 100 * c + 4 * q + z" "d = r2 - 365 * z"
    using assms unfolding abs_year_def cycle_def Let_def a_def r_def c_def r1_def q_def r2_def z_def
    by (simp_all add: minus_mult_div_eq_mod algebra_simps)
  have r: "d0 = 146097 * a + r" "r < 146097" by (simp_all add: a_def r_def)
  have c: "c \<le> 3" "36524 * c \<le> r" "r1 \<le> 36524" "r1 = 36524 \<Longrightarrow> c = 3"
    using last_cycle [of r 36524] r(2) unfolding c_def r1_def by auto
  have q: "r1 = 1461 * q + r2" "r2 < 1461" by (simp_all add: q_def r2_def)
  have q24: "q \<le> 24" using q c(3) by linarith
  have z: "z \<le> 3" "365 * z \<le> r2" "r2 - 365 * z \<le> 365" "r2 - 365 * z = 365 \<Longrightarrow> z = 3"
    using last_cycle [of r2 365] q(2) unfolding z_def by auto
  have "q \<noteq> 24 \<or> c = 3" if "d = 365"
    using that y(2) z(4) q(1) c(3,4) by linarith
  moreover have "z = 3" if "d = 365" using that z(4) y(2) by simp
  moreover have "d0 = 146097 * a + 36524 * c + 1461 * q + 365 * z + d"
    using r(1) c(2) q(1) z(2) y(2) r1_def by linarith
  moreover have "d \<le> 365" using z(3) y(2) by simp
  ultimately show thesis using that [OF y(1) c(1) q24 z(1)] by blast
qed


lemma div_shift: "b \<noteq> 0 \<Longrightarrow> (a + b * c) div b = a div b + (c :: int)"
  by simp

lemma isLeap_period: "isLeap (y + 400 * k) = isLeap y"
proof -
  have "(y + 400 * k) mod 4 = y mod 4" "(y + 400 * k) mod 100 = y mod 100" "(y + 400 * k) mod 400 = y mod 400"
    using mod_mult_self2 [of y 4 "100 * k"] mod_mult_self2 [of y 100 "4 * k"] mod_mult_self2 [of y 400 k] by (simp_all add: mult.assoc)
  then show ?thesis by (simp add: isLeap_def)
qed

lemma year_days_period: "year_days (y + 400 * k) = year_days y + 146097 * k"
proof -
  have e: "y + 400 * k - 1 = y - 1 + 4 * (100 * k)" "y + 400 * k - 1 = y - 1 + 100 * (4 * k)" "y + 400 * k - 1 = y - 1 + 400 * k" by simp_all
  have "(y + 400 * k - 1) div 4 = (y - 1) div 4 + 100 * k" unfolding e(1) by (rule div_shift) simp
  moreover have "(y + 400 * k - 1) div 100 = (y - 1) div 100 + 4 * k" unfolding e(2) by (rule div_shift) simp
  moreover have "(y + 400 * k - 1) div 400 = (y - 1) div 400 + k" unfolding e(3) by (rule div_shift) simp
  ultimately show ?thesis by (simp add: year_days_def algebra_simps)
qed

text \<open>In the first 400 years, and then in all.\<close>

lemma abs_year_ok:
  assumes "abs_year d0 = (y, d)"
  shows "int d0 = year_days (int y + 1) + int d" and "d < (if isLeap (int y + 1) then 366 else 365)"
proof -
  from cycle_digits [OF assms [symmetric]] obtain a c q z where y: "y = 400 * a + 100 * c + 4 * q + z" "c \<le> 3" "q \<le> 24" "z \<le> 3"
    and d: "d0 = 146097 * a + 36524 * c + 1461 * q + 365 * z + d" "d \<le> 365" "d = 365 \<Longrightarrow> z = 3 \<and> (q \<noteq> 24 \<or> c = 3)" by blast
  define v :: int where "v = 100 * int c + 4 * int q + int z"
  have v: "int y + 1 = (v + 1) + 400 * int a" by (simp add: y v_def)
  have "v = int z + 4 * (25 * int c + int q)" "v = 4 * int q + int z + 100 * int c" by (simp_all add: v_def)
  then have "v div 4 = int z div 4 + (25 * int c + int q)" "v div 100 = (4 * int q + int z) div 100 + int c" by (simp_all only: div_shift)
  moreover have "int z div 4 = 0" "(4 * int q + int z) div 100 = 0" "v div 400 = 0"
    using y(2-4) by (simp_all add: v_def div_pos_pos_trivial)
  ultimately have "v div 4 = 25 * int c + int q" "v div 100 = int c" "v div 400 = 0" by simp_all
  then have "year_days (v + 1) = 36524 * int c + 1461 * int q + 365 * int z" by (simp add: year_days_def v_def)
  then show "int d0 = year_days (int y + 1) + int d" unfolding v year_days_period using d(1) by simp
  have "isLeap (v + 1)" if "d = 365"
  proof -
    from d(3) [OF that] have z: "z = 3" "q \<noteq> 24 \<or> c = 3" by simp_all
    then have "v + 1 = 4 * (25 * int c + int q + 1)" by (simp add: v_def)
    then have "(v + 1) mod 4 = 0" by simp
    moreover have "(v + 1) mod 100 \<noteq> 0 \<or> (v + 1) mod 400 = 0"
    proof (cases "q = 24")
      case False
      have "(v + 1) mod 100 = (4 * int q + 4 + 100 * int c) mod 100" by (rule arg_cong [where f = "\<lambda>w. w mod 100"]) (simp add: v_def z(1))
      also have "\<dots> = 4 * int q + 4" using False y(3) by simp
      finally show ?thesis by simp
    qed (use z in \<open>simp add: v_def\<close>)
    ultimately show ?thesis by (simp add: isLeap_def)
  qed
  then show "d < (if isLeap (int y + 1) then 366 else 365)" unfolding v isLeap_period using d(2) by (cases "d = 365") auto
qed

lemma abs_sec_exact:
  assumes "- 9223372028715321600 \<le> ts" and "ts < 2 ^ 63"
  shows "int (abs_sec ts) = ts + 9223372028715321600"
proof -
  have "int64_of (ts + unixToInternal) mod 2 ^ 64 = (ts + unixToInternal) mod 2 ^ 64"
    using take_bit_signed_take_bit [of 64 63 "ts + unixToInternal"] by (simp only: int64_of_def take_bit_eq_mod)
  then have "(internal_sec ts + internalToAbsolute) mod 2 ^ 64 = (ts + unixToInternal + internalToAbsolute) mod 2 ^ 64"
    unfolding internal_sec_def by (metis mod_add_left_eq)
  also have "\<dots> = ts + 9223372028715321600" using assms by (simp add: unixToInternal_def internalToAbsolute_def)
  finally show ?thesis using assms(1) by (simp add: abs_sec_def)
qed

lemma absDate_ok:
  assumes "absDate secs = (y, m, d)" and "secs < 2 ^ 64"
  shows "valid_date y m d \<and> int (secs div 86400) = civil_days y m d + 106751991073094"
proof -
  obtain n yday where n: "abs_year (secs div 86400) = (n, yday)" by fastforce
  note a = abs_year_ok [OF n]
  have "int n + absoluteZeroYear = int n + 1 + 400 * (- 730692556)" by (simp add: absoluteZeroYear_def)
  then have p: "isLeap (int n + absoluteZeroYear) = isLeap (int n + 1)"
    "year_days (int n + absoluteZeroYear) = year_days (int n + 1) + 146097 * (- 730692556)"
    by (simp_all only: isLeap_period year_days_period)
  have "int n div 100 = int (n div 100)" "n div 100 \<le> n" by (simp_all add: zdiv_int)
  then have "int n div 100 \<le> int n" "0 \<le> int n div 4" "0 \<le> int n div 400" by simp_all
  then have "int n \<le> year_days (int n + 1)" by (simp add: year_days_def)
  with a(1) have "int n \<le> int (secs div 86400)" by linarith
  moreover have "int (secs div 86400) \<le> int secs" by simp
  moreover have "secs div 86400 < 213503982334602" using assms(2) by (simp add: less_mult_imp_div_less)
  ultimately have "is_int64 (int n + absoluteZeroYear)" by (simp add: is_int64_def absoluteZeroYear_def)
  with assms(1) n have y: "y = int n + absoluteZeroYear" and md: "month_day (isLeap y) yday = (m, d)"
    by (auto simp: absDate_def int64_of_id Let_def)
  have "yday < (if isLeap y then 366 else 365)" using a(2) unfolding y p(1) .
  from month_day_ok [OF this md] have md': "1 \<le> m" "m \<le> 12" "1 \<le> d" "d \<le> month_len (isLeap y) m" "month_start (isLeap y) m + d = yday + 1"
    by blast+
  have "int (secs div 86400) = year_days y + 106751990353932 + int yday" using a(1) p(2) by (simp add: y)
  also have "int yday = int (month_start (isLeap y) m) + int d - 1" using md'(5) by linarith
  finally show ?thesis using md' by (simp add: valid_date_def civil_days_def)
qed

lemma absClock_ok:
  assumes "absClock secs = (h, m, s)"
  shows "h < 24 \<and> m < 60 \<and> s < 60 \<and> secs mod 86400 = h * 3600 + m * 60 + s"
proof -
  let ?s = "secs mod 86400"
  have e: "h = ?s div 3600" "m = ?s mod 3600 div 60" "s = ?s mod 3600 mod 60"
    using assms by (simp_all add: absClock_def Let_def minus_div_mult_eq_mod)
  have "?s < 24 * 3600" "?s mod 3600 < 60 * 60" by simp_all
  then have "h < 24" "m < 60" "s < 60" unfolding e by (simp_all add: less_mult_imp_div_less)
  moreover have "?s = h * 3600 + (m * 60 + s)" unfolding e by (simp only: div_mult_mod_eq)
  ultimately show ?thesis by simp
qed

text \<open>The calendar of \<open>time\<close> is the Gregorian one, for all timestamps that do not wrap around.\<close>

lemma calendar_ok:
  assumes "- 9223372028715321600 \<le> ts" and "ts < 2 ^ 63" and "absDate (abs_sec ts) = (y, m, d)" and "absClock (abs_sec ts) = (h, mi, s)"
  shows "valid_date y m d \<and> h < 24 \<and> mi < 60 \<and> s < 60 \<and> ts = civil_days y m d * 86400 + int (h * 3600 + mi * 60 + s)"
proof -
  note e = abs_sec_exact [OF assms(1,2)]
  with assms(2) have "int (abs_sec ts) < 2 ^ 64" by simp
  then have "abs_sec ts < 2 ^ 64" by simp
  note d = absDate_ok [OF assms(3) this] and c = absClock_ok [OF assms(4)]
  have "int (abs_sec ts) = int (abs_sec ts div 86400) * 86400 + int (abs_sec ts mod 86400)"
    by (metis div_mult_mod_eq of_nat_add of_nat_mult of_nat_numeral)
  with d c e show ?thesis by simp
qed


text \<open>The years of an interval of days.\<close>

lemma day_of_year:
  assumes "valid_date y m d"
  shows "month_start (isLeap y) m + d \<le> (if isLeap y then 366 else 365)"
proof -
  from assms obtain k where k: "m = Suc k" "k < 12" and d: "d \<le> month_len (isLeap y) m" by (cases m) (auto simp: valid_date_def)
  have "daysBefore ! Suc k \<le> 365" using below_12 [OF k(2)] by (elim disjE; simp add: daysBefore_def)+
  with d k(1) month_table(2-4) [OF k(2)] show ?thesis by (cases "isLeap y") (auto split: if_splits)
qed

lemma year_days_mono: "x \<le> y \<Longrightarrow> year_days x \<le> year_days y"
proof -
  assume "x \<le> y"
  then obtain k where k: "y = x + k" "0 \<le> k" by (metis zle_iff_zadd of_nat_0_le_iff)
  have "(y - 1) div 100 \<le> (x - 1 + 100 * k) div 100" using k by (intro zdiv_mono1) auto
  also have "\<dots> = (x - 1) div 100 + k" by simp
  finally have "(y - 1) div 100 \<le> (x - 1) div 100 + k" .
  moreover have "(x - 1) div 4 \<le> (y - 1) div 4" "(x - 1) div 400 \<le> (y - 1) div 400" using k by (auto intro: zdiv_mono1)
  ultimately show ?thesis using k by (simp add: year_days_def)
qed

lemma four_digit_years:
  assumes "valid_date y m d" and "ts = civil_days y m d * 86400 + int s" and "s < 86400" and "- 62167219200 \<le> ts" and "ts < 253402300800"
  shows "0 \<le> y \<and> y < 10000"
proof -
  have c: "- 719528 \<le> civil_days y m d" "civil_days y m d < 2932897" using assms(2-5) by linarith+
  have "\<not> y \<le> - 2"
  proof
    assume "y \<le> - 2"
    then have "year_days y \<le> - 1096" using year_days_mono [of y "- 2"] by (simp add: year_days_def)
    moreover have "month_start (isLeap y) m + d \<le> 366" using day_of_year [OF assms(1)] by (simp split: if_splits)
    ultimately show False using c(1) by (simp add: civil_days_def)
  qed
  moreover have "y \<noteq> - 1"
  proof
    assume y: "y = - 1"
    then have "month_start (isLeap y) m + d \<le> 365" using day_of_year [OF assms(1)] by (simp add: isLeap_def)
    moreover have "year_days y = - 731" by (simp add: y year_days_def)
    ultimately show False using c(1) by (simp add: civil_days_def)
  qed
  moreover have "y < 10000"
  proof (rule ccontr)
    assume "\<not> y < 10000"
    then have "3652059 \<le> year_days y" using year_days_mono [of 10000 y] by (simp add: year_days_def)
    moreover have "1 \<le> d" using assms(1) by (simp add: valid_date_def)
    ultimately show False using c(2) by (simp add: civil_days_def)
  qed
  ultimately show ?thesis by linarith
qed

section \<open>Reading a formatted time\<close>

definition digit_value :: "char \<Rightarrow> nat" where
  "digit_value c = of_char c - 48"

definition decimal :: "string \<Rightarrow> nat" where
  "decimal t = foldl (\<lambda>n c. 10 * n + digit_value c) 0 t"

text \<open>The time of a text \<open>YYYY-MM-DD hh:mm:ss\<close>, with its fields in range.\<close>

definition parse_utc :: "string \<Rightarrow> int option" where
  "parse_utc t =
     (let y = int (decimal (take 4 t)); m = decimal (take 2 (drop 5 t)); d = decimal (take 2 (drop 8 t));
          h = decimal (take 2 (drop 11 t)); mi = decimal (take 2 (drop 14 t)); s = decimal (take 2 (drop 17 t)) in
      if length t = 19 \<and> list_all (\<lambda>i. is_digit (t ! i)) [0, 1, 2, 3, 5, 6, 8, 9, 11, 12, 14, 15, 17, 18] \<and>
        map ((!) t) [4, 7, 10, 13, 16] = ''-- ::'' \<and> valid_date y m d \<and> h < 24 \<and> mi < 60 \<and> s < 60
      then Some (civil_days y m d * 86400 + int (h * 3600 + mi * 60 + s)) else None)"

lemma digit_value_digit: "digit_value (digit n) = n mod 10" "is_digit (digit n)"
proof -
  have "\<forall>k \<in> set [0..<10]. digit_value (''0123456789'' ! k) = k \<and> is_digit (''0123456789'' ! k)" by code_simp
  then have "digit_value (''0123456789'' ! k) = k \<and> is_digit (''0123456789'' ! k)" if "k < 10" for k using that by simp
  then show "digit_value (digit n) = n mod 10" "is_digit (digit n)" by (simp_all add: digit_def)
qed

definition pad :: "nat \<Rightarrow> nat \<Rightarrow> string" where
  "pad w n = replicate (w - length (itoa n)) CHR ''0'' @ itoa n"

lemma appendInt_pad: "appendInt (int n) w = pad w n"
  by (simp add: appendInt_def pad_def Let_def)

lemma pad_Suc: "pad (Suc (Suc w)) n = pad (Suc w) (n div 10) @ [digit n]"
proof (cases "n < 10")
  case True
  then have "itoa n = [digit n]" "itoa (n div 10) = ''0''" by (simp_all add: itoa.simps digit_def)
  then show ?thesis by (simp add: pad_def replicate_append_same)
next
  case False
  then show ?thesis by (simp add: pad_def itoa.simps [of n])
qed

lemma decimal_snoc: "decimal (t @ [c]) = 10 * decimal t + digit_value c"
  by (simp add: decimal_def)

lemma pad_ok: "n < 10 ^ Suc w \<Longrightarrow> length (pad (Suc w) n) = Suc w \<and> list_all is_digit (pad (Suc w) n) \<and> decimal (pad (Suc w) n) = n"
proof (induction w arbitrary: n)
  case 0
  then have "itoa n = [digit n]" by (simp add: itoa.simps)
  with 0 show ?case by (simp add: pad_def decimal_def digit_value_digit)
next
  case (Suc w)
  then have "n div 10 < 10 ^ Suc w" by (simp add: less_mult_imp_div_less)
  from Suc.IH [OF this] show ?case by (simp add: pad_Suc decimal_snoc digit_value_digit)
qed

lemmas pad_2 = pad_ok [of _ 1, simplified, folded numeral_2_eq_2]
lemmas pad_4 = pad_ok [of _ 3, simplified]

lemma two_chars: "length t = 2 \<Longrightarrow> \<exists>a b. t = [a, b]" and four_chars: "length t = 4 \<Longrightarrow> \<exists>a b c d. t = [a, b, c, d]"
  by (auto simp: length_Suc_conv numeral_eq_Suc)

lemma parse_fields:
  assumes "y < 10000" and "valid_date (int y) m d" and "h < 24" and "mi < 60" and "s < 60"
  shows "parse_utc (pad 4 y @ ''-'' @ pad 2 m @ ''-'' @ pad 2 d @ '' '' @ pad 2 h @ '':'' @ pad 2 mi @ '':'' @ pad 2 s) =
    Some (civil_days (int y) m d * 86400 + int (h * 3600 + mi * 60 + s))"
proof -
  from assms(2) obtain k where k: "m = Suc k" "k < 12" "d \<le> month_len (isLeap (int y)) (Suc k)" by (cases m) (auto simp: valid_date_def)
  moreover have "month_len (isLeap (int y)) (Suc k) \<le> 31"
    using below_12 [OF k(2)] by (elim disjE; simp add: month_len_def)+
  ultimately have md: "m < 100" "d < 100" by linarith+
  note f = pad_4 [OF assms(1)] pad_2 [OF md(1)] pad_2 [OF md(2)] pad_2 [of h] pad_2 [of mi] pad_2 [of s]
  from f(1) obtain y1 y2 y3 y4 where y: "pad 4 y = [y1, y2, y3, y4]" using four_chars by blast
  from f(2) obtain m1 m2 where m: "pad 2 m = [m1, m2]" using two_chars by blast
  from f(3) obtain d1 d2 where d: "pad 2 d = [d1, d2]" using two_chars by blast
  from f(4) assms(3) obtain h1 h2 where h: "pad 2 h = [h1, h2]" using two_chars by fastforce
  from f(5) assms(4) obtain i1 i2 where mi: "pad 2 mi = [i1, i2]" using two_chars by fastforce
  from f(6) assms(5) obtain s1 s2 where s: "pad 2 s = [s1, s2]" using two_chars by fastforce
  show ?thesis unfolding y m d h mi s using f [unfolded y m d h mi s] assms
    by (simp add: parse_utc_def Let_def)
qed

section \<open>Properties\<close>

text \<open>
  C30.  \<open>FormatUTCTime\<close> is right: for every second from the start of the year 0 to the end of the year
  9999 the text has the form \<open>YYYY-MM-DD hh:mm:ss\<close>, names a day of the Gregorian calendar and a time
  of day, and reading it back by counting the days of years and months gives the timestamp.
\<close>

theorem FormatUTCTime_round_trip:
  assumes "- 62167219200 \<le> ts" and "ts < 253402300800"
  shows "parse_utc (FormatUTCTime ts) = Some ts"
proof -
  obtain y m d where a: "absDate (abs_sec ts) = (y, m, d)" using prod_cases3 by blast
  obtain h mi s where c: "absClock (abs_sec ts) = (h, mi, s)" using prod_cases3 by blast
  from assms have k: "valid_date y m d" "h < 24" "mi < 60" "s < 60" "ts = civil_days y m d * 86400 + int (h * 3600 + mi * 60 + s)"
    using calendar_ok [OF _ _ a c] by auto
  have "0 \<le> y \<and> y < 10000" by (rule four_digit_years [OF k(1,5) _ assms]) (use k(2-4) in linarith)
  then obtain n where n: "y = int n" "n < 10000" by (metis nonneg_int_cases of_nat_less_numeral_iff)
  have "FormatUTCTime ts = pad 4 n @ ''-'' @ pad 2 m @ ''-'' @ pad 2 d @ '' '' @ pad 2 h @ '':'' @ pad 2 mi @ '':'' @ pad 2 s"
    by (simp add: FormatUTCTime_def format_date_def format_clock_def a c n(1) appendInt_pad)
  with parse_fields [OF n(2) k(1) [unfolded n(1)] k(2-4)] k(5) n(1) show ?thesis by simp
qed


theorem FormatUTCTime_round_trip_witness:
  "parse_utc (FormatUTCTime 951827696) = Some 951827696 \<and> FormatUTCTime 951827696 = ''2000-02-29 12:34:56''"
proof -
  have a: "abs_sec 951827696 = 9223372029667149296" using abs_sec_exact [of 951827696] by simp
  have "abs_year (abs_sec 951827696 div 86400) = (292277024399, 59)" by (simp add: a abs_year_def cycle_def)
  moreover have "int64_of (int 292277024399 + absoluteZeroYear) = 2000" by (simp add: absoluteZeroYear_def int64_of_id is_int64_def)
  moreover have "month_day (isLeap 2000) 59 = (2, 29)" by (simp add: isLeap_def month_day_def)
  ultimately have "absDate (abs_sec 951827696) = (2000, 2, 29)" unfolding absDate_def by (simp only: prod.case Let_def)
  moreover have "absClock (abs_sec 951827696) = (12, 34, 56)" by (simp add: a absClock_def)
  ultimately have "FormatUTCTime 951827696 = ''2000-02-29 12:34:56''"
    by (simp add: FormatUTCTime_def format_date_def format_clock_def appendInt_def itoa.simps digit_def)
  with FormatUTCTime_round_trip [of 951827696] show ?thesis by simp
qed

text \<open>The floating point number of hours decides like the exact one.\<close>

definition f_finite :: "float64 \<Rightarrow> bool" where
  "f_finite x \<longleftrightarrow> x \<noteq> NaN \<and> (\<forall>n. x \<noteq> Inf n)"

lemma fl_finite:
  assumes "\<bar>x\<bar> \<le> of_int n" and "n \<le> 2 ^ 53"
  shows "f_finite (fl x) \<and> fval (fl x) = fl_val x"
proof -
  have "0 \<le> n" using assms(1) by (metis abs_ge_zero of_int_0_le_iff order_trans)
  then have "- of_int n \<le> fl_val x" "fl_val x \<le> of_int n"
    using fl_val_le_int [of x n] fl_val_ge_int [of "- n" x] assms by (auto simp: abs_le_iff)
  moreover have "(of_int n :: rat) \<le> 2 ^ 53" using assms(2) by (metis of_int_le_iff of_int_numeral of_int_power)
  moreover have "(2 :: rat) ^ 53 < 2 powi 1024" by (simp add: power_int_def)
  ultimately have "\<bar>fl_val x\<bar> < 2 powi 1024" by linarith
  then show ?thesis by (auto simp: fl_def f_finite_def Let_def)
qed

lemma f_int_fval: "\<bar>n\<bar> \<le> 2 ^ 53 \<Longrightarrow> f_finite (f_int n) \<and> fval (f_int n) = of_int n"
  using fl_finite [of "of_int n" "\<bar>n\<bar>"] fl_val_int [of n] by (simp add: f_int_def)

lemma f_add_fval:
  assumes "f_finite x" and "f_finite y" and "\<bar>fval x + fval y\<bar> \<le> of_int n" and "n \<le> 2 ^ 53"
  shows "f_finite (f_add x y) \<and> fval (f_add x y) = fl_val (fval x + fval y)"
  using assms fl_finite [of "fval x + fval y" n] fl_val_int [of 0]
  by (cases x; cases y) (auto simp: f_finite_def)

lemma f_div_fval:
  assumes "f_finite x" and "0 < v" and "\<bar>fval x / v\<bar> \<le> of_int n" and "n \<le> 2 ^ 53"
  shows "f_finite (f_div x (Fin v)) \<and> fval (f_div x (Fin v)) = fl_val (fval x / v)"
  using assms fl_finite [of "fval x / v" n] fl_val_int [of 0]
  by (cases x) (auto simp: f_finite_def f_div_def fzero_def)

lemma f_lt_fval: "f_finite x \<Longrightarrow> f_finite y \<Longrightarrow> f_lt x y \<longleftrightarrow> fval x < fval y"
  by (cases x; cases y) (auto simp: f_finite_def)


lemma quot_parts:
  assumes "0 < b"
  shows "\<exists>r. d = quot d b * b + r \<and> \<bar>r\<bar> < b \<and> (0 \<le> d \<longrightarrow> 0 \<le> r \<and> 0 \<le> quot d b) \<and> (d \<le> 0 \<longrightarrow> r \<le> 0 \<and> quot d b \<le> 0)"
proof -
  have "\<bar>d\<bar> = \<bar>d\<bar> div b * b + \<bar>d\<bar> mod b" "0 \<le> \<bar>d\<bar> mod b" "\<bar>d\<bar> mod b < b" "0 \<le> \<bar>d\<bar> div b"
    using assms by (simp_all add: pos_imp_zdiv_nonneg_iff)
  then obtain p s where m: "\<bar>d\<bar> = p * b + s" "0 \<le> s" "s < b" "0 \<le> p" and "p = \<bar>d\<bar> div b" by blast
  then have q: "quot d b = sgn d * p" using assms by (simp add: quot_def)
  show ?thesis
  proof (cases "0 \<le> d")
    case True
    have "0 \<le> p * b" using m(4) assms by simp
    with True m(1,2) have "d = 0 \<Longrightarrow> s = 0" by linarith
    show ?thesis
    proof (cases "d = 0")
      case False
      with True have "0 < d" by simp
      moreover from this m(1) q have "d = quot d b * b + s" "quot d b = p" by simp_all
      ultimately show ?thesis using m(2-4) by (intro exI [of _ s]) linarith
    qed (use \<open>d = 0 \<Longrightarrow> s = 0\<close> m q in \<open>intro exI [of _ s], simp\<close>)
  next
    case False
    with m q show ?thesis by (intro exI [of _ "- s"]) auto
  qed
qed

lemma fl_24: "fl_val (24 + 1 / 2 ^ 42) = 24 + 1 / 2 ^ 42" "fl_val (1 / 2 ^ 42) = 1 / 2 ^ 42"
  by code_simp+

lemma Hours_24:
  assumes "\<bar>d\<bar> \<le> 2 ^ 63"
  shows "f_lt (f_int 24) (Hours d) \<longleftrightarrow> 86400000000000 < d"
proof -
  let ?b = "3600000000000 :: int"
  obtain r where d: "d = quot d ?b * ?b + r" "\<bar>r\<bar> < ?b" and pos: "0 \<le> d \<Longrightarrow> 0 \<le> r \<and> 0 \<le> quot d ?b" and neg: "d \<le> 0 \<Longrightarrow> r \<le> 0 \<and> quot d ?b \<le> 0"
    using quot_parts [of ?b d] by auto
  define h where "h = quot d ?b"
  note d = d [folded h_def] and pos = pos [folded h_def] and neg = neg [folded h_def]
  have "\<bar>d\<bar> \<le> 9223372036854775808" using assms by simp
  then have h: "\<bar>h\<bar> \<le> 3000000" using d by linarith
  define q where "q = fl_val (of_int r / of_int ?b)"
  have ratio: "\<bar>of_int r / of_int ?b :: rat\<bar> \<le> of_int 1"
  proof -
    have "\<bar>of_int r :: rat\<bar> \<le> of_int ?b" using d(2) by (metis of_int_abs of_int_le_iff less_imp_le)
    then show ?thesis by (simp add: abs_divide)
  qed
  have q1: "- 1 \<le> q" "q \<le> 1" using ratio fl_val_le_int [of "of_int r / of_int ?b" 1] fl_val_ge_int [of "-1" "of_int r / of_int ?b"]
    by (auto simp: q_def abs_le_iff)
  have x: "f_finite (f_int h)" "fval (f_int h) = of_int h" using f_int_fval [of h] h by simp_all
  have n: "f_finite (f_int r)" "fval (f_int r) = of_int r" using f_int_fval [of r] d(2) by simp_all
  have b: "f_int ?b = Fin (of_int ?b)" by (rule f_int_exact) simp_all
  have y: "f_finite (f_div (f_int r) (f_int ?b))" "fval (f_div (f_int r) (f_int ?b)) = q"
    using f_div_fval [OF n(1), of "of_int ?b" 1] ratio n(2) b by (simp_all add: q_def)
  have "\<bar>of_int h + q\<bar> \<le> of_int 3000001"
  proof -
    have "\<bar>of_int h :: rat\<bar> \<le> 3000000" using h by (metis of_int_abs of_int_le_iff of_int_numeral)
    with q1 show ?thesis by (simp add: abs_le_iff)
  qed
  moreover have "d - h * ?b = r" using d(1) by linarith
  ultimately have z: "f_finite (Hours d)" "fval (Hours d) = fl_val (of_int h + q)"
    using f_add_fval [OF x(1) y(1), of 3000001] x(2) y(2) by (simp_all add: Hours_def Let_def h_def [symmetric])
  have lt: "f_lt (f_int 24) (Hours d) \<longleftrightarrow> 24 < fl_val (of_int h + q)"
    using f_lt_fval [OF _ z(1), of "f_int 24"] f_int_fval [of 24] z(2) by simp
  show ?thesis
  proof (cases "86400000000000 < d")
    case True
    then have s: "24 \<le> h" "0 \<le> r" using d pos by linarith+
    have "0 \<le> q" using s(2) by (simp add: q_def fl_val_nonneg)
    have "24 < fl_val (of_int h + q)"
    proof (cases "h = 24")
      case False
      with s(1) \<open>0 \<le> q\<close> have "(of_int 25 :: rat) \<le> of_int h + q" by (metis add_increasing2 of_int_le_iff zless_imp_add1_zle order_le_neq_trans add.commute numeral_plus_one semiring_norm(5) one_plus_numeral)
      then have "of_int 25 \<le> fl_val (of_int h + q)" by (rule fl_val_ge_int) simp
      then show ?thesis by simp
    next
      case h24: True
      with True d(1) have "1 \<le> r" by simp
      then have "1 / of_int ?b \<le> of_int r / (of_int ?b :: rat)" by (simp add: divide_right_mono)
      moreover have "(2 :: rat) powi - 42 \<le> 1 / of_int ?b" by (simp add: power_int_minus)
      ultimately have "2 powi - 42 \<le> of_int r / (of_int ?b :: rat)" by linarith
      then have "1 / 2 ^ 42 \<le> of_int r / (of_int ?b :: rat)" by (simp add: power_int_minus)
      from fl_val_mono [OF this] have "1 / 2 ^ 42 \<le> q" unfolding fl_24(2) q_def .
      then have "24 + 1 / 2 ^ 42 \<le> of_int h + q" using h24 by simp
      from fl_val_mono [OF this] show ?thesis unfolding fl_24(1) by (simp add: order_less_le_trans)
    qed
    with lt True show ?thesis by simp
  next
    case False
    have "of_int h + q \<le> 24"
    proof (cases "h \<le> 23")
      case True
      then have "(of_int h :: rat) \<le> 23" by (metis of_int_le_iff of_int_numeral)
      with q1 show ?thesis by linarith
    next
      case False
      with \<open>\<not> 86400000000000 < d\<close> d pos have "h = 24" "r = 0" by linarith+
      then show ?thesis using fl_val_int [of 0] by (simp add: q_def)
    qed
    then have "fl_val (of_int h + q) \<le> of_int 24" by (intro fl_val_le_int) simp_all
    with lt False show ?thesis by simp
  qed
qed


text \<open>
  A timestamp shows as a date exactly from the first nanosecond after 24 hours on, although the code
  compares a floating point number of hours; a younger one, or one in the future, shows as the time
  of day.
\<close>

theorem ExtractDateOrTime_after_24_hours:
  assumes "is_int64 (sec + unixToInternal)" and "is_int64 (timestamp + unixToInternal)"
  shows "ExtractDateOrTime (sec, nsec) timestamp =
    (if 24 * 3600 * 1000000000 < (sec - timestamp) * 1000000000 + nsec then format_date timestamp else format_clock timestamp)"
proof -
  let ?d = "(sec - timestamp) * 1000000000 + nsec"
  have s: "Sub_time (sec, nsec) timestamp = max (- (2 ^ 63)) (min (2 ^ 63 - 1) ?d)"
    using assms by (simp add: Sub_time_def internal_sec_def int64_of_id)
  have "f_lt (f_int 24) (Hours (Sub_time (sec, nsec) timestamp)) \<longleftrightarrow> 86400000000000 < Sub_time (sec, nsec) timestamp"
    by (rule Hours_24) (simp add: s abs_le_iff min_def max_def)
  also have "\<dots> \<longleftrightarrow> 86400000000000 < ?d" by (simp add: s min_def max_def)
  finally show ?thesis by (simp add: ExtractDateOrTime_def)
qed

theorem ExtractDateOrTime_after_24_hours_witness:
  "ExtractDateOrTime (86400, 0) 0 = format_clock 0 \<and> ExtractDateOrTime (86400, 1) 0 = format_date 0"
  using ExtractDateOrTime_after_24_hours [of 86400 0 0] ExtractDateOrTime_after_24_hours [of 86400 0 1]
  by (simp add: is_int64_def unixToInternal_def)

section \<open>Amounts (\<open>utils.go\<close>)\<close>

text \<open>\<open>ToCoin\<close> and \<open>NewAmount\<close> are functions of \<open>dcrutil\<close>; the error is logged.\<close>

definition AmountCoin :: "(int \<Rightarrow> float64) \<Rightarrow> int \<Rightarrow> float64" where
  "AmountCoin ToCoin amount = ToCoin amount"

definition AmountAtom :: "(float64 \<Rightarrow> int result) \<Rightarrow> float64 \<Rightarrow> int" where
  "AmountAtom NewAmount f = (case NewAmount f of Inl e \<Rightarrow> - 1 | Inr amount \<Rightarrow> amount)"

end
