(* ===== verification/Logging.thy ===== *)
theory Logging
  imports Prelude
begin

text \<open>
  The loggers of \<open>log.go\<close>: a map from subsystem tags to loggers, all writing to standard output and to
  the log rotator, which is nil until it is initialized.  The names of levels are a parameter,
  \<open>level_of\<close>, \<open>slog.LevelFromString\<close>.
\<close>

record 'l logging =
  subsystemLoggers :: "string \<rightharpoonup> 'l"
  logRotator :: "bytes option"
  stdout_log :: bytes

definition subsystems :: "string list" where
  "subsystems = [''DLWL'', ''LODR'', ''WLLT'', ''TKBY'', ''SYNC'', ''GRPC'', ''RPCS'', ''CMGR'', ''AMGR'']"

definition initial_logging :: "'l \<Rightarrow> 'l logging" where
  "initial_logging info = \<lparr>subsystemLoggers = map_of (map (\<lambda>t. (t, info)) subsystems), logRotator = None, stdout_log = []\<rparr>"

text \<open>The rotator holds what was written to the log file; writing to a nil rotator dereferences it.\<close>

definition Write :: "bytes \<Rightarrow> 'l logging \<Rightarrow> 'l logging result" where
  "Write p g =
     (let g1 = g\<lparr>stdout_log := stdout_log g @ p\<rparr> in
      case logRotator g1 of None \<Rightarrow> Inl nil_panic | Some r \<Rightarrow> Inr (g1\<lparr>logRotator := Some (r @ p)\<rparr>))"

definition ErrLogRotatorAlreadyInitialized :: string where "ErrLogRotatorAlreadyInitialized = ''log_rotator_already_initialized''"
definition ErrLoggerAlreadyRegistered :: string where "ErrLoggerAlreadyRegistered = ''logger_already_registered''"

definition RegisterLogger :: "'l \<Rightarrow> string \<Rightarrow> 'l logging \<Rightarrow> 'l logging result" where
  "RegisterLogger info tag g =
     (if logRotator g \<noteq> None then Inl (New ErrLogRotatorAlreadyInitialized)
      else if subsystemLoggers g tag \<noteq> None then Inl (New ErrLoggerAlreadyRegistered)
      else Inr (g\<lparr>subsystemLoggers := (subsystemLoggers g)(tag \<mapsto> info)\<rparr>))"

text \<open>\<open>setLogLevel\<close>: an unknown level defaults to \<open>info\<close>, an unknown subsystem is ignored.\<close>

definition setLogLevel :: "(string \<Rightarrow> 'l option) \<Rightarrow> 'l \<Rightarrow> string \<Rightarrow> string \<Rightarrow> 'l logging \<Rightarrow> 'l logging" where
  "setLogLevel level_of info logLevel subsystemID g =
     (case subsystemLoggers g subsystemID of
        None \<Rightarrow> g
      | Some _ \<Rightarrow> g\<lparr>subsystemLoggers := (subsystemLoggers g)(subsystemID \<mapsto> (case level_of logLevel of None \<Rightarrow> info | Some l \<Rightarrow> l))\<rparr>)"

text \<open>\<open>order\<close> is the iteration over the map.\<close>

definition SetLogLevels :: "(string \<Rightarrow> 'l option) \<Rightarrow> 'l \<Rightarrow> string list \<Rightarrow> string \<Rightarrow> 'l logging \<Rightarrow> 'l logging" where
  "SetLogLevels level_of info order logLevel g =
     (if level_of logLevel = None then g else fold (setLogLevel level_of info logLevel) order g)"

text \<open>
  Messages of the application: \<open>enabled\<close> says whether a logger of that level prints informational
  messages, \<open>line\<close> is the line that \<open>slog\<close> makes of a tag and a message.  \<open>log\<close> is the logger of \<open>DLWL\<close>.
\<close>

definition Log :: "('l \<Rightarrow> bool) \<Rightarrow> (string \<Rightarrow> string \<Rightarrow> bytes) \<Rightarrow> string \<Rightarrow> 'l logging \<Rightarrow> 'l logging result" where
  "Log enabled line m g =
     (case subsystemLoggers g ''DLWL'' of
        None \<Rightarrow> Inr g
      | Some l \<Rightarrow> if enabled l then Write (line ''DLWL'' m) g else Inr g)"

definition LogT :: "('l \<Rightarrow> bool) \<Rightarrow> (string \<Rightarrow> string \<Rightarrow> bytes) \<Rightarrow> string \<Rightarrow> string \<Rightarrow> 'l logging \<Rightarrow> 'l logging result" where
  "LogT enabled line tag m = Log enabled line (tag @ '': '' @ m)"

text \<open>
  The log variables of the packages (\<open>spv/log.go\<close>, \<open>internal/loader/log.go\<close>, and those of the third-party
  packages): the tag of the logger in use, or none while the log is disabled.
\<close>

type_synonym package_logs = "string \<rightharpoonup> string"

definition UseLogger :: "string \<Rightarrow> string \<Rightarrow> package_logs \<Rightarrow> package_logs" where
  "UseLogger package logger v = v(package \<mapsto> logger)"

definition DisableLog :: "string \<Rightarrow> package_logs \<Rightarrow> package_logs" where
  "DisableLog package v = v(package := None)"

definition init_loggers :: "package_logs \<Rightarrow> package_logs" where
  "init_loggers v = fold (\<lambda>(package, logger). UseLogger package logger)
     [(''loader'', ''LODR''), (''wallet'', ''WLLT''), (''udb'', ''WLLT''), (''ticketbuyer'', ''TKBY''), (''spv'', ''SYNC''), (''p2p'', ''SYNC''),
      (''connmgr'', ''CMGR''), (''addrmgr'', ''AMGR'')] v"

section \<open>Properties\<close>

text \<open>
  After the initialization the two packages of the program log to loggers of the map, so \<open>SetLogLevels\<close>
  reaches them; the application cannot take their tags over.
\<close>

theorem packages_log_to_subsystems:
  assumes "subsystemLoggers (initial_logging info) \<subseteq>\<^sub>m subsystemLoggers g" and "package \<in> {''loader'', ''spv''}"
  shows "\<exists>tag. init_loggers v package = Some tag \<and> subsystemLoggers g tag \<noteq> None \<and> (\<exists>e. RegisterLogger new tag g = Inl e)"
proof -
  have "subsystemLoggers (initial_logging info) tag = Some info" if "tag \<in> {''LODR'', ''SYNC''}" for tag
    using that by (auto simp: initial_logging_def subsystems_def)
  with assms(1) have "subsystemLoggers g tag = Some info" if "tag \<in> {''LODR'', ''SYNC''}" for tag
    using that unfolding map_le_def by (metis domI)
  with assms(2) show ?thesis by (auto simp: init_loggers_def UseLogger_def RegisterLogger_def)
qed

lemma setLogLevel_loggers:
  "level_of logLevel = Some l \<Longrightarrow>
   subsystemLoggers (setLogLevel level_of info logLevel t g) = (\<lambda>k. if k = t \<and> subsystemLoggers g k \<noteq> None then Some l else subsystemLoggers g k)"
  by (auto simp: setLogLevel_def fun_eq_iff split: option.splits)

lemma fold_levels:
  "level_of logLevel = Some l \<Longrightarrow>
   subsystemLoggers (fold (setLogLevel level_of info logLevel) ts g) =
     (\<lambda>k. if k \<in> set ts \<and> subsystemLoggers g k \<noteq> None then Some l else subsystemLoggers g k)"
  by (induction ts arbitrary: g) (auto simp: setLogLevel_loggers fun_eq_iff)

text \<open>
  A valid level is set on every logger, those registered by the application included, and no logger
  appears or disappears; an invalid one changes nothing.  Registering a logger leaves the others alone.
\<close>

theorem SetLogLevels_sets_all:
  assumes "set order = dom (subsystemLoggers g)"
  shows "subsystemLoggers (SetLogLevels level_of info order logLevel g) =
    (case level_of logLevel of None \<Rightarrow> subsystemLoggers g | Some l \<Rightarrow> (\<lambda>k. map_option (\<lambda>_. l) (subsystemLoggers g k)))"
  using assms by (auto simp: SetLogLevels_def fold_levels fun_eq_iff dom_def split: option.splits)

theorem RegisterLogger_keeps_loggers:
  assumes "RegisterLogger info tag g = Inr g'"
  shows "subsystemLoggers g \<subseteq>\<^sub>m subsystemLoggers g' \<and> subsystemLoggers g' tag = Some info \<and> logRotator g' = None"
  using assms by (auto simp: RegisterLogger_def map_le_def split: if_splits)

end
