(* ===== verification/Spec2Isabelle.thy ===== *)
theory Spec2Isabelle
  imports TxHelper SpvScan SpvRelay SpvBackend SpvSync SpvPeers SyncControl RescanControl BadgerCursor BadgerSlices BadgerDriver
    TxIndex Queries TxAuthor Config Wallets Loader Lifecycle MwShutdown Notifications Tickets Proposals WordList Entropy Dates Logging
begin

text \<open>
  A verification of \<open>dcrlibwallet\<close>, a Go library that manages several Decred wallets for mobile and
  desktop applications.

  \<^bold>\<open>The program.\<close>  A multi-wallet (\<open>multiwallet.go\<close>) keeps a registry of wallets in a database, a
  configuration, and the state of one sync at a time.  Each wallet (\<open>wallet.go\<close>) has a loader
  (\<open>internal/loader\<close>) that opens its database through a driver (\<open>badgerdb\<close>), and an index of its
  transactions (\<open>txindex\<close>).  An SPV syncer (\<open>spv\<close>) connects to peers, follows the chain, matches
  compact filters and hands relevant blocks and transactions to the wallets; its callbacks
  (\<open>syncnotification.go\<close>) update the sync data and call the listeners of the application.  On
  top are operations on one wallet: accounts, addresses, messages, transactions, tickets; and two HTTP
  clients, for voting service providers and for proposals.  The wallets themselves
  (\<open>dcrwallet\<close>), the stores (\<open>badger\<close>, \<open>storm\<close>, \<open>bolt\<close>), the peer-to-peer layer, cryptography, HTTP and
  JSON are third-party: parameters of the definitions that use them, as records of functions, with
  what the code relies on as the assumptions of a locale or as named hypotheses.  Every locale
  is interpreted on a reference implementation or on the definitions of the model.

  \<^bold>\<open>Conventions\<close> (\<open>Prelude\<close>).  Go's integers are \<^typ>\<open>int\<close> or \<^typ>\<open>nat\<close> with the wrap-around of a conversion or an
  operation written out; an error or a run-time panic is a value of \<^typ>\<open>err\<close>, on the left of a sum; a nil
  pointer or slice is \<^const>\<open>None\<close> where the code can tell; the iteration over a map is over a list in an
  arbitrary order; state is passed explicitly; concurrent code is an \<open>inductive\<close> step relation
  whose reachable states satisfy an invariant.  A loop or a channel that may never return is a
  function into an option, by \<open>partial_function\<close> or by an outer option, and \<^const>\<open>None\<close> is not returning:
  theorems that something returns say \<^const>\<open>Some\<close>.  The one recursion with a bound is the decoding of a
  transaction (\<open>Transactions\<close>), which decodes the ticket that a vote or a revocation spends; two levels
  are enough, as a ticket purchase spends no ticket.

  \<^bold>\<open>Theories and sources.\<close>

    \<^item> \<open>Prelude\<close>, \<open>Wire\<close>, \<open>Float64\<close>, \<open>UrlQuery\<close>: shared vocabulary; blocks and transactions of the wire protocol;
      Go's \<open>float64\<close> with correct rounding; query strings.
    \<^item> \<open>Badger\<close>, \<open>BadgerCursor\<close>, \<open>BadgerSlices\<close>, \<open>BadgerDriver\<close>: \<open>badgerdb/bucket.go\<close>, \<open>db.go\<close> and \<open>driver.go\<close>.  Buckets are
      key prefixes with a length byte; \<open>BadgerSlices\<close> has the same writes with the arrays behind the slices.
      Listing a bucket gives its own entries, reading gives what was written, no operation of a
      reachable state panics, a cursor walk agrees with \<open>ForEach\<close>; two keys can share an array.
    \<^item> \<open>SpvFilter\<close> (\<open>spv/rescan.go\<close>), \<open>SpvScan\<close>, \<open>SpvRelay\<close>, \<open>SpvSync\<close>, \<open>SpvPeers\<close> (\<open>spv/sync.go\<close>), \<open>SpvBackend\<close>
      (\<open>spv/backend.go\<close>): rescanning a block refines the plain notion of a relevant transaction;
      scanning a chain by filters finds what a full rescan finds and returns when the peer
      answers; requests, announcements, headers, startup; connections to peers as transition
      systems, at most 8 of them; the backend's repeated requests and \<open>Rescan\<close>.
    \<^item> \<open>SyncProgress\<close> (\<open>sync.go\<close>, \<open>syncnotification.go\<close>), \<open>SyncControl\<close> (\<open>sync.go\<close>), \<open>RescanControl\<close> (\<open>rescan.go\<close>): the
      callbacks with their estimates; starting, cancelling and restarting a sync, and rescans, as
      transition systems with the invariants that one runs at a time and no callback panics.
    \<^item> \<open>Loader\<close> (\<open>internal/loader/loader.go\<close>): the critical sections of the loader under interleaving.
    \<^item> \<open>Wallets\<close>, \<open>Lifecycle\<close> (\<open>multiwallet.go\<close>, \<open>multiwallet_utils.go\<close>, \<open>wallet.go\<close>, \<open>wallets.go\<close>, \<open>utils/netparams.go\<close>,
      \<open>initLogRotator\<close> of \<open>log.go\<close>): passphrases, seeds, creating, restoring, linking, opening,
      renaming, deleting and shutting down wallets.  In \<open>Lifecycle\<close> an opened wallet is a handle
      on the outside world; in the theories of operations on one wallet it is a state value.
    \<^item> \<open>MwShutdown\<close>: \<open>MultiWallet.Shutdown\<close> as a transition system over the registry, the sync and the
      rescans: the order in which it stops things, and when it can return.
    \<^item> \<open>Config\<close> (\<open>multiwallet_config.go\<close>, \<open>wallet_config.go\<close>), \<open>Utils\<close>, \<open>Entropy\<close> and \<open>Dates\<close> (\<open>utils.go\<close>), \<open>WordList\<close> (\<open>wordlist.go\<close>),
      \<open>Logging\<close> (\<open>log.go\<close> and the packages' \<open>log.go\<close>).  Dates go through the calendar of Go's \<open>time\<close>, which is shown
      to be the Gregorian one.
    \<^item> \<open>TxHelper\<close> (\<open>txhelper\<close>, \<open>addresshelper\<close>), \<open>Transactions\<close> (\<open>decodetx.go\<close>, \<open>txparser.go\<close>), \<open>TxIndex\<close>, \<open>TxDb\<close>,
      \<open>Queries\<close> (\<open>txindex\<close>, \<open>txindex.go\<close>, \<open>transactions.go\<close>), \<open>TxAuthor\<close> (\<open>txauthor.go\<close>), \<open>Notifications\<close>
      (\<open>txandblocknotifications.go\<close>): amounts and directions, decoding, storing and querying, upgrading
      the index, authoring, and the reports to listeners.
    \<^item> \<open>Accounts\<close> (\<open>accounts.go\<close>, \<open>address.go\<close>, \<open>message.go\<close>), \<open>Tickets\<close> (\<open>ticket.go\<close>, \<open>ticketstatus.go\<close>), \<open>Proposals\<close>
      (\<open>proposals.go\<close>): the operations and clients on top.

  The records of \<open>types.go\<close> and the codes of \<open>errors.go\<close> stand with the operations that use them.

  \<^bold>\<open>What the theorems show.\<close>  For each component, an invariant of its state and the effect of its
  operations on every branch.  Where the code goes wrong a theorem says so for the code as it is:
  two rescans or two connections to one address at once, a cancellation or a shutdown that
  never returns, a repeated request that panics, fees that are checked and dropped.

  \<^bold>\<open>Granularity and limits.\<close>  A critical section of a mutex, with the callbacks in it, is one step of a
  transition system; so are \<open>SpvSync\<close>, \<open>peerCandidate\<close> and the handler of a received message, and the latter
  is not cancelled half-way.  LRU caches are parameters, or lists that forget nothing.  After an
  error of \<open>scanChain\<close> the extensions of the filters made before it are not described.
  Floating-point expressions are evaluated without fused operations, and the conversion of an
  out-of-range number to an integer is a parameter, as Go leaves both open.
  Letters are compared without case in ASCII only.

  \<^bold>\<open>Not modelled.\<close>  The log lines that operations write; records of \<open>types.go\<close> that no operation uses;
  the garbage collection of the badger store.  Parameters stand for scrypt and \<open>nacl\<close>, \<open>dcrutil\<close>'s amounts,
  the walk over a directory and the format of a log line.  During \<open>MultiWallet.Shutdown\<close> the application
  is taken to make no other call.
\<close>

end
